(* ===== verification/Go_Prelude.thy ===== *)
theory Go_Prelude
  imports Main "HOL-Library.Sublist"
begin

text \<open>
  What the components share: the collections their automation uses, the shape of the results of a
  Go function that threads state, and the order \<open>ages\<close> on volatile stores (a key with a
  time-to-live may vanish at any moment, a persistent key may not), with the lemmas that carry the
  proofs about the Redis keyspace.
\<close>

named_theorems go_flow
  "definitions of the request flows, unfolded by a case analysis of one call"

named_theorems go_env
  "definitions of the reference services, unfolded to evaluate a concrete run"

section \<open>Results of Go functions\<close>

text \<open>
  A Go function that returns \<^verbatim>\<open>(T, error)\<close> and acts on a state is a function into
  \<open>('e + 'a) \<times> 's\<close>: \<open>Inl\<close> is the non-nil error (the code then returns the zero value of
  \<^verbatim>\<open>T\<close>), \<open>Inr\<close> the value with a nil error. A function that returns only
  \<^verbatim>\<open>error\<close> gives an \<open>option\<close>: \<open>None\<close> is the nil error.
\<close>

definition is_Inr :: "'e + 'a \<Rightarrow> bool" where
  "is_Inr r = (case r of Inl _ \<Rightarrow> False | Inr _ \<Rightarrow> True)"

lemma is_Inr_simps [simp]: "is_Inr (Inr v)" "\<not> is_Inr (Inl x)"
  by (simp_all add: is_Inr_def)

lemma case_sum_eqs [simp]:
  "(Inr v = (case q of Inl x \<Rightarrow> Inl (f x) | Inr u \<Rightarrow> Inr u)) \<longleftrightarrow> q = Inr v"
  "(Inl y = (case q of Inl x \<Rightarrow> Inl (f x) | Inr u \<Rightarrow> Inr u)) \<longleftrightarrow> (\<exists>x. q = Inl x \<and> y = f x)"
  by (cases q; auto)+

section \<open>Volatile stores\<close>

text \<open>
  A store maps a key to a payload and the time-to-live last given to the key (\<open>None\<close>: the key is
  persistent). \<open>ages m m'\<close>: \<open>m'\<close> is \<open>m\<close> some time later with no command in between.
\<close>

definition ages :: "('k \<Rightarrow> ('v \<times> 't option) option) \<Rightarrow> ('k \<Rightarrow> ('v \<times> 't option) option) \<Rightarrow> bool" where
  "ages m m' \<longleftrightarrow> (\<forall>k. m' k = m k \<or> (m' k = None \<and> (\<exists>v t. m k = Some (v, Some t))))"

lemma ages_refl [simp, intro]: "ages m m"
  by (simp add: ages_def)

lemma ages_trans [trans]: "ages m m' \<Longrightarrow> ages m' m'' \<Longrightarrow> ages m m''"
  unfolding ages_def by metis

lemma ages_None: "ages m m' \<Longrightarrow> m k = None \<Longrightarrow> m' k = None"
  by (metis ages_def option.distinct(1))

lemma ages_Some: "ages m m' \<Longrightarrow> m' k = Some e \<Longrightarrow> m k = Some e"
  by (metis ages_def option.distinct(1))

lemma ages_persistent: "ages m m' \<Longrightarrow> m k = Some (v, None) \<Longrightarrow> m' k = Some (v, None)"
  unfolding ages_def by (metis Pair_inject option.distinct(1) option.inject)

lemma ages_cases:
  assumes "ages m m'"
  obtains "m' k = m k" | v t where "m k = Some (v, Some t)" and "m' k = None"
  using assms unfolding ages_def by metis

lemma ages_upd: "ages m m' \<Longrightarrow> ages (m(k := x)) (m'(k := x))"
  by (simp add: ages_def)

section \<open>Lists and strings\<close>

lemma append_eq_prefix_conflict:
  assumes "p @ x = q @ y" and "length p \<le> length q"
  shows "take (length p) q = p"
proof -
  have "take (length p) (p @ x) = take (length p) (q @ y)"
    using assms(1) by simp
  with assms(2) show ?thesis by simp
qed

lemma find_Some_iff_ex: "(\<exists>x. List.find P xs = Some x) \<longleftrightarrow> (\<exists>x\<in>set xs. P x)"
  by (metis find_None_iff not_None_eq)

lemma find_SomeD: "List.find P xs = Some x \<Longrightarrow> x \<in> set xs \<and> P x"
  by (auto simp: find_Some_iff)

end
