(* ===== verification/App_Error.thy ===== *)
theory App_Error
  imports Go_Prelude
begin

text \<open>
  The error values of the program. \<^verbatim>\<open>internal/apperror/error.go\<close> (the typed
  envelope \<^verbatim>\<open>DomainError\<close> and its constructors), the sentinel errors the packages declare,
  and the parts of Go's \<^verbatim>\<open>errors\<close> and \<^verbatim>\<open>fmt\<close> packages the code relies on:
  wrapping with \<^verbatim>\<open>%w\<close>, \<^verbatim>\<open>errors.Is\<close> and \<^verbatim>\<open>errors.As\<close>.
\<close>

datatype ErrorType =
    ErrTypeInternal
  | ErrTypeNotFound
  | ErrTypeUnauthorized
  | ErrTypeForbidden
  | ErrTypeConflict
  | ErrTypeBadRequest

text \<open>
  Sentinels are compared by identity, so each is a constructor of its own and never equal to
  another error with the same text. \<open>ErrNoRows\<close> is \<^verbatim>\<open>database/sql\<close>'s.
\<close>

datatype sentinel =
    ErrEmptyUsername
  | ErrEmptyEmail
  | ErrInvalidEmail
  | ErrEmptyPassword
  | ErrNoRows
  | ErrInvalidToken
  | ErrWrongTokenKind
  | ErrQueueFull
  | ErrNotAuthenticated

datatype FieldError = FieldError (feField: string) (feTag: string) (feMessage: string)

text \<open>
  \<open>WrapError pre e post\<close> is \<^verbatim>\<open>fmt.Errorf\<close> with one \<^verbatim>\<open>%w\<close> verb for \<open>e\<close> between the texts
  \<open>pre\<close> and \<open>post\<close>; \<open>ErrorString\<close> is an error with no cause (\<^verbatim>\<open>errors.New\<close>,
  \<^verbatim>\<open>fmt.Errorf\<close> without \<^verbatim>\<open>%w\<close>, or an opaque error of a library); \<open>PqError\<close> is the driver's
  \<^verbatim>\<open>*pq.Error\<close> with its SQLSTATE code.
\<close>

datatype goerr =
    DomainError ErrorType string "goerr option"
  | Sentinel sentinel
  | ErrorString string
  | WrapError string goerr string
  | PqError string string
  | ValidationErrors "FieldError list"

type_synonym ('s, 'a) go = "'s \<Rightarrow> (goerr + 'a) \<times> 's"
type_synonym 's go_err = "'s \<Rightarrow> goerr option \<times> 's"

fun sentinel_text :: "sentinel \<Rightarrow> string" where
  "sentinel_text ErrEmptyUsername = ''username cannot be empty''"
| "sentinel_text ErrEmptyEmail = ''email cannot be empty''"
| "sentinel_text ErrInvalidEmail = ''email format is invalid''"
| "sentinel_text ErrEmptyPassword = ''password cannot be empty''"
| "sentinel_text ErrNoRows = ''sql: no rows in result set''"
| "sentinel_text ErrInvalidToken = ''token is not valid''"
| "sentinel_text ErrWrongTokenKind = ''token kind mismatch''"
| "sentinel_text ErrQueueFull = ''otp mailer queue is full''"
| "sentinel_text ErrNotAuthenticated = ''request is not authenticated''"

fun join_with :: "string \<Rightarrow> string list \<Rightarrow> string" where
  "join_with sep [] = ''''"
| "join_with sep [x] = x"
| "join_with sep (x # y # xs) = x @ sep @ join_with sep (y # xs)"

text \<open>\<^verbatim>\<open>(*ValidationErrors).Error\<close> of \<^verbatim>\<open>pkg/validators\<close>.\<close>

definition ValidationErrors_Error :: "FieldError list \<Rightarrow> string" where
  "ValidationErrors_Error es =
     (if es = [] then ''validation failed''
      else join_with ''; '' (map (\<lambda>e. feField e @ '': '' @ feMessage e) es))"

fun Error :: "goerr \<Rightarrow> string" where
  "Error (DomainError ty msg cause) = msg"
| "Error (Sentinel s) = sentinel_text s"
| "Error (ErrorString msg) = msg"
| "Error (WrapError pre e post) = pre @ Error e @ post"
| "Error (PqError code msg) = ''pq: '' @ msg"
| "Error (ValidationErrors es) = ValidationErrors_Error es"

fun Unwrap :: "goerr \<Rightarrow> goerr option" where
  "Unwrap (DomainError ty msg cause) = cause"
| "Unwrap (WrapError pre e post) = Some e"
| "Unwrap _ = None"

text \<open>The error and its causes, outermost first: what \<^verbatim>\<open>errors.Is\<close> and \<^verbatim>\<open>errors.As\<close> visit.\<close>

fun unwrap_chain :: "goerr \<Rightarrow> goerr list" where
  "unwrap_chain (DomainError ty msg (Some c)) = DomainError ty msg (Some c) # unwrap_chain c"
| "unwrap_chain (WrapError pre e post) = WrapError pre e post # unwrap_chain e"
| "unwrap_chain e = [e]"

definition errors_Is :: "goerr \<Rightarrow> sentinel \<Rightarrow> bool" where
  "errors_Is e s \<longleftrightarrow> Sentinel s \<in> set (unwrap_chain e)"

fun is_DomainError :: "goerr \<Rightarrow> bool" where
  "is_DomainError (DomainError ty msg cause) = True"
| "is_DomainError _ = False"

fun is_PqError :: "goerr \<Rightarrow> bool" where
  "is_PqError (PqError code msg) = True"
| "is_PqError _ = False"

fun is_ValidationErrors :: "goerr \<Rightarrow> bool" where
  "is_ValidationErrors (ValidationErrors es) = True"
| "is_ValidationErrors _ = False"

definition errors_As_DomainError :: "goerr \<Rightarrow> goerr option" where
  "errors_As_DomainError e = List.find is_DomainError (unwrap_chain e)"

definition errors_As_PqError :: "goerr \<Rightarrow> goerr option" where
  "errors_As_PqError e = List.find is_PqError (unwrap_chain e)"

definition errors_As_ValidationErrors :: "goerr \<Rightarrow> goerr option" where
  "errors_As_ValidationErrors e = List.find is_ValidationErrors (unwrap_chain e)"

section \<open>apperror\<close>

definition New :: "ErrorType \<Rightarrow> string \<Rightarrow> goerr" where
  "New ty msg = DomainError ty msg None"

text \<open>\<^verbatim>\<open>Wrap\<close> on a nil pointer gives nil; the pointer is the option.\<close>

fun Wrap :: "goerr option \<Rightarrow> goerr option \<Rightarrow> goerr option" where
  "Wrap None cause = None"
| "Wrap (Some (DomainError ty msg c)) cause = Some (DomainError ty msg cause)"
| "Wrap (Some e) cause = Some e"

definition NotFound :: "string \<Rightarrow> goerr" where
  "NotFound msg = New ErrTypeNotFound msg"

definition Unauthorized :: "string \<Rightarrow> goerr" where
  "Unauthorized msg = New ErrTypeUnauthorized msg"

definition Forbidden :: "string \<Rightarrow> goerr" where
  "Forbidden msg = New ErrTypeForbidden msg"

definition Conflict :: "string \<Rightarrow> goerr" where
  "Conflict msg = New ErrTypeConflict msg"

definition BadRequest :: "string \<Rightarrow> goerr" where
  "BadRequest msg = New ErrTypeBadRequest msg"

definition Internal :: "string \<Rightarrow> goerr" where
  "Internal msg = New ErrTypeInternal msg"

definition InternalCause :: "goerr \<Rightarrow> goerr" where
  "InternalCause cause = DomainError ErrTypeInternal ''internal server error'' (Some cause)"

text \<open>\<^verbatim>\<open>fmt.Errorf("op: %w", err)\<close>, the one wrapping form of the use cases.\<close>

definition errorf_w :: "string \<Rightarrow> goerr \<Rightarrow> goerr" where
  "errorf_w op e = WrapError (op @ '': '') e ''''"

lemmas apperror_defs =
  New_def NotFound_def Unauthorized_def Forbidden_def Conflict_def BadRequest_def
  Internal_def InternalCause_def

text \<open>The category of the first \<^verbatim>\<open>DomainError\<close> of the chain, as a caller of
  \<^verbatim>\<open>errors.As\<close> reads it.\<close>

definition domain_type :: "goerr \<Rightarrow> ErrorType option" where
  "domain_type e =
     (case errors_As_DomainError e of
        Some (DomainError ty msg c) \<Rightarrow> Some ty
      | _ \<Rightarrow> None)"

lemma unwrap_chain_hd [simp]: "\<exists>xs. unwrap_chain e = e # xs"
  by (induction e rule: unwrap_chain.induct) auto

lemma unwrap_chain_DomainError: "\<exists>xs. unwrap_chain (DomainError ty msg c) = DomainError ty msg c # xs"
  by (cases c) auto

lemma domain_type_DomainError [simp]: "domain_type (DomainError ty msg c) = Some ty"
  by (cases c) (simp_all add: domain_type_def errors_As_DomainError_def)

lemma as_DomainError_self [simp]:
  "errors_As_DomainError (DomainError ty msg c) = Some (DomainError ty msg c)"
  by (cases c) (simp_all add: errors_As_DomainError_def)

lemma as_DomainError_is: "errors_As_DomainError e = Some d \<Longrightarrow> is_DomainError d"
  by (auto simp: errors_As_DomainError_def dest: find_SomeD)

lemma errors_Is_Sentinel [simp]: "errors_Is (Sentinel s) t \<longleftrightarrow> s = t"
  by (auto simp: errors_Is_def)

end
