(* ===== verification/Go_Lib.thy ===== *)
theory Go_Lib
  imports App_Error "HOL-Library.Word"
begin

text \<open>
  The parts of Go's language and standard library the program uses, over byte strings
  (\<open>string\<close> is a list of bytes, as a Go string is): \<^verbatim>\<open>strings.TrimSpace\<close>,
  \<^verbatim>\<open>strings.ToLower\<close>, \<^verbatim>\<open>strings.Split\<close>, decimal conversions of
  \<^verbatim>\<open>fmt\<close> and \<^verbatim>\<open>strconv\<close>, \<^verbatim>\<open>encoding/json\<close> on strings, 64-bit
  integers, and instants (\<open>int\<close>, nanoseconds since the Unix epoch).
\<close>

section \<open>Bytes\<close>

definition byte_val :: "char \<Rightarrow> nat" where
  "byte_val c = of_char c"

lemma byte_val_less [simp]: "byte_val c < 256"
  by (simp add: byte_val_def)

lemma byte_val_inject [simp]: "byte_val c = byte_val d \<longleftrightarrow> c = d"
  by (simp add: byte_val_def)

lemma byte_val_char_of [simp]: "byte_val (char_of n) = n mod 256"
  for n :: nat by (simp add: byte_val_def)

lemma char_of_byte_val [simp]: "char_of (byte_val c) = c"
  by (simp add: byte_val_def)

definition is_ascii :: "char \<Rightarrow> bool" where
  "is_ascii c \<longleftrightarrow> byte_val c < 128"

abbreviation ascii :: "string \<Rightarrow> bool" where
  "ascii s \<equiv> list_all is_ascii s"

section \<open>strings\<close>

text \<open>
  \<^verbatim>\<open>unicode.IsSpace\<close> holds for 25 code points. Each is given by its UTF-8 bytes; a string
  starts (ends) with a space rune exactly if it starts (ends) with one of these sequences.
\<close>

definition space_runes :: "string list" where
  "space_runes =
     [[CHR 0x09], [CHR 0x0A], [CHR 0x0B], [CHR 0x0C], [CHR 0x0D], [CHR 0x20],
      [CHR 0xC2, CHR 0x85], [CHR 0xC2, CHR 0xA0], [CHR 0xE1, CHR 0x9A, CHR 0x80],
      [CHR 0xE2, CHR 0x80, CHR 0x80], [CHR 0xE2, CHR 0x80, CHR 0x81],
      [CHR 0xE2, CHR 0x80, CHR 0x82], [CHR 0xE2, CHR 0x80, CHR 0x83],
      [CHR 0xE2, CHR 0x80, CHR 0x84], [CHR 0xE2, CHR 0x80, CHR 0x85],
      [CHR 0xE2, CHR 0x80, CHR 0x86], [CHR 0xE2, CHR 0x80, CHR 0x87],
      [CHR 0xE2, CHR 0x80, CHR 0x88], [CHR 0xE2, CHR 0x80, CHR 0x89],
      [CHR 0xE2, CHR 0x80, CHR 0x8A], [CHR 0xE2, CHR 0x80, CHR 0xA8],
      [CHR 0xE2, CHR 0x80, CHR 0xA9], [CHR 0xE2, CHR 0x80, CHR 0xAF],
      [CHR 0xE2, CHR 0x81, CHR 0x9F], [CHR 0xE3, CHR 0x80, CHR 0x80]]"

fun starts_with :: "string \<Rightarrow> string \<Rightarrow> bool" where
  "starts_with [] s = True"
| "starts_with (p # ps) [] = False"
| "starts_with (p # ps) (c # s) = (p = c \<and> starts_with ps s)"

function trim_with :: "string list \<Rightarrow> string \<Rightarrow> string" where
  "trim_with seqs s =
     (case List.find (\<lambda>p. p \<noteq> [] \<and> starts_with p s) seqs of
        None \<Rightarrow> s
      | Some p \<Rightarrow> trim_with seqs (drop (length p) s))"
  by pat_completeness auto

lemma starts_with_length: "starts_with p s \<Longrightarrow> length p \<le> length s"
  by (induction p s rule: starts_with.induct) auto

lemma starts_with_iff: "starts_with p s \<longleftrightarrow> (\<exists>t. s = p @ t)"
  by (induction p s rule: starts_with.induct) auto

termination trim_with
proof (relation "measure (\<lambda>(seqs, s). length s)", goal_cases)
  case (2 seqs s p)
  then have "p \<noteq> []" and "starts_with p s" by (auto dest: find_SomeD)
  then show ?case using starts_with_length [of p s] by (cases p) auto
qed simp

declare trim_with.simps [simp del]

definition strings_TrimSpace :: "string \<Rightarrow> string" where
  "strings_TrimSpace s =
     rev (trim_with (map rev space_runes) (rev (trim_with space_runes s)))"

definition byte_to_lower :: "char \<Rightarrow> char" where
  "byte_to_lower c =
     (if 65 \<le> byte_val c \<and> byte_val c \<le> 90 then char_of (byte_val c + 32) else c)"

text \<open>
  \<^verbatim>\<open>strings.ToLower\<close> lowers an all-ASCII string bytewise and maps any other string through the
  Unicode tables; the tables are the parameter \<open>ml\<close>.
\<close>

definition strings_ToLower :: "(string \<Rightarrow> string) \<Rightarrow> string \<Rightarrow> string" where
  "strings_ToLower ml s = (if ascii s then map byte_to_lower s else ml s)"

text \<open>\<^verbatim>\<open>strings.Split\<close> with a separator of one byte: the maximal pieces between separators, at
  least one piece.\<close>

fun strings_Split :: "string \<Rightarrow> char \<Rightarrow> string list" where
  "strings_Split [] sep = [[]]"
| "strings_Split (c # s) sep =
     (if c = sep then [] # strings_Split s sep
      else (case strings_Split s sep of [] \<Rightarrow> [[c]] | p # ps \<Rightarrow> (c # p) # ps))"

lemma strings_Split_nonempty [simp]: "strings_Split s sep \<noteq> []"
  by (induction s) (auto split: list.splits)

lemma strings_Split_join: "join_with [sep] (strings_Split s sep) = s"
proof (induction s)
  case (Cons c s)
  then show ?case
    by (cases "strings_Split s sep"; cases "tl (strings_Split s sep)") auto
qed simp

lemma strings_Split_no_sep: "p \<in> set (strings_Split s sep) \<Longrightarrow> sep \<notin> set p"
proof (induction s arbitrary: p)
  case (Cons c s)
  then show ?case
    by (cases "strings_Split s sep") (auto split: if_splits)
qed simp

lemma trim_with_unfold:
  "trim_with seqs s =
     (case List.find (\<lambda>p. p \<noteq> [] \<and> starts_with p s) seqs of
        None \<Rightarrow> s
      | Some p \<Rightarrow> trim_with seqs (drop (length p) s))"
  by (subst trim_with.simps) simp

lemma trim_with_fixed: "List.find (\<lambda>p. p \<noteq> [] \<and> starts_with p (trim_with seqs s)) seqs = None"
proof (induction seqs s rule: trim_with.induct)
  case (1 seqs s)
  then show ?case
    by (cases "List.find (\<lambda>p. p \<noteq> [] \<and> starts_with p s) seqs")
       (simp_all add: trim_with_unfold [of seqs s])
qed

lemma trim_with_idem [simp]: "trim_with seqs (trim_with seqs s) = trim_with seqs s"
  by (subst trim_with_unfold) (simp add: trim_with_fixed)

lemma trim_with_suffix: "\<exists>p. s = p @ trim_with seqs s"
proof (induction seqs s rule: trim_with.induct)
  case (1 seqs s)
  show ?case
  proof (cases "List.find (\<lambda>p. p \<noteq> [] \<and> starts_with p s) seqs")
    case None
    then show ?thesis by (simp add: trim_with_unfold [of seqs s])
  next
    case (Some p)
    then obtain q where "drop (length p) s = q @ trim_with seqs (drop (length p) s)"
      using "1.IH" by blast
    then have "s = (take (length p) s @ q) @ trim_with seqs (drop (length p) s)"
      by (metis append.assoc append_take_drop_id)
    moreover have "trim_with seqs s = trim_with seqs (drop (length p) s)"
      using Some by (simp add: trim_with_unfold [of seqs s])
    ultimately show ?thesis by metis
  qed
qed

lemma trim_with_stops:
  "(\<And>p. p \<in> set seqs \<Longrightarrow> p \<noteq> [] \<Longrightarrow> \<not> starts_with p s) \<Longrightarrow> trim_with seqs s = s"
  by (subst trim_with_unfold) (auto simp: find_None_iff split: option.split dest: find_SomeD)

lemma trim_with_not_start:
  "p \<in> set seqs \<Longrightarrow> p \<noteq> [] \<Longrightarrow> \<not> starts_with p (trim_with seqs s)"
  using trim_with_fixed [of seqs s] by (auto simp: find_None_iff)

lemma starts_with_append: "starts_with p s \<Longrightarrow> starts_with p (s @ t)"
  by (auto simp: starts_with_iff)

text \<open>Trimming the right end leaves the left end trimmed, so trimming is idempotent.\<close>

lemma TrimSpace_idem [simp]: "strings_TrimSpace (strings_TrimSpace s) = strings_TrimSpace s"
proof -
  define l where "l = trim_with space_runes s"
  define r where "r = trim_with (map rev space_runes) (rev l)"
  obtain q where "rev l = q @ r"
    unfolding r_def using trim_with_suffix by blast
  then have l: "l = rev r @ rev q" by (metis rev_append rev_rev_ident)
  have "trim_with space_runes (rev r) = rev r"
  proof (rule trim_with_stops)
    fix p assume "p \<in> set space_runes" and "p \<noteq> []"
    then have "\<not> starts_with p l" unfolding l_def by (rule trim_with_not_start)
    then show "\<not> starts_with p (rev r)" using l starts_with_append by metis
  qed
  then show ?thesis
    by (simp add: strings_TrimSpace_def r_def [symmetric] l_def [symmetric])
       (simp add: r_def)
qed

lemma trim_with_subset: "set (trim_with seqs s) \<subseteq> set s"
  using trim_with_suffix [of s seqs] by (metis Un_iff set_append subsetI)

lemma TrimSpace_subset: "set (strings_TrimSpace s) \<subseteq> set s"
proof -
  have "set (strings_TrimSpace s) \<subseteq> set (rev (trim_with space_runes s))"
    using trim_with_subset [of "map rev space_runes" "rev (trim_with space_runes s)"]
    by (simp add: strings_TrimSpace_def)
  also have "\<dots> \<subseteq> set s" using trim_with_subset by simp
  finally show ?thesis .
qed

lemma TrimSpace_ascii: "ascii s \<Longrightarrow> ascii (strings_TrimSpace s)"
  using TrimSpace_subset [of s] by (auto simp: list_all_iff)

lemma byte_to_lower_ascii: "is_ascii c \<Longrightarrow> is_ascii (byte_to_lower c)"
  by (auto simp: is_ascii_def byte_to_lower_def)

lemma byte_to_lower_idem [simp]: "byte_to_lower (byte_to_lower c) = byte_to_lower c"
  by (auto simp: byte_to_lower_def)

lemma ToLower_ascii: "ascii s \<Longrightarrow> ascii (strings_ToLower ml s)"
  by (simp add: strings_ToLower_def list_all_iff byte_to_lower_ascii)

lemma ToLower_idem: "ascii s \<Longrightarrow> strings_ToLower ml (strings_ToLower ml s) = strings_ToLower ml s"
  using ToLower_ascii [of s ml] by (simp add: strings_ToLower_def)

text \<open>Lowering a byte neither makes nor removes a space, so lowering and trimming commute.\<close>

lemma byte_val_lower: "byte_val (byte_to_lower c) =
    (if 65 \<le> byte_val c \<and> byte_val c \<le> 90 then byte_val c + 32 else byte_val c)"
  by (simp add: byte_to_lower_def)

lemma byte_to_lower_eq_iff:
  assumes "byte_val d < 65 \<or> 122 < byte_val d"
  shows "byte_to_lower c = d \<longleftrightarrow> c = d"
proof (cases "65 \<le> byte_val c \<and> byte_val c \<le> 90")
  case True
  then have "byte_val (byte_to_lower c) = byte_val c + 32" by (simp add: byte_val_lower)
  with True assms have "byte_val (byte_to_lower c) \<noteq> byte_val d" and "byte_val c \<noteq> byte_val d"
    by linarith+
  then show ?thesis by (metis byte_val_inject)
next
  case False
  then show ?thesis by (auto simp: byte_to_lower_def)
qed

lemma space_runes_bytes: "\<forall>p\<in>set space_runes. \<forall>d\<in>set p. byte_val d < 65 \<or> 122 < byte_val d"
  by (simp add: space_runes_def byte_val_def)

lemma starts_with_lower:
  "\<forall>d\<in>set p. byte_val d < 65 \<or> 122 < byte_val d \<Longrightarrow>
   starts_with p (map byte_to_lower s) = starts_with p s"
proof (induction p s rule: starts_with.induct)
  case (3 p ps c s)
  then show ?case using byte_to_lower_eq_iff [of p c] by auto
qed simp_all

lemma trim_with_lower:
  assumes "\<forall>p\<in>set seqs. \<forall>d\<in>set p. byte_val d < 65 \<or> 122 < byte_val d"
  shows "trim_with seqs (map byte_to_lower s) = map byte_to_lower (trim_with seqs s)"
  using assms
proof (induction seqs s rule: trim_with.induct)
  case (1 seqs s)
  have eq: "List.find (\<lambda>p. p \<noteq> [] \<and> starts_with p (map byte_to_lower s)) seqs =
            List.find (\<lambda>p. p \<noteq> [] \<and> starts_with p s) seqs"
    using "1.prems" by (intro find_cong refl) (auto simp: starts_with_lower)
  show ?case
    by (subst (1 2) trim_with_unfold, subst eq)
       (use 1 in \<open>auto split: option.split simp: drop_map\<close>)
qed

lemma TrimSpace_lower:
  "strings_TrimSpace (map byte_to_lower s) = map byte_to_lower (strings_TrimSpace s)"
proof -
  have "\<forall>p\<in>set (map rev space_runes). \<forall>d\<in>set p. byte_val d < 65 \<or> 122 < byte_val d"
    using space_runes_bytes by auto
  then show ?thesis
    by (simp add: strings_TrimSpace_def trim_with_lower space_runes_bytes rev_map del: set_map)
qed

section \<open>Integers and decimal text\<close>

text \<open>A Go \<^verbatim>\<open>int\<close> or \<^verbatim>\<open>int64\<close> result is the mathematical result reduced to 64 bits,
  two's complement.\<close>

definition wrap64 :: "int \<Rightarrow> int" where
  "wrap64 n = signed_take_bit 63 n"

definition in_int64 :: "int \<Rightarrow> bool" where
  "in_int64 n \<longleftrightarrow> - (2 ^ 63) \<le> n \<and> n < 2 ^ 63"

lemma wrap64_in_range [simp]: "in_int64 (wrap64 n)"
  using signed_take_bit_int_greater_eq_minus_exp [of 63 n] signed_take_bit_int_less_exp [of 63 n]
  by (simp add: wrap64_def in_int64_def)

lemma wrap64_id: "in_int64 n \<Longrightarrow> wrap64 n = n"
  by (simp add: wrap64_def in_int64_def signed_take_bit_int_eq_self_iff)

definition digit_char :: "nat \<Rightarrow> char" where
  "digit_char d = char_of (48 + d)"

definition is_digit :: "char \<Rightarrow> bool" where
  "is_digit c \<longleftrightarrow> 48 \<le> byte_val c \<and> byte_val c \<le> 57"

fun nat_to_dec :: "nat \<Rightarrow> string" where
  "nat_to_dec n = (if n < 10 then [digit_char n] else nat_to_dec (n div 10) @ [digit_char (n mod 10)])"

declare nat_to_dec.simps [simp del]

text \<open>\<^verbatim>\<open>strconv.Itoa\<close>, and \<^verbatim>\<open>fmt.Sprintf("%d", n)\<close>.\<close>

definition Itoa :: "int \<Rightarrow> string" where
  "Itoa n = (if n < 0 then CHR ''-'' # nat_to_dec (nat (- n)) else nat_to_dec (nat n))"

fun dec_val :: "nat \<Rightarrow> string \<Rightarrow> nat option" where
  "dec_val acc [] = Some acc"
| "dec_val acc (c # s) =
     (if is_digit c then dec_val (10 * acc + (byte_val c - 48)) s else None)"

text \<open>\<^verbatim>\<open>strconv.ParseInt(s, 10, 64)\<close>: \<open>None\<close> stands for a syntax or range error.\<close>

definition ParseInt64 :: "string \<Rightarrow> int option" where
  "ParseInt64 s =
     (let (neg, ds) = (case s of
            [] \<Rightarrow> (False, [])
          | c # r \<Rightarrow> if c = CHR ''-'' then (True, r) else if c = CHR ''+'' then (False, r) else (False, s))
      in if ds = [] then None
         else case dec_val 0 ds of
                None \<Rightarrow> None
              | Some n \<Rightarrow> (let v = (if neg then - int n else int n)
                            in if in_int64 v then Some v else None))"

lemma is_digit_digit_char [simp]: "d < 10 \<Longrightarrow> is_digit (digit_char d)"
  by (simp add: is_digit_def digit_char_def)

lemma byte_val_digit_char [simp]: "d < 10 \<Longrightarrow> byte_val (digit_char d) = 48 + d"
  by (simp add: digit_char_def)

lemma nat_to_dec_nonempty [simp]: "nat_to_dec n \<noteq> []"
  by (subst nat_to_dec.simps) simp

lemma nat_to_dec_digits: "\<forall>c\<in>set (nat_to_dec n). is_digit c"
proof (induction n rule: nat_to_dec.induct)
  case (1 n)
  show ?case
  proof (cases "n < 10")
    case True
    then show ?thesis by (subst nat_to_dec.simps) simp
  next
    case False
    with 1 have "\<forall>c\<in>set (nat_to_dec (n div 10)). is_digit c" by simp
    with False show ?thesis by (subst nat_to_dec.simps) auto
  qed
qed

lemma dec_val_append:
  "\<forall>c\<in>set s. is_digit c \<Longrightarrow> dec_val acc (s @ t) = dec_val (the (dec_val acc s)) t"
  by (induction s arbitrary: acc) auto

lemma dec_val_total: "\<forall>c\<in>set s. is_digit c \<Longrightarrow> \<exists>n. dec_val acc s = Some n"
  by (induction s arbitrary: acc) auto

lemma dec_val_nat_to_dec [simp]: "dec_val 0 (nat_to_dec n) = Some n"
proof (induction n rule: nat_to_dec.induct)
  case (1 n)
  show ?case
  proof (cases "n < 10")
    case True
    then show ?thesis by (subst nat_to_dec.simps) simp
  next
    case False
    with 1 have "dec_val 0 (nat_to_dec (n div 10)) = Some (n div 10)" by simp
    then have "dec_val 0 (nat_to_dec (n div 10) @ [digit_char (n mod 10)]) = Some n"
      by (simp add: dec_val_append nat_to_dec_digits)
    with False show ?thesis by (subst nat_to_dec.simps) simp
  qed
qed

lemma nat_to_dec_Cons: "\<exists>c s. nat_to_dec n = c # s \<and> is_digit c"
  using nat_to_dec_nonempty nat_to_dec_digits by (metis list.exhaust list.set_intros(1))

lemma not_digit_sign [simp]: "\<not> is_digit CHR ''-''" "\<not> is_digit CHR ''+''"
  by (simp_all add: is_digit_def byte_val_def)

lemma ParseInt64_Itoa:
  assumes "in_int64 n"
  shows "ParseInt64 (Itoa n) = Some n"
proof (cases "n < 0")
  case True
  with assms show ?thesis by (simp add: ParseInt64_def Itoa_def)
next
  case False
  obtain c s where cs: "nat_to_dec (nat n) = c # s" and "is_digit c"
    using nat_to_dec_Cons by blast
  then have "c \<noteq> CHR ''-''" and "c \<noteq> CHR ''+''"
    using not_digit_sign by metis+
  moreover have "dec_val 0 (c # s) = Some (nat n)"
    using dec_val_nat_to_dec [of "nat n"] cs by simp
  ultimately show ?thesis
    using False assms cs by (simp add: ParseInt64_def Itoa_def del: dec_val.simps)
qed

lemma Itoa_nonempty [simp]: "Itoa n \<noteq> []"
  by (simp add: Itoa_def)

section \<open>Instants and durations\<close>

type_synonym time = int
type_synonym duration = int

definition Second :: duration where "Second = 1000000000"
definition Minute :: duration where "Minute = 60 * Second"
definition Hour :: duration where "Hour = 60 * Minute"

text \<open>\<^verbatim>\<open>time.Time{}\<close> is January 1 of year 1, 00:00:00 UTC.\<close>

definition zero_time :: time where
  "zero_time = - 62135596800 * Second"

definition time_IsZero :: "time \<Rightarrow> bool" where
  "time_IsZero t \<longleftrightarrow> t = zero_time"

text \<open>\<^verbatim>\<open>t.Unix()\<close>: whole seconds, rounded down.\<close>

definition time_Unix :: "time \<Rightarrow> int" where
  "time_Unix t = t div Second"

lemmas duration_defs = Second_def Minute_def Hour_def

end
