(* ===== verification/Go_Env.thy ===== *)
theory Go_Env
  imports Go_Lib
begin

text \<open>
  What the program asks of its surroundings: the clock, the random source, and the packages
  whose code is not part of the repository (\<^verbatim>\<open>golang.org/x/crypto/bcrypt\<close>,
  \<^verbatim>\<open>github.com/google/uuid\<close>, the Prometheus client) or is a large table or grammar of the
  standard library (Unicode case tables, the RFC 5322 address parser). All of them are the fields
  of one record, an argument of every definition that uses them; \<open>'e\<close> is the state behind them.
  The locale \<open>bcrypt_lib\<close> states the documented behaviour of bcrypt that the program relies on.
  The end of the theory has a reference environment, a concrete record for evaluated runs.
\<close>

record 'e goenv =
  unicode_ToLower :: "string \<Rightarrow> string"
  mail_ParseAddress :: "string \<Rightarrow> goerr option"
  bcrypt_MinCost :: int
  bcrypt_MaxCost :: int
  bcrypt_DefaultCost :: int
  bcrypt_GenerateFromPassword :: "string \<Rightarrow> int \<Rightarrow> 'e \<Rightarrow> (goerr + string) \<times> 'e"
  bcrypt_CompareHashAndPassword :: "string \<Rightarrow> string \<Rightarrow> goerr option"
  time_Now :: "'e \<Rightarrow> time \<times> 'e"
  rand_Read :: "nat \<Rightarrow> 'e \<Rightarrow> (goerr + 8 word list) \<times> 'e"
  uuid_NewString :: "'e \<Rightarrow> string \<times> 'e"
  counter_Inc :: "string \<Rightarrow> string list \<Rightarrow> 'e \<Rightarrow> 'e"
  histogram_Observe :: "string \<Rightarrow> string list \<Rightarrow> int \<Rightarrow> 'e \<Rightarrow> 'e"

text \<open>
  bcrypt: the cost bounds are ordered; a hash matches the password it was made from; a password
  of at most 72 bytes with a cost in range is hashed; a longer one is refused with an error of the
  package, which is none of this program's sentinels.
\<close>

locale bcrypt_lib =
  fixes E :: "'e goenv"
  assumes cost_order: "bcrypt_MinCost E \<le> bcrypt_DefaultCost E"
      "bcrypt_DefaultCost E \<le> bcrypt_MaxCost E"
    and generate_matches:
      "bcrypt_GenerateFromPassword E p c e = (Inr h, e') \<Longrightarrow>
       bcrypt_CompareHashAndPassword E h p = None"
    and generate_ok:
      "length p \<le> 72 \<Longrightarrow> bcrypt_MinCost E \<le> c \<Longrightarrow> c \<le> bcrypt_MaxCost E \<Longrightarrow>
       \<exists>h e'. bcrypt_GenerateFromPassword E p c e = (Inr h, e')"
    and generate_too_long:
      "72 < length p \<Longrightarrow> \<exists>x e'. bcrypt_GenerateFromPassword E p c e = (Inl x, e')"
    and generate_foreign:
      "bcrypt_GenerateFromPassword E p c e = (Inl x, e') \<Longrightarrow> \<not> errors_Is x s"

text \<open>
  The same clamp stands in \<^verbatim>\<open>domain.NewUser\<close>, \<^verbatim>\<open>User.ChangePassword\<close> and
  \<^verbatim>\<open>helpers.bcryptCost\<close>.
\<close>

definition clamp_cost :: "'e goenv \<Rightarrow> int \<Rightarrow> int" where
  "clamp_cost E c = (if c < bcrypt_MinCost E \<or> bcrypt_MaxCost E < c then bcrypt_DefaultCost E else c)"

context bcrypt_lib
begin

lemma clamp_cost_in_range:
  "bcrypt_MinCost E \<le> clamp_cost E c \<and> clamp_cost E c \<le> bcrypt_MaxCost E"
  using cost_order by (auto simp: clamp_cost_def)

lemma clamped_generate_iff:
  "(\<exists>h e'. bcrypt_GenerateFromPassword E p (clamp_cost E c) e = (Inr h, e')) \<longleftrightarrow> length p \<le> 72"
proof
  assume "\<exists>h e'. bcrypt_GenerateFromPassword E p (clamp_cost E c) e = (Inr h, e')"
  then show "length p \<le> 72"
    using generate_too_long [of p "clamp_cost E c" e] by (cases "72 < length p") auto
next
  assume "length p \<le> 72"
  then show "\<exists>h e'. bcrypt_GenerateFromPassword E p (clamp_cost E c) e = (Inr h, e')"
    using generate_ok clamp_cost_in_range by blast
qed

end

text \<open>
  Identifiers: \<open>used e\<close> is the set of the identifiers handed out before the state \<open>e\<close>;
  \<^verbatim>\<open>uuid.NewString\<close> never returns one of them, and no call forgets any.
\<close>

locale uuid_lib =
  fixes E :: "'e goenv" and used :: "'e \<Rightarrow> string set"
  assumes uuid_fresh: "uuid_NewString E e = (i, e') \<Longrightarrow> i \<notin> used e \<and> insert i (used e) \<subseteq> used e'"
    and uuid_ascii: "uuid_NewString E e = (i, e') \<Longrightarrow> ascii i"
    and now_used: "time_Now E e = (t, e') \<Longrightarrow> used e \<subseteq> used e'"
    and generate_used: "bcrypt_GenerateFromPassword E p c e = (r, e') \<Longrightarrow> used e \<subseteq> used e'"
    and rand_used: "rand_Read E n e = (b, e') \<Longrightarrow> used e \<subseteq> used e'"
    and counter_used: "used e \<subseteq> used (counter_Inc E name labels e)"
    and histogram_used: "used e \<subseteq> used (histogram_Observe E name labels d e)"

section \<open>A reference environment\<close>

text \<open>
  A frozen clock (as \<^verbatim>\<open>clock.Frozen\<close> gives the tests), a finite tape of random bytes, numbered
  identifiers, a bcrypt that records its input, and the list of counter increments.
\<close>

record ref_world =
  rw_now :: time
  rw_tape :: "8 word list"
  rw_uuid :: nat
  rw_counters :: "(string \<times> string list) list"

definition ref_hash :: "string \<Rightarrow> int \<Rightarrow> string" where
  "ref_hash p c = ''$2a$'' @ Itoa c @ ''$'' @ p"

definition ref_generate :: "string \<Rightarrow> int \<Rightarrow> ref_world \<Rightarrow> (goerr + string) \<times> ref_world" where
  "ref_generate p c e =
     (if 72 < length p then (Inl (ErrorString ''bcrypt: password length exceeds 72 bytes''), e)
      else if 31 < c then (Inl (ErrorString ''crypto/bcrypt: cost is outside allowed range (4,31)''), e)
      else (Inr (ref_hash p (if c < 4 then 10 else c)), e))"

definition ref_compare :: "string \<Rightarrow> string \<Rightarrow> goerr option" where
  "ref_compare h p =
     (if starts_with (rev (CHR ''$'' # p)) (rev h) then None
      else Some (ErrorString ''crypto/bcrypt: hashedPassword is not the hash of the given password''))"

definition ref_env :: "ref_world goenv" where
  "ref_env =
     \<lparr>unicode_ToLower = (\<lambda>s. s),
      mail_ParseAddress =
        (\<lambda>s. if CHR ''@'' \<in> set s then None else Some (ErrorString ''mail: missing '@' or angle-addr'')),
      bcrypt_MinCost = 4, bcrypt_MaxCost = 31, bcrypt_DefaultCost = 10,
      bcrypt_GenerateFromPassword = ref_generate,
      bcrypt_CompareHashAndPassword = ref_compare,
      time_Now = (\<lambda>e. (rw_now e, e)),
      rand_Read = (\<lambda>n e. (Inr (take n (rw_tape e @ replicate n 0)), e\<lparr>rw_tape := drop n (rw_tape e)\<rparr>)),
      uuid_NewString = (\<lambda>e. (''uuid-'' @ nat_to_dec (rw_uuid e), e\<lparr>rw_uuid := Suc (rw_uuid e)\<rparr>)),
      counter_Inc = (\<lambda>name labels e. e\<lparr>rw_counters := (name, labels) # rw_counters e\<rparr>),
      histogram_Observe = (\<lambda>name labels d e. e)\<rparr>"

lemma ref_env_sel [simp]:
  "unicode_ToLower ref_env s = s"
  "mail_ParseAddress ref_env s =
     (if CHR ''@'' \<in> set s then None else Some (ErrorString ''mail: missing '@' or angle-addr''))"
  "bcrypt_MinCost ref_env = 4" "bcrypt_MaxCost ref_env = 31" "bcrypt_DefaultCost ref_env = 10"
  "bcrypt_GenerateFromPassword ref_env = ref_generate"
  "bcrypt_CompareHashAndPassword ref_env = ref_compare"
  "time_Now ref_env e = (rw_now e, e)"
  "rand_Read ref_env n e =
     (Inr (take n (rw_tape e @ replicate n 0)), e\<lparr>rw_tape := drop n (rw_tape e)\<rparr>)"
  "uuid_NewString ref_env e = (''uuid-'' @ nat_to_dec (rw_uuid e), e\<lparr>rw_uuid := Suc (rw_uuid e)\<rparr>)"
  "counter_Inc ref_env name labels e = e\<lparr>rw_counters := (name, labels) # rw_counters e\<rparr>"
  "histogram_Observe ref_env name labels d e = e"
  by (simp_all add: ref_env_def)

lemma ref_compare_hash [simp]: "ref_compare (ref_hash p c) p = None"
  by (simp add: ref_compare_def ref_hash_def starts_with_iff)

interpretation ref_bcrypt: bcrypt_lib ref_env
proof
  show "bcrypt_CompareHashAndPassword ref_env h p = None"
    if "bcrypt_GenerateFromPassword ref_env p c e = (Inr h, e')" for p c e h e'
    using that by (auto simp: ref_generate_def split: if_splits)
qed (auto simp: ref_generate_def errors_Is_def split: if_splits)

lemma nat_to_dec_inject [simp]: "nat_to_dec m = nat_to_dec n \<longleftrightarrow> m = n"
proof
  assume "nat_to_dec m = nat_to_dec n"
  then have "dec_val 0 (nat_to_dec m) = dec_val 0 (nat_to_dec n)" by simp
  then show "m = n" by (simp add: dec_val_nat_to_dec)
qed simp

definition ref_used :: "ref_world \<Rightarrow> string set" where
  "ref_used e = {''uuid-'' @ nat_to_dec n | n. n < rw_uuid e}"

lemma digit_ascii: "is_digit c \<Longrightarrow> is_ascii c"
  by (simp add: is_digit_def is_ascii_def)

lemma nat_to_dec_ascii [simp]: "ascii (nat_to_dec n)"
  using nat_to_dec_digits digit_ascii by (auto simp: list_all_iff)

interpretation ref_uuid: uuid_lib ref_env ref_used
  by unfold_locales
     (auto simp: is_ascii_def byte_val_def ref_used_def ref_generate_def less_SucI split: if_splits)

definition ref_e0 :: ref_world where
  "ref_e0 = \<lparr>rw_now = 1700000000 * Second, rw_tape = [], rw_uuid = 0, rw_counters = []\<rparr>"

end
