(* ===== verification/Domain_Users.thy ===== *)
theory Domain_Users
  imports Go_Env
begin

text \<open>
  \<^verbatim>\<open>internal/business/domain/domain.users.go\<close>: the \<^verbatim>\<open>User\<close> entity and its
  behaviour. Pointers to times are options. The functions that read the clock or hash take the
  environment and thread its state.
\<close>

record User =
  uID :: string
  uUsername :: string
  uEmail :: string
  uPassword :: string
  uActive :: bool
  uRoleID :: int
  uCreatedAt :: time
  uUpdatedAt :: "time option"
  uDeletedAt :: "time option"
  uPasswordChangedAt :: "time option"

definition RoleAdmin :: int where "RoleAdmin = 1"
definition RoleUser :: int where "RoleUser = 2"

text \<open>The zero value \<^verbatim>\<open>domain.User{}\<close>.\<close>

definition zero_User :: User where
  "zero_User = \<lparr>uID = '''', uUsername = '''', uEmail = '''', uPassword = '''', uActive = False,
     uRoleID = 0, uCreatedAt = zero_time, uUpdatedAt = None, uDeletedAt = None,
     uPasswordChangedAt = None\<rparr>"

definition NormalizeEmail :: "'e goenv \<Rightarrow> string \<Rightarrow> string" where
  "NormalizeEmail E s = strings_ToLower (unicode_ToLower E) (strings_TrimSpace s)"

definition NewUser ::
  "'e goenv \<Rightarrow> string \<Rightarrow> string \<Rightarrow> string \<Rightarrow> int \<Rightarrow> int \<Rightarrow> 'e \<Rightarrow> (goerr + User) \<times> 'e" where
  "NewUser E username email plainPassword roleID bcryptCost e =
     (let username = strings_TrimSpace username in
      if username = '''' then (Inl (Sentinel ErrEmptyUsername), e)
      else if plainPassword = '''' then (Inl (Sentinel ErrEmptyPassword), e)
      else let email = NormalizeEmail E email in
      if email = '''' then (Inl (Sentinel ErrEmptyEmail), e)
      else if mail_ParseAddress E email \<noteq> None then (Inl (Sentinel ErrInvalidEmail), e)
      else case bcrypt_GenerateFromPassword E plainPassword (clamp_cost E bcryptCost) e of
          (Inl err, e) \<Rightarrow> (Inl err, e)
        | (Inr hash, e) \<Rightarrow>
            (case time_Now E e of
               (now, e) \<Rightarrow>
                 (Inr (zero_User\<lparr>uUsername := username, uEmail := email, uPassword := hash,
                    uRoleID := roleID, uCreatedAt := now\<rparr>), e)))"

definition Activate :: "'e goenv \<Rightarrow> User \<Rightarrow> 'e \<Rightarrow> User \<times> 'e" where
  "Activate E u e =
     (case time_Now E e of
        (now, e) \<Rightarrow> (u\<lparr>uActive := True, uUpdatedAt := Some now\<rparr>, e))"

definition VerifyPassword :: "'e goenv \<Rightarrow> User \<Rightarrow> string \<Rightarrow> bool" where
  "VerifyPassword E u plain \<longleftrightarrow> bcrypt_CompareHashAndPassword E (uPassword u) plain = None"

definition IsAdmin :: "User \<Rightarrow> bool" where
  "IsAdmin u \<longleftrightarrow> uRoleID u = RoleAdmin"

definition ChangePassword :: "'e goenv \<Rightarrow> User \<Rightarrow> string \<Rightarrow> int \<Rightarrow> 'e \<Rightarrow> (goerr + User) \<times> 'e" where
  "ChangePassword E u plain bcryptCost e =
     (if plain = '''' then (Inl (Sentinel ErrEmptyPassword), e)
      else case bcrypt_GenerateFromPassword E plain (clamp_cost E bcryptCost) e of
          (Inl err, e) \<Rightarrow> (Inl err, e)
        | (Inr hash, e) \<Rightarrow>
            (case time_Now E e of
               (now, e) \<Rightarrow>
                 (Inr (u\<lparr>uPassword := hash, uPasswordChangedAt := Some now,
                        uUpdatedAt := Some now\<rparr>), e)))"

definition TokensRevokedBefore :: "User \<Rightarrow> time" where
  "TokensRevokedBefore u =
     (case uPasswordChangedAt u of None \<Rightarrow> zero_time | Some t \<Rightarrow> t)"

section \<open>Normalised addresses\<close>

lemma NormalizeEmail_ascii: "ascii s \<Longrightarrow> ascii (NormalizeEmail E s)"
  by (simp add: NormalizeEmail_def ToLower_ascii TrimSpace_ascii)

lemma NormalizeEmail_lower:
  "ascii s \<Longrightarrow> NormalizeEmail E s = map byte_to_lower (strings_TrimSpace s)"
  by (simp add: NormalizeEmail_def strings_ToLower_def TrimSpace_ascii)

lemma NormalizeEmail_idem_ascii:
  "ascii s \<Longrightarrow> NormalizeEmail E (NormalizeEmail E s) = NormalizeEmail E s"
  using NormalizeEmail_lower [OF NormalizeEmail_ascii, of s E E]
  by (simp add: NormalizeEmail_lower TrimSpace_lower)

text \<open>Two ASCII addresses that differ in letter case only have one normal form, and normal forms
  are fixed points with no upper-case letter.\<close>

lemma NormalizeEmail_case:
  assumes "ascii s" and "ascii t" and "map byte_to_lower s = map byte_to_lower t"
  shows "NormalizeEmail E s = NormalizeEmail E t"
  using assms by (metis NormalizeEmail_lower TrimSpace_lower)

lemma NormalizeEmail_no_upper:
  assumes "ascii s" and "c \<in> set (NormalizeEmail E s)"
  shows "\<not> (65 \<le> byte_val c \<and> byte_val c \<le> 90)"
  using assms by (auto simp: NormalizeEmail_lower byte_val_lower split: if_splits)

section \<open>Construction and credential changes\<close>

lemma NewUser_cases:
  assumes "NewUser E un em pw role cost e = (r, e')"
  shows "(\<exists>err. r = Inl err) \<or>
    (\<exists>hash e1 now. r = Inr (zero_User\<lparr>uUsername := strings_TrimSpace un, uEmail := NormalizeEmail E em,
        uPassword := hash, uRoleID := role, uCreatedAt := now\<rparr>) \<and>
      strings_TrimSpace un \<noteq> '''' \<and> pw \<noteq> '''' \<and> NormalizeEmail E em \<noteq> '''' \<and>
      mail_ParseAddress E (NormalizeEmail E em) = None \<and>
      bcrypt_GenerateFromPassword E pw (clamp_cost E cost) e = (Inr hash, e1) \<and>
      time_Now E e1 = (now, e'))"
  using assms by (auto simp: NewUser_def Let_def split: if_splits prod.splits sum.splits)

lemma ChangePassword_InrD:
  assumes "ChangePassword E u pw cost e = (Inr v, e')"
  shows "\<exists>hash e1 now. bcrypt_GenerateFromPassword E pw (clamp_cost E cost) e = (Inr hash, e1) \<and>
    time_Now E e1 = (now, e') \<and> pw \<noteq> '''' \<and>
    v = u\<lparr>uPassword := hash, uPasswordChangedAt := Some now, uUpdatedAt := Some now\<rparr>"
  using assms by (auto simp: ChangePassword_def split: if_splits prod.splits sum.splits)

lemma ChangePassword_frame:
  assumes "ChangePassword E u pw cost e = (Inr v, e')"
  shows "uID v = uID u" "uEmail v = uEmail u" "uUsername v = uUsername u"
    "uActive v = uActive u" "uRoleID v = uRoleID u" "uDeletedAt v = uDeletedAt u"
    "\<exists>now. uPasswordChangedAt v = Some now"
  using ChangePassword_InrD [OF assms] by auto

context bcrypt_lib
begin

lemma NewUser_verifies:
  "NewUser E un em pw role cost e = (Inr u, e') \<Longrightarrow> VerifyPassword E u pw"
  using NewUser_cases generate_matches by (fastforce simp: VerifyPassword_def)

lemma ChangePassword_verifies:
  "ChangePassword E u pw cost e = (Inr v, e') \<Longrightarrow> VerifyPassword E v pw"
  using ChangePassword_InrD generate_matches by (fastforce simp: VerifyPassword_def)

lemma ChangePassword_succeeds_iff:
  "(\<exists>v e'. ChangePassword E u pw cost e = (Inr v, e')) \<longleftrightarrow> pw \<noteq> '''' \<and> length pw \<le> 72"
proof
  assume "\<exists>v e'. ChangePassword E u pw cost e = (Inr v, e')"
  then show "pw \<noteq> '''' \<and> length pw \<le> 72"
    using ChangePassword_InrD clamped_generate_iff by metis
next
  assume pw: "pw \<noteq> '''' \<and> length pw \<le> 72"
  then obtain h e1 where "bcrypt_GenerateFromPassword E pw (clamp_cost E cost) e = (Inr h, e1)"
    using clamped_generate_iff by metis
  with pw show "\<exists>v e'. ChangePassword E u pw cost e = (Inr v, e')"
    by (auto simp: ChangePassword_def split: prod.splits)
qed

lemma NewUser_succeeds_iff:
  "(\<exists>u e'. NewUser E un em pw role cost e = (Inr u, e')) \<longleftrightarrow>
     strings_TrimSpace un \<noteq> '''' \<and> pw \<noteq> '''' \<and> length pw \<le> 72 \<and> NormalizeEmail E em \<noteq> '''' \<and>
     mail_ParseAddress E (NormalizeEmail E em) = None"
  (is "?L \<longleftrightarrow> ?R")
proof
  assume ?L
  then show ?R using NewUser_cases clamped_generate_iff by (metis (no_types, lifting) Inr_not_Inl)
next
  assume R: ?R
  then obtain h e1 where "bcrypt_GenerateFromPassword E pw (clamp_cost E cost) e = (Inr h, e1)"
    using clamped_generate_iff by metis
  with R show ?L by (auto simp: NewUser_def Let_def split: prod.splits)
qed

end

section \<open>Properties\<close>

text \<open>For an ASCII address, normalisation is idempotent, removes every upper-case letter, and
  depends on the letter case of its input in no way, so two spellings of one address always give
  the same cache key, Redis key and row.\<close>

lemma normalize_email_canonical:
  assumes "ascii s"
  shows "NormalizeEmail E (NormalizeEmail E s) = NormalizeEmail E s \<and>
    (\<forall>c. c \<in> set (NormalizeEmail E s) \<longrightarrow> \<not> (65 \<le> byte_val c \<and> byte_val c \<le> 90)) \<and>
    NormalizeEmail E (map byte_to_lower s) = NormalizeEmail E s"
proof (intro conjI)
  have "ascii (map byte_to_lower s)"
    using assms by (simp add: list_all_iff byte_to_lower_ascii)
  then show "NormalizeEmail E (map byte_to_lower s) = NormalizeEmail E s"
    using assms by (intro NormalizeEmail_case) simp_all
qed (use assms NormalizeEmail_idem_ascii NormalizeEmail_no_upper in blast)+

text \<open>A user is built exactly when the trimmed name, the password and the normalised address
  are non-empty, the address parses, and the password has at most 72 bytes; the new user has the
  trimmed name, the normalised address and a hash that the given password verifies against, and is
  not active.\<close>

theorem new_user_spec:
  assumes "bcrypt_lib E"
  shows "((\<exists>u e'. NewUser E un em pw role cost e = (Inr u, e')) \<longleftrightarrow>
      strings_TrimSpace un \<noteq> '''' \<and> pw \<noteq> '''' \<and> length pw \<le> 72 \<and> NormalizeEmail E em \<noteq> '''' \<and>
      mail_ParseAddress E (NormalizeEmail E em) = None) \<and>
    (\<forall>u e'. NewUser E un em pw role cost e = (Inr u, e') \<longrightarrow>
      VerifyPassword E u pw \<and> uUsername u = strings_TrimSpace un \<and>
      uEmail u = NormalizeEmail E em \<and> uRoleID u = role \<and> \<not> uActive u \<and> uDeletedAt u = None)"
proof (intro conjI allI impI)
  fix u e'
  assume new: "NewUser E un em pw role cost e = (Inr u, e')"
  show "VerifyPassword E u pw" by (rule bcrypt_lib.NewUser_verifies [OF assms new])
  show "uUsername u = strings_TrimSpace un" "uEmail u = NormalizeEmail E em" "uRoleID u = role"
    "\<not> uActive u" "uDeletedAt u = None"
    using NewUser_cases [OF new] by (auto simp: zero_User_def)
qed (rule bcrypt_lib.NewUser_succeeds_iff [OF assms])

theorem new_user_spec_witness:
  "bcrypt_lib ref_env \<and>
   (\<exists>u e'. NewUser ref_env '' bob '' ''Bob@x.io'' ''Secret_1'' 2 12
      \<lparr>rw_now = 7, rw_tape = [], rw_uuid = 0, rw_counters = []\<rparr> = (Inr u, e') \<and>
    VerifyPassword ref_env u ''Secret_1'')"
proof -
  let ?w = "\<lparr>rw_now = 7, rw_tape = [], rw_uuid = 0, rw_counters = []\<rparr> :: ref_world"
  have "strings_TrimSpace '' bob '' = ''bob''" and "NormalizeEmail ref_env ''Bob@x.io'' = ''bob@x.io''"
    by code_simp+
  then show ?thesis
    using ref_bcrypt.bcrypt_lib_axioms
      new_user_spec [OF ref_bcrypt.bcrypt_lib_axioms, of "'' bob ''" "''Bob@x.io''" "''Secret_1''" 2 12 ?w]
    by auto
qed

text \<open>A password change succeeds exactly for a non-empty password of at most 72 bytes; the new
  password then verifies, the instant of the change is recorded as the moment before which tokens
  are revoked, and every other field except the update time is kept.\<close>

lemma change_password_spec:
  assumes "bcrypt_lib E"
  shows "((\<exists>v e'. ChangePassword E u pw cost e = (Inr v, e')) \<longleftrightarrow> pw \<noteq> '''' \<and> length pw \<le> 72) \<and>
    (\<forall>v e'. ChangePassword E u pw cost e = (Inr v, e') \<longrightarrow>
      VerifyPassword E v pw \<and> uPasswordChangedAt v = Some (TokensRevokedBefore v) \<and>
      uID v = uID u \<and> uEmail v = uEmail u \<and> uUsername v = uUsername u \<and> uActive v = uActive u \<and>
      uRoleID v = uRoleID u \<and> uDeletedAt v = uDeletedAt u)"
proof (intro conjI allI impI)
  fix v e'
  assume ch: "ChangePassword E u pw cost e = (Inr v, e')"
  show "VerifyPassword E v pw" by (rule bcrypt_lib.ChangePassword_verifies [OF assms ch])
  show "uPasswordChangedAt v = Some (TokensRevokedBefore v)"
    using ChangePassword_frame(7) [OF ch] by (auto simp: TokensRevokedBefore_def)
  show "uID v = uID u" "uEmail v = uEmail u" "uUsername v = uUsername u" "uActive v = uActive u"
    "uRoleID v = uRoleID u" "uDeletedAt v = uDeletedAt u"
    by (rule ChangePassword_frame [OF ch])+
qed (rule bcrypt_lib.ChangePassword_succeeds_iff [OF assms])

end
