(* ===== verification/Repo_Users.thy ===== *)
theory Repo_Users
  imports Domain_Users
begin

text \<open>
  \<^verbatim>\<open>internal/datasources/records\<close> (the row type and its mapping to the entity) and
  \<^verbatim>\<open>internal/datasources/repositories/postgres/users\<close> (the seven statements on the
  \<^verbatim>\<open>users\<close> table). sqlx, the driver and the PostgreSQL server are a parameter: the calls the
  repository makes, over a state \<open>'d\<close>, and the locale \<open>users_table\<close> of what each of the seven
  statement texts does on the schema of \<^verbatim>\<open>cmd/migration/migrations\<close>. The locale
  \<open>user_repository\<close> is the contract of \<^verbatim>\<open>repositories/interface.UserRepository\<close>; the
  repository provides it over every such table.
\<close>

section \<open>Rows\<close>

record Users =
  rId :: string
  rUsername :: string
  rEmail :: string
  rPassword :: string
  rActive :: bool
  rRoleId :: int
  rCreatedAt :: time
  rUpdatedAt :: "time option"
  rDeletedAt :: "time option"
  rPasswordChangedAt :: "time option"

definition ToV1Domain :: "Users \<Rightarrow> User" where
  "ToV1Domain u =
     \<lparr>uID = rId u, uUsername = rUsername u, uEmail = rEmail u, uPassword = rPassword u,
      uActive = rActive u, uRoleID = rRoleId u, uCreatedAt = rCreatedAt u,
      uUpdatedAt = rUpdatedAt u, uDeletedAt = rDeletedAt u,
      uPasswordChangedAt = rPasswordChangedAt u\<rparr>"

definition FromUsersV1Domain :: "User \<Rightarrow> Users" where
  "FromUsersV1Domain u =
     \<lparr>rId = uID u, rUsername = uUsername u, rEmail = uEmail u, rPassword = uPassword u,
      rActive = uActive u, rRoleId = uRoleID u, rCreatedAt = uCreatedAt u,
      rUpdatedAt = uUpdatedAt u, rDeletedAt = uDeletedAt u,
      rPasswordChangedAt = uPasswordChangedAt u\<rparr>"

text \<open>The loop of \<^verbatim>\<open>ToArrayOfUsersV1Domain\<close>: append the image of each element.\<close>

fun ToArrayOfUsersV1Domain_loop :: "User list \<Rightarrow> Users list \<Rightarrow> User list" where
  "ToArrayOfUsersV1Domain_loop result [] = result"
| "ToArrayOfUsersV1Domain_loop result (v # vs) =
     ToArrayOfUsersV1Domain_loop (result @ [ToV1Domain v]) vs"

definition ToArrayOfUsersV1Domain :: "Users list \<Rightarrow> User list" where
  "ToArrayOfUsersV1Domain u = ToArrayOfUsersV1Domain_loop [] u"

lemma records_roundtrip [simp]:
  "ToV1Domain (FromUsersV1Domain u) = u" "FromUsersV1Domain (ToV1Domain r) = r"
  by (simp_all add: ToV1Domain_def FromUsersV1Domain_def)

lemma ToArray_loop_map: "ToArrayOfUsersV1Domain_loop acc vs = acc @ map ToV1Domain vs"
  by (induction acc vs rule: ToArrayOfUsersV1Domain_loop.induct) auto

lemma ToArray_map: "ToArrayOfUsersV1Domain vs = map ToV1Domain vs"
  by (simp add: ToArrayOfUsersV1Domain_def ToArray_loop_map)

lemma ToV1Domain_sel [simp]:
  "uID (ToV1Domain r) = rId r" "uUsername (ToV1Domain r) = rUsername r"
  "uEmail (ToV1Domain r) = rEmail r" "uPassword (ToV1Domain r) = rPassword r"
  "uActive (ToV1Domain r) = rActive r" "uRoleID (ToV1Domain r) = rRoleId r"
  "uCreatedAt (ToV1Domain r) = rCreatedAt r" "uUpdatedAt (ToV1Domain r) = rUpdatedAt r"
  "uDeletedAt (ToV1Domain r) = rDeletedAt r"
  "uPasswordChangedAt (ToV1Domain r) = rPasswordChangedAt r"
  by (simp_all add: ToV1Domain_def)

lemma FromUsersV1Domain_sel [simp]:
  "rId (FromUsersV1Domain u) = uID u" "rUsername (FromUsersV1Domain u) = uUsername u"
  "rEmail (FromUsersV1Domain u) = uEmail u" "rPassword (FromUsersV1Domain u) = uPassword u"
  "rActive (FromUsersV1Domain u) = uActive u" "rRoleId (FromUsersV1Domain u) = uRoleID u"
  "rCreatedAt (FromUsersV1Domain u) = uCreatedAt u"
  "rUpdatedAt (FromUsersV1Domain u) = uUpdatedAt u"
  "rDeletedAt (FromUsersV1Domain u) = uDeletedAt u"
  "rPasswordChangedAt (FromUsersV1Domain u) = uPasswordChangedAt u"
  by (simp_all add: FromUsersV1Domain_def)

section \<open>The database handle\<close>

datatype sqlval = SqlString string | SqlInt int

text \<open>
  The methods of \<^verbatim>\<open>*sqlx.DB\<close> the repository calls. \<^verbatim>\<open>NamedQueryContext\<close> gives the
  rows as \<^verbatim>\<open>rows.Next\<close> would visit them, each with the outcome of \<^verbatim>\<open>StructScan\<close>; the
  \<^verbatim>\<open>Exec\<close> calls give the outcome of \<^verbatim>\<open>RowsAffected\<close>.
\<close>

record 'd sqlx_DB =
  db_GetContext :: "string \<Rightarrow> sqlval list \<Rightarrow> 'd \<Rightarrow> (goerr + Users) \<times> 'd"
  db_SelectContext :: "string \<Rightarrow> sqlval list \<Rightarrow> 'd \<Rightarrow> (goerr + Users list) \<times> 'd"
  db_NamedQueryContext :: "string \<Rightarrow> Users \<Rightarrow> 'd \<Rightarrow> (goerr + (goerr + Users) list) \<times> 'd"
  db_NamedExecContext :: "string \<Rightarrow> Users \<Rightarrow> 'd \<Rightarrow> (goerr + (goerr + int)) \<times> 'd"
  db_ExecContext :: "string \<Rightarrow> sqlval list \<Rightarrow> 'd \<Rightarrow> (goerr + (goerr + int)) \<times> 'd"

definition nl2 :: string where "nl2 = [CHR 0x0A, CHR 0x09, CHR 0x09]"
definition nl1 :: string where "nl1 = [CHR 0x0A, CHR 0x09]"
definition dq :: string where "dq = [CHR 0x22]"

definition insertUser :: string where
  "insertUser =
     nl2 @ ''INSERT INTO users(id, username, email, password, active, role_id, created_at)'' @
     nl2 @ ''VALUES (uuid_generate_v4(), :username, :email, :password, false, :role_id, :created_at)'' @
     nl2 @ ''RETURNING id, username, email, password, active, role_id, created_at, updated_at, deleted_at'' @
     nl1"

definition selectUserByEmail :: string where
  "selectUserByEmail =
     ''SELECT * FROM users WHERE '' @ dq @ ''email'' @ dq @ '' = $1 AND deleted_at IS NULL''"

definition selectUserByID :: string where
  "selectUserByID = ''SELECT * FROM users WHERE id = $1 AND deleted_at IS NULL''"

definition updateUserActive :: string where
  "updateUserActive =
     ''UPDATE users SET active = :active, updated_at = NOW() WHERE id = :id AND deleted_at IS NULL''"

definition updateUserPassword :: string where
  "updateUserPassword =
     ''UPDATE users SET password = :password, password_changed_at = :password_changed_at, updated_at = :updated_at WHERE id = :id AND deleted_at IS NULL''"

definition softDeleteUser :: string where
  "softDeleteUser =
     ''UPDATE users SET deleted_at = NOW(), updated_at = NOW() WHERE id = $1 AND deleted_at IS NULL''"

section \<open>The repository\<close>

definition postgres_Store :: "'d sqlx_DB \<Rightarrow> User \<Rightarrow> 'd \<Rightarrow> (goerr + User) \<times> 'd" where
  "postgres_Store conn inDom d =
     (let userRecord = FromUsersV1Domain inDom in
      case db_NamedQueryContext conn insertUser userRecord d of
        (Inl err, d) \<Rightarrow>
          (case errors_As_PqError err of
             Some (PqError code msg) \<Rightarrow>
               if code = ''23505'' then (Inl (Conflict ''username or email already exists''), d)
               else (Inl err, d)
           | _ \<Rightarrow> (Inl err, d))
      | (Inr [], d) \<Rightarrow>
          (Inl (ErrorString ''insert succeeded but RETURNING produced no row''), d)
      | (Inr (Inl err # _), d) \<Rightarrow> (Inl (errorf_w ''scan inserted user'' err), d)
      | (Inr (Inr stored # _), d) \<Rightarrow> (Inr (ToV1Domain stored), d))"

definition postgres_GetByEmail :: "'d sqlx_DB \<Rightarrow> User \<Rightarrow> 'd \<Rightarrow> (goerr + User) \<times> 'd" where
  "postgres_GetByEmail conn inDom d =
     (let userRecord = FromUsersV1Domain inDom in
      case db_GetContext conn selectUserByEmail [SqlString (rEmail userRecord)] d of
        (Inl err, d) \<Rightarrow>
          (Inl (if errors_Is err ErrNoRows then NotFound ''user not found'' else err), d)
      | (Inr userRecord, d) \<Rightarrow> (Inr (ToV1Domain userRecord), d))"

definition postgres_GetByID :: "'d sqlx_DB \<Rightarrow> string \<Rightarrow> 'd \<Rightarrow> (goerr + User) \<times> 'd" where
  "postgres_GetByID conn ident d =
     (case db_GetContext conn selectUserByID [SqlString ident] d of
        (Inl err, d) \<Rightarrow>
          (Inl (if errors_Is err ErrNoRows then NotFound ''user not found'' else err), d)
      | (Inr stored, d) \<Rightarrow> (Inr (ToV1Domain stored), d))"

record UserListFilter =
  fRoleID :: int
  fActiveOnly :: bool
  fIncludeDeleted :: bool

definition hardLimit :: int where "hardLimit = 200"

text \<open>The clamping and the query builder of \<^verbatim>\<open>List\<close>: \<open>where\<close>, \<open>args\<close> and the placeholder
  counter \<open>idx\<close> grow as the source grows them.\<close>

definition list_query :: "UserListFilter \<Rightarrow> int \<Rightarrow> int \<Rightarrow> string \<times> sqlval list" where
  "list_query flt offset limit =
     (let limit = (if limit \<le> 0 \<or> limit > hardLimit then hardLimit else limit);
          offset = (if offset < 0 then 0 else offset);
          wher = []; args = []; idx = 1;
          wher = (if \<not> fIncludeDeleted flt then wher @ [''deleted_at IS NULL''] else wher);
          (wher, args, idx) =
            (if fRoleID flt \<noteq> 0
             then (wher @ [''role_id = $'' @ Itoa idx], args @ [SqlInt (fRoleID flt)], idx + 1)
             else (wher, args, idx));
          wher = (if fActiveOnly flt then wher @ [''active = true''] else wher);
          query = ''SELECT * FROM users'';
          query = (if 0 < length wher then query @ '' WHERE '' @ join_with '' AND '' wher else query);
          query = query @ '' ORDER BY created_at DESC LIMIT $'' @ Itoa idx @ '' OFFSET $'' @ Itoa (idx + 1);
          args = args @ [SqlInt limit, SqlInt offset]
      in (query, args))"

fun list_rows :: "User list \<Rightarrow> Users list \<Rightarrow> User list" where
  "list_rows out [] = out"
| "list_rows out (r # rs) = list_rows (out @ [ToV1Domain r]) rs"

definition postgres_List ::
  "'d sqlx_DB \<Rightarrow> UserListFilter \<Rightarrow> int \<Rightarrow> int \<Rightarrow> 'd \<Rightarrow> (goerr + User list) \<times> 'd" where
  "postgres_List conn flt offset limit d =
     (case list_query flt offset limit of
        (query, args) \<Rightarrow>
          (case db_SelectContext conn query args d of
             (Inl err, d) \<Rightarrow> (Inl err, d)
           | (Inr rows, d) \<Rightarrow> (Inr (list_rows [] rows), d)))"

text \<open>The rows of the \<^verbatim>\<open>UPDATE\<close> are discarded (and not closed) by the source.\<close>

definition postgres_ChangeActiveUser :: "'d sqlx_DB \<Rightarrow> User \<Rightarrow> 'd \<Rightarrow> goerr option \<times> 'd" where
  "postgres_ChangeActiveUser conn inDom d =
     (let userRecord = FromUsersV1Domain inDom in
      case db_NamedQueryContext conn updateUserActive userRecord d of
        (Inl err, d) \<Rightarrow> (Some err, d)
      | (Inr _, d) \<Rightarrow> (None, d))"

definition rows_affected :: "goerr + (goerr + int) \<Rightarrow> goerr option" where
  "rows_affected res =
     (case res of
        Inl err \<Rightarrow> Some err
      | Inr (Inl err) \<Rightarrow> Some err
      | Inr (Inr affected) \<Rightarrow> if affected = 0 then Some (NotFound ''user not found'') else None)"

definition postgres_UpdatePassword :: "'d sqlx_DB \<Rightarrow> User \<Rightarrow> 'd \<Rightarrow> goerr option \<times> 'd" where
  "postgres_UpdatePassword conn inDom d =
     (let userRecord = FromUsersV1Domain inDom in
      case db_NamedExecContext conn updateUserPassword userRecord d of
        (res, d) \<Rightarrow> (rows_affected res, d))"

definition postgres_SoftDelete :: "'d sqlx_DB \<Rightarrow> string \<Rightarrow> 'd \<Rightarrow> goerr option \<times> 'd" where
  "postgres_SoftDelete conn ident d =
     (case db_ExecContext conn softDeleteUser [SqlString ident] d of
        (res, d) \<Rightarrow> (rows_affected res, d))"

text \<open>The interface \<^verbatim>\<open>UserRepository\<close>, and the constructor that fills it.\<close>

record 'd UserRepository =
  repo_Store :: "User \<Rightarrow> 'd \<Rightarrow> (goerr + User) \<times> 'd"
  repo_GetByEmail :: "User \<Rightarrow> 'd \<Rightarrow> (goerr + User) \<times> 'd"
  repo_GetByID :: "string \<Rightarrow> 'd \<Rightarrow> (goerr + User) \<times> 'd"
  repo_List :: "UserListFilter \<Rightarrow> int \<Rightarrow> int \<Rightarrow> 'd \<Rightarrow> (goerr + User list) \<times> 'd"
  repo_ChangeActiveUser :: "User \<Rightarrow> 'd \<Rightarrow> goerr option \<times> 'd"
  repo_UpdatePassword :: "User \<Rightarrow> 'd \<Rightarrow> goerr option \<times> 'd"
  repo_SoftDelete :: "string \<Rightarrow> 'd \<Rightarrow> goerr option \<times> 'd"

definition NewUserRepository :: "'d sqlx_DB \<Rightarrow> 'd UserRepository" where
  "NewUserRepository conn =
     \<lparr>repo_Store = postgres_Store conn, repo_GetByEmail = postgres_GetByEmail conn,
      repo_GetByID = postgres_GetByID conn, repo_List = postgres_List conn,
      repo_ChangeActiveUser = postgres_ChangeActiveUser conn,
      repo_UpdatePassword = postgres_UpdatePassword conn,
      repo_SoftDelete = postgres_SoftDelete conn\<rparr>"

lemma NewUserRepository_sel [simp]:
  "repo_Store (NewUserRepository conn) = postgres_Store conn"
  "repo_GetByEmail (NewUserRepository conn) = postgres_GetByEmail conn"
  "repo_GetByID (NewUserRepository conn) = postgres_GetByID conn"
  "repo_List (NewUserRepository conn) = postgres_List conn"
  "repo_ChangeActiveUser (NewUserRepository conn) = postgres_ChangeActiveUser conn"
  "repo_UpdatePassword (NewUserRepository conn) = postgres_UpdatePassword conn"
  "repo_SoftDelete (NewUserRepository conn) = postgres_SoftDelete conn"
  by (simp_all add: NewUserRepository_def)

end
