(* ===== verification/Repo_Contract.thy ===== *)
theory Repo_Contract
  imports Repo_Users
begin

text \<open>
  What the repository relies on and what it promises. \<open>users_table\<close> states, for each of the
  statement texts, what PostgreSQL does with it on the migrated schema: the view \<open>tbl\<close> maps a
  primary key to its row; \<open>ts\<close> is the rounding of an instant to the resolution of
  \<^verbatim>\<open>timestamptz\<close>, \<open>uid\<close> the canonical text of a \<^verbatim>\<open>uuid\<close>, \<open>low\<close> the SQL function
  \<^verbatim>\<open>LOWER\<close>. A statement that reports an error may have been committed or not (the connection
  can break after the commit), except the unique violation, which aborts it.
  \<open>user_repository\<close> is the contract of the interface over the entity.
\<close>

definition live_row :: "Users \<Rightarrow> bool" where
  "live_row r \<longleftrightarrow> rDeletedAt r = None"

definition live :: "User \<Rightarrow> bool" where
  "live u \<longleftrightarrow> uDeletedAt u = None"

lemma live_ToV1Domain [simp]: "live (ToV1Domain r) \<longleftrightarrow> live_row r"
  by (simp add: live_def live_row_def)

text \<open>The row the insert writes, the updates of a row, and \<open>row_update\<close>: an update by primary
  key of a live row (no row matches: nothing happens).\<close>

definition inserted_row :: "(time \<Rightarrow> time) \<Rightarrow> Users \<Rightarrow> string \<Rightarrow> Users" where
  "inserted_row ts r i =
     \<lparr>rId = i, rUsername = rUsername r, rEmail = rEmail r, rPassword = rPassword r,
      rActive = False, rRoleId = rRoleId r, rCreatedAt = ts (rCreatedAt r), rUpdatedAt = None,
      rDeletedAt = None, rPasswordChangedAt = None\<rparr>"

definition password_row :: "(time \<Rightarrow> time) \<Rightarrow> Users \<Rightarrow> Users \<Rightarrow> Users" where
  "password_row ts r row =
     row\<lparr>rPassword := rPassword r, rPasswordChangedAt := map_option ts (rPasswordChangedAt r),
         rUpdatedAt := map_option ts (rUpdatedAt r)\<rparr>"

definition row_update ::
  "string \<Rightarrow> (Users \<Rightarrow> Users) \<Rightarrow> (string \<rightharpoonup> Users) \<Rightarrow> (string \<rightharpoonup> Users)" where
  "row_update i f m =
     (case m i of None \<Rightarrow> m | Some row \<Rightarrow> if live_row row then m(i \<mapsto> f row) else m)"

definition has_live :: "(string \<rightharpoonup> Users) \<Rightarrow> string \<Rightarrow> bool" where
  "has_live m i \<longleftrightarrow> (\<exists>row. m i = Some row \<and> live_row row)"

text \<open>The eight statement texts \<^verbatim>\<open>List\<close> can send, by: deleted rows excluded, filter on the
  role, active rows only.\<close>

fun list_stmt :: "bool \<Rightarrow> bool \<Rightarrow> bool \<Rightarrow> string" where
  "list_stmt True True True =
     ''SELECT * FROM users WHERE deleted_at IS NULL AND role_id = $1 AND active = true ORDER BY created_at DESC LIMIT $2 OFFSET $3''"
| "list_stmt True True False =
     ''SELECT * FROM users WHERE deleted_at IS NULL AND role_id = $1 ORDER BY created_at DESC LIMIT $2 OFFSET $3''"
| "list_stmt True False True =
     ''SELECT * FROM users WHERE deleted_at IS NULL AND active = true ORDER BY created_at DESC LIMIT $1 OFFSET $2''"
| "list_stmt True False False =
     ''SELECT * FROM users WHERE deleted_at IS NULL ORDER BY created_at DESC LIMIT $1 OFFSET $2''"
| "list_stmt False True True =
     ''SELECT * FROM users WHERE role_id = $1 AND active = true ORDER BY created_at DESC LIMIT $2 OFFSET $3''"
| "list_stmt False True False =
     ''SELECT * FROM users WHERE role_id = $1 ORDER BY created_at DESC LIMIT $2 OFFSET $3''"
| "list_stmt False False True =
     ''SELECT * FROM users WHERE active = true ORDER BY created_at DESC LIMIT $1 OFFSET $2''"
| "list_stmt False False False =
     ''SELECT * FROM users ORDER BY created_at DESC LIMIT $1 OFFSET $2''"

text \<open>\<open>page m P limit offset rows\<close>: \<open>rows\<close> is the slice of the rows of \<open>m\<close> that satisfy \<open>P\<close>,
  in descending order of creation (ties in any order).\<close>

definition page ::
  "(string \<rightharpoonup> Users) \<Rightarrow> (Users \<Rightarrow> bool) \<Rightarrow> int \<Rightarrow> int \<Rightarrow> Users list \<Rightarrow> bool" where
  "page m P limit offset rows \<longleftrightarrow>
     (\<exists>rs. distinct rs \<and> set rs = {r. r \<in> ran m \<and> P r} \<and>
       sorted_wrt (\<lambda>a b. rCreatedAt b \<le> rCreatedAt a) rs \<and>
       rows = take (nat limit) (drop (nat offset) rs))"

locale users_table =
  fixes db :: "'d sqlx_DB" and tbl :: "'d \<Rightarrow> (string \<rightharpoonup> Users)"
    and ts :: "time \<Rightarrow> time" and uid :: "string \<Rightarrow> string" and low :: "string \<Rightarrow> string"
  assumes key_wf: "tbl d i = Some r \<Longrightarrow> rId r = i \<and> uid i = i"
    and email_unique: "tbl d i = Some r \<Longrightarrow> live_row r \<Longrightarrow> tbl d j = Some q \<Longrightarrow> live_row q \<Longrightarrow>
      rEmail r = rEmail q \<Longrightarrow> i = j"
    and username_unique: "tbl d i = Some r \<Longrightarrow> live_row r \<Longrightarrow> tbl d j = Some q \<Longrightarrow> live_row q \<Longrightarrow>
      low (rUsername r) = low (rUsername q) \<Longrightarrow> i = j"
    and get_frame: "db_GetContext db st a d = (xg, d') \<Longrightarrow> tbl d' = tbl d"
    and get_foreign: "db_GetContext db st a d = (Inl err, d') \<Longrightarrow> errors_As_DomainError err = None"
    and email_ok: "db_GetContext db selectUserByEmail [SqlString em] d = (Inr r, d') \<Longrightarrow>
      tbl d (rId r) = Some r \<and> live_row r \<and> rEmail r = em"
    and email_none: "db_GetContext db selectUserByEmail [SqlString em] d = (Inl err, d') \<Longrightarrow>
      errors_Is err ErrNoRows \<Longrightarrow> tbl d i = Some r \<Longrightarrow> live_row r \<Longrightarrow> rEmail r \<noteq> em"
    and id_ok: "db_GetContext db selectUserByID [SqlString i] d = (Inr r, d') \<Longrightarrow>
      rId r = uid i \<and> tbl d (uid i) = Some r \<and> live_row r"
    and id_none: "db_GetContext db selectUserByID [SqlString i] d = (Inl err, d') \<Longrightarrow>
      errors_Is err ErrNoRows \<Longrightarrow> \<not> has_live (tbl d) (uid i)"
    and insert_ok: "db_NamedQueryContext db insertUser r d = (Inr rows, d') \<Longrightarrow>
      \<exists>i. tbl d i = None \<and> tbl d' = (tbl d)(i \<mapsto> inserted_row ts r i) \<and>
        (rows = [Inr (inserted_row ts r i)] \<or> rows = [] \<or> (\<exists>x. rows = [Inl x]))"
    and insert_err: "db_NamedQueryContext db insertUser r d = (Inl err, d') \<Longrightarrow>
      tbl d' = tbl d \<or>
      (\<exists>i. tbl d i = None \<and> tbl d' = (tbl d)(i \<mapsto> inserted_row ts r i))"
    and insert_conflict: "db_NamedQueryContext db insertUser r d = (Inl err, d') \<Longrightarrow>
      errors_As_PqError err = Some (PqError ''23505'' msg) \<Longrightarrow> tbl d' = tbl d \<and>
      (\<exists>i q. tbl d i = Some q \<and> live_row q \<and>
        (rEmail q = rEmail r \<or> low (rUsername q) = low (rUsername r)))"
    and query_foreign: "db_NamedQueryContext db st r d = (Inl err, d') \<Longrightarrow>
      errors_As_DomainError err = None"
    and query_scan_foreign: "db_NamedQueryContext db st r d = (Inr (Inl err # rs), d') \<Longrightarrow>
      errors_As_DomainError err = None"
    and active_ok: "db_NamedQueryContext db updateUserActive r d = (Inr rows, d') \<Longrightarrow>
      \<exists>now. tbl d' = row_update (uid (rId r))
        (\<lambda>row. row\<lparr>rActive := rActive r, rUpdatedAt := Some now\<rparr>) (tbl d)"
    and active_err: "db_NamedQueryContext db updateUserActive r d = (Inl err, d') \<Longrightarrow>
      tbl d' = tbl d \<or> (\<exists>now. tbl d' = row_update (uid (rId r))
        (\<lambda>row. row\<lparr>rActive := rActive r, rUpdatedAt := Some now\<rparr>) (tbl d))"
    and password_ok: "db_NamedExecContext db updateUserPassword r d = (Inr (Inr n), d') \<Longrightarrow>
      tbl d' = row_update (uid (rId r)) (password_row ts r) (tbl d) \<and>
      (n = 0 \<longleftrightarrow> \<not> has_live (tbl d) (uid (rId r)))"
    and password_err: "db_NamedExecContext db updateUserPassword r d = (xp, d') \<Longrightarrow>
      tbl d' = tbl d \<or> tbl d' = row_update (uid (rId r)) (password_row ts r) (tbl d)"
    and exec_foreign:
      "db_NamedExecContext db st r d = (Inl err, d') \<Longrightarrow> errors_As_DomainError err = None"
      "db_NamedExecContext db st r d = (Inr (Inl err), d') \<Longrightarrow> errors_As_DomainError err = None"
    and delete_ok: "db_ExecContext db softDeleteUser [SqlString i] d = (Inr (Inr n), d') \<Longrightarrow>
      \<exists>now. tbl d' = row_update (uid i)
        (\<lambda>row. row\<lparr>rDeletedAt := Some now, rUpdatedAt := Some now\<rparr>) (tbl d) \<and>
      (n = 0 \<longleftrightarrow> \<not> has_live (tbl d) (uid i))"
    and delete_err: "db_ExecContext db softDeleteUser [SqlString i] d = (xp, d') \<Longrightarrow>
      tbl d' = tbl d \<or> (\<exists>now. tbl d' = row_update (uid i)
        (\<lambda>row. row\<lparr>rDeletedAt := Some now, rUpdatedAt := Some now\<rparr>) (tbl d))"
    and delete_foreign:
      "db_ExecContext db softDeleteUser a d = (Inl err, d') \<Longrightarrow> errors_As_DomainError err = None"
      "db_ExecContext db softDeleteUser a d = (Inr (Inl err), d') \<Longrightarrow> errors_As_DomainError err = None"
    and list_frame: "db_SelectContext db st a d = (xl, d') \<Longrightarrow> tbl d' = tbl d"
    and list_ok: "db_SelectContext db (list_stmt nodel role act)
        ((if role then [SqlInt rl] else []) @ [SqlInt lim, SqlInt off]) d = (Inr pg, d') \<Longrightarrow>
      0 \<le> lim \<Longrightarrow> 0 \<le> off \<Longrightarrow>
      page (tbl d) (\<lambda>r. (nodel \<longrightarrow> live_row r) \<and> (role \<longrightarrow> rRoleId r = rl) \<and> (act \<longrightarrow> rActive r))
        lim off pg"

text \<open>The builder of \<^verbatim>\<open>List\<close> sends one of the eight texts, with the placeholders numbered in
  the order of the arguments.\<close>

lemma Itoa_small: "Itoa 1 = ''1''" "Itoa 2 = ''2''" "Itoa 3 = ''3''"
  by (simp_all add: Itoa_def nat_to_dec.simps digit_char_def char_of_def bit_iff_odd)

lemma list_query_stmt:
  "list_query flt offset limit =
     (list_stmt (\<not> fIncludeDeleted flt) (fRoleID flt \<noteq> 0) (fActiveOnly flt),
      (if fRoleID flt \<noteq> 0 then [SqlInt (fRoleID flt)] else []) @
      [SqlInt (if limit \<le> 0 \<or> limit > hardLimit then hardLimit else limit),
       SqlInt (if offset < 0 then 0 else offset)])"
  by (cases "fIncludeDeleted flt"; cases "fRoleID flt = 0"; cases "fActiveOnly flt")
     (simp_all add: list_query_def Let_def Itoa_small)

lemma list_rows_map: "list_rows acc rs = acc @ map ToV1Domain rs"
  by (induction acc rs rule: list_rows.induct) auto

section \<open>The contract of the interface\<close>

definition user_update :: "string \<Rightarrow> (User \<Rightarrow> User) \<Rightarrow> (string \<rightharpoonup> User) \<Rightarrow> (string \<rightharpoonup> User)" where
  "user_update i f m =
     (case m i of None \<Rightarrow> m | Some u \<Rightarrow> if live u then m(i \<mapsto> f u) else m)"

definition live_user :: "(string \<rightharpoonup> User) \<Rightarrow> string \<Rightarrow> bool" where
  "live_user m i \<longleftrightarrow> (\<exists>u. m i = Some u \<and> live u)"

definition stored_user :: "(time \<Rightarrow> time) \<Rightarrow> User \<Rightarrow> string \<Rightarrow> User" where
  "stored_user ts u i =
     u\<lparr>uID := i, uActive := False, uCreatedAt := ts (uCreatedAt u), uUpdatedAt := None,
       uDeletedAt := None, uPasswordChangedAt := None\<rparr>"

definition password_user :: "(time \<Rightarrow> time) \<Rightarrow> User \<Rightarrow> User \<Rightarrow> User" where
  "password_user ts u v =
     v\<lparr>uPassword := uPassword u, uPasswordChangedAt := map_option ts (uPasswordChangedAt u),
       uUpdatedAt := map_option ts (uUpdatedAt u)\<rparr>"

locale user_repository =
  fixes R :: "'d UserRepository" and uv :: "'d \<Rightarrow> (string \<rightharpoonup> User)"
    and ts :: "time \<Rightarrow> time" and uid :: "string \<Rightarrow> string" and low :: "string \<Rightarrow> string"
  assumes uv_key: "uv d i = Some u \<Longrightarrow> uID u = i \<and> uid i = i"
    and uv_email_unique: "uv d i = Some u \<Longrightarrow> live u \<Longrightarrow> uv d j = Some v \<Longrightarrow> live v \<Longrightarrow>
      uEmail u = uEmail v \<Longrightarrow> i = j"
    and GetByEmail_frame: "repo_GetByEmail R u d = (x, d') \<Longrightarrow> uv d' = uv d"
    and GetByEmail_ok: "repo_GetByEmail R u d = (Inr v, d') \<Longrightarrow>
      uv d (uID v) = Some v \<and> live v \<and> uEmail v = uEmail u"
    and GetByEmail_err: "repo_GetByEmail R u d = (Inl err, d') \<Longrightarrow>
      errors_As_DomainError err = None \<or>
      (err = NotFound ''user not found'' \<and>
       (\<forall>i v. uv d i = Some v \<longrightarrow> live v \<longrightarrow> uEmail v \<noteq> uEmail u))"
    and GetByID_frame: "repo_GetByID R i d = (x, d') \<Longrightarrow> uv d' = uv d"
    and GetByID_ok: "repo_GetByID R i d = (Inr v, d') \<Longrightarrow>
      uID v = uid i \<and> uv d (uid i) = Some v \<and> live v"
    and GetByID_err: "repo_GetByID R i d = (Inl err, d') \<Longrightarrow>
      errors_As_DomainError err = None \<or>
      (err = NotFound ''user not found'' \<and> \<not> live_user (uv d) (uid i))"
    and Store_ok: "repo_Store R u d = (Inr v, d') \<Longrightarrow>
      \<exists>i. uv d i = None \<and> v = stored_user ts u i \<and> uv d' = (uv d)(i \<mapsto> v)"
    and Store_err: "repo_Store R u d = (Inl err, d') \<Longrightarrow>
      uv d' = uv d \<or> (\<exists>i. uv d i = None \<and> uv d' = (uv d)(i \<mapsto> stored_user ts u i))"
    and Store_err_type: "repo_Store R u d = (Inl err, d') \<Longrightarrow>
      errors_As_DomainError err = None \<or>
      (err = Conflict ''username or email already exists'' \<and> uv d' = uv d \<and>
       (\<exists>i v. uv d i = Some v \<and> live v \<and>
          (uEmail v = uEmail u \<or> low (uUsername v) = low (uUsername u))))"
    and ChangeActive_ok: "repo_ChangeActiveUser R u d = (None, d') \<Longrightarrow>
      \<exists>now. uv d' = user_update (uid (uID u))
        (\<lambda>v. v\<lparr>uActive := uActive u, uUpdatedAt := Some now\<rparr>) (uv d)"
    and ChangeActive_err: "repo_ChangeActiveUser R u d = (Some err, d') \<Longrightarrow>
      uv d' = uv d \<or> (\<exists>now. uv d' = user_update (uid (uID u))
        (\<lambda>v. v\<lparr>uActive := uActive u, uUpdatedAt := Some now\<rparr>) (uv d))"
    and UpdatePassword_ok: "repo_UpdatePassword R u d = (None, d') \<Longrightarrow>
      live_user (uv d) (uid (uID u)) \<and>
      uv d' = user_update (uid (uID u)) (password_user ts u) (uv d)"
    and UpdatePassword_err: "repo_UpdatePassword R u d = (Some err, d') \<Longrightarrow>
      (errors_As_DomainError err = None \<and>
        (uv d' = uv d \<or> uv d' = user_update (uid (uID u)) (password_user ts u) (uv d))) \<or>
      (err = NotFound ''user not found'' \<and> uv d' = uv d \<and> \<not> live_user (uv d) (uid (uID u)))"
    and SoftDelete_ok: "repo_SoftDelete R i d = (None, d') \<Longrightarrow>
      live_user (uv d) (uid i) \<and> (\<exists>now. uv d' = user_update (uid i)
        (\<lambda>v. v\<lparr>uDeletedAt := Some now, uUpdatedAt := Some now\<rparr>) (uv d))"
    and SoftDelete_err: "repo_SoftDelete R i d = (Some err, d') \<Longrightarrow>
      errors_As_DomainError err = None \<or>
      (err = NotFound ''user not found'' \<and> uv d' = uv d \<and> \<not> live_user (uv d) (uid i))"

text \<open>The entity view of a table.\<close>

definition domain_view :: "('d \<Rightarrow> (string \<rightharpoonup> Users)) \<Rightarrow> 'd \<Rightarrow> (string \<rightharpoonup> User)" where
  "domain_view tbl d i = map_option ToV1Domain (tbl d i)"

lemma domain_view_Some:
  "domain_view tbl d i = Some u \<longleftrightarrow> tbl d i = Some (FromUsersV1Domain u)"
  by (cases "tbl d i") (auto simp: domain_view_def)

lemma domain_view_upd:
  "tbl d' = (tbl d)(i \<mapsto> r) \<Longrightarrow> domain_view tbl d' = (domain_view tbl d)(i \<mapsto> ToV1Domain r)"
  by (auto simp: domain_view_def)

lemma domain_view_same: "tbl d' = tbl d \<Longrightarrow> domain_view tbl d' = domain_view tbl d"
  by (auto simp: domain_view_def)

lemma live_user_domain_view: "live_user (domain_view tbl d) i \<longleftrightarrow> has_live (tbl d) i"
  by (auto simp: live_user_def has_live_def domain_view_def)

lemma domain_view_row_update:
  assumes "tbl d' = row_update i f (tbl d)" and "\<And>r. ToV1Domain (f r) = g (ToV1Domain r)"
  shows "domain_view tbl d' = user_update i g (domain_view tbl d)"
proof (rule ext)
  fix j
  show "domain_view tbl d' j = user_update i g (domain_view tbl d) j"
    by (cases "tbl d i")
       (simp_all add: assms domain_view_def user_update_def row_update_def)
qed

lemma ToV1Domain_updates:
  "ToV1Domain (password_row ts (FromUsersV1Domain u) r) = password_user ts u (ToV1Domain r)"
  "ToV1Domain (inserted_row ts (FromUsersV1Domain u) i) = stored_user ts u i"
  "ToV1Domain (r\<lparr>rActive := a, rUpdatedAt := x\<rparr>) = (ToV1Domain r)\<lparr>uActive := a, uUpdatedAt := x\<rparr>"
  "ToV1Domain (r\<lparr>rDeletedAt := y, rUpdatedAt := x\<rparr>) =
     (ToV1Domain r)\<lparr>uDeletedAt := y, uUpdatedAt := x\<rparr>"
  by (simp_all add: ToV1Domain_def password_row_def password_user_def inserted_row_def
      stored_user_def)

end
