(* ===== verification/Cache_Ristretto.thy ===== *)
theory Cache_Ristretto
  imports Domain_Users
begin

text \<open>
  \<^verbatim>\<open>internal/datasources/caches/cache.ristretto.go\<close>: the in-process cache. The ristretto
  library is a parameter with the locale \<open>ristretto_lib\<close> of its documented behaviour: admission
  is best effort (a write may be dropped, entries are evicted and expire at any time), a read
  returns only a value that was written under the key since its last deletion. The view \<open>cv\<close> gives
  for each key the value a later read may still return, buffered writes included.
\<close>

text \<open>A Go \<^verbatim>\<open>interface{}\<close> value of the cache: a \<^verbatim>\<open>domain.User\<close> or something else.\<close>

datatype anyval = AnyUser User | AnyOther string

record 'k ristr_Cache =
  ristr_SetWithTTL :: "string \<Rightarrow> anyval \<Rightarrow> int \<Rightarrow> duration \<Rightarrow> 'k \<Rightarrow> bool \<times> 'k"
  ristr_Get :: "string \<Rightarrow> 'k \<Rightarrow> anyval option \<times> 'k"
  ristr_Del :: "string \<Rightarrow> 'k \<Rightarrow> 'k"

locale ristretto_lib =
  fixes lib :: "'k ristr_Cache" and cv :: "'k \<Rightarrow> (string \<rightharpoonup> anyval)"
  assumes lib_set: "ristr_SetWithTTL lib k v c ttl s = (b, s') \<Longrightarrow> cv s' \<subseteq>\<^sub>m (cv s)(k \<mapsto> v)"
    and lib_get: "ristr_Get lib k s = (r, s') \<Longrightarrow> cv s' \<subseteq>\<^sub>m cv s"
    and lib_get_value: "ristr_Get lib k s = (Some v, s') \<Longrightarrow> cv s k = Some v"
    and lib_del: "cv (ristr_Del lib k s) \<subseteq>\<^sub>m (cv s)(k := None)"

definition defaultRistrettoTTL :: duration where
  "defaultRistrettoTTL = 5 * Minute"

record 'k RistrettoCache =
  local_Set :: "string \<Rightarrow> anyval \<Rightarrow> 'k \<Rightarrow> 'k"
  local_Get :: "string \<Rightarrow> 'k \<Rightarrow> anyval option \<times> 'k"
  local_Del :: "string list \<Rightarrow> 'k \<Rightarrow> 'k"

definition ristrettoCache_Set :: "'k ristr_Cache \<Rightarrow> string \<Rightarrow> anyval \<Rightarrow> 'k \<Rightarrow> 'k" where
  "ristrettoCache_Set cache key v s = snd (ristr_SetWithTTL cache key v 1 defaultRistrettoTTL s)"

definition ristrettoCache_Get :: "'k ristr_Cache \<Rightarrow> string \<Rightarrow> 'k \<Rightarrow> anyval option \<times> 'k" where
  "ristrettoCache_Get cache key s = ristr_Get cache key s"

fun ristrettoCache_Del :: "'k ristr_Cache \<Rightarrow> string list \<Rightarrow> 'k \<Rightarrow> 'k" where
  "ristrettoCache_Del cache [] s = s"
| "ristrettoCache_Del cache (i # key) s = ristrettoCache_Del cache key (ristr_Del cache i s)"

definition NewRistrettoCache :: "'k ristr_Cache \<Rightarrow> 'k RistrettoCache" where
  "NewRistrettoCache cache =
     \<lparr>local_Set = ristrettoCache_Set cache, local_Get = ristrettoCache_Get cache,
      local_Del = ristrettoCache_Del cache\<rparr>"

lemma NewRistrettoCache_sel [simp]:
  "local_Set (NewRistrettoCache cache) = ristrettoCache_Set cache"
  "local_Get (NewRistrettoCache cache) = ristrettoCache_Get cache"
  "local_Del (NewRistrettoCache cache) = ristrettoCache_Del cache"
  by (simp_all add: NewRistrettoCache_def)

text \<open>The contract of the interface: \<^verbatim>\<open>Del\<close> removes all the keys it is given.\<close>

locale ristretto_cache =
  fixes L :: "'k RistrettoCache" and cv :: "'k \<Rightarrow> (string \<rightharpoonup> anyval)"
  assumes local_set: "cv (local_Set L k v s) \<subseteq>\<^sub>m (cv s)(k \<mapsto> v)"
    and local_get: "local_Get L k s = (r, s') \<Longrightarrow> cv s' \<subseteq>\<^sub>m cv s"
    and local_get_value: "local_Get L k s = (Some v, s') \<Longrightarrow> cv s k = Some v"
    and local_del: "cv (local_Del L ks s) \<subseteq>\<^sub>m (cv s) |` (- set ks)"

lemma map_le_restrict_upd:
  "m' \<subseteq>\<^sub>m m(k := None) \<Longrightarrow> m'' \<subseteq>\<^sub>m m' |` (- A) \<Longrightarrow> m'' \<subseteq>\<^sub>m m |` (- insert k A)"
  by (auto simp: map_le_def dom_def restrict_map_def split: if_splits) force+

sublocale ristretto_lib \<subseteq> local_cache: ristretto_cache "NewRistrettoCache lib" cv
proof
  fix k v s
  show "cv (local_Set (NewRistrettoCache lib) k v s) \<subseteq>\<^sub>m (cv s)(k \<mapsto> v)"
    using lib_set by (metis NewRistrettoCache_sel(1) ristrettoCache_Set_def surjective_pairing)
next
  fix ks s
  show "cv (local_Del (NewRistrettoCache lib) ks s) \<subseteq>\<^sub>m (cv s) |` (- set ks)"
  proof (induction ks arbitrary: s)
    case Nil
    then show ?case by (simp add: restrict_map_def map_le_def)
  next
    case (Cons k ks)
    then show ?case
      using lib_del [of k s] map_le_restrict_upd by fastforce
  qed
qed (auto simp: ristrettoCache_Get_def dest: lib_get lib_get_value)

text \<open>A reference library: a map with no eviction; the flag drops every write.\<close>

record ref_ristr =
  rk_map :: "string \<rightharpoonup> anyval"
  rk_drop :: bool

definition ref_ristr_lib :: "ref_ristr ristr_Cache" where
  "ref_ristr_lib =
     \<lparr>ristr_SetWithTTL = (\<lambda>k v c ttl s.
        if rk_drop s then (False, s\<lparr>rk_map := (rk_map s)(k := None)\<rparr>)
        else (True, s\<lparr>rk_map := (rk_map s)(k \<mapsto> v)\<rparr>)),
      ristr_Get = (\<lambda>k s. (rk_map s k, s)),
      ristr_Del = (\<lambda>k s. s\<lparr>rk_map := (rk_map s)(k := None)\<rparr>)\<rparr>"

lemma ref_ristr_sel [simp]:
  "ristr_SetWithTTL ref_ristr_lib k v c ttl s =
     (if rk_drop s then (False, s\<lparr>rk_map := (rk_map s)(k := None)\<rparr>)
      else (True, s\<lparr>rk_map := (rk_map s)(k \<mapsto> v)\<rparr>))"
  "ristr_Get ref_ristr_lib k s = (rk_map s k, s)"
  "ristr_Del ref_ristr_lib k s = s\<lparr>rk_map := (rk_map s)(k := None)\<rparr>"
  by (simp_all add: ref_ristr_lib_def)

interpretation ref_ristr: ristretto_lib ref_ristr_lib rk_map
  by unfold_locales (auto simp: map_le_def split: if_splits)

end
