(* ===== verification/Usecase_Users.thy ===== *)
theory Usecase_Users
  imports Repo_Contract Cache_Ristretto
begin

text \<open>
  \<^verbatim>\<open>internal/business/usecases/users\<close>: the user use case over a repository and the in-process
  cache. Its state is the database \<open>'d\<close> and the cache \<open>'k\<close>; the environment \<open>'e\<close> is threaded.
  \<^verbatim>\<open>singleflight.Group.Do\<close> runs its function and returns its result when no other call with
  the key is in flight, which is how \<open>users_GetByEmail\<close> uses it. The contract
  \<open>users_service\<close> is what the authentication flows rely on: its main point is cache coherence.
\<close>

record ('d, 'k) users_state =
  us_db :: 'd
  us_cache :: 'k

record ('d, 'k) users_usecase =
  uu_repo :: "'d UserRepository"
  uu_ristrettoCache :: "'k RistrettoCache"
  uu_BcryptCost :: int

definition ObserveCacheOp :: "'e goenv \<Rightarrow> string \<Rightarrow> string \<Rightarrow> string \<Rightarrow> 'e \<Rightarrow> 'e" where
  "ObserveCacheOp E layer op result = counter_Inc E ''cache_operations_total'' [layer, op, result]"

definition ObserveMailerOp :: "'e goenv \<Rightarrow> string \<Rightarrow> 'e \<Rightarrow> 'e" where
  "ObserveMailerOp E result = counter_Inc E ''mailer_operations_total'' [result]"

text \<open>\<^verbatim>\<open>mapRepoError\<close> tests the dynamic type of the error itself, not of its causes.\<close>

definition mapRepoError :: "goerr \<Rightarrow> string \<Rightarrow> goerr" where
  "mapRepoError err op = (if is_DomainError err then err else InternalCause (errorf_w op err))"

definition users_Store ::
  "'e goenv \<Rightarrow> ('d, 'k) users_usecase \<Rightarrow> User \<Rightarrow> ('d, 'k) users_state \<Rightarrow> 'e \<Rightarrow>
   (goerr + User) \<times> ('d, 'k) users_state \<times> 'e" where
  "users_Store E uc inU s e =
     (case NewUser E (uUsername inU) (uEmail inU) (uPassword inU) (uRoleID inU) (uu_BcryptCost uc) e of
        (Inl buildErr, e) \<Rightarrow>
          (Inl (if errors_Is buildErr ErrEmptyUsername \<or> errors_Is buildErr ErrEmptyEmail \<or>
                   errors_Is buildErr ErrInvalidEmail \<or> errors_Is buildErr ErrEmptyPassword
                then BadRequest (Error buildErr)
                else InternalCause (errorf_w ''build user'' buildErr)), s, e)
      | (Inr user, e) \<Rightarrow>
          (case repo_Store (uu_repo uc) user (us_db s) of
             (Inl repoErr, d) \<Rightarrow> (Inl (mapRepoError repoErr ''store user''), s\<lparr>us_db := d\<rparr>, e)
           | (Inr stored, d) \<Rightarrow> (Inr stored, s\<lparr>us_db := d\<rparr>, e)))"

definition user_cacheKey :: "string \<Rightarrow> string" where
  "user_cacheKey email = ''user/'' @ email"

text \<open>The function the use case hands to \<^verbatim>\<open>singleflight\<close>: load, cache, count.\<close>

definition users_load ::
  "'e goenv \<Rightarrow> ('d, 'k) users_usecase \<Rightarrow> string \<Rightarrow> ('d, 'k) users_state \<Rightarrow> 'e \<Rightarrow>
   (goerr + User) \<times> ('d, 'k) users_state \<times> 'e" where
  "users_load E uc email s e =
     (case repo_GetByEmail (uu_repo uc) (zero_User\<lparr>uEmail := email\<rparr>) (us_db s) of
        (Inl repoErr, d) \<Rightarrow> (Inl repoErr, s\<lparr>us_db := d\<rparr>, e)
      | (Inr user, d) \<Rightarrow>
          (Inr user,
           s\<lparr>us_db := d,
             us_cache := local_Set (uu_ristrettoCache uc) (user_cacheKey email) (AnyUser user) (us_cache s)\<rparr>,
           ObserveCacheOp E ''ristretto'' ''set'' ''ok'' e))"

definition users_GetByEmail ::
  "'e goenv \<Rightarrow> ('d, 'k) users_usecase \<Rightarrow> string \<Rightarrow> ('d, 'k) users_state \<Rightarrow> 'e \<Rightarrow>
   (goerr + User) \<times> ('d, 'k) users_state \<times> 'e" where
  "users_GetByEmail E uc reqEmail s e =
     (let email = NormalizeEmail E reqEmail; cacheKey = user_cacheKey email in
      case local_Get (uu_ristrettoCache uc) cacheKey (us_cache s) of
        (Some (AnyUser cached), c) \<Rightarrow>
          (Inr cached, s\<lparr>us_cache := c\<rparr>, ObserveCacheOp E ''ristretto'' ''get'' ''hit'' e)
      | (val, c) \<Rightarrow>
          (let e = (case val of
                      Some _ \<Rightarrow> ObserveCacheOp E ''ristretto'' ''get'' ''error'' e
                    | None \<Rightarrow> ObserveCacheOp E ''ristretto'' ''get'' ''miss'' e)
           in case users_load E uc email (s\<lparr>us_cache := c\<rparr>) e of
                (Inl sfErr, s, e) \<Rightarrow> (Inl (mapRepoError sfErr ''get user by email''), s, e)
              | (Inr v, s, e) \<Rightarrow> (Inr v, s, e)))"

definition users_GetByID ::
  "('d, 'k) users_usecase \<Rightarrow> string \<Rightarrow> ('d, 'k) users_state \<Rightarrow> 'e \<Rightarrow>
   (goerr + User) \<times> ('d, 'k) users_state \<times> 'e" where
  "users_GetByID uc ident s e =
     (case repo_GetByID (uu_repo uc) ident (us_db s) of
        (Inl repoErr, d) \<Rightarrow> (Inl (mapRepoError repoErr ''get user by id''), s\<lparr>us_db := d\<rparr>, e)
      | (Inr user, d) \<Rightarrow> (Inr user, s\<lparr>us_db := d\<rparr>, e))"

definition users_Activate ::
  "'e goenv \<Rightarrow> ('d, 'k) users_usecase \<Rightarrow> string \<Rightarrow> ('d, 'k) users_state \<Rightarrow> 'e \<Rightarrow>
   goerr option \<times> ('d, 'k) users_state \<times> 'e" where
  "users_Activate E uc userID s e =
     (case Activate E (zero_User\<lparr>uID := userID\<rparr>) e of
        (u, e) \<Rightarrow>
          (case repo_ChangeActiveUser (uu_repo uc) u (us_db s) of
             (Some changeErr, d) \<Rightarrow>
               (Some (InternalCause (errorf_w ''activate user'' changeErr)), s\<lparr>us_db := d\<rparr>, e)
           | (None, d) \<Rightarrow>
               (case repo_GetByID (uu_repo uc) userID d of
                  (Inl getErr, d) \<Rightarrow> (None, s\<lparr>us_db := d\<rparr>, e)
                | (Inr existing, d) \<Rightarrow>
                    (None,
                     (if uEmail existing \<noteq> ''''
                      then s\<lparr>us_db := d, us_cache :=
                             local_Del (uu_ristrettoCache uc) [user_cacheKey (uEmail existing)] (us_cache s)\<rparr>
                      else s\<lparr>us_db := d\<rparr>), e))))"

text \<open>The request carries a pointer to the user; \<open>None\<close> is nil.\<close>

definition users_UpdatePassword ::
  "('d, 'k) users_usecase \<Rightarrow> User option \<Rightarrow> ('d, 'k) users_state \<Rightarrow> 'e \<Rightarrow>
   goerr option \<times> ('d, 'k) users_state \<times> 'e" where
  "users_UpdatePassword uc reqUser s e =
     (case reqUser of
        None \<Rightarrow> (Some (BadRequest ''user id required''), s, e)
      | Some user \<Rightarrow>
          if uID user = '''' then (Some (BadRequest ''user id required''), s, e)
          else
            (case repo_UpdatePassword (uu_repo uc) user (us_db s) of
               (Some repoErr, d) \<Rightarrow>
                 (Some (mapRepoError repoErr (''update password for '' @ uID user)), s\<lparr>us_db := d\<rparr>, e)
             | (None, d) \<Rightarrow>
                 (let (email, d) =
                        (if uEmail user = '''' then
                           (case repo_GetByID (uu_repo uc) (uID user) d of
                              (Inl getErr, d) \<Rightarrow> ('''', d)
                            | (Inr existing, d) \<Rightarrow> (uEmail existing, d))
                         else (uEmail user, d))
                  in (None,
                      (if email \<noteq> ''''
                       then s\<lparr>us_db := d, us_cache :=
                              local_Del (uu_ristrettoCache uc) [user_cacheKey email] (us_cache s)\<rparr>
                       else s\<lparr>us_db := d\<rparr>), e))))"

text \<open>The interface \<^verbatim>\<open>users.Usecase\<close> and its constructor.\<close>

record ('u, 'e) UsersUsecase =
  uc_Store :: "User \<Rightarrow> 'u \<Rightarrow> 'e \<Rightarrow> (goerr + User) \<times> 'u \<times> 'e"
  uc_GetByEmail :: "string \<Rightarrow> 'u \<Rightarrow> 'e \<Rightarrow> (goerr + User) \<times> 'u \<times> 'e"
  uc_GetByID :: "string \<Rightarrow> 'u \<Rightarrow> 'e \<Rightarrow> (goerr + User) \<times> 'u \<times> 'e"
  uc_Activate :: "string \<Rightarrow> 'u \<Rightarrow> 'e \<Rightarrow> goerr option \<times> 'u \<times> 'e"
  uc_UpdatePassword :: "User option \<Rightarrow> 'u \<Rightarrow> 'e \<Rightarrow> goerr option \<times> 'u \<times> 'e"

definition users_NewUsecase ::
  "'e goenv \<Rightarrow> 'd UserRepository \<Rightarrow> 'k RistrettoCache \<Rightarrow> int \<Rightarrow>
   (('d, 'k) users_state, 'e) UsersUsecase" where
  "users_NewUsecase E repo ristrettoCache bcryptCost =
     (let uc = \<lparr>uu_repo = repo, uu_ristrettoCache = ristrettoCache, uu_BcryptCost = bcryptCost\<rparr> in
      \<lparr>uc_Store = users_Store E uc, uc_GetByEmail = users_GetByEmail E uc,
       uc_GetByID = users_GetByID uc, uc_Activate = users_Activate E uc,
       uc_UpdatePassword = users_UpdatePassword uc\<rparr>)"

lemma users_NewUsecase_sel:
  "uc_Store (users_NewUsecase E repo rc cost) = users_Store E \<lparr>uu_repo = repo, uu_ristrettoCache = rc, uu_BcryptCost = cost\<rparr>"
  "uc_GetByEmail (users_NewUsecase E repo rc cost) = users_GetByEmail E \<lparr>uu_repo = repo, uu_ristrettoCache = rc, uu_BcryptCost = cost\<rparr>"
  "uc_GetByID (users_NewUsecase E repo rc cost) = users_GetByID \<lparr>uu_repo = repo, uu_ristrettoCache = rc, uu_BcryptCost = cost\<rparr>"
  "uc_Activate (users_NewUsecase E repo rc cost) = users_Activate E \<lparr>uu_repo = repo, uu_ristrettoCache = rc, uu_BcryptCost = cost\<rparr>"
  "uc_UpdatePassword (users_NewUsecase E repo rc cost) = users_UpdatePassword \<lparr>uu_repo = repo, uu_ristrettoCache = rc, uu_BcryptCost = cost\<rparr>"
  by (simp_all add: users_NewUsecase_def Let_def)

section \<open>Errors\<close>

lemma mapRepoError_typed: "domain_type (mapRepoError err op) \<noteq> None"
  by (cases err) (simp_all add: mapRepoError_def apperror_defs)

text \<open>Only the repository's own not-found and conflict errors keep their category: an error
  that carries no \<^verbatim>\<open>DomainError\<close> becomes an internal one.\<close>

lemma mapRepoError_foreign:
  "errors_As_DomainError err = None \<Longrightarrow> mapRepoError err op = InternalCause (errorf_w op err)"
  by (cases err) (auto simp: mapRepoError_def)

lemma mapRepoError_kept: "mapRepoError (DomainError t m c) op = DomainError t m c"
  by (simp add: mapRepoError_def)

lemma mapRepoError_NotFound [simp]: "mapRepoError (NotFound m) op = NotFound m"
  by (simp add: apperror_defs mapRepoError_kept)

lemma mapRepoError_Conflict [simp]: "mapRepoError (Conflict m) op = Conflict m"
  by (simp add: apperror_defs mapRepoError_kept)

lemma domain_type_constructors [simp]:
  "domain_type (NotFound m) = Some ErrTypeNotFound" "domain_type (Conflict m) = Some ErrTypeConflict"
  "domain_type (BadRequest m) = Some ErrTypeBadRequest"
  "domain_type (Unauthorized m) = Some ErrTypeUnauthorized"
  "domain_type (Forbidden m) = Some ErrTypeForbidden"
  "domain_type (Internal m) = Some ErrTypeInternal"
  "domain_type (InternalCause x) = Some ErrTypeInternal"
  by (simp_all add: apperror_defs)

end
