(* ===== verification/Go_Json.thy ===== *)
theory Go_Json
  imports Go_Lib
begin

text \<open>
  \<^verbatim>\<open>encoding/json\<close> on strings, the codec the Redis cache puts between its callers and the
  server: \<^verbatim>\<open>json.Marshal\<close> of a Go string (with the default HTML escaping) and
  \<^verbatim>\<open>json.Unmarshal\<close> into a \<^verbatim>\<open>*string\<close>, over UTF-8 bytes. The main lemma is the round
  trip on ASCII strings, which is what the cache stores (identifiers, codes, tokens, decimals).
\<close>

section \<open>UTF-8\<close>

definition in_range :: "nat \<Rightarrow> nat \<Rightarrow> char \<Rightarrow> bool" where
  "in_range lo hi c \<longleftrightarrow> lo \<le> byte_val c \<and> byte_val c \<le> hi"

text \<open>The length of the valid multi-byte sequence a string starts with; 0 if there is none.\<close>

fun utf8_len :: "string \<Rightarrow> nat" where
  "utf8_len (a # b # rest) =
     (if in_range 0xC2 0xDF a then (if in_range 0x80 0xBF b then 2 else 0)
      else if in_range 0xE0 0xEF a then
        (case rest of
           c # _ \<Rightarrow>
             (if in_range (if byte_val a = 0xE0 then 0xA0 else 0x80)
                          (if byte_val a = 0xED then 0x9F else 0xBF) b
                 \<and> in_range 0x80 0xBF c then 3 else 0)
         | [] \<Rightarrow> 0)
      else if in_range 0xF0 0xF4 a then
        (case rest of
           c # d # _ \<Rightarrow>
             (if in_range (if byte_val a = 0xF0 then 0x90 else 0x80)
                          (if byte_val a = 0xF4 then 0x8F else 0xBF) b
                 \<and> in_range 0x80 0xBF c \<and> in_range 0x80 0xBF d then 4 else 0)
         | _ \<Rightarrow> 0)
      else 0)"
| "utf8_len _ = 0"

definition utf8_encode :: "nat \<Rightarrow> string" where
  "utf8_encode r =
     (if r < 0x80 then [char_of r]
      else if r < 0x800 then [char_of (0xC0 + r div 64), char_of (0x80 + r mod 64)]
      else if r < 0x10000 then
        [char_of (0xE0 + r div 4096), char_of (0x80 + r div 64 mod 64), char_of (0x80 + r mod 64)]
      else
        [char_of (0xF0 + r div 262144), char_of (0x80 + r div 4096 mod 64),
         char_of (0x80 + r div 64 mod 64), char_of (0x80 + r mod 64)])"

text \<open>U+FFFD, the replacement character.\<close>

definition utf8_RuneError :: string where
  "utf8_RuneError = [CHR 0xEF, CHR 0xBF, CHR 0xBD]"

section \<open>Marshal\<close>

definition hex_digit :: "nat \<Rightarrow> char" where
  "hex_digit d = (if d < 10 then char_of (48 + d) else char_of (87 + d))"

definition json_quote :: char where "json_quote = CHR 0x22"
definition json_backslash :: char where "json_backslash = CHR 0x5C"

definition json_escape :: "char \<Rightarrow> string" where
  "json_escape c =
     (if c = json_quote \<or> c = json_backslash then [json_backslash, c]
      else if c = CHR 0x08 then [json_backslash, CHR ''b'']
      else if c = CHR 0x0C then [json_backslash, CHR ''f'']
      else if c = CHR 0x0A then [json_backslash, CHR ''n'']
      else if c = CHR 0x0D then [json_backslash, CHR ''r'']
      else if c = CHR 0x09 then [json_backslash, CHR ''t'']
      else if byte_val c < 0x20 \<or> c = CHR ''<'' \<or> c = CHR ''>'' \<or> c = CHR ''&'' then
        [json_backslash, CHR ''u'', CHR ''0'', CHR ''0'',
         hex_digit (byte_val c div 16), hex_digit (byte_val c mod 16)]
      else [c])"

function json_body :: "string \<Rightarrow> string" where
  "json_body [] = []"
| "json_body (c # s) =
     (if is_ascii c then json_escape c @ json_body s
      else (let n = utf8_len (c # s) in
        if n = 0 then json_backslash # ''ufffd'' @ json_body s
        else if take n (c # s) = [CHR 0xE2, CHR 0x80, CHR 0xA8]
          then json_backslash # ''u2028'' @ json_body (drop (n - 1) s)
        else if take n (c # s) = [CHR 0xE2, CHR 0x80, CHR 0xA9]
          then json_backslash # ''u2029'' @ json_body (drop (n - 1) s)
        else take n (c # s) @ json_body (drop (n - 1) s)))"
  by pat_completeness auto
termination
  by (relation "measure length") auto

definition json_Marshal :: "string \<Rightarrow> string" where
  "json_Marshal s = [json_quote] @ json_body s @ [json_quote]"

section \<open>Unmarshal\<close>

definition hex_val :: "char \<Rightarrow> nat option" where
  "hex_val c =
     (if in_range 48 57 c then Some (byte_val c - 48)
      else if in_range 97 102 c then Some (byte_val c - 87)
      else if in_range 65 70 c then Some (byte_val c - 55)
      else None)"

fun hex4 :: "string \<Rightarrow> nat option" where
  "hex4 (a # b # c # d # _) =
     (case (hex_val a, hex_val b, hex_val c, hex_val d) of
        (Some w, Some x, Some y, Some z) \<Rightarrow> Some (4096 * w + 256 * x + 16 * y + z)
      | _ \<Rightarrow> None)"
| "hex4 _ = None"

text \<open>
  The rune after \<^verbatim>\<open>\u\<close> and the bytes it takes there: a surrogate pair is two escapes, a lone
  surrogate decodes to U+FFFD.
\<close>

definition json_u_escape :: "string \<Rightarrow> (string \<times> nat) option" where
  "json_u_escape s =
     (case hex4 s of
        None \<Rightarrow> None
      | Some r \<Rightarrow>
          (if 0xD800 \<le> r \<and> r < 0xE000 then
             (case drop 4 s of
                x # y # t \<Rightarrow>
                  (if x = json_backslash \<and> y = CHR ''u'' then
                     (case hex4 t of
                        Some r2 \<Rightarrow>
                          (if r < 0xDC00 \<and> 0xDC00 \<le> r2 \<and> r2 < 0xE000
                           then Some (utf8_encode (0x10000 + (r - 0xD800) * 1024 + (r2 - 0xDC00)), 10)
                           else Some (utf8_RuneError, 4))
                      | None \<Rightarrow> Some (utf8_RuneError, 4))
                   else Some (utf8_RuneError, 4))
              | _ \<Rightarrow> Some (utf8_RuneError, 4))
           else Some (utf8_encode r, 4)))"

text \<open>One unit of a string literal: what it decodes to, and how many bytes of \<open>t\<close> it takes
  after its first byte \<open>c\<close>.\<close>

definition json_unit :: "char \<Rightarrow> string \<Rightarrow> (string \<times> nat) option" where
  "json_unit c t =
     (if c = json_backslash then
        (case t of
           [] \<Rightarrow> None
         | e # u \<Rightarrow>
             (if e = json_quote \<or> e = json_backslash \<or> e = CHR ''/'' then Some ([e], 1)
              else if e = CHR ''b'' then Some ([CHR 0x08], 1)
              else if e = CHR ''f'' then Some ([CHR 0x0C], 1)
              else if e = CHR ''n'' then Some ([CHR 0x0A], 1)
              else if e = CHR ''r'' then Some ([CHR 0x0D], 1)
              else if e = CHR ''t'' then Some ([CHR 0x09], 1)
              else if e = CHR ''u'' then map_option (\<lambda>(out, n). (out, Suc n)) (json_u_escape u)
              else None))
      else if byte_val c < 0x20 then None
      else if is_ascii c then Some ([c], 0)
      else (let n = utf8_len (c # t) in
        if n = 0 then Some (utf8_RuneError, 0) else Some (take n (c # t), n - 1)))"

function json_scan :: "string \<Rightarrow> (string \<times> string) option" where
  "json_scan [] = None"
| "json_scan (c # t) =
     (if c = json_quote then Some ([], t)
      else case json_unit c t of
             None \<Rightarrow> None
           | Some (out, n) \<Rightarrow>
               map_option (\<lambda>(v, rest). (out @ v, rest)) (json_scan (drop n t)))"
  by pat_completeness auto
termination
  by (relation "measure length") auto

definition json_ws :: "char \<Rightarrow> bool" where
  "json_ws c \<longleftrightarrow> c = CHR 0x20 \<or> c = CHR 0x09 \<or> c = CHR 0x0A \<or> c = CHR 0x0D"

text \<open>
  Into a \<^verbatim>\<open>*string\<close>: a string literal gives its value, \<^verbatim>\<open>null\<close> leaves the zero value, every
  other text is a syntax or type error (\<open>None\<close>).
\<close>

definition json_Unmarshal :: "string \<Rightarrow> string option" where
  "json_Unmarshal raw =
     (let t = dropWhile json_ws raw in
      case t of
        [] \<Rightarrow> None
      | c # u \<Rightarrow>
          (if c = json_quote then
             (case json_scan u of
                Some (v, rest) \<Rightarrow> (if list_all json_ws rest then Some v else None)
              | None \<Rightarrow> None)
           else if starts_with ''null'' t \<and> list_all json_ws (drop 4 t) then Some ''''
           else None))"

section \<open>Round trip\<close>

lemma in_range_hex_digit:
  "d < 16 \<Longrightarrow> hex_val (hex_digit d) = Some d"
  by (auto simp: hex_val_def hex_digit_def in_range_def)

lemma json_scan_unit:
  "c \<noteq> json_quote \<Longrightarrow> json_unit c t = Some (out, n) \<Longrightarrow>
   json_scan (c # t) = map_option (\<lambda>(v, rest). (out @ v, rest)) (json_scan (drop n t))"
  by simp

lemma json_quote_not_backslash: "json_backslash \<noteq> json_quote"
  by (simp add: json_quote_def json_backslash_def)

lemma json_special_distinct:
  "CHR 0x08 \<noteq> json_quote" "CHR 0x08 \<noteq> json_backslash"
  "CHR 0x0C \<noteq> json_quote" "CHR 0x0C \<noteq> json_backslash"
  "CHR 0x0A \<noteq> json_quote" "CHR 0x0A \<noteq> json_backslash"
  "CHR 0x0D \<noteq> json_quote" "CHR 0x0D \<noteq> json_backslash"
  "CHR 0x09 \<noteq> json_quote" "CHR 0x09 \<noteq> json_backslash"
  by (simp_all add: json_quote_def json_backslash_def)

lemma json_unit_escapes:
  "json_unit json_backslash (json_quote # t) = Some ([json_quote], 1)"
  "json_unit json_backslash (json_backslash # t) = Some ([json_backslash], 1)"
  "json_unit json_backslash (CHR ''b'' # t) = Some ([CHR 0x08], 1)"
  "json_unit json_backslash (CHR ''f'' # t) = Some ([CHR 0x0C], 1)"
  "json_unit json_backslash (CHR ''n'' # t) = Some ([CHR 0x0A], 1)"
  "json_unit json_backslash (CHR ''r'' # t) = Some ([CHR 0x0D], 1)"
  "json_unit json_backslash (CHR ''t'' # t) = Some ([CHR 0x09], 1)"
  by (simp_all add: json_unit_def json_quote_def json_backslash_def)

lemma json_unit_u:
  assumes "byte_val c < 128"
  shows "json_unit json_backslash (CHR ''u'' # CHR ''0'' # CHR ''0'' #
           hex_digit (byte_val c div 16) # hex_digit (byte_val c mod 16) # t) = Some ([c], 5)"
proof -
  have "hex_val CHR ''0'' = Some 0"
    by (simp add: hex_val_def in_range_def byte_val_def)
  then have "hex4 (CHR ''0'' # CHR ''0'' # hex_digit (byte_val c div 16) #
               hex_digit (byte_val c mod 16) # t) = Some (byte_val c)"
    using assms by (simp add: in_range_hex_digit)
  then have "json_u_escape (CHR ''0'' # CHR ''0'' # hex_digit (byte_val c div 16) #
               hex_digit (byte_val c mod 16) # t) = Some ([c], 4)"
    using assms by (simp add: json_u_escape_def utf8_encode_def del: hex4.simps)
  then show ?thesis by (simp add: json_unit_def json_quote_def json_backslash_def)
qed

text \<open>Each escape decodes to the byte it came from, whatever follows it.\<close>

lemma json_escape_scan:
  assumes "is_ascii c"
  shows "json_scan (json_escape c @ t) =
         map_option (\<lambda>(v, rest). (c # v, rest)) (json_scan t)"
proof -
  note esc = json_scan_unit [OF json_quote_not_backslash]
  consider "c = json_quote \<or> c = json_backslash"
    | "c = CHR 0x08" | "c = CHR 0x0C" | "c = CHR 0x0A" | "c = CHR 0x0D" | "c = CHR 0x09"
    | (u) "json_escape c = [json_backslash, CHR ''u'', CHR ''0'', CHR ''0'',
         hex_digit (byte_val c div 16), hex_digit (byte_val c mod 16)]"
    | (plain) "json_escape c = [c]" and "c \<noteq> json_quote" and "c \<noteq> json_backslash"
        and "\<not> byte_val c < 0x20"
    unfolding json_escape_def by presburger
  then show ?thesis
  proof cases
    case 1
    then have "json_escape c = [json_backslash, c]" by (simp add: json_escape_def)
    moreover have "json_unit json_backslash (c # t) = Some ([c], 1)"
      using 1 json_unit_escapes(1,2) by auto
    ultimately show ?thesis by (simp add: esc del: json_scan.simps)
  next
    case u
    have "byte_val c < 128" using assms by (simp add: is_ascii_def)
    then show ?thesis by (simp add: u esc [OF json_unit_u] del: json_scan.simps)
  next
    case plain
    then have "json_unit c t = Some ([c], 0)" using assms by (simp add: json_unit_def)
    then show ?thesis using plain by (simp add: json_scan_unit del: json_scan.simps)
  qed (simp_all add: json_escape_def json_quote_def [symmetric] json_backslash_def [symmetric]
        esc [OF json_unit_escapes(3)] esc [OF json_unit_escapes(4)] esc [OF json_unit_escapes(5)]
        esc [OF json_unit_escapes(6)] esc [OF json_unit_escapes(7)]
        json_special_distinct del: json_scan.simps)
qed

lemma json_body_scan:
  "ascii s \<Longrightarrow> json_scan (json_body s @ json_quote # t) = Some (s, t)"
  by (induction s) (simp_all add: json_escape_scan)

lemma json_roundtrip: "ascii s \<Longrightarrow> json_Unmarshal (json_Marshal s) = Some s"
proof -
  assume "ascii s"
  then have "json_scan (json_body s @ [json_quote]) = Some (s, [])"
    by (rule json_body_scan)
  moreover have "\<not> json_ws json_quote" by (simp add: json_ws_def json_quote_def)
  ultimately show ?thesis by (simp add: json_Unmarshal_def json_Marshal_def)
qed

text \<open>A decimal counter written by the server is not a JSON string, so reading it is an error.\<close>

lemma json_Unmarshal_decimal: "json_Unmarshal (Itoa n) = None"
proof -
  have "\<exists>c s. Itoa n = c # s \<and> (is_digit c \<or> c = CHR ''-'')"
    using nat_to_dec_Cons [of "nat n"] unfolding Itoa_def by (cases "n < 0") auto
  then obtain c s where cs: "Itoa n = c # s" and c: "is_digit c \<or> c = CHR ''-''" by blast
  have no: "\<not> is_digit CHR 0x20" "\<not> is_digit CHR 0x09" "\<not> is_digit CHR 0x0A"
      "\<not> is_digit CHR 0x0D" "\<not> is_digit CHR 0x22" "\<not> is_digit CHR ''n''"
    by (simp_all add: is_digit_def byte_val_def)
  have "\<not> json_ws CHR ''-''" by (simp add: json_ws_def)
  with c no have "\<not> json_ws c" unfolding json_ws_def by metis
  moreover from c no(5) have "c \<noteq> json_quote" unfolding json_quote_def by fastforce
  moreover from c no(6) have "c \<noteq> CHR ''n''" by fastforce
  ultimately show ?thesis using cs by (simp add: json_Unmarshal_def)
qed

end
