(* ===== verification/Redis_Keys.thy ===== *)
theory Redis_Keys
  imports Go_Lib
begin

text \<open>
  \<^verbatim>\<open>internal/business/usecases/auth/auth.redis_keys.go\<close>: the eight families of Redis keys of
  the authentication flows. Each constructor is injective and the families are pairwise disjoint,
  whatever the suffixes are (the prefixes are prefix-free), so no flow can address the entry of
  another through a crafted e-mail, token or identifier.
\<close>

definition prefixRefresh :: string where "prefixRefresh = ''refresh:''"
definition prefixUserOTP :: string where "prefixUserOTP = ''user_otp:''"
definition prefixOTPAttempts :: string where "prefixOTPAttempts = ''otp_attempts:''"
definition prefixLoginAttempts :: string where "prefixLoginAttempts = ''login_attempts:''"
definition prefixForgotAttempts :: string where "prefixForgotAttempts = ''forgot_attempts:''"
definition prefixPasswordReset :: string where "prefixPasswordReset = ''pwd_reset:''"
definition prefixUserResetIndex :: string where "prefixUserResetIndex = ''pwd_reset_user:''"
definition prefixPasswordCutoff :: string where "prefixPasswordCutoff = ''pwd_cutoff:''"

definition RefreshKey :: "string \<Rightarrow> string" where
  "RefreshKey jti = prefixRefresh @ jti"

definition UserOTPKey :: "string \<Rightarrow> string" where
  "UserOTPKey email = prefixUserOTP @ email"

definition OTPAttemptsKey :: "string \<Rightarrow> string" where
  "OTPAttemptsKey email = prefixOTPAttempts @ email"

definition LoginAttemptsKey :: "string \<Rightarrow> string" where
  "LoginAttemptsKey email = prefixLoginAttempts @ email"

definition ForgotAttemptsKey :: "string \<Rightarrow> string" where
  "ForgotAttemptsKey email = prefixForgotAttempts @ email"

definition PasswordResetKey :: "string \<Rightarrow> string" where
  "PasswordResetKey token = prefixPasswordReset @ token"

definition UserResetIndexKey :: "string \<Rightarrow> string" where
  "UserResetIndexKey userID = prefixUserResetIndex @ userID"

definition TokenCutoffKey :: "string \<Rightarrow> string" where
  "TokenCutoffKey userID = prefixPasswordCutoff @ userID"

lemmas key_defs =
  RefreshKey_def UserOTPKey_def OTPAttemptsKey_def LoginAttemptsKey_def ForgotAttemptsKey_def
  PasswordResetKey_def UserResetIndexKey_def TokenCutoffKey_def
  prefixRefresh_def prefixUserOTP_def prefixOTPAttempts_def prefixLoginAttempts_def
  prefixForgotAttempts_def prefixPasswordReset_def prefixUserResetIndex_def
  prefixPasswordCutoff_def

lemma key_inject [simp]:
  "RefreshKey a = RefreshKey b \<longleftrightarrow> a = b"
  "UserOTPKey a = UserOTPKey b \<longleftrightarrow> a = b"
  "OTPAttemptsKey a = OTPAttemptsKey b \<longleftrightarrow> a = b"
  "LoginAttemptsKey a = LoginAttemptsKey b \<longleftrightarrow> a = b"
  "ForgotAttemptsKey a = ForgotAttemptsKey b \<longleftrightarrow> a = b"
  "PasswordResetKey a = PasswordResetKey b \<longleftrightarrow> a = b"
  "UserResetIndexKey a = UserResetIndexKey b \<longleftrightarrow> a = b"
  "TokenCutoffKey a = TokenCutoffKey b \<longleftrightarrow> a = b"
  by (simp_all add: key_defs)

text \<open>The eight families in the order of the source.\<close>

definition key_families :: "(string \<Rightarrow> string) list" where
  "key_families =
     [RefreshKey, UserOTPKey, OTPAttemptsKey, LoginAttemptsKey, ForgotAttemptsKey,
      PasswordResetKey, UserResetIndexKey, TokenCutoffKey]"

lemma key_disjoint [simp]:
  "RefreshKey a \<noteq> UserOTPKey b" "UserOTPKey b \<noteq> RefreshKey a"
  "RefreshKey a \<noteq> OTPAttemptsKey b" "OTPAttemptsKey b \<noteq> RefreshKey a"
  "RefreshKey a \<noteq> LoginAttemptsKey b" "LoginAttemptsKey b \<noteq> RefreshKey a"
  "RefreshKey a \<noteq> ForgotAttemptsKey b" "ForgotAttemptsKey b \<noteq> RefreshKey a"
  "RefreshKey a \<noteq> PasswordResetKey b" "PasswordResetKey b \<noteq> RefreshKey a"
  "RefreshKey a \<noteq> UserResetIndexKey b" "UserResetIndexKey b \<noteq> RefreshKey a"
  "RefreshKey a \<noteq> TokenCutoffKey b" "TokenCutoffKey b \<noteq> RefreshKey a"
  "UserOTPKey a \<noteq> OTPAttemptsKey b" "OTPAttemptsKey b \<noteq> UserOTPKey a"
  "UserOTPKey a \<noteq> LoginAttemptsKey b" "LoginAttemptsKey b \<noteq> UserOTPKey a"
  "UserOTPKey a \<noteq> ForgotAttemptsKey b" "ForgotAttemptsKey b \<noteq> UserOTPKey a"
  "UserOTPKey a \<noteq> PasswordResetKey b" "PasswordResetKey b \<noteq> UserOTPKey a"
  "UserOTPKey a \<noteq> UserResetIndexKey b" "UserResetIndexKey b \<noteq> UserOTPKey a"
  "UserOTPKey a \<noteq> TokenCutoffKey b" "TokenCutoffKey b \<noteq> UserOTPKey a"
  "OTPAttemptsKey a \<noteq> LoginAttemptsKey b" "LoginAttemptsKey b \<noteq> OTPAttemptsKey a"
  "OTPAttemptsKey a \<noteq> ForgotAttemptsKey b" "ForgotAttemptsKey b \<noteq> OTPAttemptsKey a"
  "OTPAttemptsKey a \<noteq> PasswordResetKey b" "PasswordResetKey b \<noteq> OTPAttemptsKey a"
  "OTPAttemptsKey a \<noteq> UserResetIndexKey b" "UserResetIndexKey b \<noteq> OTPAttemptsKey a"
  "OTPAttemptsKey a \<noteq> TokenCutoffKey b" "TokenCutoffKey b \<noteq> OTPAttemptsKey a"
  "LoginAttemptsKey a \<noteq> ForgotAttemptsKey b" "ForgotAttemptsKey b \<noteq> LoginAttemptsKey a"
  "LoginAttemptsKey a \<noteq> PasswordResetKey b" "PasswordResetKey b \<noteq> LoginAttemptsKey a"
  "LoginAttemptsKey a \<noteq> UserResetIndexKey b" "UserResetIndexKey b \<noteq> LoginAttemptsKey a"
  "LoginAttemptsKey a \<noteq> TokenCutoffKey b" "TokenCutoffKey b \<noteq> LoginAttemptsKey a"
  "ForgotAttemptsKey a \<noteq> PasswordResetKey b" "PasswordResetKey b \<noteq> ForgotAttemptsKey a"
  "ForgotAttemptsKey a \<noteq> UserResetIndexKey b" "UserResetIndexKey b \<noteq> ForgotAttemptsKey a"
  "ForgotAttemptsKey a \<noteq> TokenCutoffKey b" "TokenCutoffKey b \<noteq> ForgotAttemptsKey a"
  "PasswordResetKey a \<noteq> UserResetIndexKey b" "UserResetIndexKey b \<noteq> PasswordResetKey a"
  "PasswordResetKey a \<noteq> TokenCutoffKey b" "TokenCutoffKey b \<noteq> PasswordResetKey a"
  "UserResetIndexKey a \<noteq> TokenCutoffKey b" "TokenCutoffKey b \<noteq> UserResetIndexKey a"
  by (simp_all add: key_defs)

text \<open>Two Redis keys built by the auth package are equal only if they were built by the same
  constructor from the same e-mail, token or identifier: an entry of one family can never be
  read or overwritten through another, for any user-supplied suffix.\<close>

theorem redis_keys_unique:
  assumes "i < length key_families" and "j < length key_families"
  shows "(key_families ! i) x = (key_families ! j) y \<longleftrightarrow> i = j \<and> x = y"
  using assms by (auto simp: key_families_def less_Suc_eq numeral_eq_Suc)

theorem redis_keys_unique_witness:
  "5 < length key_families \<and> 6 < length key_families \<and>
   (key_families ! 5) ''_user:7'' \<noteq> (key_families ! 6) ''7''"
  using redis_keys_unique [of 5 6 "''_user:7''" "''7''"] by (simp add: key_families_def)

end
