(* ===== verification/Cache_Redis.thy ===== *)
theory Cache_Redis
  imports Go_Json Redis_Keys
begin

text \<open>
  \<^verbatim>\<open>internal/datasources/caches/cache.redis.go\<close>. The Redis server behind the go-redis client
  is a parameter: a record of the five commands the program sends, over a state \<open>'r\<close>, and the
  locale \<open>redis_server\<close> of what they are documented to do, read through a view \<open>rv\<close> of the
  keyspace (payload and time-to-live of every key). Commands may fail at any time, a failed
  command may or may not have been executed, and keys with a time-to-live vanish at any moment.
  The adapter \<open>redisCache\<close> adds the JSON encoding and the default time-to-live; the locale
  \<open>redis_cache\<close> is the contract its clients (the auth flows, the auth middleware) rely on.
\<close>

section \<open>The server\<close>

record 'r redis_client =
  client_Set :: "string \<Rightarrow> string \<Rightarrow> duration \<Rightarrow> 'r \<Rightarrow> goerr option \<times> 'r"
  client_Get :: "string \<Rightarrow> 'r \<Rightarrow> (goerr + string) \<times> 'r"
  client_Del :: "string \<Rightarrow> 'r \<Rightarrow> goerr option \<times> 'r"
  client_Incr :: "string \<Rightarrow> 'r \<Rightarrow> (goerr + int) \<times> 'r"
  client_Expire :: "string \<Rightarrow> duration \<Rightarrow> 'r \<Rightarrow> goerr option \<times> 'r"

type_synonym keyspace = "string \<Rightarrow> (string \<times> duration option) option"

text \<open>The effect of each command on the keyspace. SET with a non-positive expiration writes a
  persistent key; EXPIRE with a non-positive one deletes the key; INCR keeps the time-to-live and
  creates a missing counter without one.\<close>

definition eff_set :: "string \<Rightarrow> string \<Rightarrow> duration \<Rightarrow> keyspace \<Rightarrow> keyspace" where
  "eff_set k p ttl m = m(k \<mapsto> (p, if 0 < ttl then Some ttl else None))"

definition eff_del :: "string \<Rightarrow> keyspace \<Rightarrow> keyspace" where
  "eff_del k m = m(k := None)"

definition eff_expire :: "string \<Rightarrow> duration \<Rightarrow> keyspace \<Rightarrow> keyspace" where
  "eff_expire k ttl m =
     (if 0 < ttl then m(k := map_option (\<lambda>(p, _). (p, Some ttl)) (m k)) else m(k := None))"

definition incr_value :: "string \<Rightarrow> keyspace \<Rightarrow> int option" where
  "incr_value k m =
     (case m k of
        None \<Rightarrow> Some 1
      | Some (p, t) \<Rightarrow>
          (case ParseInt64 p of
             None \<Rightarrow> None
           | Some n \<Rightarrow> if in_int64 (n + 1) then Some (n + 1) else None))"

definition eff_incr :: "string \<Rightarrow> keyspace \<Rightarrow> keyspace" where
  "eff_incr k m =
     (case incr_value k m of
        None \<Rightarrow> m
      | Some n \<Rightarrow> m(k \<mapsto> (Itoa n, case m k of None \<Rightarrow> None | Some (p, t) \<Rightarrow> t)))"

lemmas eff_defs = eff_set_def eff_del_def eff_expire_def eff_incr_def

text \<open>\<open>after f m m'\<close>: the command with effect \<open>f\<close> was executed once at some moment between the
  states whose keyspaces are \<open>m\<close> and \<open>m'\<close>.\<close>

definition after :: "(keyspace \<Rightarrow> keyspace) \<Rightarrow> keyspace \<Rightarrow> keyspace \<Rightarrow> bool" where
  "after f m m' \<longleftrightarrow> (\<exists>m0. ages m m0 \<and> ages (f m0) m')"

locale redis_server =
  fixes rc :: "'r redis_client" and rv :: "'r \<Rightarrow> keyspace"
  assumes set_ok: "client_Set rc k p ttl s = (None, s') \<Longrightarrow> after (eff_set k p ttl) (rv s) (rv s')"
    and set_err: "client_Set rc k p ttl s = (Some x, s') \<Longrightarrow>
      ages (rv s) (rv s') \<or> after (eff_set k p ttl) (rv s) (rv s')"
    and get_ages: "client_Get rc k s = (r, s') \<Longrightarrow> ages (rv s) (rv s')"
    and get_ok: "client_Get rc k s = (Inr p, s') \<Longrightarrow> \<exists>t. rv s k = Some (p, t)"
    and del_ok: "client_Del rc k s = (None, s') \<Longrightarrow> after (eff_del k) (rv s) (rv s')"
    and del_err: "client_Del rc k s = (Some x, s') \<Longrightarrow>
      ages (rv s) (rv s') \<or> after (eff_del k) (rv s) (rv s')"
    and incr_ok: "client_Incr rc k s = (Inr n, s') \<Longrightarrow>
      \<exists>m. ages (rv s) m \<and> incr_value k m = Some n \<and> ages (eff_incr k m) (rv s')"
    and incr_err: "client_Incr rc k s = (Inl x, s') \<Longrightarrow>
      ages (rv s) (rv s') \<or> after (eff_incr k) (rv s) (rv s')"
    and expire_ok: "client_Expire rc k ttl s = (None, s') \<Longrightarrow> after (eff_expire k ttl) (rv s) (rv s')"
    and expire_err: "client_Expire rc k ttl s = (Some x, s') \<Longrightarrow>
      ages (rv s) (rv s') \<or> after (eff_expire k ttl) (rv s) (rv s')"

section \<open>The adapter\<close>

text \<open>The interface \<^verbatim>\<open>RedisCache\<close> (the typed operations; \<^verbatim>\<open>Close\<close> and \<^verbatim>\<open>Client\<close> hand
  out the connection pool and are not modelled).\<close>

record 'r RedisCache =
  cache_Set :: "string \<Rightarrow> string \<Rightarrow> 'r \<Rightarrow> goerr option \<times> 'r"
  cache_Get :: "string \<Rightarrow> 'r \<Rightarrow> (goerr + string) \<times> 'r"
  cache_Del :: "string \<Rightarrow> 'r \<Rightarrow> goerr option \<times> 'r"
  cache_Incr :: "string \<Rightarrow> 'r \<Rightarrow> (goerr + int) \<times> 'r"
  cache_Expire :: "string \<Rightarrow> duration \<Rightarrow> 'r \<Rightarrow> goerr option \<times> 'r"

text \<open>The adapter's struct: \<^verbatim>\<open>expires\<close> is the configured count of minutes, multiplied by a
  minute at every \<^verbatim>\<open>Set\<close> in 64-bit arithmetic. Every value the program stores is a string, on
  which \<^verbatim>\<open>json.Marshal\<close> does not fail.\<close>

record 'r redisCache =
  rc_client :: "'r redis_client"
  rc_expires :: int

definition redisCache_Set :: "'r redisCache \<Rightarrow> string \<Rightarrow> string \<Rightarrow> 'r \<Rightarrow> goerr option \<times> 'r" where
  "redisCache_Set c key v s =
     client_Set (rc_client c) key (json_Marshal v) (wrap64 (rc_expires c * Minute)) s"

definition redisCache_Get :: "'r redisCache \<Rightarrow> string \<Rightarrow> 'r \<Rightarrow> (goerr + string) \<times> 'r" where
  "redisCache_Get c key s =
     (case client_Get (rc_client c) key s of
        (Inl err, s) \<Rightarrow> (Inl err, s)
      | (Inr val, s) \<Rightarrow>
          (case json_Unmarshal val of
             None \<Rightarrow> (Inl (ErrorString ''json: cannot unmarshal into Go value of type string''), s)
           | Some decoded \<Rightarrow> (Inr decoded, s)))"

definition redisCache_Del :: "'r redisCache \<Rightarrow> string \<Rightarrow> 'r \<Rightarrow> goerr option \<times> 'r" where
  "redisCache_Del c key s = client_Del (rc_client c) key s"

definition redisCache_Incr :: "'r redisCache \<Rightarrow> string \<Rightarrow> 'r \<Rightarrow> (goerr + int) \<times> 'r" where
  "redisCache_Incr c key s = client_Incr (rc_client c) key s"

definition redisCache_Expire ::
  "'r redisCache \<Rightarrow> string \<Rightarrow> duration \<Rightarrow> 'r \<Rightarrow> goerr option \<times> 'r" where
  "redisCache_Expire c key ttl s = client_Expire (rc_client c) key ttl s"

text \<open>\<^verbatim>\<open>NewRedisCache\<close>: the adapter as a value of the interface.\<close>

definition NewRedisCache :: "'r redis_client \<Rightarrow> int \<Rightarrow> 'r RedisCache" where
  "NewRedisCache client expires =
     (let c = \<lparr>rc_client = client, rc_expires = expires\<rparr> in
      \<lparr>cache_Set = redisCache_Set c, cache_Get = redisCache_Get c, cache_Del = redisCache_Del c,
       cache_Incr = redisCache_Incr c, cache_Expire = redisCache_Expire c\<rparr>)"

lemmas redisCache_defs =
  NewRedisCache_def redisCache_Set_def redisCache_Get_def redisCache_Del_def
  redisCache_Incr_def redisCache_Expire_def Let_def

section \<open>Effects\<close>

lemma ages_off_key:
  "ages m m' \<Longrightarrow> m' k = m k \<or> (m' k = None \<and> (\<exists>v t. m k = Some (v, Some t)))"
  by (simp add: ages_def)

text \<open>\<open>only K m m'\<close>: between the two keyspaces only keys of \<open>K\<close> were written; every other key is
  as it was, or had a time-to-live and expired.\<close>

definition only :: "string set \<Rightarrow> keyspace \<Rightarrow> keyspace \<Rightarrow> bool" where
  "only K m m' \<longleftrightarrow>
     (\<forall>k. k \<notin> K \<longrightarrow> m' k = m k \<or> (m' k = None \<and> (\<exists>v t. m k = Some (v, Some t))))"

lemma ages_only: "ages m m' \<Longrightarrow> only K m m'"
  by (simp add: ages_def only_def)

lemma only_refl [simp]: "only K m m"
  by (simp add: only_def)

lemma only_trans: "only K m m' \<Longrightarrow> only K' m' m'' \<Longrightarrow> only (K \<union> K') m m''"
  unfolding only_def by (metis UnCI)

lemma only_mono: "only K m m' \<Longrightarrow> K \<subseteq> K' \<Longrightarrow> only K' m m'"
  unfolding only_def by blast

lemma only_trans_same: "only K m m' \<Longrightarrow> only K m' m'' \<Longrightarrow> only K m m''"
  using only_trans [of K m m' K m''] by simp

lemma only_None: "only K m m' \<Longrightarrow> k \<notin> K \<Longrightarrow> m k = None \<Longrightarrow> m' k = None"
  unfolding only_def by force

lemma only_Some: "only K m m' \<Longrightarrow> k \<notin> K \<Longrightarrow> m' k = Some e \<Longrightarrow> m k = Some e"
  unfolding only_def by force

lemma only_persistent:
  "only K m m' \<Longrightarrow> k \<notin> K \<Longrightarrow> m k = Some (p, None) \<Longrightarrow> m' k = Some (p, None)"
  unfolding only_def by force

lemma eff_only:
  "only {k} m (eff_set k p ttl m)" "only {k} m (eff_del k m)"
  "only {k} m (eff_expire k ttl m)" "only {k} m (eff_incr k m)"
  by (auto simp: only_def eff_defs split: option.splits)

lemma after_only:
  assumes "after f m m'" and "\<And>m. only {k} m (f m)"
  shows "only {k} m m'"
proof -
  from assms(1) obtain m0 where "ages m m0" and "ages (f m0) m'"
    by (auto simp: after_def)
  then have "only {k} m m0" and "only {k} (f m0) m'" by (simp_all add: ages_only)
  with assms(2) [of m0] show ?thesis
    using only_trans_same by blast
qed

lemma after_only_eff:
  "after (eff_set k p ttl) m m' \<Longrightarrow> only {k} m m'" "after (eff_del k) m m' \<Longrightarrow> only {k} m m'"
  "after (eff_expire k ttl) m m' \<Longrightarrow> only {k} m m'" "after (eff_incr k) m m' \<Longrightarrow> only {k} m m'"
  by (erule after_only, rule eff_only)+

lemma after_del_None: "after (eff_del k) m m' \<Longrightarrow> m' k = None"
  by (auto simp: after_def eff_del_def dest: ages_None [where k = k])

lemma after_keeps_None:
  "after (eff_del k) m m' \<Longrightarrow> m k' = None \<Longrightarrow> m' k' = None"
  "after (eff_expire k ttl) m m' \<Longrightarrow> m k' = None \<Longrightarrow> m' k' = None"
  by (auto simp: after_def eff_defs dest!: ages_None [where k = k'] split: if_splits)

lemma after_set_Some: "after (eff_set k p ttl) m m' \<Longrightarrow> m' k = Some e \<Longrightarrow>
    e = (p, if 0 < ttl then Some ttl else None)"
  by (auto simp: after_def eff_set_def dest!: ages_Some [where k = k])

lemma after_expire_payload:
  assumes "after (eff_expire k ttl) m m'" and "m' k = Some (p, t)"
  shows "0 < ttl \<and> t = Some ttl \<and> (\<exists>t0. m k = Some (p, t0))"
proof -
  from assms obtain m0 where "ages m m0" and "eff_expire k ttl m0 k = Some (p, t)"
    using ages_Some by (fastforce simp: after_def)
  then show ?thesis
    using ages_Some [of m m0 k] by (auto simp: eff_expire_def split: if_splits)
qed

section \<open>The contract of the interface\<close>

text \<open>\<open>dttl\<close> is the time-to-live a \<^verbatim>\<open>Set\<close> gives.\<close>

locale redis_cache =
  fixes C :: "'r RedisCache" and rv :: "'r \<Rightarrow> keyspace" and dttl :: duration
  assumes Set_ok: "cache_Set C k v s = (None, s') \<Longrightarrow>
      after (eff_set k (json_Marshal v) dttl) (rv s) (rv s')"
    and Set_err: "cache_Set C k v s = (Some x, s') \<Longrightarrow>
      ages (rv s) (rv s') \<or> after (eff_set k (json_Marshal v) dttl) (rv s) (rv s')"
    and Get_ages: "cache_Get C k s = (r, s') \<Longrightarrow> ages (rv s) (rv s')"
    and Get_ok: "cache_Get C k s = (Inr v, s') \<Longrightarrow>
      \<exists>p t. rv s k = Some (p, t) \<and> json_Unmarshal p = Some v"
    and Del_ok: "cache_Del C k s = (None, s') \<Longrightarrow> after (eff_del k) (rv s) (rv s')"
    and Del_err: "cache_Del C k s = (Some x, s') \<Longrightarrow>
      ages (rv s) (rv s') \<or> after (eff_del k) (rv s) (rv s')"
    and Incr_ok: "cache_Incr C k s = (Inr n, s') \<Longrightarrow>
      \<exists>m. ages (rv s) m \<and> incr_value k m = Some n \<and> ages (eff_incr k m) (rv s')"
    and Incr_err: "cache_Incr C k s = (Inl x, s') \<Longrightarrow>
      ages (rv s) (rv s') \<or> after (eff_incr k) (rv s) (rv s')"
    and Expire_ok: "cache_Expire C k ttl s = (None, s') \<Longrightarrow>
      after (eff_expire k ttl) (rv s) (rv s')"
    and Expire_err: "cache_Expire C k ttl s = (Some x, s') \<Longrightarrow>
      ages (rv s) (rv s') \<or> after (eff_expire k ttl) (rv s) (rv s')"

context redis_cache
begin

lemma Set_only: "cache_Set C k v s = (r, s') \<Longrightarrow> only {k} (rv s) (rv s')"
  by (cases r) (auto dest!: Set_ok Set_err dest: after_only_eff ages_only)

lemma Get_only: "cache_Get C k s = (r, s') \<Longrightarrow> only K (rv s) (rv s')"
  by (auto dest!: Get_ages dest: ages_only)

lemma Del_only: "cache_Del C k s = (r, s') \<Longrightarrow> only {k} (rv s) (rv s')"
  by (cases r) (auto dest!: Del_ok Del_err dest: after_only_eff ages_only)

lemma Incr_after: "cache_Incr C k s = (Inr n, s') \<Longrightarrow> after (eff_incr k) (rv s) (rv s')"
  by (auto simp: after_def dest!: Incr_ok)

lemma Incr_only: "cache_Incr C k s = (r, s') \<Longrightarrow> only {k} (rv s) (rv s')"
  by (cases r) (auto dest!: Incr_after Incr_err dest: after_only_eff ages_only)

lemma Expire_only: "cache_Expire C k ttl s = (r, s') \<Longrightarrow> only {k} (rv s) (rv s')"
  by (cases r) (auto dest!: Expire_ok Expire_err dest: after_only_eff ages_only)

lemmas ops_only = Set_only Get_only Del_only Incr_only Expire_only

lemma Get_absent: "rv s k = None \<Longrightarrow> \<exists>x s'. cache_Get C k s = (Inl x, s')"
  using Get_ok [of k s] by (cases "cache_Get C k s"; cases "fst (cache_Get C k s)") fastforce+

lemma Del_gone: "cache_Del C k s = (None, s') \<Longrightarrow> rv s' k = None"
  using Del_ok after_del_None by blast

lemma Del_stays_gone: "cache_Del C k s = (r, s') \<Longrightarrow> rv s k' = None \<Longrightarrow> rv s' k' = None"
  by (cases r) (auto dest!: Del_ok Del_err dest: ages_None after_keeps_None(1))

lemma Expire_stays_gone: "cache_Expire C k ttl s = (r, s') \<Longrightarrow> rv s k' = None \<Longrightarrow> rv s' k' = None"
  by (cases r) (auto dest!: Expire_ok Expire_err dest: ages_None after_keeps_None(2))

lemma Get_stays_gone: "cache_Get C k s = (r, s') \<Longrightarrow> rv s k' = None \<Longrightarrow> rv s' k' = None"
  by (rule ages_None [OF Get_ages])

text \<open>Where an entry that is there after a write comes from.\<close>

lemma Set_entry:
  assumes "cache_Set C k v s = (r, s')" and "rv s' k = Some x"
  shows "x = (json_Marshal v, if 0 < dttl then Some dttl else None) \<or> r \<noteq> None \<and> rv s k = Some x"
proof (cases r)
  case None
  with assms Set_ok [of k v s s'] show ?thesis using after_set_Some by auto
next
  case (Some err)
  with assms(1) Set_err [of k v s err s']
  have "ages (rv s) (rv s') \<or> after (eff_set k (json_Marshal v) dttl) (rv s) (rv s')" by simp
  with Some assms(2) show ?thesis
    using after_set_Some [of k "json_Marshal v" dttl "rv s" "rv s'" x] ages_Some [of "rv s" "rv s'" k x]
    by blast
qed

lemma Expire_entry:
  assumes "cache_Expire C k ttl s = (r, s')" and "rv s' k = Some (p, t)"
  shows "\<exists>t0. rv s k = Some (p, t0)"
proof -
  have "ages (rv s) (rv s') \<or> after (eff_expire k ttl) (rv s) (rv s')"
    using assms(1) Expire_ok [of k ttl s s'] Expire_err [of k ttl s _ s'] by (cases r) auto
  with assms(2) show ?thesis
    using after_expire_payload [of k ttl "rv s" "rv s'" p t] ages_Some [of "rv s" "rv s'" k "(p, t)"]
    by blast
qed

end

text \<open>The adapter provides the contract over every server that behaves as documented.\<close>

sublocale redis_server \<subseteq> cache: redis_cache "NewRedisCache rc ex" rv "wrap64 (ex * Minute)"
  for ex
proof
  fix k s r s'
  assume "cache_Get (NewRedisCache rc ex) k s = (r, s')"
  then obtain q where "client_Get rc k s = (q, s')"
    by (auto simp: redisCache_defs split: prod.splits sum.splits option.splits)
  then show "ages (rv s) (rv s')" by (rule get_ages)
next
  fix k s v s'
  assume "cache_Get (NewRedisCache rc ex) k s = (Inr v, s')"
  then obtain p where "client_Get rc k s = (Inr p, s')" and "json_Unmarshal p = Some v"
    by (auto simp: redisCache_defs split: prod.splits sum.splits option.splits)
  then show "\<exists>p t. rv s k = Some (p, t) \<and> json_Unmarshal p = Some v"
    using get_ok by blast
qed (auto simp: redisCache_defs dest: set_ok set_err del_ok del_err incr_ok incr_err
       expire_ok expire_err)

section \<open>A reference server\<close>

text \<open>A server in one process with a scripted fault for each command to come: \<open>True\<close> in
  \<open>rr_faults\<close> makes the next command fail without being executed. Nothing expires by itself.\<close>

record ref_redis =
  rr_keys :: keyspace
  rr_faults :: "bool list"

definition rr_down :: "ref_redis \<Rightarrow> bool" where
  "rr_down s = (case rr_faults s of [] \<Rightarrow> False | b # bs \<Rightarrow> b)"

definition rr_tick :: "ref_redis \<Rightarrow> ref_redis" where
  "rr_tick s = s\<lparr>rr_faults := tl (rr_faults s)\<rparr>"

definition rr_exec :: "(keyspace \<Rightarrow> keyspace) \<Rightarrow> ref_redis \<Rightarrow> goerr option \<times> ref_redis" where
  "rr_exec f s =
     (if rr_down s then (Some (ErrorString ''dial tcp: connection refused''), rr_tick s)
      else (None, (rr_tick s)\<lparr>rr_keys := f (rr_keys s)\<rparr>))"

definition ref_client :: "ref_redis redis_client" where
  "ref_client =
     \<lparr>client_Set = (\<lambda>k p ttl. rr_exec (eff_set k p ttl)),
      client_Get = (\<lambda>k s.
        if rr_down s then (Inl (ErrorString ''dial tcp: connection refused''), rr_tick s)
        else case rr_keys s k of
            None \<Rightarrow> (Inl (ErrorString ''redis: nil''), rr_tick s)
          | Some (p, t) \<Rightarrow> (Inr p, rr_tick s)),
      client_Del = (\<lambda>k. rr_exec (eff_del k)),
      client_Incr = (\<lambda>k s.
        if rr_down s then (Inl (ErrorString ''dial tcp: connection refused''), rr_tick s)
        else case incr_value k (rr_keys s) of
            None \<Rightarrow> (Inl (ErrorString ''ERR value is not an integer or out of range''), rr_tick s)
          | Some n \<Rightarrow> (Inr n, (rr_tick s)\<lparr>rr_keys := eff_incr k (rr_keys s)\<rparr>)),
      client_Expire = (\<lambda>k ttl. rr_exec (eff_expire k ttl))\<rparr>"

lemma after_self: "after f m (f m)"
  by (auto simp: after_def)

lemma rr_tick_keys [simp]: "rr_keys (rr_tick s) = rr_keys s"
  by (simp add: rr_tick_def)

lemma rr_exec_cases:
  assumes "rr_exec f s = (r, s')"
  shows "r = None \<and> rr_keys s' = f (rr_keys s) \<or>
    (\<exists>x. r = Some x) \<and> rr_keys s' = rr_keys s"
  using assms by (auto simp: rr_exec_def split: if_splits)

lemma rr_exec_ok: "rr_exec f s = (None, s') \<Longrightarrow> after f (rr_keys s) (rr_keys s')"
  using rr_exec_cases after_self by fastforce

lemma rr_exec_err: "rr_exec f s = (Some x, s') \<Longrightarrow> ages (rr_keys s) (rr_keys s')"
  using rr_exec_cases by fastforce

interpretation ref_redis: redis_server ref_client rr_keys
proof
  fix k s n s'
  assume "client_Incr ref_client k s = (Inr n, s')"
  then have "incr_value k (rr_keys s) = Some n \<and> rr_keys s' = eff_incr k (rr_keys s)"
    by (auto simp: ref_client_def split: if_splits option.splits)
  then show "\<exists>m. ages (rr_keys s) m \<and> incr_value k m = Some n \<and> ages (eff_incr k m) (rr_keys s')"
    by (intro exI [of _ "rr_keys s"]) auto
qed (auto simp: ref_client_def split: if_splits option.splits dest: rr_exec_ok rr_exec_err)

end
