(* ===== verification/Jwt_Service.thy ===== *)
theory Jwt_Service
  imports Go_Env Go_Json
begin

text \<open>
  \<^verbatim>\<open>pkg/jwt/jwt.go\<close>: the token service. The package golang-jwt is a parameter: the signing of
  a claim set with HS256, the parser (which calls back for the key, checks the signature and the
  expiry against the clock), and the truncation of \<^verbatim>\<open>NewNumericDate\<close>; \<open>jwt_lib\<close> states what is
  documented of them (\<open>meth\<close> is the method the header of a token names). The contract \<open>jwt_service\<close> is what the flows rely on: a parsed refresh token
  carries the refresh kind and the identifier under which it was issued, and identifiers are fresh.
\<close>

record JwtCustomClaim =
  cUserID :: string
  cIsAdmin :: bool
  cEmail :: string
  cKind :: string
  cID :: string
  cExpiresAt :: "time option"
  cIssuer :: string
  cIssuedAt :: "time option"

record TokenPair =
  AccessToken :: string
  RefreshToken :: string
  AccessExpiresAt :: time
  RefreshExpiresAt :: time
  AccessJTI :: string
  RefreshJTI :: string

definition KindAccess :: string where "KindAccess = ''access''"
definition KindRefresh :: string where "KindRefresh = ''refresh''"

text \<open>The dynamic type of \<^verbatim>\<open>token.Method\<close>, with the \<^verbatim>\<open>alg\<close> header.\<close>

datatype jwt_method = SigningMethodHMAC string | OtherMethod string

record 'e golangJWT =
  jwt_NewNumericDate :: "time \<Rightarrow> time"
  jwt_SignedString :: "JwtCustomClaim \<Rightarrow> string \<Rightarrow> goerr + string"
  jwt_ParseWithClaims ::
    "string \<Rightarrow> (jwt_method \<Rightarrow> goerr + string) \<Rightarrow> 'e \<Rightarrow> (goerr + (JwtCustomClaim \<times> bool)) \<times> 'e"

text \<open>Texts that survive the JSON encoding of the claims: valid UTF-8.\<close>

function utf8_valid :: "string \<Rightarrow> bool" where
  "utf8_valid [] = True"
| "utf8_valid (c # s) =
     (if is_ascii c then utf8_valid s
      else if utf8_len (c # s) = 0 then False
      else utf8_valid (drop (utf8_len (c # s)) (c # s)))"
  by pat_completeness auto
termination by (relation "measure length") auto

declare utf8_valid.simps [simp del]

lemma ascii_utf8_valid: "ascii s \<Longrightarrow> utf8_valid s"
  by (induction s) (auto simp: utf8_valid.simps)

definition claims_text :: "JwtCustomClaim \<Rightarrow> bool" where
  "claims_text c \<longleftrightarrow> utf8_valid (cUserID c) \<and> utf8_valid (cEmail c) \<and> utf8_valid (cKind c) \<and>
     utf8_valid (cID c) \<and> utf8_valid (cIssuer c)"

section \<open>The service\<close>

record jwtService =
  j_secretKey :: string
  j_issuer :: string
  j_expired :: int
  j_refreshExpired :: int

definition NewJWTService :: "string \<Rightarrow> string \<Rightarrow> int \<Rightarrow> jwtService" where
  "NewJWTService secretKey issuer expired =
     \<lparr>j_secretKey = secretKey, j_issuer = issuer, j_expired = expired, j_refreshExpired = 7\<rparr>"

definition NewJWTServiceWithRefresh :: "string \<Rightarrow> string \<Rightarrow> int \<Rightarrow> int \<Rightarrow> jwtService" where
  "NewJWTServiceWithRefresh secretKey issuer expiredHours refreshExpiredDays =
     \<lparr>j_secretKey = secretKey, j_issuer = issuer, j_expired = expiredHours,
      j_refreshExpired = refreshExpiredDays\<rparr>"

definition jwt_sign :: "'e golangJWT \<Rightarrow> jwtService \<Rightarrow> JwtCustomClaim \<Rightarrow> goerr + string" where
  "jwt_sign G j claims =
     (case jwt_SignedString G claims (j_secretKey j) of
        Inl err \<Rightarrow> Inl (errorf_w ''sign jwt'' err)
      | Inr token \<Rightarrow> Inr token)"

definition signAccess ::
  "'e goenv \<Rightarrow> 'e golangJWT \<Rightarrow> jwtService \<Rightarrow> string \<Rightarrow> bool \<Rightarrow> string \<Rightarrow> 'e \<Rightarrow>
   (goerr + (string \<times> time \<times> string)) \<times> 'e" where
  "signAccess E G j userID isAdmin email e =
     (case time_Now E e of
        (now, e) \<Rightarrow>
          (let expiresAt = now + wrap64 (Hour * j_expired j) in
           case uuid_NewString E e of
             (jti, e) \<Rightarrow>
               (case jwt_sign G j
                   \<lparr>cUserID = userID, cIsAdmin = isAdmin, cEmail = email, cKind = KindAccess,
                    cID = jti, cExpiresAt = Some (jwt_NewNumericDate G expiresAt),
                    cIssuer = j_issuer j, cIssuedAt = Some (jwt_NewNumericDate G now)\<rparr> of
                  Inl err \<Rightarrow> (Inl err, e)
                | Inr token \<Rightarrow> (Inr (token, expiresAt, jti), e))))"

definition signRefresh ::
  "'e goenv \<Rightarrow> 'e golangJWT \<Rightarrow> jwtService \<Rightarrow> string \<Rightarrow> string \<Rightarrow> 'e \<Rightarrow>
   (goerr + (string \<times> time \<times> string)) \<times> 'e" where
  "signRefresh E G j userID email e =
     (case time_Now E e of
        (now, e) \<Rightarrow>
          (let expiresAt = now + wrap64 (24 * Hour * j_refreshExpired j) in
           case uuid_NewString E e of
             (jti, e) \<Rightarrow>
               (case jwt_sign G j
                   \<lparr>cUserID = userID, cIsAdmin = False, cEmail = email, cKind = KindRefresh,
                    cID = jti, cExpiresAt = Some (jwt_NewNumericDate G expiresAt),
                    cIssuer = j_issuer j, cIssuedAt = Some (jwt_NewNumericDate G now)\<rparr> of
                  Inl err \<Rightarrow> (Inl err, e)
                | Inr token \<Rightarrow> (Inr (token, expiresAt, jti), e))))"

definition GenerateToken ::
  "'e goenv \<Rightarrow> 'e golangJWT \<Rightarrow> jwtService \<Rightarrow> string \<Rightarrow> bool \<Rightarrow> string \<Rightarrow> 'e \<Rightarrow>
   (goerr + string) \<times> 'e" where
  "GenerateToken E G j userID isAdmin email e =
     (case signAccess E G j userID isAdmin email e of
        (Inl err, e) \<Rightarrow> (Inl err, e)
      | (Inr (tok, _, _), e) \<Rightarrow> (Inr tok, e))"

definition GenerateTokenPair ::
  "'e goenv \<Rightarrow> 'e golangJWT \<Rightarrow> jwtService \<Rightarrow> string \<Rightarrow> bool \<Rightarrow> string \<Rightarrow> 'e \<Rightarrow>
   (goerr + TokenPair) \<times> 'e" where
  "GenerateTokenPair E G j userID isAdmin email e =
     (case signAccess E G j userID isAdmin email e of
        (Inl err, e) \<Rightarrow> (Inl err, e)
      | (Inr (access, accessExp, accessJTI), e) \<Rightarrow>
          (case signRefresh E G j userID email e of
             (Inl err, e) \<Rightarrow> (Inl err, e)
           | (Inr (refresh, refreshExp, refreshJTI), e) \<Rightarrow>
               (Inr \<lparr>AccessToken = access, RefreshToken = refresh, AccessExpiresAt = accessExp,
                     RefreshExpiresAt = refreshExp, AccessJTI = accessJTI, RefreshJTI = refreshJTI\<rparr>, e)))"

text \<open>The callback of \<^verbatim>\<open>parse\<close>: only HMAC methods get the key.\<close>

definition jwt_keyfunc :: "jwtService \<Rightarrow> jwt_method \<Rightarrow> goerr + string" where
  "jwt_keyfunc j m =
     (case m of
        SigningMethodHMAC alg \<Rightarrow> Inr (j_secretKey j)
      | OtherMethod alg \<Rightarrow> Inl (ErrorString (''unexpected signing method: '' @ alg)))"

definition jwt_parse ::
  "'e golangJWT \<Rightarrow> jwtService \<Rightarrow> string \<Rightarrow> 'e \<Rightarrow> (goerr + JwtCustomClaim) \<times> 'e" where
  "jwt_parse G j tokenString e =
     (case jwt_ParseWithClaims G tokenString (jwt_keyfunc j) e of
        (Inl err, e) \<Rightarrow> (Inl (WrapError '''' (Sentinel ErrInvalidToken) ('': '' @ Error err)), e)
      | (Inr (claims, valid), e) \<Rightarrow>
          if \<not> valid then (Inl (Sentinel ErrInvalidToken), e) else (Inr claims, e))"

definition ParseToken ::
  "'e golangJWT \<Rightarrow> jwtService \<Rightarrow> string \<Rightarrow> 'e \<Rightarrow> (goerr + JwtCustomClaim) \<times> 'e" where
  "ParseToken G j tokenString e =
     (case jwt_parse G j tokenString e of
        (Inl err, e) \<Rightarrow> (Inl err, e)
      | (Inr claims, e) \<Rightarrow>
          if cKind claims \<noteq> '''' \<and> cKind claims \<noteq> KindAccess
          then (Inl (Sentinel ErrWrongTokenKind), e) else (Inr claims, e))"

definition ParseRefreshToken ::
  "'e golangJWT \<Rightarrow> jwtService \<Rightarrow> string \<Rightarrow> 'e \<Rightarrow> (goerr + JwtCustomClaim) \<times> 'e" where
  "ParseRefreshToken G j tokenString e =
     (case jwt_parse G j tokenString e of
        (Inl err, e) \<Rightarrow> (Inl err, e)
      | (Inr claims, e) \<Rightarrow>
          if cKind claims \<noteq> KindRefresh
          then (Inl (Sentinel ErrWrongTokenKind), e) else (Inr claims, e))"

text \<open>The interface \<^verbatim>\<open>JWTService\<close>.\<close>

record 'e JWTService =
  svc_GenerateToken :: "string \<Rightarrow> bool \<Rightarrow> string \<Rightarrow> 'e \<Rightarrow> (goerr + string) \<times> 'e"
  svc_GenerateTokenPair :: "string \<Rightarrow> bool \<Rightarrow> string \<Rightarrow> 'e \<Rightarrow> (goerr + TokenPair) \<times> 'e"
  svc_ParseToken :: "string \<Rightarrow> 'e \<Rightarrow> (goerr + JwtCustomClaim) \<times> 'e"
  svc_ParseRefreshToken :: "string \<Rightarrow> 'e \<Rightarrow> (goerr + JwtCustomClaim) \<times> 'e"

definition jwt_dict :: "'e goenv \<Rightarrow> 'e golangJWT \<Rightarrow> jwtService \<Rightarrow> 'e JWTService" where
  "jwt_dict E G j =
     \<lparr>svc_GenerateToken = GenerateToken E G j, svc_GenerateTokenPair = GenerateTokenPair E G j,
      svc_ParseToken = ParseToken G j, svc_ParseRefreshToken = ParseRefreshToken G j\<rparr>"

lemma jwt_dict_sel [simp]:
  "svc_GenerateToken (jwt_dict E G j) = GenerateToken E G j"
  "svc_GenerateTokenPair (jwt_dict E G j) = GenerateTokenPair E G j"
  "svc_ParseToken (jwt_dict E G j) = ParseToken G j"
  "svc_ParseRefreshToken (jwt_dict E G j) = ParseRefreshToken G j"
  by (simp_all add: jwt_dict_def)

section \<open>The package and the contract\<close>

text \<open>What is documented of golang-jwt: dates are truncated to the second; a parsed token was
  verified with the key the callback gave for its method and is not expired at the moment of the
  parse; a token signed from a claim set decodes to it, and is accepted before its expiry.\<close>

locale jwt_lib =
  uuid_lib E used for E :: "'e goenv" and used :: "'e \<Rightarrow> string set" +
  fixes G :: "'e golangJWT" and meth :: "string \<Rightarrow> jwt_method"
  assumes date_trunc: "jwt_NewNumericDate G t \<le> t \<and> t < jwt_NewNumericDate G t + Second"
    and date_whole: "jwt_NewNumericDate G t mod Second = 0"
    and parse_env: "jwt_ParseWithClaims G tok kf e = (r, e') \<Longrightarrow> used e \<subseteq> used e'"
    and parse_key: "jwt_ParseWithClaims G tok kf e = (Inr (c, True), e') \<Longrightarrow>
      \<exists>key. kf (meth tok) = Inr key"
    and parse_time: "jwt_ParseWithClaims G tok kf e = (Inr (c, True), e') \<Longrightarrow>
      cExpiresAt c = Some x \<Longrightarrow> \<exists>now e1. time_Now E e = (now, e1) \<and> now < x"
    and parse_signed: "jwt_SignedString G c key = Inr tok \<Longrightarrow> claims_text c \<Longrightarrow>
      jwt_ParseWithClaims G tok kf e = (Inr (c', b), e') \<Longrightarrow> c' = c"
    and parse_det: "jwt_ParseWithClaims G tok kf e = (Inr (c, b), e') \<Longrightarrow>
      jwt_ParseWithClaims G tok kf e2 = (Inr (c', b'), e2') \<Longrightarrow> c' = c"
    and parse_accepts: "jwt_SignedString G c key = Inr tok \<Longrightarrow> claims_text c \<Longrightarrow>
      kf (SigningMethodHMAC ''HS256'') = Inr key \<Longrightarrow> time_Now E e = (now, e1) \<Longrightarrow>
      cExpiresAt c = Some x \<Longrightarrow> now < x \<Longrightarrow> \<exists>e'. jwt_ParseWithClaims G tok kf e = (Inr (c, True), e')"

locale jwt_service =
  fixes J :: "'e JWTService" and used :: "'e \<Rightarrow> string set"
  assumes pair_fresh: "svc_GenerateTokenPair J u a em e = (Inr p, e') \<Longrightarrow>
      RefreshJTI p \<notin> used e \<and> AccessJTI p \<notin> used e \<and> AccessJTI p \<noteq> RefreshJTI p \<and>
      RefreshJTI p \<in> used e'"
    and pair_used: "svc_GenerateTokenPair J u a em e = (r, e') \<Longrightarrow> used e \<subseteq> used e'"
    and access_used: "svc_ParseToken J tok e = (rc, e') \<Longrightarrow> used e \<subseteq> used e'"
    and refresh_used: "svc_ParseRefreshToken J tok e = (rc, e') \<Longrightarrow> used e \<subseteq> used e'"
    and access_kind: "svc_ParseToken J tok e = (Inr c, e') \<Longrightarrow> cKind c \<noteq> KindRefresh"
    and refresh_kind: "svc_ParseRefreshToken J tok e = (Inr c, e') \<Longrightarrow> cKind c = KindRefresh"
    and refresh_det: "svc_ParseRefreshToken J tok e = (Inr c, e') \<Longrightarrow>
      svc_ParseRefreshToken J tok e1 = (Inr c', e2) \<Longrightarrow> c' = c"
    and refresh_binds: "svc_GenerateTokenPair J u a em e = (Inr p, e') \<Longrightarrow>
      utf8_valid u \<Longrightarrow> utf8_valid em \<Longrightarrow>
      svc_ParseRefreshToken J (RefreshToken p) e1 = (Inr c, e2) \<Longrightarrow>
      cID c = RefreshJTI p \<and> cUserID c = u \<and> cEmail c = em"
    and access_binds: "svc_GenerateTokenPair J u a em e = (Inr p, e') \<Longrightarrow>
      utf8_valid u \<Longrightarrow> utf8_valid em \<Longrightarrow>
      svc_ParseToken J (AccessToken p) e1 = (Inr c, e2) \<Longrightarrow>
      cID c = AccessJTI p \<and> cUserID c = u \<and> cEmail c = em \<and> cIsAdmin c = a"
    and kinds_apart: "svc_GenerateTokenPair J u a em e = (Inr p, e') \<Longrightarrow>
      utf8_valid u \<Longrightarrow> utf8_valid em \<Longrightarrow>
      svc_ParseToken J (RefreshToken p) e1 \<noteq> (Inr c, e2) \<and>
      svc_ParseRefreshToken J (AccessToken p) e1 \<noteq> (Inr c, e2)"

section \<open>The service keeps the contract\<close>

lemma jwt_sign_Inr: "jwt_sign G j c = Inr tok \<longleftrightarrow> jwt_SignedString G c (j_secretKey j) = Inr tok"
  by (auto simp: jwt_sign_def split: sum.splits)

text \<open>The claim sets of the two kinds.\<close>

definition access_claims ::
  "'e golangJWT \<Rightarrow> jwtService \<Rightarrow> string \<Rightarrow> bool \<Rightarrow> string \<Rightarrow> string \<Rightarrow> time \<Rightarrow> JwtCustomClaim" where
  "access_claims G j u a em jti now =
     \<lparr>cUserID = u, cIsAdmin = a, cEmail = em, cKind = KindAccess, cID = jti,
      cExpiresAt = Some (jwt_NewNumericDate G (now + wrap64 (Hour * j_expired j))),
      cIssuer = j_issuer j, cIssuedAt = Some (jwt_NewNumericDate G now)\<rparr>"

definition refresh_claims ::
  "'e golangJWT \<Rightarrow> jwtService \<Rightarrow> string \<Rightarrow> string \<Rightarrow> string \<Rightarrow> time \<Rightarrow> JwtCustomClaim" where
  "refresh_claims G j u em jti now =
     \<lparr>cUserID = u, cIsAdmin = False, cEmail = em, cKind = KindRefresh, cID = jti,
      cExpiresAt = Some (jwt_NewNumericDate G (now + wrap64 (24 * Hour * j_refreshExpired j))),
      cIssuer = j_issuer j, cIssuedAt = Some (jwt_NewNumericDate G now)\<rparr>"

lemma signAccess_Inr:
  assumes "signAccess E G j u a em e = (Inr (tok, x, jti), e')"
  shows "\<exists>now e1. time_Now E e = (now, e1) \<and> uuid_NewString E e1 = (jti, e') \<and>
    x = now + wrap64 (Hour * j_expired j) \<and>
    jwt_SignedString G (access_claims G j u a em jti now) (j_secretKey j) = Inr tok"
  using assms
  by (auto simp: signAccess_def Let_def access_claims_def jwt_sign_Inr split: prod.splits sum.splits)

lemma signRefresh_Inr:
  assumes "signRefresh E G j u em e = (Inr (tok, x, jti), e')"
  shows "\<exists>now e1. time_Now E e = (now, e1) \<and> uuid_NewString E e1 = (jti, e') \<and>
    x = now + wrap64 (24 * Hour * j_refreshExpired j) \<and>
    jwt_SignedString G (refresh_claims G j u em jti now) (j_secretKey j) = Inr tok"
  using assms
  by (auto simp: signRefresh_def Let_def refresh_claims_def jwt_sign_Inr split: prod.splits sum.splits)

lemma GenerateTokenPair_Inr:
  assumes "GenerateTokenPair E G j u a em e = (Inr p, e')"
  shows "\<exists>e1. signAccess E G j u a em e = (Inr (AccessToken p, AccessExpiresAt p, AccessJTI p), e1) \<and>
    signRefresh E G j u em e1 = (Inr (RefreshToken p, RefreshExpiresAt p, RefreshJTI p), e')"
  using assms by (auto simp: GenerateTokenPair_def split: prod.splits sum.splits)

lemma jwt_parse_Inr:
  "jwt_parse G j tok e = (Inr c, e') \<longleftrightarrow> jwt_ParseWithClaims G tok (jwt_keyfunc j) e = (Inr (c, True), e')"
  by (auto simp: jwt_parse_def split: prod.splits sum.splits if_splits)

lemma ParseToken_Inr:
  "ParseToken G j tok e = (Inr c, e') \<longleftrightarrow>
   jwt_ParseWithClaims G tok (jwt_keyfunc j) e = (Inr (c, True), e') \<and>
   (cKind c = '''' \<or> cKind c = KindAccess)"
  by (auto simp: ParseToken_def jwt_parse_Inr [symmetric] split: prod.splits sum.splits if_splits)

lemma ParseRefreshToken_Inr:
  "ParseRefreshToken G j tok e = (Inr c, e') \<longleftrightarrow>
   jwt_ParseWithClaims G tok (jwt_keyfunc j) e = (Inr (c, True), e') \<and> cKind c = KindRefresh"
  by (auto simp: ParseRefreshToken_def jwt_parse_Inr [symmetric] split: prod.splits sum.splits if_splits)

lemma kinds_distinct [simp]:
  "KindAccess \<noteq> KindRefresh" "KindRefresh \<noteq> KindAccess" "[] \<noteq> KindRefresh" "[] \<noteq> KindAccess" "KindAccess \<noteq> ''''" "KindRefresh \<noteq> ''''"
  by (simp_all add: KindAccess_def KindRefresh_def)

locale jwt_impl = jwt_lib E used G meth
  for E :: "'e goenv" and used :: "'e \<Rightarrow> string set" and G :: "'e golangJWT"
    and meth :: "string \<Rightarrow> jwt_method" +
  fixes j :: jwtService
  assumes issuer_text: "utf8_valid (j_issuer j)"
begin

lemma access_claims_text:
  "utf8_valid u \<Longrightarrow> utf8_valid em \<Longrightarrow> ascii jti \<Longrightarrow> claims_text (access_claims G j u a em jti now)"
  by (simp add: claims_text_def access_claims_def issuer_text ascii_utf8_valid KindAccess_def
      is_ascii_def byte_val_def)

lemma refresh_claims_text:
  "utf8_valid u \<Longrightarrow> utf8_valid em \<Longrightarrow> ascii jti \<Longrightarrow> claims_text (refresh_claims G j u em jti now)"
  by (simp add: claims_text_def refresh_claims_def issuer_text ascii_utf8_valid KindRefresh_def
      is_ascii_def byte_val_def)

text \<open>The two tokens of a pair, with what was signed into them.\<close>

lemma pair_signed:
  assumes "GenerateTokenPair E G j u a em e = (Inr p, e')" "utf8_valid u" "utf8_valid em"
  obtains now1 now2 where
    "claims_text (access_claims G j u a em (AccessJTI p) now1)"
    "jwt_SignedString G (access_claims G j u a em (AccessJTI p) now1) (j_secretKey j) = Inr (AccessToken p)"
    "claims_text (refresh_claims G j u em (RefreshJTI p) now2)"
    "jwt_SignedString G (refresh_claims G j u em (RefreshJTI p) now2) (j_secretKey j) = Inr (RefreshToken p)"
  using GenerateTokenPair_Inr [OF assms(1)] uuid_ascii assms(2,3)
    access_claims_text refresh_claims_text
  by (metis signAccess_Inr signRefresh_Inr)

lemma sign_used:
  "signAccess E G j u a em e = (r, e') \<Longrightarrow> used e \<subseteq> used e'"
  "signRefresh E G j u em e = (r, e') \<Longrightarrow> used e \<subseteq> used e'"
  by (auto simp: signAccess_def signRefresh_def Let_def split: prod.splits sum.splits
      dest!: now_used uuid_fresh)

lemma Generate_used: "GenerateTokenPair E G j u a em e = (r, e') \<Longrightarrow> used e \<subseteq> used e'"
  by (auto simp: GenerateTokenPair_def split: prod.splits sum.splits dest!: sign_used)

lemma Generate_fresh:
  assumes "GenerateTokenPair E G j u a em e = (Inr p, e')"
  shows "RefreshJTI p \<notin> used e \<and> AccessJTI p \<notin> used e \<and> AccessJTI p \<noteq> RefreshJTI p \<and>
    RefreshJTI p \<in> used e'"
proof -
  obtain e1 where
    a: "signAccess E G j u a em e = (Inr (AccessToken p, AccessExpiresAt p, AccessJTI p), e1)"
    and r: "signRefresh E G j u em e1 = (Inr (RefreshToken p, RefreshExpiresAt p, RefreshJTI p), e')"
    using GenerateTokenPair_Inr [OF assms] by blast
  have "AccessJTI p \<notin> used e \<and> AccessJTI p \<in> used e1"
    using signAccess_Inr [OF a] now_used uuid_fresh by blast
  moreover have "RefreshJTI p \<notin> used e1 \<and> RefreshJTI p \<in> used e'"
    using signRefresh_Inr [OF r] now_used uuid_fresh by blast
  ultimately show ?thesis using sign_used(1) [OF a] by auto
qed

lemma jwt_parse_used: "jwt_parse G j tok e = (r, e') \<Longrightarrow> used e \<subseteq> used e'"
  by (auto simp: jwt_parse_def split: prod.splits sum.splits if_splits dest!: parse_env)

end

sublocale jwt_impl \<subseteq> svc: jwt_service "jwt_dict E G j" used
proof (unfold_locales, unfold jwt_dict_sel)
  show "used e \<subseteq> used e'" if "ParseToken G j tok e = (rc, e')" for tok e rc e'
    using that jwt_parse_used by (auto simp: ParseToken_def split: prod.splits sum.splits if_splits)
  show "used e \<subseteq> used e'" if "ParseRefreshToken G j tok e = (rc, e')" for tok e rc e'
    using that jwt_parse_used
    by (auto simp: ParseRefreshToken_def split: prod.splits sum.splits if_splits)
  show "c' = c" if "ParseRefreshToken G j tok e = (Inr c, e')"
    "ParseRefreshToken G j tok e1 = (Inr c', e2)" for tok e c e' e1 c' e2
    using that by (metis ParseRefreshToken_Inr parse_det)
  fix u a em e p e' e1 c e2
  assume gen: "GenerateTokenPair E G j u a em e = (Inr p, e')" "utf8_valid u" "utf8_valid em"
  obtain now1 now2 where
    A: "claims_text (access_claims G j u a em (AccessJTI p) now1)"
    "jwt_SignedString G (access_claims G j u a em (AccessJTI p) now1) (j_secretKey j) = Inr (AccessToken p)"
    and R: "claims_text (refresh_claims G j u em (RefreshJTI p) now2)"
    "jwt_SignedString G (refresh_claims G j u em (RefreshJTI p) now2) (j_secretKey j) = Inr (RefreshToken p)"
    using pair_signed [OF gen] by blast
  show "cID c = RefreshJTI p \<and> cUserID c = u \<and> cEmail c = em"
    if "ParseRefreshToken G j (RefreshToken p) e1 = (Inr c, e2)"
    using that by (auto simp: ParseRefreshToken_Inr refresh_claims_def dest!: parse_signed [OF R(2,1)])
  show "cID c = AccessJTI p \<and> cUserID c = u \<and> cEmail c = em \<and> cIsAdmin c = a"
    if "ParseToken G j (AccessToken p) e1 = (Inr c, e2)"
    using that by (auto simp: ParseToken_Inr access_claims_def dest!: parse_signed [OF A(2,1)])
  show "ParseToken G j (RefreshToken p) e1 \<noteq> (Inr c, e2) \<and>
      ParseRefreshToken G j (AccessToken p) e1 \<noteq> (Inr c, e2)"
    by (auto simp: ParseRefreshToken_Inr ParseToken_Inr refresh_claims_def access_claims_def
        dest!: parse_signed [OF R(2,1)] parse_signed [OF A(2,1)])
qed (use Generate_used Generate_fresh in \<open>auto simp: ParseToken_Inr ParseRefreshToken_Inr\<close>)

section \<open>A reference package\<close>

text \<open>Tokens are the fields of the claim set, each with its length in unary, and the key in place
  of a signature.\<close>

fun enc_fields :: "string list \<Rightarrow> string" where
  "enc_fields [] = []"
| "enc_fields (s # ss) = replicate (length s) CHR ''x'' @ CHR ''.'' # s @ enc_fields ss"

function dec_fields :: "nat \<Rightarrow> string \<Rightarrow> string list option" where
  "dec_fields n [] = (if n = 0 then Some [] else None)"
| "dec_fields n (c # r) =
     (if c = CHR ''x'' then dec_fields (Suc n) r
      else if c = CHR ''.'' \<and> n \<le> length r then map_option ((#) (take n r)) (dec_fields 0 (drop n r))
      else None)"
  by pat_completeness auto
termination by (relation "measure (length \<circ> snd)") auto

lemma dec_fields_prefix:
  "dec_fields n (replicate m CHR ''x'' @ CHR ''.'' # r) = dec_fields (n + m) (CHR ''.'' # r)"
  by (induction m arbitrary: n) auto

lemma dec_enc_fields: "dec_fields 0 (enc_fields ss) = Some ss"
  by (induction ss) (simp_all add: dec_fields_prefix)

definition opt_time :: "time option \<Rightarrow> string" where
  "opt_time t = (case t of None \<Rightarrow> '''' | Some x \<Rightarrow> Itoa x)"

definition opt_time_val :: "string \<Rightarrow> time option" where
  "opt_time_val s =
     (case s of
        [] \<Rightarrow> None
      | c # r \<Rightarrow> if c = CHR ''-'' then map_option (\<lambda>n. - int n) (dec_val 0 r)
                 else map_option int (dec_val 0 s))"

lemma opt_time_val_inv [simp]: "opt_time_val (opt_time t) = t"
proof (cases t)
  case None
  then show ?thesis by (simp add: opt_time_def opt_time_val_def)
next
  case (Some x)
  obtain c s where "nat_to_dec (nat x) = c # s" and "is_digit c" using nat_to_dec_Cons by blast
  moreover from this have "c \<noteq> CHR ''-''" using not_digit_sign by blast
  moreover have "dec_val 0 (nat_to_dec (nat x)) = Some (nat x)" by simp
  ultimately show ?thesis
    using Some by (auto simp: opt_time_def opt_time_val_def Itoa_def)
qed

definition ref_sign :: "JwtCustomClaim \<Rightarrow> string \<Rightarrow> goerr + string" where
  "ref_sign c key = Inr (enc_fields
     [key, cUserID c, if cIsAdmin c then ''t'' else ''f'', cEmail c, cKind c, cID c,
      opt_time (cExpiresAt c), cIssuer c, opt_time (cIssuedAt c)])"

definition ref_decode :: "string \<Rightarrow> (string \<times> JwtCustomClaim) option" where
  "ref_decode tok =
     (case dec_fields 0 tok of
        Some [key, u, a, em, kind, jti, x, iss, iat] \<Rightarrow>
          Some (key, \<lparr>cUserID = u, cIsAdmin = (a = ''t''), cEmail = em, cKind = kind, cID = jti,
            cExpiresAt = opt_time_val x, cIssuer = iss, cIssuedAt = opt_time_val iat\<rparr>)
      | _ \<Rightarrow> None)"

lemma ref_decode_sign: "ref_sign c key = Inr tok \<Longrightarrow> ref_decode tok = Some (key, c)"
  by (auto simp: ref_sign_def ref_decode_def dec_enc_fields simp del: enc_fields.simps)

definition ref_parse ::
  "string \<Rightarrow> (jwt_method \<Rightarrow> goerr + string) \<Rightarrow> ref_world \<Rightarrow>
   (goerr + (JwtCustomClaim \<times> bool)) \<times> ref_world" where
  "ref_parse tok kf e =
     (case ref_decode tok of
        None \<Rightarrow> (Inl (ErrorString ''token is malformed''), e)
      | Some (key, c) \<Rightarrow>
          (case kf (SigningMethodHMAC ''HS256'') of
             Inl err \<Rightarrow> (Inl err, e)
           | Inr k \<Rightarrow>
               if k \<noteq> key then (Inl (ErrorString ''token signature is invalid''), e)
               else if (case cExpiresAt c of None \<Rightarrow> False | Some x \<Rightarrow> x \<le> rw_now e)
               then (Inl (ErrorString ''token is expired''), e)
               else (Inr (c, True), e)))"

definition ref_jwtlib :: "ref_world golangJWT" where
  "ref_jwtlib =
     \<lparr>jwt_NewNumericDate = (\<lambda>t. t - t mod Second), jwt_SignedString = ref_sign,
      jwt_ParseWithClaims = ref_parse\<rparr>"

lemma ref_jwtlib_sel [simp]:
  "jwt_NewNumericDate ref_jwtlib t = t - t mod Second"
  "jwt_SignedString ref_jwtlib = ref_sign" "jwt_ParseWithClaims ref_jwtlib = ref_parse"
  by (simp_all add: ref_jwtlib_def)

definition ref_jwt :: jwtService where
  "ref_jwt = NewJWTServiceWithRefresh ''0123456789abcdef0123456789abcdef'' ''go-rest'' 5 7"

text \<open>A token that starts with an \<^verbatim>\<open>n\<close> has the method \<^verbatim>\<open>none\<close> in its header.\<close>

definition ref_meth :: "string \<Rightarrow> jwt_method" where
  "ref_meth tok = (if starts_with ''n'' tok then OtherMethod ''none'' else SigningMethodHMAC ''HS256'')"

lemma ref_decode_none: "starts_with ''n'' tok \<Longrightarrow> ref_decode tok = None"
  by (auto simp: ref_decode_def starts_with_iff)

interpretation ref_jwt: jwt_impl ref_env ref_used ref_jwtlib ref_meth ref_jwt
proof
  fix tok kf e c e'
  assume "jwt_ParseWithClaims ref_jwtlib tok kf e = (Inr (c, True), e')"
  then show "\<exists>key. kf (ref_meth tok) = Inr key"
    using ref_decode_none [of tok]
    by (auto simp: ref_parse_def ref_meth_def split: option.splits sum.splits if_splits)
next
  fix t
  show "jwt_NewNumericDate ref_jwtlib t \<le> t \<and> t < jwt_NewNumericDate ref_jwtlib t + Second"
    by (simp add: Second_def)
  show "jwt_NewNumericDate ref_jwtlib t mod Second = 0"
    by (simp add: Second_def)
next
  show "utf8_valid (j_issuer ref_jwt)"
    by (rule ascii_utf8_valid)
       (simp add: ref_jwt_def NewJWTServiceWithRefresh_def is_ascii_def byte_val_def)
qed (auto simp: ref_parse_def ref_decode_sign split: option.splits sum.splits if_splits)

section \<open>Properties\<close>

context jwt_impl
begin

lemma non_hmac_parse:
  assumes "meth tok = OtherMethod alg"
  shows "\<exists>x e'. jwt_parse G j tok e = (Inl x, e') \<and> errors_Is x ErrInvalidToken"
proof -
  obtain q e' where q: "jwt_ParseWithClaims G tok (jwt_keyfunc j) e = (q, e')" by fastforce
  show ?thesis
  proof (cases q)
    case (Inl err)
    with q show ?thesis by (simp add: jwt_parse_def errors_Is_def)
  next
    case (Inr cv)
    obtain c b where cv: "cv = (c, b)" by fastforce
    have "\<not> b" using parse_key [of tok "jwt_keyfunc j" e c e'] q Inr cv assms
      by (auto simp: jwt_keyfunc_def)
    with q Inr cv show ?thesis by (simp add: jwt_parse_def)
  qed
qed

lemma parse_own:
  assumes "jwt_SignedString G c (j_secretKey j) = Inr tok" "claims_text c"
    and "time_Now E e = (now, e1)" "cExpiresAt c = Some x" "now < x"
  shows "\<exists>e'. jwt_parse G j tok e = (Inr c, e')"
  using parse_accepts [OF assms(1,2) _ assms(3,4,5), of "jwt_keyfunc j"]
  by (simp add: jwt_keyfunc_def jwt_parse_Inr)

lemma pair_parses:
  assumes gen: "GenerateTokenPair E G j u a em e = (Inr p, e')" "utf8_valid u" "utf8_valid em"
    and now: "time_Now E f = (now, f1)" "now < jwt_NewNumericDate G (AccessExpiresAt p)"
      "now < jwt_NewNumericDate G (RefreshExpiresAt p)"
  shows "\<exists>c f'. ParseToken G j (AccessToken p) f = (Inr c, f') \<and>
      cUserID c = u \<and> cIsAdmin c = a \<and> cEmail c = em \<and> cKind c = KindAccess \<and> cID c = AccessJTI p"
    and "\<exists>c f'. ParseRefreshToken G j (RefreshToken p) f = (Inr c, f') \<and>
      cUserID c = u \<and> cEmail c = em \<and> cKind c = KindRefresh \<and> cID c = RefreshJTI p \<and> \<not> cIsAdmin c"
    and "\<exists>f'. ParseToken G j (RefreshToken p) f = (Inl (Sentinel ErrWrongTokenKind), f')"
    and "\<exists>f'. ParseRefreshToken G j (AccessToken p) f = (Inl (Sentinel ErrWrongTokenKind), f')"
proof -
  obtain e1 where sa: "signAccess E G j u a em e = (Inr (AccessToken p, AccessExpiresAt p, AccessJTI p), e1)"
    and sr: "signRefresh E G j u em e1 = (Inr (RefreshToken p, RefreshExpiresAt p, RefreshJTI p), e')"
    using GenerateTokenPair_Inr [OF gen(1)] by blast
  obtain n1 where A: "AccessExpiresAt p = n1 + wrap64 (Hour * j_expired j)" "ascii (AccessJTI p)"
    "jwt_SignedString G (access_claims G j u a em (AccessJTI p) n1) (j_secretKey j) = Inr (AccessToken p)"
    using signAccess_Inr [OF sa] uuid_ascii by blast
  obtain n2 where R: "RefreshExpiresAt p = n2 + wrap64 (24 * Hour * j_refreshExpired j)"
    "ascii (RefreshJTI p)"
    "jwt_SignedString G (refresh_claims G j u em (RefreshJTI p) n2) (j_secretKey j) = Inr (RefreshToken p)"
    using signRefresh_Inr [OF sr] uuid_ascii by blast
  obtain fa where pa: "jwt_parse G j (AccessToken p) f = (Inr (access_claims G j u a em (AccessJTI p) n1), fa)"
    using parse_own [OF A(3) access_claims_text [OF gen(2,3) A(2)] now(1) _ now(2)]
    by (auto simp: access_claims_def A(1))
  obtain fr where pr: "jwt_parse G j (RefreshToken p) f = (Inr (refresh_claims G j u em (RefreshJTI p) n2), fr)"
    using parse_own [OF R(3) refresh_claims_text [OF gen(2,3) R(2)] now(1) _ now(3)]
    by (auto simp: refresh_claims_def R(1))
  show "\<exists>c f'. ParseToken G j (AccessToken p) f = (Inr c, f') \<and>
      cUserID c = u \<and> cIsAdmin c = a \<and> cEmail c = em \<and> cKind c = KindAccess \<and> cID c = AccessJTI p"
    "\<exists>f'. ParseRefreshToken G j (AccessToken p) f = (Inl (Sentinel ErrWrongTokenKind), f')"
    by (simp_all add: ParseToken_def ParseRefreshToken_def pa access_claims_def)
  show "\<exists>c f'. ParseRefreshToken G j (RefreshToken p) f = (Inr c, f') \<and>
      cUserID c = u \<and> cEmail c = em \<and> cKind c = KindRefresh \<and> cID c = RefreshJTI p \<and> \<not> cIsAdmin c"
    "\<exists>f'. ParseToken G j (RefreshToken p) f = (Inl (Sentinel ErrWrongTokenKind), f')"
    by (simp_all add: ParseToken_def ParseRefreshToken_def pr refresh_claims_def)
qed

end

text \<open>C12: a pair minted by the service is usable until its expiry and only for its purpose: the
  access token parses to the identity it was minted for, the refresh token to the identifier under
  which it is remembered (and never to an administrator), and each is rejected with the kind error
  where the other is expected.\<close>

theorem token_pair_roundtrip:
  assumes "jwt_impl E used G meth j"
    and "GenerateTokenPair E G j u a em e = (Inr p, e')" and "utf8_valid u" and "utf8_valid em"
    and "time_Now E f = (now, f1)" and "now < jwt_NewNumericDate G (AccessExpiresAt p)"
    and "now < jwt_NewNumericDate G (RefreshExpiresAt p)"
  shows "(\<exists>c f'. ParseToken G j (AccessToken p) f = (Inr c, f') \<and>
      cUserID c = u \<and> cIsAdmin c = a \<and> cEmail c = em \<and> cKind c = KindAccess \<and> cID c = AccessJTI p) \<and>
    (\<exists>c f'. ParseRefreshToken G j (RefreshToken p) f = (Inr c, f') \<and>
      cUserID c = u \<and> cEmail c = em \<and> cKind c = KindRefresh \<and> cID c = RefreshJTI p \<and> \<not> cIsAdmin c) \<and>
    (\<exists>f'. ParseToken G j (RefreshToken p) f = (Inl (Sentinel ErrWrongTokenKind), f')) \<and>
    (\<exists>f'. ParseRefreshToken G j (AccessToken p) f = (Inl (Sentinel ErrWrongTokenKind), f'))"
  using jwt_impl.pair_parses [OF assms] by blast

theorem token_pair_roundtrip_witness:
  "\<exists>p e' c f'. GenerateTokenPair ref_env ref_jwtlib ref_jwt ''id-0'' True ''ann@x.io'' ref_e0 = (Inr p, e') \<and>
     ParseRefreshToken ref_jwtlib ref_jwt (RefreshToken p) e' = (Inr c, f') \<and> cUserID c = ''id-0''"
proof -
  let ?r = "GenerateTokenPair ref_env ref_jwtlib ref_jwt ''id-0'' True ''ann@x.io'' ref_e0"
  have run: "\<exists>p e'. ?r = (Inr p, e') \<and> rw_now e' = 1700000000 * Second \<and>
      AccessExpiresAt p = 1700000000 * Second + 5 * Hour \<and>
      RefreshExpiresAt p = 1700000000 * Second + 168 * Hour"
    by (simp add: GenerateTokenPair_def signAccess_def signRefresh_def Let_def ref_e0_def jwt_sign_def
        ref_sign_def ref_jwt_def NewJWTServiceWithRefresh_def duration_defs wrap64_def)
  then obtain p e' where p: "?r = (Inr p, e')" and e': "rw_now e' = 1700000000 * Second"
    and x: "AccessExpiresAt p = 1700000000 * Second + 5 * Hour"
      "RefreshExpiresAt p = 1700000000 * Second + 168 * Hour" by blast
  have "utf8_valid ''id-0''" "utf8_valid ''ann@x.io''"
    by (rule ascii_utf8_valid, simp add: is_ascii_def byte_val_def)+
  from token_pair_roundtrip [OF ref_jwt.jwt_impl_axioms p this, of e' "1700000000 * Second" e'] e' x p
  show ?thesis by (fastforce simp: duration_defs)
qed

text \<open>A token whose header names a method that is not HMAC is refused as invalid by both parsers,
  whatever it carries: the algorithm of the header cannot choose how a token is verified.\<close>

theorem non_hmac_rejected:
  assumes "jwt_impl E used G meth j" and "meth tok = OtherMethod alg"
  shows "(\<exists>x e'. ParseToken G j tok e = (Inl x, e') \<and> errors_Is x ErrInvalidToken) \<and>
    (\<exists>x e'. ParseRefreshToken G j tok e = (Inl x, e') \<and> errors_Is x ErrInvalidToken)"
  using jwt_impl.non_hmac_parse [OF assms, of e]
  by (auto simp: ParseToken_def ParseRefreshToken_def)

theorem non_hmac_rejected_witness:
  "ref_meth ''none.payload'' = OtherMethod ''none'' \<and>
   (\<exists>x e'. ParseToken ref_jwtlib ref_jwt ''none.payload'' ref_e0 = (Inl x, e') \<and> errors_Is x ErrInvalidToken)"
proof -
  have m: "ref_meth ''none.payload'' = OtherMethod ''none''" by (simp add: ref_meth_def)
  from non_hmac_rejected [OF ref_jwt.jwt_impl_axioms m, of ref_e0] m show ?thesis by blast
qed

end
