(* ===== verification/Helpers_Otp.thy ===== *)
theory Helpers_Otp
  imports Go_Env
begin

text \<open>
  \<^verbatim>\<open>pkg/helpers\<close>: password hashing helpers and the one-time code generator. The generator
  reads random bytes, rejects those of 250 and above, and maps the rest to digits; its outer loop
  ends only when the source has delivered enough acceptable bytes, so it is a partial function
  (\<open>None\<close>: it does not return).
\<close>

section \<open>Hashing\<close>

text \<open>\<open>cfgCost\<close> is the global \<^verbatim>\<open>config.AppConfig.BcryptCost\<close>.\<close>

definition bcryptCost :: "'e goenv \<Rightarrow> int \<Rightarrow> int" where
  "bcryptCost E cfgCost = clamp_cost E cfgCost"

definition GenerateHash :: "'e goenv \<Rightarrow> int \<Rightarrow> string \<Rightarrow> 'e \<Rightarrow> (goerr + string) \<times> 'e" where
  "GenerateHash E cfgCost passwd e =
     (if passwd = '''' then (Inl (ErrorString ''password cannot empty''), e)
      else case bcrypt_GenerateFromPassword E passwd (bcryptCost E cfgCost) e of
          (Inl err, e) \<Rightarrow> (Inl err, e)
        | (Inr result, e) \<Rightarrow> (Inr result, e))"

definition ValidateHash :: "'e goenv \<Rightarrow> string \<Rightarrow> string \<Rightarrow> bool" where
  "ValidateHash E secret hash \<longleftrightarrow> bcrypt_CompareHashAndPassword E hash secret = None"

fun IsArrayContains :: "string list \<Rightarrow> string \<Rightarrow> bool" where
  "IsArrayContains [] str = False"
| "IsArrayContains (item # arr) str = (if item = str then True else IsArrayContains arr str)"

lemma IsArrayContains_iff: "IsArrayContains arr str \<longleftrightarrow> str \<in> set arr"
  by (induction arr) auto

context bcrypt_lib
begin

lemma GenerateHash_ValidateHash:
  "GenerateHash E c p e = (Inr h, e') \<Longrightarrow> ValidateHash E p h"
  by (auto simp: GenerateHash_def ValidateHash_def split: if_splits prod.splits sum.splits
      dest: generate_matches)

lemma GenerateHash_succeeds_iff:
  "(\<exists>h e'. GenerateHash E c p e = (Inr h, e')) \<longleftrightarrow> p \<noteq> '''' \<and> length p \<le> 72"
proof (cases "p = ''''")
  case True
  then show ?thesis by (simp add: GenerateHash_def)
next
  case False
  then have "(\<exists>h e'. GenerateHash E c p e = (Inr h, e')) \<longleftrightarrow>
      (\<exists>h e'. bcrypt_GenerateFromPassword E p (clamp_cost E c) e = (Inr h, e'))"
    by (auto simp: GenerateHash_def bcryptCost_def split: prod.splits sum.splits)
  with False show ?thesis using clamped_generate_iff by simp
qed

end

section \<open>One-time codes\<close>

definition otpPayloads :: string where "otpPayloads = ''0123456789''"

definition otp_maxValid :: nat where
  "otp_maxValid = 256 - 256 mod length otpPayloads"

text \<open>The inner loop: \<open>result\<close> holds the digits filled so far.\<close>

fun otp_fill :: "nat \<Rightarrow> 8 word list \<Rightarrow> string \<Rightarrow> string" where
  "otp_fill len [] result = result"
| "otp_fill len (b # buf) result =
     (if length result \<ge> len then result
      else if unat b < otp_maxValid
      then otp_fill len buf (result @ [otpPayloads ! (unat b mod length otpPayloads)])
      else otp_fill len buf result)"

partial_function (option) otp_loop ::
  "'e goenv \<Rightarrow> nat \<Rightarrow> string \<Rightarrow> 'e \<Rightarrow> ((goerr + string) \<times> 'e) option" where
  "otp_loop E len result e =
     (if length result < len then
        (case rand_Read E (len + 10) e of
           (r, e') \<Rightarrow>
             (case r of
                Inl err \<Rightarrow> Some (Inl err, e')
              | Inr buf \<Rightarrow> otp_loop E len (otp_fill len buf result) e'))
      else Some (Inr result, e))"

definition GenerateOTPCode :: "'e goenv \<Rightarrow> nat \<Rightarrow> 'e \<Rightarrow> ((goerr + string) \<times> 'e) option" where
  "GenerateOTPCode E len e = otp_loop E len '''' e"

lemma otp_maxValid_val [simp]: "otp_maxValid = 250"
  by (simp add: otp_maxValid_def otpPayloads_def)

lemma length_otpPayloads [simp]: "length otpPayloads = 10"
  by (simp add: otpPayloads_def)

definition otp_good :: "8 word \<Rightarrow> bool" where
  "otp_good b \<longleftrightarrow> unat b < 250"

definition otp_digit :: "8 word \<Rightarrow> char" where
  "otp_digit b = otpPayloads ! (unat b mod 10)"

lemma otp_digit_is_digit: "is_digit (otp_digit b)"
proof -
  have "unat b mod 10 < 10" by simp
  then have "otp_digit b \<in> set otpPayloads" by (simp add: otp_digit_def)
  then show ?thesis by (auto simp: otpPayloads_def is_digit_def byte_val_def)
qed

lemma otp_fill_spec:
  "length result \<le> len \<Longrightarrow>
   otp_fill len buf result =
     result @ take (len - length result) (map otp_digit (filter otp_good buf))"
proof (induction len buf result rule: otp_fill.induct)
  case (2 len b buf result)
  then show ?case
    by (cases "length result = len") (auto simp: otp_good_def otp_digit_def take_Cons' not_le)
qed simp

text \<open>The buffers of successive reads: \<open>reads E n k e\<close> is the list of \<open>k\<close> buffers, if no read
  fails, and the state after them.\<close>

fun otp_reads :: "'e goenv \<Rightarrow> nat \<Rightarrow> nat \<Rightarrow> 'e \<Rightarrow> (8 word list list \<times> 'e) option" where
  "otp_reads E n 0 e = Some ([], e)"
| "otp_reads E n (Suc k) e =
     (case rand_Read E n e of
        (Inl err, e) \<Rightarrow> None
      | (Inr buf, e) \<Rightarrow> map_option (\<lambda>(bufs, e). (buf # bufs, e)) (otp_reads E n k e))"

text \<open>If \<open>k\<close> reads succeed and hold enough acceptable bytes, the loop returns, and its result is
  the first acceptable bytes in order of arrival, as digits.\<close>

lemma otp_loop_returns:
  assumes "otp_reads E (len + 10) k e = Some (bufs, e')"
    and "len \<le> length result + length (filter otp_good (concat bufs))" and "length result \<le> len"
  shows "\<exists>e''. otp_loop E len result e =
    Some (Inr (result @ take (len - length result) (map otp_digit (filter otp_good (concat bufs)))), e'')"
  using assms
proof (induction k arbitrary: e bufs result)
  case 0
  then show ?case by (subst otp_loop.simps) auto
next
  case (Suc k)
  from Suc.prems(1) obtain buf e1 bufs' where
    read: "rand_Read E (len + 10) e = (Inr buf, e1)"
    and rest: "otp_reads E (len + 10) k e1 = Some (bufs', e')" and bufs: "bufs = buf # bufs'"
    by (auto split: prod.splits sum.splits)
  define r where "r = otp_fill len buf result"
  have r: "r = result @ take (len - length result) (map otp_digit (filter otp_good buf))"
    unfolding r_def by (rule otp_fill_spec [OF Suc.prems(3)])
  show ?case
  proof (cases "length result < len")
    case True
    have "len \<le> length r + length (filter otp_good (concat bufs'))" and "length r \<le> len"
      using Suc.prems(2,3) by (auto simp: r bufs)
    from Suc.IH [OF rest this] obtain e'' where "otp_loop E len r e1 =
        Some (Inr (r @ take (len - length r) (map otp_digit (filter otp_good (concat bufs')))), e'')"
      by blast
    moreover have "otp_loop E len result e = otp_loop E len r e1"
      using True read by (subst otp_loop.simps) (simp add: r_def)
    moreover have "r @ take (len - length r) (map otp_digit (filter otp_good (concat bufs'))) =
      result @ take (len - length result) (map otp_digit (filter otp_good (concat bufs)))"
      by (simp add: r bufs min_def)
    ultimately show ?thesis by auto
  next
    case False
    with Suc.prems(3) show ?thesis by (subst otp_loop.simps) simp
  qed
qed

text \<open>Whatever the source delivers, a code that is returned has the requested length and consists
  of digits.\<close>

lemma otp_loop_digits:
  "otp_loop E len result e = Some y \<Longrightarrow> length result \<le> len \<Longrightarrow> list_all is_digit result \<Longrightarrow>
   (case y of (Inl err, e') \<Rightarrow> True | (Inr code, e') \<Rightarrow> length code = len \<and> list_all is_digit code)"
proof (induction rule: otp_loop.raw_induct [rotated, consumes 1, case_names step])
  case (step loop E len result e y)
  note IH = step(1) and body = step(2) and len = step(3) and digits = step(4)
  show ?case
  proof (cases "length result < len")
    case True
    obtain q e1 where read: "rand_Read E (len + 10) e = (q, e1)" by fastforce
    show ?thesis
    proof (cases q)
      case (Inl err)
      with body True read show ?thesis by auto
    next
      case (Inr buf)
      have fill: "otp_fill len buf result =
          result @ take (len - length result) (map otp_digit (filter otp_good buf))"
        by (rule otp_fill_spec [OF len])
      have "list_all is_digit (otp_fill len buf result)"
        using digits unfolding fill
        by (auto simp: list_all_iff otp_digit_is_digit dest!: in_set_takeD)
      moreover have "length (otp_fill len buf result) \<le> len"
        unfolding fill using len by simp
      moreover have "loop E len (otp_fill len buf result) e1 = Some y"
        using body True read Inr by simp
      ultimately show ?thesis using IH by blast
    qed
  qed (use body len digits in auto)
qed

text \<open>Each digit has the same number of acceptable bytes: no bias.\<close>

lemma otp_preimage: "{b :: 8 word. otp_good b \<and> unat b mod 10 = d} = word_of_nat ` {n. n < 250 \<and> n mod 10 = d}"
proof (intro set_eqI iffI)
  fix b :: "8 word"
  assume "b \<in> {b. otp_good b \<and> unat b mod 10 = d}"
  then have "b = word_of_nat (unat b)" and "unat b \<in> {n. n < 250 \<and> n mod 10 = d}"
    by (simp_all add: otp_good_def)
  then show "b \<in> word_of_nat ` {n. n < 250 \<and> n mod 10 = d}" by blast
next
  fix b :: "8 word"
  assume "b \<in> word_of_nat ` {n. n < 250 \<and> n mod 10 = d}"
  then obtain n where "b = word_of_nat n" "n < 250" "n mod 10 = d" by auto
  then show "b \<in> {b. otp_good b \<and> unat b mod 10 = d}"
    by (simp add: otp_good_def unat_of_nat)
qed

lemma card_residues: "d < 10 \<Longrightarrow> card {n::nat. n < 250 \<and> n mod 10 = d} = 25"
proof -
  assume "d < 10"
  have split: "n = 10 * (n div 10) + d \<and> n div 10 < 25" if "n < 250" "n mod 10 = d" for n :: nat
    using that by auto
  have "{n::nat. n < 250 \<and> n mod 10 = d} = (\<lambda>k. 10 * k + d) ` {..<25}"
  proof (intro set_eqI iffI)
    fix n assume "n \<in> {n::nat. n < 250 \<and> n mod 10 = d}"
    with split [of n] show "n \<in> (\<lambda>k. 10 * k + d) ` {..<25}" by blast
  qed (use \<open>d < 10\<close> in auto)
  moreover have "inj_on (\<lambda>k. 10 * k + d) {..<25}" by (auto simp: inj_on_def)
  ultimately show ?thesis by (simp add: card_image)
qed

lemma otp_unbiased: "d < 10 \<Longrightarrow> card {b :: 8 word. otp_good b \<and> unat b mod 10 = d} = 25"
proof -
  assume d: "d < 10"
  have "inj_on (word_of_nat :: nat \<Rightarrow> 8 word) {n. n < 250 \<and> n mod 10 = d}"
    by (rule inj_onI) (simp add: word_of_nat_eq_iff take_bit_nat_eq_self)
  then show ?thesis
    unfolding otp_preimage by (simp add: card_image card_residues [OF d])
qed

section \<open>Properties\<close>

text \<open>Every code the generator returns has exactly the requested length and consists of decimal
  digits, whatever the random source delivers.\<close>

theorem otp_code_digits:
  assumes "GenerateOTPCode E len e = Some (Inr code, e')"
  shows "length code = len \<and> list_all is_digit code"
  using otp_loop_digits [of E len "''''" e "(Inr code, e')"] assms by (simp add: GenerateOTPCode_def)

theorem otp_code_digits_witness:
  "GenerateOTPCode ref_env 3
     \<lparr>rw_now = 0, rw_tape = [251, 17, 255, 8, 249, 3, 4, 5, 6, 7, 8, 9, 1], rw_uuid = 0, rw_counters = []\<rparr> =
   Some (Inr ''789'', \<lparr>rw_now = 0, rw_tape = [], rw_uuid = 0, rw_counters = []\<rparr>) \<and>
   length ''789'' = 3 \<and> list_all is_digit ''789''"
proof -
  let ?buf = "[251, 17, 255, 8, 249, 3, 4, 5, 6, 7, 8, 9, 1] :: 8 word list"
  let ?e = "\<lparr>rw_now = 0, rw_tape = ?buf, rw_uuid = 0, rw_counters = []\<rparr> :: ref_world"
  have read: "rand_Read ref_env (3 + 10) ?e = (Inr ?buf, ?e\<lparr>rw_tape := []\<rparr>)"
    and fill: "otp_fill 3 ?buf '''' = ''789''"
    by code_simp+
  have "otp_loop ref_env 3 '''' ?e = otp_loop ref_env 3 ''789'' (?e\<lparr>rw_tape := []\<rparr>)"
    by (subst otp_loop.simps) (simp only: read fill, simp add: otpPayloads_def)
  also have "\<dots> = Some (Inr ''789'', ?e\<lparr>rw_tape := []\<rparr>)"
    by (subst otp_loop.simps) simp
  finally have run: "GenerateOTPCode ref_env 3 ?e = Some (Inr ''789'', ?e\<lparr>rw_tape := []\<rparr>)"
    by (simp add: GenerateOTPCode_def)
  with otp_code_digits [OF run] show ?thesis by simp
qed

text \<open>C13: the generator returns as soon as the buffers it has read hold enough bytes below 250, and
  the code is the sequence of these bytes modulo ten, in order of arrival.\<close>

theorem otp_code_returns:
  assumes "otp_reads E (len + 10) k e = Some (bufs, e')"
    and "len \<le> length (filter otp_good (concat bufs))"
  shows "\<exists>e''. GenerateOTPCode E len e =
    Some (Inr (take len (map otp_digit (filter otp_good (concat bufs)))), e'')"
  using otp_loop_returns [OF assms(1), of "''''"] assms(2) by (simp add: GenerateOTPCode_def)

theorem otp_code_returns_witness:
  "\<exists>bufs e' e''. otp_reads ref_env (1 + 10) 2
     \<lparr>rw_now = 0, rw_tape = [255, 255, 255, 255, 255, 255, 255, 255, 255, 255, 255, 42],
      rw_uuid = 0, rw_counters = []\<rparr> = Some (bufs, e') \<and>
   1 \<le> length (filter otp_good (concat bufs)) \<and>
   GenerateOTPCode ref_env 1
     \<lparr>rw_now = 0, rw_tape = [255, 255, 255, 255, 255, 255, 255, 255, 255, 255, 255, 42],
      rw_uuid = 0, rw_counters = []\<rparr> = Some (Inr ''2'', e'')"
proof -
  let ?e = "\<lparr>rw_now = 0, rw_tape = [255, 255, 255, 255, 255, 255, 255, 255, 255, 255, 255, 42],
      rw_uuid = 0, rw_counters = []\<rparr> :: ref_world"
  let ?bufs = "[[255, 255, 255, 255, 255, 255, 255, 255, 255, 255, 255],
      [42, 0, 0, 0, 0, 0, 0, 0, 0, 0, 0]] :: 8 word list list"
  have reads: "otp_reads ref_env (1 + 10) 2 ?e = Some (?bufs, ?e\<lparr>rw_tape := []\<rparr>)"
    by code_simp
  moreover have enough: "1 \<le> length (filter otp_good (concat ?bufs))" by code_simp
  moreover have "take 1 (map otp_digit (filter otp_good (concat ?bufs))) = ''2''" by code_simp
  ultimately show ?thesis using otp_code_returns [OF reads enough] by auto
qed

text \<open>Rejection makes the digits unbiased: each digit is produced by exactly 25 of the 256 byte
  values, and the six remaining values produce none.\<close>

theorem otp_digit_uniform:
  assumes "d < 10"
  shows "card {b :: 8 word. unat b < otp_maxValid \<and> otpPayloads ! (unat b mod length otpPayloads) = otpPayloads ! d} = 25"
proof -
  have "distinct otpPayloads" by (simp add: otpPayloads_def)
  then have "{b :: 8 word. unat b < otp_maxValid \<and>
      otpPayloads ! (unat b mod length otpPayloads) = otpPayloads ! d} =
    {b. otp_good b \<and> unat b mod 10 = d}"
    using assms by (auto simp: otp_good_def nth_eq_iff_index_eq)
  then show ?thesis using otp_unbiased [OF assms] by simp
qed

theorem otp_digit_uniform_witness:
  "(7::nat) < 10 \<and>
   card {b :: 8 word. unat b < otp_maxValid \<and> otpPayloads ! (unat b mod length otpPayloads) = CHR ''7''} = 25"
  using otp_digit_uniform [of 7] by (simp add: otpPayloads_def)

end
