(* ===== verification/Usecase_Auth.thy ===== *)
theory Usecase_Auth
  imports Usecase_Users Cache_Redis Jwt_Service Helpers_Otp
begin

text \<open>
  \<^verbatim>\<open>internal/business/usecases/auth\<close>: the authentication flows. A flow acts on a world of four
  parts (the user use case, Redis, the mailer, the environment) through the interfaces the struct
  \<^verbatim>\<open>usecase\<close> holds; every call, error branch and ignored error of the source is a branch here.
  Log lines are left out.
\<close>

record Config =
  OTPMaxAttempts :: int
  OTPTTL :: duration
  PasswordResetTTL :: duration
  BcryptCost :: int
  LoginMaxAttempts :: int
  LoginLockoutTTL :: duration
  ForgotMaxAttempts :: int
  ForgotLockoutTTL :: duration

text \<open>The interface \<^verbatim>\<open>mailer.OTPMailer\<close>.\<close>

record 'm OTPMailer =
  mail_SendOTP :: "string \<Rightarrow> string \<Rightarrow> 'm \<Rightarrow> goerr option \<times> 'm"
  mail_SendPasswordReset :: "string \<Rightarrow> string \<Rightarrow> 'm \<Rightarrow> goerr option \<times> 'm"

record ('u, 'r, 'm, 'e) auth_usecase =
  au_users :: "('u, 'e) UsersUsecase"
  au_jwt :: "'e JWTService"
  au_mailer :: "'m OTPMailer"
  au_redis :: "'r RedisCache"
  au_cfg :: Config

record ('u, 'r, 'm, 'e) world =
  w_users :: 'u
  w_redis :: 'r
  w_mail :: 'm
  w_env :: 'e

text \<open>A call on one part of the world.\<close>

definition on_redis :: "('r \<Rightarrow> 'a \<times> 'r) \<Rightarrow> ('u, 'r, 'm, 'e) world \<Rightarrow> 'a \<times> ('u, 'r, 'm, 'e) world" where
  "on_redis f w = (case f (w_redis w) of (x, r) \<Rightarrow> (x, w\<lparr>w_redis := r\<rparr>))"

definition on_mail :: "('m \<Rightarrow> 'a \<times> 'm) \<Rightarrow> ('u, 'r, 'm, 'e) world \<Rightarrow> 'a \<times> ('u, 'r, 'm, 'e) world" where
  "on_mail f w = (case f (w_mail w) of (x, m) \<Rightarrow> (x, w\<lparr>w_mail := m\<rparr>))"

definition on_env :: "('e \<Rightarrow> 'a \<times> 'e) \<Rightarrow> ('u, 'r, 'm, 'e) world \<Rightarrow> 'a \<times> ('u, 'r, 'm, 'e) world" where
  "on_env f w = (case f (w_env w) of (x, e) \<Rightarrow> (x, w\<lparr>w_env := e\<rparr>))"

definition on_users ::
  "('u \<Rightarrow> 'e \<Rightarrow> 'a \<times> 'u \<times> 'e) \<Rightarrow> ('u, 'r, 'm, 'e) world \<Rightarrow> 'a \<times> ('u, 'r, 'm, 'e) world" where
  "on_users f w =
     (case f (w_users w) (w_env w) of (x, u, e) \<Rightarrow> (x, w\<lparr>w_users := u, w_env := e\<rparr>))"

definition observe :: "('e \<Rightarrow> 'e) \<Rightarrow> ('u, 'r, 'm, 'e) world \<Rightarrow> ('u, 'r, 'm, 'e) world" where
  "observe f w = w\<lparr>w_env := f (w_env w)\<rparr>"

section \<open>Shared steps\<close>

definition dummyBcryptHash :: string where
  "dummyBcryptHash = ''$2a$10$N9qo8uLOickgx2ZMRZoMyeIjZAgcfl7p92ldGxad68LJZdL17lhWy''"

definition tokenCutoffTTL :: duration where
  "tokenCutoffTTL = 24 * Hour"

definition recordTokenCutoff ::
  "('u, 'r, 'm, 'e) auth_usecase \<Rightarrow> string \<Rightarrow> time \<Rightarrow> ('u, 'r, 'm, 'e) world \<Rightarrow> ('u, 'r, 'm, 'e) world" where
  "recordTokenCutoff uc userID whn w =
     (let key = TokenCutoffKey userID in
      case on_redis (cache_Set (au_redis uc) key (Itoa (time_Unix whn))) w of
        (Some err, w) \<Rightarrow> w
      | (None, w) \<Rightarrow> snd (on_redis (cache_Expire (au_redis uc) key tokenCutoffTTL) w))"

text \<open>\<^verbatim>\<open>time.Until\<close> saturates at the bounds of a duration.\<close>

definition time_Until :: "'e goenv \<Rightarrow> time \<Rightarrow> 'e \<Rightarrow> duration \<times> 'e" where
  "time_Until E t e =
     (case time_Now E e of
        (now, e) \<Rightarrow> (max (- (2 ^ 63)) (min (2 ^ 63 - 1) (t - now)), e))"

definition rememberRefresh ::
  "'e goenv \<Rightarrow> ('u, 'r, 'm, 'e) auth_usecase \<Rightarrow> TokenPair \<Rightarrow> ('u, 'r, 'm, 'e) world \<Rightarrow>
   goerr option \<times> ('u, 'r, 'm, 'e) world" where
  "rememberRefresh E uc pair w =
     (case on_env (time_Until E (RefreshExpiresAt pair)) w of
        (ttl, w) \<Rightarrow>
          if ttl \<le> 0 then (Some (ErrorString ''refresh token already expired''), w)
          else
            (case on_redis (cache_Set (au_redis uc) (RefreshKey (RefreshJTI pair)) (RefreshJTI pair)) w of
               (Some err, w) \<Rightarrow> (Some err, w)
             | (None, w) \<Rightarrow>
                 on_redis (cache_Expire (au_redis uc) (RefreshKey (RefreshJTI pair)) ttl) w))"

text \<open>The counting step of \<^verbatim>\<open>Login\<close>, \<^verbatim>\<open>VerifyOTP\<close> and \<^verbatim>\<open>ForgotPassword\<close>: a failed
  \<^verbatim>\<open>Incr\<close> leaves the count at its zero value.\<close>

definition count_attempt ::
  "'r RedisCache \<Rightarrow> string \<Rightarrow> duration \<Rightarrow> ('u, 'r, 'm, 'e) world \<Rightarrow> int \<times> ('u, 'r, 'm, 'e) world" where
  "count_attempt rc key ttl w =
     (case on_redis (cache_Incr rc key) w of
        (Inl incrErr, w) \<Rightarrow> (0, w)
      | (Inr attempts, w) \<Rightarrow>
          if attempts = 1 then (attempts, snd (on_redis (cache_Expire rc key ttl) w))
          else (attempts, w))"

record LoginResponse =
  lrUser :: User
  lrAccessToken :: string
  lrRefreshToken :: string

text \<open>The tail \<^verbatim>\<open>Login\<close> and \<^verbatim>\<open>Refresh\<close> share: mint a pair and remember it.\<close>

definition mint_session ::
  "'e goenv \<Rightarrow> ('u, 'r, 'm, 'e) auth_usecase \<Rightarrow> User \<Rightarrow> ('u, 'r, 'm, 'e) world \<Rightarrow>
   (goerr + TokenPair) \<times> ('u, 'r, 'm, 'e) world" where
  "mint_session E uc user w =
     (case on_env (svc_GenerateTokenPair (au_jwt uc) (uID user) (IsAdmin user) (uEmail user)) w of
        (Inl mintErr, w) \<Rightarrow> (Inl (InternalCause (errorf_w ''generate token'' mintErr)), w)
      | (Inr pair, w) \<Rightarrow>
          (case rememberRefresh E uc pair w of
             (Some persistErr, w) \<Rightarrow> (Inl (InternalCause (errorf_w ''persist refresh'' persistErr)), w)
           | (None, w) \<Rightarrow> (Inr pair, w)))"

section \<open>The flows\<close>

definition Register ::
  "('u, 'r, 'm, 'e) auth_usecase \<Rightarrow> User \<Rightarrow> ('u, 'r, 'm, 'e) world \<Rightarrow>
   (goerr + User) \<times> ('u, 'r, 'm, 'e) world" where
  "Register uc inU w =
     (case on_users (uc_Store (au_users uc) inU) w of
        (Inl storeErr, w) \<Rightarrow> (Inl storeErr, w)
      | (Inr stored, w) \<Rightarrow> (Inr stored, w))"

definition Login ::
  "'e goenv \<Rightarrow> ('u, 'r, 'm, 'e) auth_usecase \<Rightarrow> string \<Rightarrow> string \<Rightarrow> ('u, 'r, 'm, 'e) world \<Rightarrow>
   (goerr + LoginResponse) \<times> ('u, 'r, 'm, 'e) world" where
  "Login E uc reqEmail password w =
     (let email = NormalizeEmail E reqEmail;
          attemptsKey = LoginAttemptsKey email;
          (attempts, w) =
            (if LoginMaxAttempts (au_cfg uc) > 0
             then count_attempt (au_redis uc) attemptsKey (LoginLockoutTTL (au_cfg uc)) w
             else (0, w))
      in if LoginMaxAttempts (au_cfg uc) > 0 \<and> attempts > LoginMaxAttempts (au_cfg uc)
         then (Inl (Forbidden ''too many failed login attempts, please try again later''), w)
         else
           (case on_users (uc_GetByEmail (au_users uc) email) w of
              (Inl lookupErr, w) \<Rightarrow>
                (let _ = ValidateHash E password dummyBcryptHash
                 in (Inl (Unauthorized ''invalid email or password''), w))
            | (Inr user, w) \<Rightarrow>
                if \<not> uActive user then (Inl (Forbidden ''account is not activated''), w)
                else if \<not> VerifyPassword E user password
                then (Inl (Unauthorized ''invalid email or password''), w)
                else
                  (case mint_session E uc user w of
                     (Inl err, w) \<Rightarrow> (Inl err, w)
                   | (Inr pair, w) \<Rightarrow>
                       (let w = snd (on_redis (cache_Del (au_redis uc) attemptsKey) w)
                        in (Inr \<lparr>lrUser = user, lrAccessToken = AccessToken pair,
                                 lrRefreshToken = RefreshToken pair\<rparr>, w)))))"

definition SendOTP ::
  "'e goenv \<Rightarrow> ('u, 'r, 'm, 'e) auth_usecase \<Rightarrow> string \<Rightarrow> ('u, 'r, 'm, 'e) world \<Rightarrow>
   (goerr option \<times> ('u, 'r, 'm, 'e) world) option" where
  "SendOTP E uc reqEmail w =
     (let email = NormalizeEmail E reqEmail in
      case on_users (uc_GetByEmail (au_users uc) email) w of
        (Inl lookupErr, w) \<Rightarrow> Some (Some (NotFound ''email not found''), w)
      | (Inr user, w) \<Rightarrow>
          if uActive user then Some (Some (BadRequest ''account already activated''), w)
          else
            (case GenerateOTPCode E 6 (w_env w) of
               None \<Rightarrow> None
             | Some (Inl otpErr, e) \<Rightarrow>
                 Some (Some (InternalCause (errorf_w ''generate otp'' otpErr)), w\<lparr>w_env := e\<rparr>)
             | Some (Inr code, e) \<Rightarrow>
                 (case on_mail (mail_SendOTP (au_mailer uc) code email) (w\<lparr>w_env := e\<rparr>) of
                    (Some mailErr, w) \<Rightarrow>
                      (let w = observe (ObserveMailerOp E ''queue_full'') w
                       in Some (Some (InternalCause (errorf_w ''send otp'' mailErr)), w))
                  | (None, w) \<Rightarrow>
                      (let w = (case on_redis (cache_Set (au_redis uc) (UserOTPKey email) code) w of
                                  (Some cacheErr, w) \<Rightarrow> observe (ObserveCacheOp E ''redis'' ''set'' ''error'') w
                                | (None, w) \<Rightarrow> observe (ObserveCacheOp E ''redis'' ''set'' ''ok'') w);
                           w = snd (on_redis (cache_Del (au_redis uc) (OTPAttemptsKey email)) w)
                       in Some (None, w)))))"

text \<open>\<^verbatim>\<open>subtle.ConstantTimeCompare\<close> is 1 on equal byte strings and 0 otherwise.\<close>

definition ConstantTimeCompare :: "string \<Rightarrow> string \<Rightarrow> int" where
  "ConstantTimeCompare a b = (if a = b then 1 else 0)"

definition VerifyOTP ::
  "'e goenv \<Rightarrow> ('u, 'r, 'm, 'e) auth_usecase \<Rightarrow> string \<Rightarrow> string \<Rightarrow> ('u, 'r, 'm, 'e) world \<Rightarrow>
   goerr option \<times> ('u, 'r, 'm, 'e) world" where
  "VerifyOTP E uc reqEmail otpCode w =
     (let email = NormalizeEmail E reqEmail in
      case on_users (uc_GetByEmail (au_users uc) email) w of
        (Inl lookupErr, w) \<Rightarrow> (Some (NotFound ''email not found''), w)
      | (Inr user, w) \<Rightarrow>
          if uActive user then (Some (BadRequest ''account already activated''), w)
          else
            (case count_attempt (au_redis uc) (OTPAttemptsKey email) (OTPTTL (au_cfg uc)) w of
               (attempts, w) \<Rightarrow>
                 if attempts > OTPMaxAttempts (au_cfg uc)
                 then (Some (Forbidden ''too many invalid otp attempts, please request a new code''), w)
                 else
                   (case on_redis (cache_Get (au_redis uc) (UserOTPKey email)) w of
                      (Inl getErr, w) \<Rightarrow>
                        (Some (BadRequest ''otp code expired or not found''),
                         observe (ObserveCacheOp E ''redis'' ''get'' ''miss'') w)
                    | (Inr otpRedis, w) \<Rightarrow>
                        (let w = observe (ObserveCacheOp E ''redis'' ''get'' ''hit'') w in
                         if ConstantTimeCompare otpRedis otpCode \<noteq> 1
                         then (Some (BadRequest ''invalid otp code''), w)
                         else
                           (case on_users (uc_Activate (au_users uc) (uID user)) w of
                              (Some activateErr, w) \<Rightarrow> (Some activateErr, w)
                            | (None, w) \<Rightarrow>
                                (let w = snd (on_redis (cache_Del (au_redis uc) (UserOTPKey email)) w);
                                     w = snd (on_redis (cache_Del (au_redis uc) (OTPAttemptsKey email)) w)
                                 in (None, w)))))))"

definition Refresh ::
  "'e goenv \<Rightarrow> ('u, 'r, 'm, 'e) auth_usecase \<Rightarrow> string \<Rightarrow> ('u, 'r, 'm, 'e) world \<Rightarrow>
   (goerr + LoginResponse) \<times> ('u, 'r, 'm, 'e) world" where
  "Refresh E uc refreshToken w =
     (case on_env (svc_ParseRefreshToken (au_jwt uc) refreshToken) w of
        (Inl parseErr, w) \<Rightarrow> (Inl (Unauthorized ''invalid refresh token''), w)
      | (Inr claims, w) \<Rightarrow>
          (case on_redis (cache_Get (au_redis uc) (RefreshKey (cID claims))) w of
             (Inl getErr, w) \<Rightarrow> (Inl (Unauthorized ''refresh token has been revoked''), w)
           | (Inr _, w) \<Rightarrow>
               (case on_users (uc_GetByEmail (au_users uc) (cEmail claims)) w of
                  (Inl lookupErr, w) \<Rightarrow> (Inl (Unauthorized ''user no longer exists''), w)
                | (Inr user, w) \<Rightarrow>
                    if \<not> uActive user then (Inl (Forbidden ''account is not activated''), w)
                    else if \<not> time_IsZero (TokensRevokedBefore user) \<and>
                       (case cIssuedAt claims of None \<Rightarrow> False | Some iat \<Rightarrow> iat < TokensRevokedBefore user)
                    then (Inl (Unauthorized ''refresh token has been revoked''), w)
                    else
                      (case mint_session E uc user w of
                         (Inl err, w) \<Rightarrow> (Inl err, w)
                       | (Inr pair, w) \<Rightarrow>
                           (let w = snd (on_redis (cache_Del (au_redis uc) (RefreshKey (cID claims))) w)
                            in (Inr \<lparr>lrUser = user, lrAccessToken = AccessToken pair,
                                     lrRefreshToken = RefreshToken pair\<rparr>, w))))))"

definition Logout ::
  "('u, 'r, 'm, 'e) auth_usecase \<Rightarrow> string \<Rightarrow> ('u, 'r, 'm, 'e) world \<Rightarrow>
   goerr option \<times> ('u, 'r, 'm, 'e) world" where
  "Logout uc refreshToken w =
     (case on_env (svc_ParseRefreshToken (au_jwt uc) refreshToken) w of
        (Inl parseErr, w) \<Rightarrow> (Some (Unauthorized ''invalid refresh token''), w)
      | (Inr claims, w) \<Rightarrow>
          (case on_redis (cache_Del (au_redis uc) (RefreshKey (cID claims))) w of
             (Some delErr, w) \<Rightarrow> (Some (InternalCause (errorf_w ''revoke refresh'' delErr)), w)
           | (None, w) \<Rightarrow> (None, w)))"

end
