(* ===== verification/Security_Log.thy ===== *)
theory Security_Log
  imports Go_Env
begin

text \<open>
  \<^verbatim>\<open>pkg/audit/audit.go\<close>: the events of the security log. The sink is an append-only list; an
  encoding error is dropped by the code, so a written event is what the sink was handed.
\<close>

datatype EventType =
    EventNone
  | EventRegister
  | EventLoginSuccess
  | EventLoginFailure
  | EventLogout
  | EventRefreshOK
  | EventRefreshFail
  | EventOTPSent
  | EventOTPVerifyOK
  | EventOTPVerifyFail
  | EventOTPLockout
  | EventPasswordChangeOK
  | EventPasswordChangeFail
  | EventPasswordForgotOK
  | EventPasswordForgotFail
  | EventPasswordResetOK
  | EventPasswordResetFail

record Event =
  evTime :: time
  evType :: EventType
  evSuccess :: bool
  evUserID :: string
  evEmail :: string
  evIP :: string
  evUserAgent :: string
  evRequestID :: string
  evTraceID :: string
  evReason :: string

text \<open>\<^verbatim>\<open>Record\<close> stamps an event that has no time and hands it to the sink.\<close>

definition audit_Record :: "'e goenv \<Rightarrow> Event \<Rightarrow> Event list \<Rightarrow> 'e \<Rightarrow> Event list \<times> 'e" where
  "audit_Record E ev sink e =
     (if time_IsZero (evTime ev)
      then (case time_Now E e of (now, e) \<Rightarrow> (sink @ [ev\<lparr>evTime := now\<rparr>], e))
      else (sink @ [ev], e))"

lemma audit_Record_one:
  assumes "audit_Record E ev sink e = (sink', e')"
  shows "\<exists>t. sink' = sink @ [ev\<lparr>evTime := t\<rparr>] \<and> (e' = e \<or> (\<exists>now. time_Now E e = (now, e')))"
  using assms by (auto simp: audit_Record_def split: if_splits prod.splits intro: exI [of _ "evTime ev"])

section \<open>The writer\<close>

text \<open>\<open>audit_Record\<close> acts on the lines of the current writer. The package state: the writer in use and the
  lines that each writer has received.\<close>

record 'o audit_state =
  ad_out :: 'o
  ad_lines :: "'o \<Rightarrow> Event list"

definition SetOutput :: "'o \<Rightarrow> 'o audit_state \<Rightarrow> 'o audit_state" where
  "SetOutput w s = s\<lparr>ad_out := w\<rparr>"

definition Record_out :: "'e goenv \<Rightarrow> Event \<Rightarrow> 'o audit_state \<Rightarrow> 'e \<Rightarrow> 'o audit_state \<times> 'e" where
  "Record_out E ev s e =
     (case audit_Record E ev (ad_lines s (ad_out s)) e of
        (lines, e) \<Rightarrow> (s\<lparr>ad_lines := (ad_lines s)(ad_out s := lines)\<rparr>, e))"

lemma Record_after_SetOutput:
  assumes "Record_out E ev (SetOutput w s) e = (s', e')"
  shows "\<exists>ev'. ad_lines s' w = ad_lines s w @ [ev'] \<and> evType ev' = evType ev \<and> (\<forall>v. v \<noteq> w \<longrightarrow> ad_lines s' v = ad_lines s v)"
  using assms by (auto simp: Record_out_def SetOutput_def audit_Record_def Let_def split: prod.splits if_splits)

end
