(* ===== verification/Http_Base.thy ===== *)
theory Http_Base
  imports Usecase_Auth Security_Log
begin

text \<open>
  The HTTP layer's shared parts: the request context of gin as the handlers use it, the response
  envelope of \<^verbatim>\<open>internal/http/handlers/v1/handler.base_response.go\<close>, the response bodies of
  \<^verbatim>\<open>internal/http/datatransfers/responses\<close> and \<^verbatim>\<open>internal/http/auth/context.go\<close>. A context
  records the responses, their headers and the audit events written while it is served, so that a handler can be
  shown to write exactly one.
\<close>

record UserResponse =
  urId :: string
  urUsername :: string
  urEmail :: string
  urRoleId :: int
  urToken :: string
  urRefreshToken :: string
  urCreatedAt :: time
  urUpdatedAt :: "time option"

text \<open>What the field \<^verbatim>\<open>Data\<close> of a response holds in this program.\<close>

datatype respdata =
    NoData
  | UserData UserResponse
  | UserMap UserResponse
  | ErrorList "FieldError list"

record BaseResponse =
  rStatus :: bool
  rMessage :: string
  rData :: respdata
  rRequestID :: string

text \<open>Values under a key of the context.\<close>

datatype ctxval = CtxString string | CtxClaims JwtCustomClaim | CtxOther

text \<open>What reading the body of a request yields: its bytes, then the end of the body or the error of
  a reader whose limit is exceeded.\<close>

record body_reader =
  br_data :: string
  br_tooLarge :: bool

text \<open>The body of a response written as a \<^verbatim>\<open>gin.H\<close> rather than in the envelope.\<close>

datatype hval = HBool bool | HString string | HMap "string \<rightharpoonup> string"

text \<open>The request (method, path, matched pattern, headers, body, and the values that the middlewares
  attach to its context), and the response (status, bodies, headers).\<close>

record gin_ctx =
  g_method :: string
  g_path :: string
  g_fullPath :: string
  g_xRequestID :: string
  g_span :: "string option"
  g_ctxRequestID :: string
  g_authorization :: string
  g_body :: "body_reader option"
  g_keys :: "string \<rightharpoonup> ctxval"
  g_clientIP :: string
  g_userAgent :: string
  g_traceID :: string
  g_out :: "(int \<times> BaseResponse) list"
  g_aborted :: bool
  g_audit :: "Event list"
  g_headers :: "string \<rightharpoonup> string"
  g_status :: int
  g_raw :: "(int \<times> (string \<rightharpoonup> hval)) list"

definition CtxAuthenticatedUserKey :: string where
  "CtxAuthenticatedUserKey = ''CtxAuthenticatedUserKey''"

text \<open>The status is that of the first response; a later one does not change it.\<close>

definition gin_WriteHeader :: "gin_ctx \<Rightarrow> int \<Rightarrow> gin_ctx" where
  "gin_WriteHeader c code = (if g_out c = [] \<and> g_raw c = [] then c\<lparr>g_status := code\<rparr> else c)"

definition gin_JSON_H :: "gin_ctx \<Rightarrow> int \<Rightarrow> (string \<rightharpoonup> hval) \<Rightarrow> gin_ctx" where
  "gin_JSON_H c code body = (gin_WriteHeader c code)\<lparr>g_raw := g_raw c @ [(code, body)]\<rparr>"

definition gin_JSON :: "gin_ctx \<Rightarrow> int \<Rightarrow> BaseResponse \<Rightarrow> gin_ctx" where
  "gin_JSON c code body = (gin_WriteHeader c code)\<lparr>g_out := g_out c @ [(code, body)]\<rparr>"

definition gin_AbortWithStatusJSON :: "gin_ctx \<Rightarrow> int \<Rightarrow> BaseResponse \<Rightarrow> gin_ctx" where
  "gin_AbortWithStatusJSON c code body = (gin_JSON c code body)\<lparr>g_aborted := True\<rparr>"

definition gin_GetString :: "gin_ctx \<Rightarrow> string \<Rightarrow> string" where
  "gin_GetString c key = (case g_keys c key of Some (CtxString s) \<Rightarrow> s | _ \<Rightarrow> '''')"

text \<open>\<^verbatim>\<open>c.Writer.Header().Set\<close>.\<close>

definition gin_SetHeader :: "gin_ctx \<Rightarrow> string \<Rightarrow> string \<Rightarrow> gin_ctx" where
  "gin_SetHeader c key v = c\<lparr>g_headers := (g_headers c)(key \<mapsto> v)\<rparr>"

definition gin_Set :: "gin_ctx \<Rightarrow> string \<Rightarrow> ctxval \<Rightarrow> gin_ctx" where
  "gin_Set c key v = c\<lparr>g_keys := (g_keys c)(key \<mapsto> v)\<rparr>"

section \<open>handler.base_response.go\<close>

definition requestID :: "gin_ctx \<Rightarrow> string" where
  "requestID c = gin_GetString c ''X-Request-ID''"

definition NewSuccessResponse :: "gin_ctx \<Rightarrow> int \<Rightarrow> string \<Rightarrow> respdata \<Rightarrow> gin_ctx" where
  "NewSuccessResponse c statusCode message data =
     gin_JSON c statusCode
       \<lparr>rStatus = True, rMessage = message, rData = data, rRequestID = requestID c\<rparr>"

definition NewErrorResponse :: "gin_ctx \<Rightarrow> int \<Rightarrow> string \<Rightarrow> gin_ctx" where
  "NewErrorResponse c statusCode err =
     gin_JSON c statusCode
       \<lparr>rStatus = False, rMessage = err, rData = NoData, rRequestID = requestID c\<rparr>"

definition NewAbortResponse :: "gin_ctx \<Rightarrow> string \<Rightarrow> gin_ctx" where
  "NewAbortResponse c message =
     gin_AbortWithStatusJSON c 401
       \<lparr>rStatus = False, rMessage = message, rData = NoData, rRequestID = requestID c\<rparr>"

definition mapDomainErrorToHTTP :: "goerr \<Rightarrow> int" where
  "mapDomainErrorToHTTP err =
     (case errors_As_DomainError err of
        Some (DomainError ty msg cause) \<Rightarrow>
          (case ty of
             ErrTypeNotFound \<Rightarrow> 404
           | ErrTypeUnauthorized \<Rightarrow> 401
           | ErrTypeForbidden \<Rightarrow> 403
           | ErrTypeConflict \<Rightarrow> 409
           | ErrTypeBadRequest \<Rightarrow> 400
           | _ \<Rightarrow> 500)
      | _ \<Rightarrow> 500)"

definition RespondWithError :: "gin_ctx \<Rightarrow> goerr \<Rightarrow> gin_ctx" where
  "RespondWithError c err =
     (case errors_As_ValidationErrors err of
        Some (ValidationErrors es) \<Rightarrow>
          gin_JSON c 422
            \<lparr>rStatus = False, rMessage = ''validation failed'', rData = ErrorList es,
             rRequestID = requestID c\<rparr>
      | _ \<Rightarrow>
          (let status = mapDomainErrorToHTTP err;
               message = (if status \<ge> 500 then ''internal server error'' else Error err)
           in NewErrorResponse c status message))"

section \<open>responses\<close>

definition UserResponse_ToV1Domain :: "UserResponse \<Rightarrow> User" where
  "UserResponse_ToV1Domain u =
     zero_User\<lparr>uID := urId u, uUsername := urUsername u, uEmail := urEmail u, uRoleID := urRoleId u,
       uCreatedAt := urCreatedAt u, uUpdatedAt := urUpdatedAt u\<rparr>"

definition FromV1Domain :: "User \<Rightarrow> UserResponse" where
  "FromV1Domain u =
     \<lparr>urId = uID u, urUsername = uUsername u, urEmail = uEmail u, urRoleId = uRoleID u, urToken = '''',
      urRefreshToken = '''', urCreatedAt = uCreatedAt u, urUpdatedAt = uUpdatedAt u\<rparr>"

definition FromLoginResponse :: "LoginResponse \<Rightarrow> UserResponse" where
  "FromLoginResponse r =
     (FromV1Domain (lrUser r))\<lparr>urToken := lrAccessToken r, urRefreshToken := lrRefreshToken r\<rparr>"

fun ToResponseList_loop :: "UserResponse list \<Rightarrow> User list \<Rightarrow> UserResponse list" where
  "ToResponseList_loop result [] = result"
| "ToResponseList_loop result (val # domains) = ToResponseList_loop (result @ [FromV1Domain val]) domains"

definition ToResponseList :: "User list \<Rightarrow> UserResponse list" where
  "ToResponseList domains = ToResponseList_loop [] domains"

section \<open>internal/http/auth\<close>

record CurrentUser =
  cuID :: string
  cuEmail :: string
  cuIsAdmin :: bool
  cuJTI :: string

definition CurrentUserFromContext :: "gin_ctx \<Rightarrow> goerr + CurrentUser" where
  "CurrentUserFromContext c =
     (case g_keys c CtxAuthenticatedUserKey of
        None \<Rightarrow> Inl (Sentinel ErrNotAuthenticated)
      | Some raw \<Rightarrow>
          (case raw of
             CtxClaims claims \<Rightarrow>
               Inr \<lparr>cuID = cUserID claims, cuEmail = cEmail claims, cuIsAdmin = cIsAdmin claims,
                    cuJTI = cID claims\<rparr>
           | _ \<Rightarrow> Inl (Sentinel ErrNotAuthenticated)))"

section \<open>Lemmas\<close>

lemma gin_WriteHeader_sel [simp]:
  "g_out (gin_WriteHeader c code) = g_out c" "g_raw (gin_WriteHeader c code) = g_raw c"
  "g_keys (gin_WriteHeader c code) = g_keys c" "g_audit (gin_WriteHeader c code) = g_audit c"
  "g_headers (gin_WriteHeader c code) = g_headers c" "g_aborted (gin_WriteHeader c code) = g_aborted c"
  "g_body (gin_WriteHeader c code) = g_body c" "g_clientIP (gin_WriteHeader c code) = g_clientIP c"
  by (simp_all add: gin_WriteHeader_def)

lemma ToResponseList_map: "ToResponseList us = map FromV1Domain us"
proof -
  have "ToResponseList_loop acc us = acc @ map FromV1Domain us" for acc
    by (induction us arbitrary: acc) auto
  then show ?thesis by (simp add: ToResponseList_def)
qed

lemma as_DomainError_shape:
  "errors_As_DomainError err = Some d \<Longrightarrow> \<exists>ty msg c. d = DomainError ty msg c \<and> domain_type err = Some ty"
  using as_DomainError_is [of err d] by (cases d) (auto simp: domain_type_def)

lemma as_ValidationErrors_shape:
  "errors_As_ValidationErrors err = Some v \<Longrightarrow> \<exists>es. v = ValidationErrors es"
proof -
  assume "errors_As_ValidationErrors err = Some v"
  then have "is_ValidationErrors v" by (auto simp: errors_As_ValidationErrors_def find_Some_iff)
  then show ?thesis by (cases v) auto
qed

lemma mapDomainErrorToHTTP_domain:
  "mapDomainErrorToHTTP err =
     (case domain_type err of
        None \<Rightarrow> 500
      | Some ty \<Rightarrow> (case ty of ErrTypeNotFound \<Rightarrow> 404 | ErrTypeUnauthorized \<Rightarrow> 401 | ErrTypeForbidden \<Rightarrow> 403
          | ErrTypeConflict \<Rightarrow> 409 | ErrTypeBadRequest \<Rightarrow> 400 | ErrTypeInternal \<Rightarrow> 500))"
proof (cases "errors_As_DomainError err")
  case None
  then show ?thesis by (simp add: mapDomainErrorToHTTP_def domain_type_def)
next
  case (Some d)
  then show ?thesis
    using as_DomainError_shape [OF Some] by (auto simp: mapDomainErrorToHTTP_def split: ErrorType.splits)
qed

text \<open>One response per call.\<close>

lemma responses_one [simp]:
  "g_out (NewSuccessResponse c code m d) =
     g_out c @ [(code, \<lparr>rStatus = True, rMessage = m, rData = d, rRequestID = requestID c\<rparr>)]"
  "g_out (NewErrorResponse c code m) =
     g_out c @ [(code, \<lparr>rStatus = False, rMessage = m, rData = NoData, rRequestID = requestID c\<rparr>)]"
  "g_out (NewAbortResponse c m) =
     g_out c @ [(401, \<lparr>rStatus = False, rMessage = m, rData = NoData, rRequestID = requestID c\<rparr>)]"
  by (simp_all add: NewSuccessResponse_def NewErrorResponse_def NewAbortResponse_def
      gin_AbortWithStatusJSON_def gin_JSON_def)

lemma RespondWithError_one:
  "\<exists>code body. g_out (RespondWithError c err) = g_out c @ [(code, body)] \<and> \<not> rStatus body \<and>
     code \<in> {400, 401, 403, 404, 409, 422, 500}"
proof (cases "errors_As_ValidationErrors err")
  case None
  then show ?thesis
    by (auto simp: RespondWithError_def Let_def mapDomainErrorToHTTP_domain split: option.splits ErrorType.splits)
next
  case (Some v)
  with as_ValidationErrors_shape [OF Some] show ?thesis
    by (auto simp: RespondWithError_def gin_JSON_def)
qed

section \<open>Properties\<close>

text \<open>An error that is not a validation failure is answered with one response, whose status is
  decided by the category of the domain error alone; when the category is internal or there is
  none, the status is 500 and the message is a fixed text, so nothing of the error reaches the
  client.\<close>

theorem error_response_sanitised:
  assumes "errors_As_ValidationErrors err = None"
  shows "\<exists>code body. g_out (RespondWithError c err) = g_out c @ [(code, body)] \<and> rData body = NoData \<and>
    \<not> rStatus body \<and>
    (case domain_type err of
       None \<Rightarrow> code = 500 \<and> rMessage body = ''internal server error''
     | Some ErrTypeInternal \<Rightarrow> code = 500 \<and> rMessage body = ''internal server error''
     | Some ErrTypeNotFound \<Rightarrow> code = 404 \<and> rMessage body = Error err
     | Some ErrTypeUnauthorized \<Rightarrow> code = 401 \<and> rMessage body = Error err
     | Some ErrTypeForbidden \<Rightarrow> code = 403 \<and> rMessage body = Error err
     | Some ErrTypeConflict \<Rightarrow> code = 409 \<and> rMessage body = Error err
     | Some ErrTypeBadRequest \<Rightarrow> code = 400 \<and> rMessage body = Error err)"
  using assms
  by (auto simp: RespondWithError_def Let_def mapDomainErrorToHTTP_domain split: option.splits ErrorType.splits)

definition ref_ctx :: gin_ctx where
  "ref_ctx =
     \<lparr>g_method = ''POST'', g_path = '''', g_fullPath = '''', g_xRequestID = '''', g_span = None,
      g_ctxRequestID = '''', g_authorization = '''', g_body = None, g_keys = Map.empty, g_clientIP = ''10.0.0.1'',
      g_userAgent = ''curl'', g_traceID = '''', g_out = [], g_aborted = False, g_audit = [],
      g_headers = Map.empty, g_status = 200, g_raw = []\<rparr>"

theorem error_response_sanitised_witness:
  "g_out (RespondWithError ref_ctx (InternalCause (ErrorString ''dial tcp 10.1.2.3:5432''))) =
     [(500, \<lparr>rStatus = False, rMessage = ''internal server error'', rData = NoData, rRequestID = ''''\<rparr>)]"
proof -
  let ?e = "InternalCause (ErrorString ''dial tcp 10.1.2.3:5432'')"
  have "errors_As_ValidationErrors ?e = None"
    by (simp add: apperror_defs errors_As_ValidationErrors_def)
  from error_response_sanitised [OF this, of ref_ctx] show ?thesis
    by (auto simp: apperror_defs RespondWithError_def ref_ctx_def requestID_def gin_GetString_def
        errors_As_ValidationErrors_def mapDomainErrorToHTTP_domain domain_type_def)
qed

end
