(* ===== verification/Validators.thy ===== *)
theory Validators
  imports Go_Json Helpers_Otp
begin

text \<open>
  \<^verbatim>\<open>pkg/validators\<close> and the validation tags of \<^verbatim>\<open>internal/http/datatransfers/requests\<close>. The
  package \<^verbatim>\<open>go-playground/validator\<close> and the Unicode tables are parameters; the locale
  \<open>validator_lib\<close> is what is documented of the package: the rules of a tag are checked from left
  to right, the first that fails is reported, and the reports come in the order of the fields.
\<close>

section \<open>Runes\<close>

text \<open>The runes a \<^verbatim>\<open>range\<close> over a string visits, each as its bytes; an invalid byte is U+FFFD.\<close>

function runes :: "string \<Rightarrow> string list" where
  "runes [] = []"
| "runes (c # s) =
     (if is_ascii c then [c] # runes s
      else (let n = utf8_len (c # s) in
        if n = 0 then utf8_RuneError # runes s else take n (c # s) # runes (drop (n - 1) s)))"
  by pat_completeness auto
termination
  by (relation "measure length") auto

record unicode_tables =
  IsUpper :: "string \<Rightarrow> bool"
  IsLower :: "string \<Rightarrow> bool"
  IsDigit :: "string \<Rightarrow> bool"
  IsPunct :: "string \<Rightarrow> bool"
  IsSymbol :: "string \<Rightarrow> bool"

section \<open>StrongPassword\<close>

fun strong_loop :: "unicode_tables \<Rightarrow> string list \<Rightarrow> bool \<times> bool \<times> bool \<times> bool \<Rightarrow> bool \<times> bool \<times> bool \<times> bool" where
  "strong_loop U [] has = has"
| "strong_loop U (r # rs) (hasUpper, hasLower, hasDigit, hasSpecial) =
     strong_loop U rs
       (if IsUpper U r then (True, hasLower, hasDigit, hasSpecial)
        else if IsLower U r then (hasUpper, True, hasDigit, hasSpecial)
        else if IsDigit U r then (hasUpper, hasLower, True, hasSpecial)
        else if IsPunct U r \<or> IsSymbol U r then (hasUpper, hasLower, hasDigit, True)
        else (hasUpper, hasLower, hasDigit, hasSpecial))"

text \<open>The field the rule is put on is always a string, so the type assertion succeeds.\<close>

definition StrongPassword :: "unicode_tables \<Rightarrow> string \<Rightarrow> bool" where
  "StrongPassword U password =
     (case strong_loop U (runes password) (False, False, False, False) of
        (hasUpper, hasLower, hasDigit, hasSpecial) \<Rightarrow> hasUpper \<and> hasLower \<and> hasDigit \<and> hasSpecial)"

section \<open>ValidatePayloads\<close>

text \<open>A field of a struct with its \<^verbatim>\<open>validate\<close> tag, and a report of the package on one field.\<close>

record vfield =
  fldName :: string
  fldValue :: string
  fldTag :: string

record vreport =
  vf_Field :: string
  vf_Tag :: string
  vf_Param :: string
  vf_Value :: "string option"

datatype verror = VReports "vreport list" | VOther goerr

text \<open>\<^verbatim>\<open>(*validator.Validate).Struct\<close> of a validator with the given registered rules.\<close>

type_synonym validator_Struct = "(string \<times> (string \<Rightarrow> bool)) list \<Rightarrow> vfield list \<Rightarrow> verror option"

definition mapHelper :: "string \<rightharpoonup> string" where
  "mapHelper =
     [''required'' \<mapsto> ''is a required field'',
      ''email'' \<mapsto> ''is not a valid email address'',
      ''lowercase'' \<mapsto> ''must contain at least one lowercase letter'',
      ''uppercase'' \<mapsto> ''must contain at least one uppercase letter'',
      ''numeric'' \<mapsto> ''must contain at least one digit'',
      ''strongpassword'' \<mapsto> ''must contain uppercase, lowercase, digit, and special character'']"

definition needParam :: "string list" where
  "needParam = [''min'', ''max'', ''containsany'']"

definition paramMessage :: "string \<Rightarrow> string \<Rightarrow> string \<Rightarrow> string" where
  "paramMessage value tag param =
     (if tag = ''min'' then ''must be at least '' @ param @ '' characters long''
      else if tag = ''max'' then ''must be less than '' @ param @ '' characters''
      else if tag = ''containsany'' then ''must contain at least one symbol of '' @ [CHR 0x27] @ param @ [CHR 0x27]
      else ''failed '' @ tag @ '' validation'')"

text \<open>The verb \<^verbatim>\<open>%q\<close> on a tag, which is a plain identifier.\<close>

definition messageFor :: "vreport \<Rightarrow> string" where
  "messageFor e =
     (let tag = vf_Tag e; param = vf_Param e;
          value = (case vf_Value e of Some s \<Rightarrow> s | None \<Rightarrow> '''')
      in if IsArrayContains needParam tag then paramMessage value tag param
         else case mapHelper tag of
             Some msg \<Rightarrow>
               if value \<noteq> '''' then [CHR 0x27] @ value @ [CHR 0x27] @ '' '' @ msg else msg
           | None \<Rightarrow> ''failed validation on '' @ [CHR 0x22] @ tag @ [CHR 0x22])"

fun ValidatePayloads_loop :: "'e goenv \<Rightarrow> FieldError list \<Rightarrow> vreport list \<Rightarrow> FieldError list" where
  "ValidatePayloads_loop E out [] = out"
| "ValidatePayloads_loop E out (e # ve) =
     ValidatePayloads_loop E
       (out @ [FieldError (strings_ToLower (unicode_ToLower E) (vf_Field e)) (vf_Tag e) (messageFor e)]) ve"

definition ValidatePayloads ::
  "'e goenv \<Rightarrow> unicode_tables \<Rightarrow> validator_Struct \<Rightarrow> vfield list \<Rightarrow> goerr option" where
  "ValidatePayloads E U V payload =
     (case V [(''strongpassword'', StrongPassword U)] payload of
        None \<Rightarrow> None
      | Some err \<Rightarrow>
          (case err of
             VOther err \<Rightarrow> Some err
           | VReports ve \<Rightarrow> Some (ValidationErrors (ValidatePayloads_loop E [] ve))))"

section \<open>The request bodies and their tags\<close>

record RegisterRequest =
  rgUsername :: string
  rgEmail :: string
  rgPassword :: string

definition RegisterRequest_fields :: "RegisterRequest \<Rightarrow> vfield list" where
  "RegisterRequest_fields r =
     [\<lparr>fldName = ''Username'', fldValue = rgUsername r, fldTag = ''required,min=3,max=25''\<rparr>,
      \<lparr>fldName = ''Email'', fldValue = rgEmail r, fldTag = ''required,email,max=50''\<rparr>,
      \<lparr>fldName = ''Password'', fldValue = rgPassword r, fldTag = ''required,min=12,max=72,strongpassword''\<rparr>]"

record SendOTPRequest =
  soEmail :: string

definition SendOTPRequest_fields :: "SendOTPRequest \<Rightarrow> vfield list" where
  "SendOTPRequest_fields r =
     [\<lparr>fldName = ''Email'', fldValue = soEmail r, fldTag = ''required,email,max=50''\<rparr>]"

record VerifyOTPRequest =
  voEmail :: string
  voCode :: string

definition VerifyOTPRequest_fields :: "VerifyOTPRequest \<Rightarrow> vfield list" where
  "VerifyOTPRequest_fields r =
     [\<lparr>fldName = ''Email'', fldValue = voEmail r, fldTag = ''required,email,max=50''\<rparr>,
      \<lparr>fldName = ''Code'', fldValue = voCode r, fldTag = ''required,numeric''\<rparr>]"

record LoginRequest =
  lqEmail :: string
  lqPassword :: string

definition LoginRequest_fields :: "LoginRequest \<Rightarrow> vfield list" where
  "LoginRequest_fields r =
     [\<lparr>fldName = ''Email'', fldValue = lqEmail r, fldTag = ''required,email,max=50''\<rparr>,
      \<lparr>fldName = ''Password'', fldValue = lqPassword r, fldTag = ''required,min=1,max=72''\<rparr>]"

record RefreshRequest =
  rqRefreshToken :: string

definition RefreshRequest_fields :: "RefreshRequest \<Rightarrow> vfield list" where
  "RefreshRequest_fields r =
     [\<lparr>fldName = ''RefreshToken'', fldValue = rqRefreshToken r, fldTag = ''required''\<rparr>]"

record ChangePasswordRequest =
  cpCurrentPassword :: string
  cpNewPassword :: string

definition ChangePasswordRequest_fields :: "ChangePasswordRequest \<Rightarrow> vfield list" where
  "ChangePasswordRequest_fields r =
     [\<lparr>fldName = ''CurrentPassword'', fldValue = cpCurrentPassword r, fldTag = ''required,min=1,max=72''\<rparr>,
      \<lparr>fldName = ''NewPassword'', fldValue = cpNewPassword r, fldTag = ''required,min=12,max=72,strongpassword''\<rparr>]"

record ForgotPasswordRequest =
  fpEmail :: string

definition ForgotPasswordRequest_fields :: "ForgotPasswordRequest \<Rightarrow> vfield list" where
  "ForgotPasswordRequest_fields r =
     [\<lparr>fldName = ''Email'', fldValue = fpEmail r, fldTag = ''required,email,max=50''\<rparr>]"

record ResetPasswordRequest =
  rpToken :: string
  rpNewPassword :: string

definition ResetPasswordRequest_fields :: "ResetPasswordRequest \<Rightarrow> vfield list" where
  "ResetPasswordRequest_fields r =
     [\<lparr>fldName = ''Token'', fldValue = rpToken r, fldTag = ''required''\<rparr>,
      \<lparr>fldName = ''NewPassword'', fldValue = rpNewPassword r, fldTag = ''required,min=12,max=72,strongpassword''\<rparr>]"

section \<open>What the package is documented to do\<close>

text \<open>A tag is a list of rules separated by commas, a rule a name with an optional parameter.\<close>

definition tag_rules :: "string \<Rightarrow> (string \<times> string) list" where
  "tag_rules tag =
     map (\<lambda>r. case strings_Split r (CHR ''='') of n # p # _ \<Rightarrow> (n, p) | n # _ \<Rightarrow> (n, '''') | [] \<Rightarrow> ('''', ''''))
       (strings_Split tag (CHR '',''))"

text \<open>\<open>builtin name param value\<close> is the package's own rule; registered rules come first.\<close>

definition rule_ok ::
  "(string \<Rightarrow> string \<Rightarrow> string \<Rightarrow> bool) \<Rightarrow> (string \<times> (string \<Rightarrow> bool)) list \<Rightarrow> string \<Rightarrow> string \<times> string \<Rightarrow> bool" where
  "rule_ok builtin custom v r =
     (case map_of custom (fst r) of Some f \<Rightarrow> f v | None \<Rightarrow> builtin (fst r) (snd r) v)"

definition field_report ::
  "(string \<Rightarrow> string \<Rightarrow> string \<Rightarrow> bool) \<Rightarrow> (string \<times> (string \<Rightarrow> bool)) list \<Rightarrow> vfield \<Rightarrow> vreport list" where
  "field_report builtin custom f =
     (case List.find (\<lambda>r. \<not> rule_ok builtin custom (fldValue f) r) (tag_rules (fldTag f)) of
        None \<Rightarrow> []
      | Some (n, p) \<Rightarrow>
          [\<lparr>vf_Field = fldName f, vf_Tag = n, vf_Param = p, vf_Value = Some (fldValue f)\<rparr>])"

locale validator_lib =
  fixes V :: validator_Struct and builtin :: "string \<Rightarrow> string \<Rightarrow> string \<Rightarrow> bool"
  assumes struct_reports: "V custom fs =
      (case concat (map (field_report builtin custom) fs) of [] \<Rightarrow> None | es \<Rightarrow> Some (VReports es))"
    and required_rule: "builtin ''required'' p v \<longleftrightarrow> v \<noteq> ''''"
    and min_rule: "ParseInt64 p = Some n \<Longrightarrow> builtin ''min'' p v \<longleftrightarrow> n \<le> int (length (runes v))"
    and max_rule: "ParseInt64 p = Some n \<Longrightarrow> builtin ''max'' p v \<longleftrightarrow> int (length (runes v)) \<le> n"

section \<open>Lemmas\<close>

lemma strong_loop_spec:
  "strong_loop U rs (a, b, c, d) =
     (a \<or> list_ex (IsUpper U) rs, b \<or> list_ex (\<lambda>r. \<not> IsUpper U r \<and> IsLower U r) rs,
      c \<or> list_ex (\<lambda>r. \<not> IsUpper U r \<and> \<not> IsLower U r \<and> IsDigit U r) rs,
      d \<or> list_ex (\<lambda>r. \<not> IsUpper U r \<and> \<not> IsLower U r \<and> \<not> IsDigit U r \<and> (IsPunct U r \<or> IsSymbol U r)) rs)"
  by (induction rs arbitrary: a b c d) auto

lemma StrongPassword_iff:
  "StrongPassword U pw \<longleftrightarrow>
     list_ex (IsUpper U) (runes pw) \<and> list_ex (\<lambda>r. \<not> IsUpper U r \<and> IsLower U r) (runes pw) \<and>
     list_ex (\<lambda>r. \<not> IsUpper U r \<and> \<not> IsLower U r \<and> IsDigit U r) (runes pw) \<and>
     list_ex (\<lambda>r. \<not> IsUpper U r \<and> \<not> IsLower U r \<and> \<not> IsDigit U r \<and> (IsPunct U r \<or> IsSymbol U r)) (runes pw)"
  by (simp add: StrongPassword_def strong_loop_spec)

lemma ValidatePayloads_loop_map:
  "ValidatePayloads_loop E out ve =
     out @ map (\<lambda>e. FieldError (strings_ToLower (unicode_ToLower E) (vf_Field e)) (vf_Tag e) (messageFor e)) ve"
  by (induction ve arbitrary: out) auto

lemma tag_rules_simps:
  "tag_rules ''required,min=3,max=25'' = [(''required'', ''''), (''min'', ''3''), (''max'', ''25'')]"
  "tag_rules ''required,email,max=50'' = [(''required'', ''''), (''email'', ''''), (''max'', ''50'')]"
  "tag_rules ''required,min=12,max=72,strongpassword'' =
     [(''required'', ''''), (''min'', ''12''), (''max'', ''72''), (''strongpassword'', '''')]"
  "tag_rules ''required,min=1,max=72'' = [(''required'', ''''), (''min'', ''1''), (''max'', ''72'')]"
  "tag_rules ''required,numeric'' = [(''required'', ''''), (''numeric'', '''')]"
  "tag_rules ''required'' = [(''required'', '''')]"
  by code_simp+

lemma concat_map_Nil: "concat (map g xs) = [] \<longleftrightarrow> (\<forall>x\<in>set xs. g x = [])"
  by auto

lemma field_report_Nil:
  "field_report builtin custom f = [] \<longleftrightarrow> list_all (rule_ok builtin custom (fldValue f)) (tag_rules (fldTag f))"
proof (cases "List.find (\<lambda>r. \<not> rule_ok builtin custom (fldValue f) r) (tag_rules (fldTag f))")
  case None
  then have "field_report builtin custom f = []" by (simp add: field_report_def)
  moreover from None have "list_all (rule_ok builtin custom (fldValue f)) (tag_rules (fldTag f))"
    by (auto simp: find_None_iff list_all_iff)
  ultimately show ?thesis by simp
next
  case (Some r)
  then have "field_report builtin custom f \<noteq> []" by (simp add: field_report_def split: prod.splits)
  moreover from find_SomeD [OF Some] have "\<not> list_all (rule_ok builtin custom (fldValue f)) (tag_rules (fldTag f))"
    by (auto simp: list_all_iff)
  ultimately show ?thesis by simp
qed

context validator_lib
begin

abbreviation strong_rules :: "unicode_tables \<Rightarrow> (string \<times> (string \<Rightarrow> bool)) list" where
  "strong_rules U \<equiv> [(''strongpassword'', StrongPassword U)]"

lemma ValidatePayloads_reports:
  "ValidatePayloads E U V fs =
     (case concat (map (field_report builtin (strong_rules U)) fs) of
        [] \<Rightarrow> None
      | es \<Rightarrow> Some (ValidationErrors
          (map (\<lambda>e. FieldError (strings_ToLower (unicode_ToLower E) (vf_Field e)) (vf_Tag e) (messageFor e)) es)))"
  by (cases "concat (map (field_report builtin (strong_rules U)) fs)")
     (simp_all add: ValidatePayloads_def struct_reports ValidatePayloads_loop_map del: concat_eq_Nil_conv)

lemma ValidatePayloads_None:
  "ValidatePayloads E U V fs = None \<longleftrightarrow>
   (\<forall>f\<in>set fs. list_all (rule_ok builtin (strong_rules U) (fldValue f)) (tag_rules (fldTag f)))"
  unfolding field_report_Nil [symmetric] concat_map_Nil [symmetric]
  by (cases "concat (map (field_report builtin (strong_rules U)) fs)")
     (simp_all add: ValidatePayloads_reports del: concat_eq_Nil_conv)

lemma ValidatePayloads_error: "ValidatePayloads E U V fs = Some err \<Longrightarrow> \<exists>es. err = ValidationErrors es \<and> es \<noteq> []"
  by (cases "concat (map (field_report builtin (strong_rules U)) fs)") (auto simp: ValidatePayloads_reports)

end


section \<open>A reference validator\<close>

definition ref_builtin :: "string \<Rightarrow> string \<Rightarrow> string \<Rightarrow> bool" where
  "ref_builtin name p v =
     (if name = ''required'' then v \<noteq> ''''
      else if name = ''min'' then (case ParseInt64 p of Some n \<Rightarrow> n \<le> int (length (runes v)) | None \<Rightarrow> False)
      else if name = ''max'' then (case ParseInt64 p of Some n \<Rightarrow> int (length (runes v)) \<le> n | None \<Rightarrow> False)
      else if name = ''email'' then CHR ''@'' \<in> set v
      else if name = ''numeric'' then list_all is_digit v
      else False)"

definition ref_Struct :: validator_Struct where
  "ref_Struct custom fs =
     (case concat (map (field_report ref_builtin custom) fs) of [] \<Rightarrow> None | es \<Rightarrow> Some (VReports es))"

definition ref_unicode :: unicode_tables where
  "ref_unicode =
     \<lparr>IsUpper = (\<lambda>r. case r of [c] \<Rightarrow> in_range 65 90 c | _ \<Rightarrow> False),
      IsLower = (\<lambda>r. case r of [c] \<Rightarrow> in_range 97 122 c | _ \<Rightarrow> False),
      IsDigit = (\<lambda>r. case r of [c] \<Rightarrow> is_digit c | _ \<Rightarrow> False),
      IsPunct = (\<lambda>r. case r of [c] \<Rightarrow> c \<in> set ''!#%&()*,-./:;?@_'' | _ \<Rightarrow> False),
      IsSymbol = (\<lambda>r. case r of [c] \<Rightarrow> c \<in> set ''$+<=>^|~'' | _ \<Rightarrow> False)\<rparr>"

interpretation ref_validator: validator_lib ref_Struct ref_builtin
  by unfold_locales (simp_all add: ref_Struct_def ref_builtin_def)

section \<open>Properties\<close>

lemma tag_params:
  "ParseInt64 ''3'' = Some 3" "ParseInt64 ''25'' = Some 25" "ParseInt64 ''50'' = Some 50"
  "ParseInt64 ''12'' = Some 12" "ParseInt64 ''72'' = Some 72" "ParseInt64 ''1'' = Some 1"
  by code_simp+

context validator_lib
begin

lemmas rules_spec =
  rule_ok_def required_rule min_rule [OF tag_params(1)] min_rule [OF tag_params(4)] min_rule [OF tag_params(6)]
  max_rule [OF tag_params(2)] max_rule [OF tag_params(3)] max_rule [OF tag_params(5)] tag_rules_simps

lemma register_valid:
  "ValidatePayloads E U V (RegisterRequest_fields r) = None \<longleftrightarrow>
     3 \<le> length (runes (rgUsername r)) \<and> length (runes (rgUsername r)) \<le> 25 \<and>
     builtin ''email'' '''' (rgEmail r) \<and> rgEmail r \<noteq> '''' \<and> length (runes (rgEmail r)) \<le> 50 \<and>
     12 \<le> length (runes (rgPassword r)) \<and> length (runes (rgPassword r)) \<le> 72 \<and> StrongPassword U (rgPassword r)"
  unfolding ValidatePayloads_None
  by (cases "rgUsername r"; cases "rgPassword r") (auto simp: RegisterRequest_fields_def rules_spec)

lemma weak_password_report:
  assumes "fldTag f = ''required,min=12,max=72,strongpassword''" and "12 \<le> length (runes (fldValue f))"
    and "length (runes (fldValue f)) \<le> 72" and "\<not> StrongPassword U (fldValue f)"
  shows "field_report builtin (strong_rules U) f =
    [\<lparr>vf_Field = fldName f, vf_Tag = ''strongpassword'', vf_Param = '''', vf_Value = Some (fldValue f)\<rparr>]"
proof -
  have "fldValue f \<noteq> ''''" using assms(2) by auto
  with assms show ?thesis by (simp add: field_report_def rules_spec)
qed

end

text \<open>C20: the registration body passes validation exactly when the name has 3 to 25 characters, the
  e-mail is accepted by the package and has at most 50, and the password has 12 to 72 characters
  with an upper-case letter, a lower-case letter, a digit and a punctuation mark or symbol;
  otherwise the result is a list of field errors.\<close>

theorem register_validation_exact:
  assumes "validator_lib V builtin"
  shows "(ValidatePayloads E U V (RegisterRequest_fields r) = None \<longleftrightarrow>
      3 \<le> length (runes (rgUsername r)) \<and> length (runes (rgUsername r)) \<le> 25 \<and>
      builtin ''email'' '''' (rgEmail r) \<and> rgEmail r \<noteq> '''' \<and> length (runes (rgEmail r)) \<le> 50 \<and>
      12 \<le> length (runes (rgPassword r)) \<and> length (runes (rgPassword r)) \<le> 72 \<and>
      list_ex (IsUpper U) (runes (rgPassword r)) \<and>
      list_ex (\<lambda>c. \<not> IsUpper U c \<and> IsLower U c) (runes (rgPassword r)) \<and>
      list_ex (\<lambda>c. \<not> IsUpper U c \<and> \<not> IsLower U c \<and> IsDigit U c) (runes (rgPassword r)) \<and>
      list_ex (\<lambda>c. \<not> IsUpper U c \<and> \<not> IsLower U c \<and> \<not> IsDigit U c \<and> (IsPunct U c \<or> IsSymbol U c))
        (runes (rgPassword r))) \<and>
    (\<forall>err. ValidatePayloads E U V (RegisterRequest_fields r) = Some err \<longrightarrow>
       (\<exists>es. err = ValidationErrors es \<and> es \<noteq> []))"
  using validator_lib.register_valid [OF assms] validator_lib.ValidatePayloads_error [OF assms]
  by (simp only: StrongPassword_iff) blast

lemma runes_ascii: "ascii s \<Longrightarrow> runes s = map (\<lambda>c. [c]) s"
  by (induction s) auto

theorem register_validation_exact_witness:
  "ValidatePayloads ref_env ref_unicode ref_Struct
     (RegisterRequest_fields \<lparr>rgUsername = ''ann'', rgEmail = ''ann@x.io'', rgPassword = ''Long_enough_1''\<rparr>) = None"
proof -
  have "ascii ''ann''" "ascii ''ann@x.io''" "ascii ''Long_enough_1''"
    by (simp_all add: is_ascii_def byte_val_def)
  with register_validation_exact [OF ref_validator.validator_lib_axioms, of ref_env ref_unicode
      "\<lparr>rgUsername = ''ann'', rgEmail = ''ann@x.io'', rgPassword = ''Long_enough_1''\<rparr>"]
  show ?thesis
    by (simp add: runes_ascii ref_builtin_def ref_unicode_def in_range_def is_digit_def byte_val_def)
qed

text \<open>The message for a password that fails the strength rule quotes the submitted password, so the
  422 response and the log line of the handler carry it in clear text.\<close>

theorem weak_password_echoed:
  assumes "validator_lib V builtin"
    and "12 \<le> length (runes (rpNewPassword r))" and "length (runes (rpNewPassword r)) \<le> 72"
    and "\<not> StrongPassword U (rpNewPassword r)" and "rpToken r \<noteq> ''''"
  shows "ValidatePayloads E U V (ResetPasswordRequest_fields r) =
    Some (ValidationErrors [FieldError ''newpassword'' ''strongpassword''
      ([CHR 0x27] @ rpNewPassword r @ [CHR 0x27] @ '' must contain uppercase, lowercase, digit, and special character'')])"
proof -
  let ?f = "\<lparr>fldName = ''NewPassword'', fldValue = rpNewPassword r,
    fldTag = ''required,min=12,max=72,strongpassword''\<rparr>"
  let ?t = "\<lparr>fldName = ''Token'', fldValue = rpToken r, fldTag = ''required''\<rparr>"
  have new: "field_report builtin [(''strongpassword'', StrongPassword U)] ?f =
      [\<lparr>vf_Field = ''NewPassword'', vf_Tag = ''strongpassword'', vf_Param = [], vf_Value = Some (rpNewPassword r)\<rparr>]"
    using validator_lib.weak_password_report [OF assms(1), of ?f U] assms(2-4) by simp
  have tok: "field_report builtin [(''strongpassword'', StrongPassword U)] ?t = []"
    using assms(5) validator_lib.required_rule [OF assms(1)]
    by (simp add: field_report_def rule_ok_def tag_rules_simps)
  have asc: "ascii ''NewPassword''" by (simp add: is_ascii_def byte_val_def)
  have "map byte_to_lower ''NewPassword'' = ''newpassword''" by code_simp
  with asc have low: "strings_ToLower (unicode_ToLower E) ''NewPassword'' = ''newpassword''"
    by (simp only: strings_ToLower_def if_True)
  have "rpNewPassword r \<noteq> []" using assms(2) by auto
  then show ?thesis
    unfolding validator_lib.ValidatePayloads_reports [OF assms(1)] ResetPasswordRequest_fields_def
    using new tok low by (simp add: messageFor_def needParam_def mapHelper_def)
qed

theorem weak_password_echoed_witness:
  "\<exists>es. ValidatePayloads ref_env ref_unicode ref_Struct
     (ResetPasswordRequest_fields \<lparr>rpToken = ''tok'', rpNewPassword = ''correcthorsebattery''\<rparr>) =
       Some (ValidationErrors es) \<and>
     map feMessage es = [[CHR 0x27] @ ''correcthorsebattery'' @ [CHR 0x27] @
       '' must contain uppercase, lowercase, digit, and special character'']"
proof -
  have "ascii ''correcthorsebattery''" by (simp add: is_ascii_def byte_val_def)
  note r = runes_ascii [OF this]
  from r have "\<not> list_ex (IsUpper ref_unicode) (runes ''correcthorsebattery'')"
    by (simp add: ref_unicode_def in_range_def byte_val_def)
  then have "\<not> StrongPassword ref_unicode ''correcthorsebattery''" by (simp only: StrongPassword_iff simp_thms)
  moreover have "length (runes ''correcthorsebattery'') = 19" by (simp only: r) simp
  ultimately show ?thesis
    using weak_password_echoed [OF ref_validator.validator_lib_axioms, of
      "\<lparr>rpToken = ''tok'', rpNewPassword = ''correcthorsebattery''\<rparr>" ref_unicode ref_env]
    by (simp del: runes.simps)
qed

end
