(* ===== verification/Auth_Password.thy ===== *)
theory Auth_Password
  imports Usecase_Auth
begin

text \<open>
  The password flows of \<^verbatim>\<open>internal/business/usecases/auth\<close>: \<^verbatim>\<open>ChangePassword\<close>,
  \<^verbatim>\<open>ForgotPassword\<close> with its opaque token, and \<^verbatim>\<open>ResetPassword\<close>.
\<close>

section \<open>Reset tokens\<close>

definition base64url :: string where
  "base64url = ''ABCDEFGHIJKLMNOPQRSTUVWXYZabcdefghijklmnopqrstuvwxyz0123456789-_''"

text \<open>\<^verbatim>\<open>base64.RawURLEncoding.EncodeToString\<close>: no padding.\<close>

fun RawURLEncoding :: "nat list \<Rightarrow> string" where
  "RawURLEncoding [] = []"
| "RawURLEncoding [a] = [base64url ! (a div 4), base64url ! (a mod 4 * 16)]"
| "RawURLEncoding [a, b] =
     [base64url ! (a div 4), base64url ! (a mod 4 * 16 + b div 16), base64url ! (b mod 16 * 4)]"
| "RawURLEncoding (a # b # c # r) =
     base64url ! (a div 4) # base64url ! (a mod 4 * 16 + b div 16) #
     base64url ! (b mod 16 * 4 + c div 64) # base64url ! (c mod 64) # RawURLEncoding r"

definition resetTokenBytes :: nat where "resetTokenBytes = 32"

definition generateResetToken :: "'e goenv \<Rightarrow> 'e \<Rightarrow> (goerr + string) \<times> 'e" where
  "generateResetToken E e =
     (case rand_Read E resetTokenBytes e of
        (Inl err, e) \<Rightarrow> (Inl err, e)
      | (Inr buf, e) \<Rightarrow> (Inr (RawURLEncoding (map unat buf)), e))"

section \<open>The flows\<close>

definition auth_ChangePassword ::
  "'e goenv \<Rightarrow> ('u, 'r, 'm, 'e) auth_usecase \<Rightarrow> string \<Rightarrow> string \<Rightarrow> string \<Rightarrow> ('u, 'r, 'm, 'e) world \<Rightarrow>
   goerr option \<times> ('u, 'r, 'm, 'e) world" where
  "auth_ChangePassword E uc userID currentPassword newPassword w =
     (if newPassword = '''' then (Some (BadRequest ''new password is required''), w)
      else
        (case on_users (uc_GetByID (au_users uc) userID) w of
           (Inl lookupErr, w) \<Rightarrow> (Some lookupErr, w)
         | (Inr user, w) \<Rightarrow>
             if \<not> VerifyPassword E user currentPassword
             then (Some (Unauthorized ''current password is incorrect''), w)
             else
               (case on_env (ChangePassword E user newPassword (BcryptCost (au_cfg uc))) w of
                  (Inl hashErr, w) \<Rightarrow>
                    (Some (if errors_Is hashErr ErrEmptyPassword then BadRequest (Error hashErr)
                           else InternalCause (errorf_w ''hash new password'' hashErr)), w)
                | (Inr user, w) \<Rightarrow>
                    (case on_users (uc_UpdatePassword (au_users uc) (Some user)) w of
                       (Some updateErr, w) \<Rightarrow> (Some updateErr, w)
                     | (None, w) \<Rightarrow>
                         (None,
                          (case uPasswordChangedAt user of
                             None \<Rightarrow> w
                           | Some t \<Rightarrow> recordTokenCutoff uc userID t w))))))"

text \<open>The part of \<^verbatim>\<open>ForgotPassword\<close> after a successful lookup.\<close>

definition issue_reset ::
  "('u, 'r, 'm, 'e) auth_usecase \<Rightarrow> string \<Rightarrow> string \<Rightarrow> User \<Rightarrow> ('u, 'r, 'm, 'e) world \<Rightarrow>
   goerr option \<times> ('u, 'r, 'm, 'e) world" where
  "issue_reset uc email token user w =
     (let (prior, w) = on_redis (cache_Get (au_redis uc) (UserResetIndexKey (uID user))) w;
          w = (case prior of
                 Inr p \<Rightarrow> if p \<noteq> '''' then snd (on_redis (cache_Del (au_redis uc) (PasswordResetKey p)) w)
                          else w
               | Inl getErr \<Rightarrow> w)
      in case on_redis (cache_Set (au_redis uc) (PasswordResetKey token) (uID user)) w of
           (Some setErr, w) \<Rightarrow> (Some (InternalCause (errorf_w ''persist reset token'' setErr)), w)
         | (None, w) \<Rightarrow>
             (let w = snd (on_redis (cache_Expire (au_redis uc) (PasswordResetKey token)
                             (PasswordResetTTL (au_cfg uc))) w);
                  w = (case on_redis (cache_Set (au_redis uc) (UserResetIndexKey (uID user)) token) w of
                         (Some setIdxErr, w) \<Rightarrow> w
                       | (None, w) \<Rightarrow>
                           snd (on_redis (cache_Expire (au_redis uc) (UserResetIndexKey (uID user))
                             (PasswordResetTTL (au_cfg uc))) w))
              in case on_mail (mail_SendPasswordReset (au_mailer uc) token email) w of
                   (Some mailErr, w) \<Rightarrow> (Some (InternalCause (errorf_w ''send reset email'' mailErr)), w)
                 | (None, w) \<Rightarrow> (None, w)))"

definition is_NotFound :: "goerr \<Rightarrow> bool" where
  "is_NotFound err \<longleftrightarrow> domain_type err = Some ErrTypeNotFound"

definition ForgotPassword ::
  "'e goenv \<Rightarrow> ('u, 'r, 'm, 'e) auth_usecase \<Rightarrow> string \<Rightarrow> ('u, 'r, 'm, 'e) world \<Rightarrow>
   goerr option \<times> ('u, 'r, 'm, 'e) world" where
  "ForgotPassword E uc reqEmail w =
     (let email = NormalizeEmail E reqEmail;
          (attempts, w) =
            (if ForgotMaxAttempts (au_cfg uc) > 0
             then count_attempt (au_redis uc) (ForgotAttemptsKey email) (ForgotLockoutTTL (au_cfg uc)) w
             else (0, w))
      in if ForgotMaxAttempts (au_cfg uc) > 0 \<and> attempts > ForgotMaxAttempts (au_cfg uc)
         then (Some (Forbidden ''too many password reset requests, please try again later''), w)
         else
           (case on_env (generateResetToken E) w of
              (Inl tokenErr, w) \<Rightarrow>
                (Some (InternalCause (errorf_w ''generate reset token'' tokenErr)), w)
            | (Inr token, w) \<Rightarrow>
                (case on_users (uc_GetByEmail (au_users uc) email) w of
                   (Inl lookupErr, w) \<Rightarrow>
                     if is_NotFound lookupErr then
                       (let decoyKey = PasswordResetKey token;
                            w = snd (on_redis (cache_Set (au_redis uc) decoyKey ''decoy'') w);
                            w = snd (on_redis (cache_Expire (au_redis uc) decoyKey
                                       (PasswordResetTTL (au_cfg uc))) w);
                            w = snd (on_redis (cache_Del (au_redis uc) decoyKey) w)
                        in (None, w))
                     else (Some lookupErr, w)
                 | (Inr user, w) \<Rightarrow> issue_reset uc email token user w)))"

definition ResetPassword ::
  "'e goenv \<Rightarrow> ('u, 'r, 'm, 'e) auth_usecase \<Rightarrow> string \<Rightarrow> string \<Rightarrow> ('u, 'r, 'm, 'e) world \<Rightarrow>
   goerr option \<times> ('u, 'r, 'm, 'e) world" where
  "ResetPassword E uc token newPassword w =
     (if newPassword = '''' then (Some (BadRequest ''new password is required''), w)
      else if token = '''' then (Some (BadRequest ''reset token is required''), w)
      else
        (case on_redis (cache_Get (au_redis uc) (PasswordResetKey token)) w of
           (Inl getErr, w) \<Rightarrow> (Some (Unauthorized ''reset token is invalid or expired''), w)
         | (Inr userID, w) \<Rightarrow>
             if userID = '''' then (Some (Unauthorized ''reset token is invalid or expired''), w)
             else
               (case on_users (uc_GetByID (au_users uc) userID) w of
                  (Inl lookupErr, w) \<Rightarrow> (Some lookupErr, w)
                | (Inr user, w) \<Rightarrow>
                    (case on_env (ChangePassword E user newPassword (BcryptCost (au_cfg uc))) w of
                       (Inl hashErr, w) \<Rightarrow>
                         (Some (if errors_Is hashErr ErrEmptyPassword then BadRequest (Error hashErr)
                                else InternalCause (errorf_w ''hash reset password'' hashErr)), w)
                     | (Inr user, w) \<Rightarrow>
                         (case on_users (uc_UpdatePassword (au_users uc) (Some user)) w of
                            (Some updateErr, w) \<Rightarrow> (Some updateErr, w)
                          | (None, w) \<Rightarrow>
                              (let w = snd (on_redis (cache_Del (au_redis uc) (PasswordResetKey token)) w);
                                   w = snd (on_redis (cache_Del (au_redis uc) (UserResetIndexKey userID)) w)
                               in (None,
                                   (case uPasswordChangedAt user of
                                      None \<Rightarrow> w
                                    | Some t \<Rightarrow> recordTokenCutoff uc userID t w))))))))"

section \<open>Tokens are as many as the random buffers\<close>

lemma base64url_length [simp]: "length base64url = 64"
  by (simp add: base64url_def)

lemma base64url_inj: "i < 64 \<Longrightarrow> j < 64 \<Longrightarrow> base64url ! i = base64url ! j \<longleftrightarrow> i = j"
proof -
  have "distinct base64url" by (simp add: base64url_def)
  then show "i < 64 \<Longrightarrow> j < 64 \<Longrightarrow> base64url ! i = base64url ! j \<longleftrightarrow> i = j"
    by (simp add: nth_eq_iff_index_eq)
qed

lemma digits_unique:
  fixes x y n :: nat
  assumes "x * n + y = x' * n + y'" and "y < n" and "y' < n"
  shows "x = x' \<and> y = y'"
proof -
  have "(x * n + y) div n = x" and "(x' * n + y') div n = x'" using assms(2,3) by simp_all
  with assms(1) show ?thesis by (metis add_left_cancel)
qed

lemma div_mod_eqI: "(a::nat) div n = a' div n \<Longrightarrow> a mod n = a' mod n \<Longrightarrow> a = a'"
  by (metis div_mult_mod_eq)

lemma sextets_inj:
  fixes a b c :: nat
  assumes "a < 256" "b < 256" "c < 256" "a' < 256" "b' < 256" "c' < 256"
    and "a div 4 = a' div 4" and ab: "a mod 4 * 16 + b div 16 = a' mod 4 * 16 + b' div 16"
    and bc: "b mod 16 * 4 + c div 64 = b' mod 16 * 4 + c' div 64" and "c mod 64 = c' mod 64"
  shows "a = a' \<and> b = b' \<and> c = c'"
proof -
  have "a mod 4 = a' mod 4 \<and> b div 16 = b' div 16"
    by (rule digits_unique [OF ab]) (use assms in \<open>simp_all add: less_mult_imp_div_less\<close>)
  moreover have "b mod 16 = b' mod 16 \<and> c div 64 = c' div 64"
    by (rule digits_unique [OF bc]) (use assms in \<open>simp_all add: less_mult_imp_div_less\<close>)
  ultimately show ?thesis using assms(7,10) div_mod_eqI by blast
qed

lemma sextets_bound:
  fixes a b c :: nat
  shows "a < 256 \<Longrightarrow> a div 4 < 64" "b < 256 \<Longrightarrow> a mod 4 * 16 + b div 16 < 64"
    "c < 256 \<Longrightarrow> b mod 16 * 4 + c div 64 < 64" "c mod 64 < 64" "a mod 4 * 16 < 64" "b mod 16 * 4 < 64"
proof -
  have mods: "a mod 4 < 4" "b mod 16 < 16" by simp_all
  then show "c mod 64 < 64" "a mod 4 * 16 < 64" "b mod 16 * 4 < 64" by (simp_all | linarith)+
  show "a < 256 \<Longrightarrow> a div 4 < 64" by (simp add: less_mult_imp_div_less)
  show "a mod 4 * 16 + b div 16 < 64" if "b < 256"
    using mods less_mult_imp_div_less [of b 16 16] that by linarith
  show "b mod 16 * 4 + c div 64 < 64" if "c < 256"
    using mods less_mult_imp_div_less [of c 4 64] that by linarith
qed

lemma RawURLEncoding_length:
  "length (RawURLEncoding bs) = (4 * length bs + 2) div 3"
  by (induction bs rule: RawURLEncoding.induct) auto

lemma RawURLEncoding_inj:
  "\<forall>b\<in>set xs. b < 256 \<Longrightarrow> \<forall>b\<in>set ys. b < 256 \<Longrightarrow> length xs = length ys \<Longrightarrow>
   RawURLEncoding xs = RawURLEncoding ys \<Longrightarrow> xs = ys"
proof (induction xs arbitrary: ys rule: RawURLEncoding.induct)
  case (2 a)
  then obtain a' where "ys = [a']" by (cases ys) auto
  with 2 show ?case
    using sextets_inj [of a 0 0 a' 0 0] by (simp add: base64url_inj sextets_bound)
next
  case (3 a b)
  then obtain a' b' where "ys = [a', b']"
    by (cases ys; cases "tl ys") auto
  with 3 show ?case
    using sextets_inj [of a b 0 a' b' 0] by (simp add: base64url_inj sextets_bound)
next
  case (4 a b c r)
  then obtain a' b' c' r' where ys: "ys = a' # b' # c' # r'"
    by (cases ys; cases "tl ys"; cases "tl (tl ys)") auto
  have lt: "a < 256" "b < 256" "c < 256" "a' < 256" "b' < 256" "c' < 256"
    using "4.prems"(1,2) ys by simp_all
  have rest: "RawURLEncoding r = RawURLEncoding r'"
    and eqs: "base64url ! (a div 4) = base64url ! (a' div 4)"
      "base64url ! (a mod 4 * 16 + b div 16) = base64url ! (a' mod 4 * 16 + b' div 16)"
      "base64url ! (b mod 16 * 4 + c div 64) = base64url ! (b' mod 16 * 4 + c' div 64)"
      "base64url ! (c mod 64) = base64url ! (c' mod 64)"
    using "4.prems"(4) ys by (simp_all only: RawURLEncoding.simps list.inject)
  have "a = a' \<and> b = b' \<and> c = c'"
    by (rule sextets_inj [OF lt]) (use eqs lt in \<open>simp_all only: base64url_inj sextets_bound\<close>)
  moreover have "r = r'"
    by (rule "4.IH" [OF _ _ _ rest]) (use "4.prems"(1-3) ys in simp_all)
  ultimately show ?case using ys by simp
qed simp

end
