(* ===== verification/Handlers_Auth.thy ===== *)
theory Handlers_Auth
  imports Http_Base Validators Auth_Password
begin

text \<open>
  \<^verbatim>\<open>internal/http/handlers/v1/auth\<close> and \<^verbatim>\<open>internal/http/handlers/v1/users\<close>: one definition per
  endpoint, over the interface of the use case. Decoding a JSON body into a request struct is
  gin's and \<^verbatim>\<open>encoding/json\<close>'s, a parameter per request type; log lines are left out.
\<close>

text \<open>The interface \<^verbatim>\<open>auth.Usecase\<close>.\<close>

record 'w AuthUsecase =
  auc_Register :: "User \<Rightarrow> 'w \<Rightarrow> (goerr + User) \<times> 'w"
  auc_Login :: "string \<Rightarrow> string \<Rightarrow> 'w \<Rightarrow> (goerr + LoginResponse) \<times> 'w"
  auc_SendOTP :: "string \<Rightarrow> 'w \<Rightarrow> (goerr option \<times> 'w) option"
  auc_VerifyOTP :: "string \<Rightarrow> string \<Rightarrow> 'w \<Rightarrow> goerr option \<times> 'w"
  auc_Refresh :: "string \<Rightarrow> 'w \<Rightarrow> (goerr + LoginResponse) \<times> 'w"
  auc_Logout :: "string \<Rightarrow> 'w \<Rightarrow> goerr option \<times> 'w"
  auc_ChangePassword :: "string \<Rightarrow> string \<Rightarrow> string \<Rightarrow> 'w \<Rightarrow> goerr option \<times> 'w"
  auc_ForgotPassword :: "string \<Rightarrow> 'w \<Rightarrow> goerr option \<times> 'w"
  auc_ResetPassword :: "string \<Rightarrow> string \<Rightarrow> 'w \<Rightarrow> goerr option \<times> 'w"

definition auth_NewUsecase ::
  "'e goenv \<Rightarrow> ('u, 'r, 'm, 'e) auth_usecase \<Rightarrow> ('u, 'r, 'm, 'e) world AuthUsecase" where
  "auth_NewUsecase E uc =
     \<lparr>auc_Register = Register uc, auc_Login = Login E uc, auc_SendOTP = SendOTP E uc,
      auc_VerifyOTP = VerifyOTP E uc, auc_Refresh = Refresh E uc, auc_Logout = Logout uc,
      auc_ChangePassword = auth_ChangePassword E uc, auc_ForgotPassword = ForgotPassword E uc,
      auc_ResetPassword = ResetPassword E uc\<rparr>"

lemma auth_NewUsecase_sel [simp]:
  "auc_Register (auth_NewUsecase E uc) = Register uc" "auc_Login (auth_NewUsecase E uc) = Login E uc"
  "auc_SendOTP (auth_NewUsecase E uc) = SendOTP E uc" "auc_VerifyOTP (auth_NewUsecase E uc) = VerifyOTP E uc"
  "auc_Refresh (auth_NewUsecase E uc) = Refresh E uc" "auc_Logout (auth_NewUsecase E uc) = Logout uc"
  "auc_ChangePassword (auth_NewUsecase E uc) = auth_ChangePassword E uc"
  "auc_ForgotPassword (auth_NewUsecase E uc) = ForgotPassword E uc"
  "auc_ResetPassword (auth_NewUsecase E uc) = ResetPassword E uc"
  by (simp_all add: auth_NewUsecase_def)

text \<open>What the handlers use beside the use case: the environment, the validator, the decoders.\<close>

record 'e handler_env =
  h_env :: "'e goenv"
  h_unicode :: unicode_tables
  h_Struct :: validator_Struct
  bind_Register :: "body_reader option \<Rightarrow> goerr + RegisterRequest"
  bind_Login :: "body_reader option \<Rightarrow> goerr + LoginRequest"
  bind_SendOTP :: "body_reader option \<Rightarrow> goerr + SendOTPRequest"
  bind_VerifyOTP :: "body_reader option \<Rightarrow> goerr + VerifyOTPRequest"
  bind_Refresh :: "body_reader option \<Rightarrow> goerr + RefreshRequest"
  bind_ChangePassword :: "body_reader option \<Rightarrow> goerr + ChangePasswordRequest"
  bind_ForgotPassword :: "body_reader option \<Rightarrow> goerr + ForgotPasswordRequest"
  bind_ResetPassword :: "body_reader option \<Rightarrow> goerr + ResetPasswordRequest"

type_synonym ('u, 'r, 'm, 'e) served = "gin_ctx \<times> ('u, 'r, 'm, 'e) world"

section \<open>Shared steps\<close>

definition zero_Event :: Event where
  "zero_Event =
     \<lparr>evTime = zero_time, evType = EventNone, evSuccess = False, evUserID = '''', evEmail = '''', evIP = '''',
      evUserAgent = '''', evRequestID = '''', evTraceID = '''', evReason = ''''\<rparr>"

definition auditFromGin :: "gin_ctx \<Rightarrow> Event" where
  "auditFromGin c =
     (let requestID = (case g_keys c ''X-Request-ID'' of Some (CtxString s) \<Rightarrow> s | _ \<Rightarrow> '''')
      in zero_Event\<lparr>evIP := g_clientIP c, evUserAgent := g_userAgent c, evRequestID := requestID,
           evTraceID := g_traceID c\<rparr>)"

definition record_event ::
  "'e handler_env \<Rightarrow> Event \<Rightarrow> gin_ctx \<Rightarrow> ('u, 'r, 'm, 'e) world \<Rightarrow> ('u, 'r, 'm, 'e) served" where
  "record_event H ev ctx w =
     (case audit_Record (h_env H) ev (g_audit ctx) (w_env w) of
        (sink, e) \<Rightarrow> (ctx\<lparr>g_audit := sink\<rparr>, w\<lparr>w_env := e\<rparr>))"

text \<open>Every handler with a body starts alike: decode, answer 400 if that fails, validate, answer
  the validation error if there is one.\<close>

definition with_body ::
  "'e handler_env \<Rightarrow> (body_reader option \<Rightarrow> goerr + 'q) \<Rightarrow> ('q \<Rightarrow> vfield list) \<Rightarrow>
   ('q \<Rightarrow> ('u, 'r, 'm, 'e) served) \<Rightarrow> gin_ctx \<Rightarrow> ('u, 'r, 'm, 'e) world \<Rightarrow> ('u, 'r, 'm, 'e) served" where
  "with_body H bind flds k ctx w =
     (case bind (g_body ctx) of
        Inl err \<Rightarrow> (NewErrorResponse ctx 400 ''invalid request body'', w)
      | Inr req \<Rightarrow>
          (case ValidatePayloads (h_env H) (h_unicode H) (h_Struct H) (flds req) of
             Some err \<Rightarrow> (RespondWithError ctx err, w)
           | None \<Rightarrow> k req))"

text \<open>The two ends of a handler: an audited failure and an audited success.\<close>

definition fail_with ::
  "'e handler_env \<Rightarrow> Event \<Rightarrow> goerr \<Rightarrow> gin_ctx \<Rightarrow> ('u, 'r, 'm, 'e) world \<Rightarrow> ('u, 'r, 'm, 'e) served" where
  "fail_with H ev err ctx w = (case record_event H ev ctx w of (ctx, w) \<Rightarrow> (RespondWithError ctx err, w))"

definition succeed_with ::
  "'e handler_env \<Rightarrow> Event \<Rightarrow> int \<Rightarrow> string \<Rightarrow> respdata \<Rightarrow> gin_ctx \<Rightarrow> ('u, 'r, 'm, 'e) world \<Rightarrow>
   ('u, 'r, 'm, 'e) served" where
  "succeed_with H ev code msg data ctx w =
     (case record_event H ev ctx w of (ctx, w) \<Rightarrow> (NewSuccessResponse ctx code msg data, w))"

section \<open>The endpoints\<close>

definition RegisterRequest_ToV1Domain :: "RegisterRequest \<Rightarrow> User" where
  "RegisterRequest_ToV1Domain r =
     zero_User\<lparr>uUsername := rgUsername r, uEmail := rgEmail r, uPassword := rgPassword r, uRoleID := 2\<rparr>"

definition LoginRequest_ToV1Domain :: "LoginRequest \<Rightarrow> User" where
  "LoginRequest_ToV1Domain r = zero_User\<lparr>uEmail := lqEmail r, uPassword := lqPassword r\<rparr>"

definition Handler_Register ::
  "'e handler_env \<Rightarrow> ('u, 'r, 'm, 'e) world AuthUsecase \<Rightarrow> gin_ctx \<Rightarrow> ('u, 'r, 'm, 'e) world \<Rightarrow>
   ('u, 'r, 'm, 'e) served" where
  "Handler_Register H uc ctx w =
     with_body H (bind_Register H) RegisterRequest_fields
       (\<lambda>req.
          case auc_Register uc (RegisterRequest_ToV1Domain req) w of
            (Inl err, w) \<Rightarrow>
              fail_with H ((auditFromGin ctx)\<lparr>evType := EventRegister, evEmail := rgEmail req, evReason := Error err\<rparr>)
                err ctx w
          | (Inr user, w) \<Rightarrow>
              succeed_with H
                ((auditFromGin ctx)\<lparr>evType := EventRegister, evSuccess := True, evUserID := uID user,
                   evEmail := uEmail user\<rparr>)
                201 ''registration user success'' (UserMap (FromV1Domain user)) ctx w)
       ctx w"

definition Handler_Login ::
  "'e handler_env \<Rightarrow> ('u, 'r, 'm, 'e) world AuthUsecase \<Rightarrow> gin_ctx \<Rightarrow> ('u, 'r, 'm, 'e) world \<Rightarrow>
   ('u, 'r, 'm, 'e) served" where
  "Handler_Login H uc ctx w =
     with_body H (bind_Login H) LoginRequest_fields
       (\<lambda>req.
          case auc_Login uc (lqEmail req) (lqPassword req) w of
            (Inl err, w) \<Rightarrow>
              fail_with H ((auditFromGin ctx)\<lparr>evType := EventLoginFailure, evEmail := lqEmail req, evReason := Error err\<rparr>)
                err ctx w
          | (Inr result, w) \<Rightarrow>
              succeed_with H
                ((auditFromGin ctx)\<lparr>evType := EventLoginSuccess, evSuccess := True, evUserID := uID (lrUser result),
                   evEmail := uEmail (lrUser result)\<rparr>)
                200 ''login success'' (UserData (FromLoginResponse result)) ctx w)
       ctx w"

definition Handler_SendOTP ::
  "'e handler_env \<Rightarrow> ('u, 'r, 'm, 'e) world AuthUsecase \<Rightarrow> gin_ctx \<Rightarrow> ('u, 'r, 'm, 'e) world \<Rightarrow>
   ('u, 'r, 'm, 'e) served option" where
  "Handler_SendOTP H uc ctx w =
     (case bind_SendOTP H (g_body ctx) of
        Inl err \<Rightarrow> Some (NewErrorResponse ctx 400 ''invalid request body'', w)
      | Inr req \<Rightarrow>
          (case ValidatePayloads (h_env H) (h_unicode H) (h_Struct H) (SendOTPRequest_fields req) of
             Some err \<Rightarrow> Some (RespondWithError ctx err, w)
           | None \<Rightarrow>
               (case auc_SendOTP uc (soEmail req) w of
                  None \<Rightarrow> None
                | Some (Some err, w) \<Rightarrow> Some (RespondWithError ctx err, w)
                | Some (None, w) \<Rightarrow>
                    Some (succeed_with H
                      ((auditFromGin ctx)\<lparr>evType := EventOTPSent, evSuccess := True, evEmail := soEmail req\<rparr>)
                      200 (''otp code has been send to '' @ soEmail req) NoData ctx w))))"

definition Handler_VerifyOTP ::
  "'e handler_env \<Rightarrow> ('u, 'r, 'm, 'e) world AuthUsecase \<Rightarrow> gin_ctx \<Rightarrow> ('u, 'r, 'm, 'e) world \<Rightarrow>
   ('u, 'r, 'm, 'e) served" where
  "Handler_VerifyOTP H uc ctx w =
     with_body H (bind_VerifyOTP H) VerifyOTPRequest_fields
       (\<lambda>req.
          case auc_VerifyOTP uc (voEmail req) (voCode req) w of
            (Some err, w) \<Rightarrow>
              (let typ = (case errors_As_DomainError err of
                            Some (DomainError ErrTypeForbidden msg cause) \<Rightarrow> EventOTPLockout
                          | _ \<Rightarrow> EventOTPVerifyFail)
               in fail_with H ((auditFromGin ctx)\<lparr>evType := typ, evEmail := voEmail req, evReason := Error err\<rparr>)
                    err ctx w)
          | (None, w) \<Rightarrow>
              succeed_with H
                ((auditFromGin ctx)\<lparr>evType := EventOTPVerifyOK, evSuccess := True, evEmail := voEmail req\<rparr>)
                200 ''otp verification success'' NoData ctx w)
       ctx w"

definition Handler_Refresh ::
  "'e handler_env \<Rightarrow> ('u, 'r, 'm, 'e) world AuthUsecase \<Rightarrow> gin_ctx \<Rightarrow> ('u, 'r, 'm, 'e) world \<Rightarrow>
   ('u, 'r, 'm, 'e) served" where
  "Handler_Refresh H uc ctx w =
     with_body H (bind_Refresh H) RefreshRequest_fields
       (\<lambda>req.
          case auc_Refresh uc (rqRefreshToken req) w of
            (Inl err, w) \<Rightarrow>
              fail_with H ((auditFromGin ctx)\<lparr>evType := EventRefreshFail, evReason := Error err\<rparr>) err ctx w
          | (Inr result, w) \<Rightarrow>
              succeed_with H
                ((auditFromGin ctx)\<lparr>evType := EventRefreshOK, evSuccess := True, evUserID := uID (lrUser result),
                   evEmail := uEmail (lrUser result)\<rparr>)
                200 ''token refreshed'' (UserData (FromLoginResponse result)) ctx w)
       ctx w"

definition Handler_Logout ::
  "'e handler_env \<Rightarrow> ('u, 'r, 'm, 'e) world AuthUsecase \<Rightarrow> gin_ctx \<Rightarrow> ('u, 'r, 'm, 'e) world \<Rightarrow>
   ('u, 'r, 'm, 'e) served" where
  "Handler_Logout H uc ctx w =
     with_body H (bind_Refresh H) RefreshRequest_fields
       (\<lambda>req.
          case auc_Logout uc (rqRefreshToken req) w of
            (Some err, w) \<Rightarrow> (RespondWithError ctx err, w)
          | (None, w) \<Rightarrow>
              succeed_with H ((auditFromGin ctx)\<lparr>evType := EventLogout, evSuccess := True\<rparr>)
                200 ''logout success'' NoData ctx w)
       ctx w"

definition Handler_ChangePassword ::
  "'e handler_env \<Rightarrow> ('u, 'r, 'm, 'e) world AuthUsecase \<Rightarrow> gin_ctx \<Rightarrow> ('u, 'r, 'm, 'e) world \<Rightarrow>
   ('u, 'r, 'm, 'e) served" where
  "Handler_ChangePassword H uc ctx w =
     (case CurrentUserFromContext ctx of
        Inl err \<Rightarrow> (NewErrorResponse ctx 401 (Error err), w)
      | Inr current \<Rightarrow>
          with_body H (bind_ChangePassword H) ChangePasswordRequest_fields
            (\<lambda>req.
               case auc_ChangePassword uc (cuID current) (cpCurrentPassword req) (cpNewPassword req) w of
                 (Some err, w) \<Rightarrow>
                   fail_with H
                     ((auditFromGin ctx)\<lparr>evType := EventPasswordChangeFail, evUserID := cuID current,
                        evEmail := cuEmail current, evReason := Error err\<rparr>) err ctx w
               | (None, w) \<Rightarrow>
                   succeed_with H
                     ((auditFromGin ctx)\<lparr>evType := EventPasswordChangeOK, evSuccess := True, evUserID := cuID current,
                        evEmail := cuEmail current\<rparr>)
                     200 ''password changed'' NoData ctx w)
            ctx w)"

definition Handler_ForgotPassword ::
  "'e handler_env \<Rightarrow> ('u, 'r, 'm, 'e) world AuthUsecase \<Rightarrow> gin_ctx \<Rightarrow> ('u, 'r, 'm, 'e) world \<Rightarrow>
   ('u, 'r, 'm, 'e) served" where
  "Handler_ForgotPassword H uc ctx w =
     with_body H (bind_ForgotPassword H) ForgotPasswordRequest_fields
       (\<lambda>req.
          case auc_ForgotPassword uc (fpEmail req) w of
            (Some err, w) \<Rightarrow>
              fail_with H
                ((auditFromGin ctx)\<lparr>evType := EventPasswordForgotFail, evEmail := fpEmail req, evReason := Error err\<rparr>)
                err ctx w
          | (None, w) \<Rightarrow>
              succeed_with H
                ((auditFromGin ctx)\<lparr>evType := EventPasswordForgotOK, evSuccess := True, evEmail := fpEmail req\<rparr>)
                200 ''if the email is registered, a reset link has been sent'' NoData ctx w)
       ctx w"

definition Handler_ResetPassword ::
  "'e handler_env \<Rightarrow> ('u, 'r, 'm, 'e) world AuthUsecase \<Rightarrow> gin_ctx \<Rightarrow> ('u, 'r, 'm, 'e) world \<Rightarrow>
   ('u, 'r, 'm, 'e) served" where
  "Handler_ResetPassword H uc ctx w =
     with_body H (bind_ResetPassword H) ResetPasswordRequest_fields
       (\<lambda>req.
          case auc_ResetPassword uc (rpToken req) (rpNewPassword req) w of
            (Some err, w) \<Rightarrow>
              fail_with H ((auditFromGin ctx)\<lparr>evType := EventPasswordResetFail, evReason := Error err\<rparr>) err ctx w
          | (None, w) \<Rightarrow>
              succeed_with H ((auditFromGin ctx)\<lparr>evType := EventPasswordResetOK, evSuccess := True\<rparr>)
                200 ''password reset'' NoData ctx w)
       ctx w"

text \<open>\<^verbatim>\<open>internal/http/handlers/v1/users\<close>.\<close>

definition GetUserData ::
  "('u, 'e) UsersUsecase \<Rightarrow> gin_ctx \<Rightarrow> ('u, 'r, 'm, 'e) world \<Rightarrow> ('u, 'r, 'm, 'e) served" where
  "GetUserData uc ctx w =
     (case CurrentUserFromContext ctx of
        Inl err \<Rightarrow> (NewErrorResponse ctx 401 (Error err), w)
      | Inr user \<Rightarrow>
          (case on_users (uc_GetByEmail uc (cuEmail user)) w of
             (Inl err, w) \<Rightarrow> (RespondWithError ctx err, w)
           | (Inr u, w) \<Rightarrow>
               (NewSuccessResponse ctx 200 ''user data fetched successfully'' (UserMap (FromV1Domain u)), w)))"

end
