(* ===== verification/Flow_Logic.thy ===== *)
theory Flow_Logic
  imports Auth_Password
begin

text \<open>
  A logic of the flows. A flow threads the world through calls; a preorder on worlds that every
  call respects is respected by the flow. The locale \<open>flow_order\<close> states the preorder and derives
  one introduction rule for each control construct the flows use, so that such a proof is the
  application of these rules. \<open>flow K w p\<close> says that the result \<open>p\<close> of a computation started in
  \<open>w\<close> ends in a world related to \<open>w\<close>.
\<close>

definition flow :: "('w \<Rightarrow> 'w \<Rightarrow> bool) \<Rightarrow> 'w \<Rightarrow> 'a \<times> 'w \<Rightarrow> bool" where
  "flow K w p \<longleftrightarrow> K w (snd p)"

lemma flow_pair [simp]: "flow K w (x, w') \<longleftrightarrow> K w w'"
  by (simp add: flow_def)

lemma flowD: "p = (x, w') \<Longrightarrow> flow K w p \<Longrightarrow> K w w'"
  by (simp add: flow_def)

locale flow_order =
  fixes K :: "'w \<Rightarrow> 'w \<Rightarrow> bool"
  assumes K_refl: "K w w" and K_trans: "K w w1 \<Longrightarrow> K w1 w2 \<Longrightarrow> K w w2"
begin

lemma flow_step: "K w w1 \<Longrightarrow> flow K w1 p \<Longrightarrow> flow K w p"
  by (auto simp: flow_def intro: K_trans)

lemma flow_sum:
  "flow K w p \<Longrightarrow> (\<And>x w1. K w w1 \<Longrightarrow> flow K w (f x w1)) \<Longrightarrow> (\<And>y w1. K w w1 \<Longrightarrow> flow K w (g y w1)) \<Longrightarrow>
   flow K w (case p of (Inl x, w1) \<Rightarrow> f x w1 | (Inr y, w1) \<Rightarrow> g y w1)"
  by (auto simp: flow_def split: prod.splits sum.splits)

lemma flow_option:
  "flow K w p \<Longrightarrow> (\<And>x w1. K w w1 \<Longrightarrow> flow K w (f x w1)) \<Longrightarrow> (\<And>w1. K w w1 \<Longrightarrow> flow K w (g w1)) \<Longrightarrow>
   flow K w (case p of (None, w1) \<Rightarrow> g w1 | (Some x, w1) \<Rightarrow> f x w1)"
  by (auto simp: flow_def split: prod.splits option.splits)

lemma flow_prod:
  "flow K w p \<Longrightarrow> (\<And>x w1. K w w1 \<Longrightarrow> flow K w (f x w1)) \<Longrightarrow> flow K w (case p of (x, w1) \<Rightarrow> f x w1)"
  by (auto simp: flow_def split: prod.splits)

lemma flow_if: "flow K w p \<Longrightarrow> flow K w q \<Longrightarrow> flow K w (if b then p else q)"
  by simp

lemma flow_let_snd:
  "flow K w p \<Longrightarrow> (\<And>w1. K w w1 \<Longrightarrow> flow K w (f w1)) \<Longrightarrow> flow K w (let w1 = snd p in f w1)"
  by (auto simp: flow_def Let_def)

lemma flow_let_prod:
  "flow K w p \<Longrightarrow> (\<And>x w1. K w w1 \<Longrightarrow> flow K w (f x w1)) \<Longrightarrow>
   flow K w (let (x, w1) = p in f x w1)"
  by (auto simp: flow_def Let_def split: prod.splits)

lemma flow_let_world: "K w w1 \<Longrightarrow> (\<And>w2. K w w2 \<Longrightarrow> flow K w (f w2)) \<Longrightarrow> flow K w (let w2 = w1 in f w2)"
  by (auto simp: Let_def)

lemma flow_let: "flow K w (f a) \<Longrightarrow> flow K w (let x = a in f x)"
  by (simp add: Let_def)

lemma flow_snd: "flow K w p \<Longrightarrow> K w (snd p)"
  by (simp add: flow_def)

lemma world_if: "K w p \<Longrightarrow> K w q \<Longrightarrow> K w (if b then p else q)"
  by simp

lemma world_sum: "(\<And>x. K w (f x)) \<Longrightarrow> (\<And>y. K w (g y)) \<Longrightarrow>
   K w (case s of Inl x \<Rightarrow> f x | Inr y \<Rightarrow> g y)"
  by (auto split: sum.splits)

lemma world_option: "(\<And>x. K w (f x)) \<Longrightarrow> K w g \<Longrightarrow> K w (case s of None \<Rightarrow> g | Some x \<Rightarrow> f x)"
  by (auto split: option.splits)

lemma world_case_option:
  "flow K w p \<Longrightarrow> (\<And>x w1. K w w1 \<Longrightarrow> K w (f x w1)) \<Longrightarrow> (\<And>w1. K w w1 \<Longrightarrow> K w (g w1)) \<Longrightarrow>
   K w (case p of (None, w1) \<Rightarrow> g w1 | (Some x, w1) \<Rightarrow> f x w1)"
  by (auto simp: flow_def split: prod.splits option.splits)

lemmas flow_rules =
  flow_sum flow_option flow_prod flow_if flow_let_snd flow_let_prod

end

section \<open>Calls\<close>

lemma on_redis_eq: "on_redis f w = (x, w') \<longleftrightarrow> (\<exists>r. f (w_redis w) = (x, r) \<and> w' = w\<lparr>w_redis := r\<rparr>)"
  by (auto simp: on_redis_def split: prod.splits)

lemma on_mail_eq: "on_mail f w = (x, w') \<longleftrightarrow> (\<exists>m. f (w_mail w) = (x, m) \<and> w' = w\<lparr>w_mail := m\<rparr>)"
  by (auto simp: on_mail_def split: prod.splits)

lemma on_env_eq: "on_env f w = (x, w') \<longleftrightarrow> (\<exists>e. f (w_env w) = (x, e) \<and> w' = w\<lparr>w_env := e\<rparr>)"
  by (auto simp: on_env_def split: prod.splits)

lemma on_users_eq: "on_users f w = (x, w') \<longleftrightarrow>
    (\<exists>u e. f (w_users w) (w_env w) = (x, u, e) \<and> w' = w\<lparr>w_users := u, w_env := e\<rparr>)"
  by (auto simp: on_users_def split: prod.splits)

lemmas call_eqs = on_redis_eq on_mail_eq on_env_eq on_users_eq

text \<open>What a call leaves alone.\<close>

lemma observe_sel [simp]:
  "w_users (observe f w) = w_users w" "w_redis (observe f w) = w_redis w"
  "w_mail (observe f w) = w_mail w" "w_env (observe f w) = f (w_env w)"
  by (simp_all add: observe_def)

end
