(* ===== verification/Auth_Order.thy ===== *)
theory Auth_Order
  imports Flow_Logic
begin

text \<open>
  The authentication flows and a relation between worlds. The locale \<open>world_order\<close> is a preorder that every
  harmless step of the environment respects (\<open>ge\<close> says which steps are harmless); \<open>auth_order\<close> adds one law
  per call that the flows make, and proves once that every flow respects the preorder, whatever fails on
  the way. The laws for the relations used in this development are proved where these are defined.
\<close>

locale world_order = flow_order K
  for K :: "('u, 'r, 'm, 'e) world \<Rightarrow> ('u, 'r, 'm, 'e) world \<Rightarrow> bool" +
  fixes ge :: "'e \<Rightarrow> 'e \<Rightarrow> bool" and E :: "'e goenv"
  assumes env_step: "ge (w_env w) e \<Longrightarrow> K w (w\<lparr>w_env := e\<rparr>)"
    and ge_refl: "ge e e" and ge_trans: "ge e1 e2 \<Longrightarrow> ge e2 e3 \<Longrightarrow> ge e1 e3"
    and now_ge: "time_Now E e = (t, e') \<Longrightarrow> ge e e'" and uuid_ge: "uuid_NewString E e = (i, e') \<Longrightarrow> ge e e'"
    and counter_ge: "ge e (counter_Inc E name labels e)" and histogram_ge: "ge e (histogram_Observe E name labels d e)"
    and generate_ge: "bcrypt_GenerateFromPassword E p c e = (h, e') \<Longrightarrow> ge e e'"
    and rand_ge: "rand_Read E n e = (b, e') \<Longrightarrow> ge e e'"
begin

lemma env_steps: "K w w1 \<Longrightarrow> ge (w_env w1) e \<Longrightarrow> K w (w1\<lparr>w_env := e\<rparr>)"
  by (rule K_trans [OF _ env_step])

lemma on_env_K:
  assumes "K w w1" and "\<And>x e. f (w_env w1) = (x, e) \<Longrightarrow> ge (w_env w1) e"
  shows "flow K w (on_env f w1)"
proof -
  obtain x e where f: "f (w_env w1) = (x, e)" by fastforce
  then show ?thesis using env_steps [OF assms(1) assms(2) [OF f]] by (simp add: on_env_def)
qed

lemma change_K: "K w w1 \<Longrightarrow> flow K w (on_env (ChangePassword E u p c) w1)"
  by (erule on_env_K)
     (auto simp: ChangePassword_def ge_refl split: if_splits prod.splits sum.splits dest: now_ge generate_ge ge_trans)

lemma token_K: "K w w1 \<Longrightarrow> flow K w (on_env (generateResetToken E) w1)"
  by (erule on_env_K) (auto simp: generateResetToken_def split: prod.splits sum.splits dest: rand_ge)

lemma until_K: "K w w1 \<Longrightarrow> flow K w (on_env (time_Until E t) w1)"
  by (erule on_env_K) (auto simp: time_Until_def split: prod.splits dest: now_ge)

lemma observe_K:
  "K w w1 \<Longrightarrow> K w (observe (ObserveCacheOp E l op r) w1)" "K w w1 \<Longrightarrow> K w (observe (ObserveMailerOp E r) w1)"
  by (simp_all add: observe_def ObserveCacheOp_def ObserveMailerOp_def env_steps counter_ge)

lemma otp_loop_ge: "otp_loop F len acc e = Some y \<Longrightarrow> F = E \<Longrightarrow> ge e (snd y)"
proof (induction rule: otp_loop.raw_induct [rotated, consumes 1, case_names step])
  case (step loop F len acc e y)
  note IH = step(1) and body = step(2) and F = step(3)
  show ?case
  proof (cases "length acc < len")
    case True
    obtain q e1 where read: "rand_Read E (len + 10) e = (q, e1)" by fastforce
    note e1 = rand_ge [OF read]
    show ?thesis
    proof (cases q)
      case (Inl err)
      with body True read F e1 show ?thesis by auto
    next
      case (Inr buf)
      then have "loop E len (otp_fill len buf acc) e1 = Some y" using body True read F by simp
      from IH [OF this refl] show ?thesis by (rule ge_trans [OF e1])
    qed
  qed (use body in \<open>auto simp: ge_refl\<close>)
qed

lemma otp_K: "K w w1 \<Longrightarrow> GenerateOTPCode E n (w_env w1) = Some (x, e) \<Longrightarrow> K w (w1\<lparr>w_env := e\<rparr>)"
  using otp_loop_ge [of E n _ "w_env w1" "(x, e)"] by (auto simp: GenerateOTPCode_def intro: env_steps)

end

section \<open>The flows\<close>

text \<open>\<open>good\<close> are the users that may be stored, \<open>free\<close> the keys that may be written: all but some counters of
  login attempts, which only a login for their address writes. No flow writes the entry of a refresh token
  but the shared tail of login and refresh, which has its own law.\<close>

locale auth_order = world_order K ge E
  for K :: "('u, 'r, 'm, 'e) world \<Rightarrow> ('u, 'r, 'm, 'e) world \<Rightarrow> bool" and ge :: "'e \<Rightarrow> 'e \<Rightarrow> bool" and E :: "'e goenv" +
  fixes UC :: "('u, 'r, 'm, 'e) auth_usecase" and good :: "User \<Rightarrow> bool" and free :: "string \<Rightarrow> bool"
  assumes free_other: "(\<And>a. k \<noteq> LoginAttemptsKey a) \<Longrightarrow> free k"
    and get1: "flow K w (on_redis (cache_Get (au_redis UC) k) w)"
    and del1: "free k \<Longrightarrow> flow K w (on_redis (cache_Del (au_redis UC) k) w)"
    and expire1: "free k \<Longrightarrow> flow K w (on_redis (cache_Expire (au_redis UC) k t) w)"
    and set1: "free k \<Longrightarrow> (\<And>i. k \<noteq> RefreshKey i) \<Longrightarrow> flow K w (on_redis (cache_Set (au_redis UC) k v) w)"
    and incr1: "free k \<Longrightarrow> (\<And>i. k \<noteq> RefreshKey i) \<Longrightarrow> flow K w (on_redis (cache_Incr (au_redis UC) k) w)"
    and mail1: "flow K w (on_mail (f :: 'm \<Rightarrow> goerr option \<times> 'm) w)"
    and by_email1: "flow K w (on_users (uc_GetByEmail (au_users UC) em) w)"
    and by_id1: "flow K w (on_users (uc_GetByID (au_users UC) i) w)"
    and store1: "good u \<Longrightarrow> flow K w (on_users (uc_Store (au_users UC) u) w)"
    and activate1: "flow K w (on_users (uc_Activate (au_users UC) i) w)"
    and update1: "flow K w (on_users (uc_UpdatePassword (au_users UC) (Some u)) w)"
    and mint1: "flow K w (mint_session E UC u w)"
    and access_ge: "svc_ParseToken (au_jwt UC) tok e = (rc, e') \<Longrightarrow> ge e e'"
    and refresh_ge: "svc_ParseRefreshToken (au_jwt UC) tok e = (rc, e') \<Longrightarrow> ge e e'"
begin

lemma free_keys [simp]:
  "free (RefreshKey i)" "free (UserOTPKey i)" "free (OTPAttemptsKey i)" "free (ForgotAttemptsKey i)"
  "free (PasswordResetKey i)" "free (UserResetIndexKey i)" "free (TokenCutoffKey i)"
  by (simp_all add: free_other)

lemmas get_K = flow_step [OF _ get1]
lemmas del_K = flow_step [OF _ del1]
lemmas expire_K = flow_step [OF _ expire1]
lemmas set_K = flow_step [OF _ set1]
lemmas incr_K = flow_step [OF _ incr1]
lemmas mail_K = flow_step [OF _ mail1]
lemmas by_email_K = flow_step [OF _ by_email1]
lemmas by_id_K = flow_step [OF _ by_id1]
lemmas store_K = flow_step [OF _ store1]
lemmas activate_K = flow_step [OF _ activate1]
lemmas update_K = flow_step [OF _ update1]
lemmas mint_K = flow_step [OF _ mint1]

lemma parse_K: "K w w1 \<Longrightarrow> flow K w (on_env (svc_ParseRefreshToken (au_jwt UC) t) w1)"
  by (erule on_env_K) (erule refresh_ge)

lemma count_K:
  assumes "K w w1" and "free k" and "\<And>i. k \<noteq> RefreshKey i"
  shows "flow K w (count_attempt (au_redis UC) k t w1)"
  unfolding count_attempt_def
  by (intro flow_sum flow_if incr_K) (auto intro!: assms flow_snd expire_K)

lemma cutoff_K: "K w w1 \<Longrightarrow> K w (recordTokenCutoff UC i t w1)"
  unfolding recordTokenCutoff_def Let_def by (intro world_case_option flow_snd set_K expire_K) auto

lemmas calls_K =
  get_K del_K expire_K set_K incr_K mail_K by_email_K by_id_K activate_K update_K parse_K change_K token_K count_K mint_K

lemma Register_K: "good u \<Longrightarrow> flow K w (Register UC u w)"
  unfolding Register_def by (intro flow_sum store_K K_refl) simp_all

lemma Logout_K: "flow K w (Logout UC t w)"
  unfolding Logout_def by (intro flow_sum flow_option calls_K K_refl) simp_all

lemma Login_K: "free (LoginAttemptsKey (NormalizeEmail E em)) \<Longrightarrow> flow K w (Login E UC em pw w)"
  unfolding Login_def
  apply (rule flow_let)
  apply (rule flow_let)
  apply (rule flow_let_prod)
   apply (intro flow_if count_K K_refl; simp add: K_refl)
  apply (intro flow_if flow_sum flow_let_snd calls_K; simp add: Let_def flow_snd del_K)
  done

lemma Refresh_K: "flow K w (Refresh E UC t w)"
  unfolding Refresh_def by (intro flow_sum flow_if flow_let_snd calls_K K_refl) simp_all

lemma VerifyOTP_K: "flow K w (VerifyOTP E UC em code w)"
  unfolding VerifyOTP_def
  apply (rule flow_let)
  apply (intro flow_sum flow_if flow_prod calls_K K_refl; simp add: Let_def observe_K)
  apply (intro impI flow_option calls_K observe_K; simp add: flow_snd del_K)
  done

lemma ChangePassword_K: "flow K w (auth_ChangePassword E UC i cur new w)"
  unfolding auth_ChangePassword_def
  by (intro flow_if flow_sum flow_option calls_K K_refl) (simp_all add: K_refl world_option cutoff_K)

lemma ResetPassword_K: "flow K w (ResetPassword E UC t new w)"
  unfolding ResetPassword_def
  by (intro flow_if flow_sum flow_option flow_let_snd calls_K K_refl) (simp_all add: K_refl world_option cutoff_K)

lemma issue_K: "K w w1 \<Longrightarrow> flow K w (issue_reset UC em t u w1)"
  unfolding issue_reset_def
  apply (rule flow_let_prod)
   apply (erule get_K)
  apply (rule flow_let_world)
   apply (intro world_sum world_if flow_snd del_K; simp)
  apply (intro flow_option calls_K; simp add: Let_def)
  apply (intro flow_option calls_K world_case_option flow_snd; simp)
  done

lemma ForgotPassword_K: "flow K w (ForgotPassword E UC em w)"
  unfolding ForgotPassword_def
  apply (rule flow_let)
  apply (rule flow_let_prod)
   apply (intro flow_if count_K K_refl; simp add: K_refl)
  apply (intro flow_if flow_sum calls_K issue_K; simp add: Let_def flow_snd del_K expire_K set_K)
  done

lemma SendOTP_K:
  assumes "SendOTP E UC em w = Some (r, w')"
  shows "K w w'"
proof -
  obtain q w1 where g: "on_users (uc_GetByEmail (au_users UC) (NormalizeEmail E em)) w = (q, w1)" by fastforce
  have w1: "K w w1" using by_email1 g by (metis flow_pair)
  show ?thesis
  proof (cases "(\<exists>x. q = Inl x) \<or> (\<exists>u. q = Inr u \<and> uActive u)")
    case True
    with assms g w1 show ?thesis by (auto simp: SendOTP_def Let_def)
  next
    case False
    then obtain u where u: "q = Inr u" "\<not> uActive u" by (cases q) auto
    with assms g obtain o1 e where otp: "GenerateOTPCode E 6 (w_env w1) = Some (o1, e)"
      by (auto simp: SendOTP_def Let_def split: option.splits)
    let ?w2 = "w1\<lparr>w_env := e\<rparr>"
    have w2: "K w ?w2" by (rule otp_K [OF w1 otp])
    show ?thesis
    proof (cases o1)
      case (Inl x)
      with assms g u otp w2 show ?thesis by (auto simp: SendOTP_def Let_def)
    next
      case (Inr code)
      have "flow K w (case on_mail (mail_SendOTP (au_mailer UC) code (NormalizeEmail E em)) ?w2 of
            (Some mailErr, w) \<Rightarrow>
              (Some (InternalCause (errorf_w ''send otp'' mailErr)), observe (ObserveMailerOp E ''queue_full'') w)
          | (None, w) \<Rightarrow>
              (None, snd (on_redis (cache_Del (au_redis UC) (OTPAttemptsKey (NormalizeEmail E em)))
                (case on_redis (cache_Set (au_redis UC) (UserOTPKey (NormalizeEmail E em)) code) w of
                   (Some cacheErr, w) \<Rightarrow> observe (ObserveCacheOp E ''redis'' ''set'' ''error'') w
                 | (None, w) \<Rightarrow> observe (ObserveCacheOp E ''redis'' ''set'' ''ok'') w))))"
        (is "flow K w ?p")
        by (intro flow_option mail_K w2)
           (simp_all add: observe_K flow_snd del_K world_case_option set_K)
      moreover have "?p = (r, w')"
        using assms g u otp Inr by (simp add: SendOTP_def Let_def split: prod.splits option.splits)
      ultimately show ?thesis by (metis flow_pair)
    qed
  qed
qed

end

end
