(* ===== verification/Repo_Refine.thy ===== *)
theory Repo_Refine
  imports Repo_Contract
begin

text \<open>
  The repository implements its contract: the operations of \<open>Repo_Users\<close>, run on any table that
  satisfies \<open>users_table\<close>, satisfy \<open>user_repository\<close> through the entity view. A reference
  table engine, which executes the statement texts on a finite map, satisfies \<open>users_table\<close>.
\<close>

lemma errorf_w_As [simp]: "errors_As_DomainError (errorf_w op e) = errors_As_DomainError e"
  by (simp add: errorf_w_def errors_As_DomainError_def)

lemma NotFound_As: "errors_As_DomainError (NotFound m) = Some (NotFound m)"
  by (simp add: apperror_defs)

lemma as_PqError_is: "errors_As_PqError e = Some d \<Longrightarrow> \<exists>code msg. d = PqError code msg"
  by (cases d) (auto simp: errors_As_PqError_def dest: find_SomeD)

lemma rows_affected_None: "rows_affected res = None \<longleftrightarrow> (\<exists>n. res = Inr (Inr n) \<and> n \<noteq> 0)"
  by (auto simp: rows_affected_def split: sum.splits if_splits)

lemma rows_affected_Some:
  "rows_affected res = Some err \<longleftrightarrow>
     res = Inl err \<or> res = Inr (Inl err) \<or> (res = Inr (Inr 0) \<and> err = NotFound ''user not found'')"
  by (auto simp: rows_affected_def split: sum.splits if_splits)

lemma postgres_get_cases:
  assumes "postgres_GetByEmail conn u d = (r, d')"
  shows "\<exists>q. db_GetContext conn selectUserByEmail [SqlString (uEmail u)] d = (q, d') \<and>
    r = (case q of Inl err \<Rightarrow> Inl (if errors_Is err ErrNoRows then NotFound ''user not found'' else err)
         | Inr row \<Rightarrow> Inr (ToV1Domain row))"
  using assms by (auto simp: postgres_GetByEmail_def Let_def split: prod.splits sum.splits)

lemma postgres_getid_cases:
  assumes "postgres_GetByID conn i d = (r, d')"
  shows "\<exists>q. db_GetContext conn selectUserByID [SqlString i] d = (q, d') \<and>
    r = (case q of Inl err \<Rightarrow> Inl (if errors_Is err ErrNoRows then NotFound ''user not found'' else err)
         | Inr row \<Rightarrow> Inr (ToV1Domain row))"
  using assms by (auto simp: postgres_GetByID_def split: prod.splits sum.splits)

lemma postgres_store_Inr:
  assumes "postgres_Store conn u d = (Inr v, d')"
  shows "\<exists>row rs. db_NamedQueryContext conn insertUser (FromUsersV1Domain u) d =
    (Inr (Inr row # rs), d') \<and> v = ToV1Domain row"
  using assms
  by (auto simp: postgres_Store_def Let_def
      split: prod.splits sum.splits list.splits option.splits goerr.splits if_splits)

lemma postgres_store_Inl:
  assumes "postgres_Store conn u d = (Inl err, d')"
  shows "\<exists>q. db_NamedQueryContext conn insertUser (FromUsersV1Domain u) d = (q, d') \<and>
    (q = Inl err \<or>
     (\<exists>e msg. q = Inl e \<and> errors_As_PqError e = Some (PqError ''23505'' msg) \<and>
        err = Conflict ''username or email already exists'') \<or>
     (q = Inr [] \<and> err = ErrorString ''insert succeeded but RETURNING produced no row'') \<or>
     (\<exists>e rs. q = Inr (Inl e # rs) \<and> err = errorf_w ''scan inserted user'' e))"
  using assms
  by (auto simp: postgres_Store_def Let_def
      split: prod.splits sum.splits list.splits option.splits goerr.splits if_splits)

context users_table
begin

lemma ruv_GetByEmail_err:
  assumes "postgres_GetByEmail db u d = (Inl err, d')"
  shows "errors_As_DomainError err = None \<or>
      (err = NotFound ''user not found'' \<and>
       (\<forall>i v. domain_view tbl d i = Some v \<longrightarrow> live v \<longrightarrow> uEmail v \<noteq> uEmail u))"
proof -
  obtain q where q: "db_GetContext db selectUserByEmail [SqlString (uEmail u)] d = (q, d')"
    and r: "Inl err = (case q of
        Inl err \<Rightarrow> Inl (if errors_Is err ErrNoRows then NotFound ''user not found'' else err)
      | Inr row \<Rightarrow> Inr (ToV1Domain row))"
    using postgres_get_cases [OF assms] by blast
  then obtain e where e: "q = Inl e" by (cases q) auto
  show ?thesis
  proof (cases "errors_Is e ErrNoRows")
    case True
    with r e have "err = NotFound ''user not found''" by simp
    moreover have "\<forall>i v. domain_view tbl d i = Some v \<longrightarrow> live v \<longrightarrow> uEmail v \<noteq> uEmail u"
      using email_none [OF q [unfolded e] True] by (auto simp: domain_view_def)
    ultimately show ?thesis by blast
  next
    case False
    with r e q show ?thesis using get_foreign by auto
  qed
qed

lemma ruv_GetByID_err:
  assumes "postgres_GetByID db i d = (Inl err, d')"
  shows "errors_As_DomainError err = None \<or>
      (err = NotFound ''user not found'' \<and> \<not> live_user (domain_view tbl d) (uid i))"
proof -
  obtain q where q: "db_GetContext db selectUserByID [SqlString i] d = (q, d')"
    and r: "Inl err = (case q of
        Inl err \<Rightarrow> Inl (if errors_Is err ErrNoRows then NotFound ''user not found'' else err)
      | Inr row \<Rightarrow> Inr (ToV1Domain row))"
    using postgres_getid_cases [OF assms] by blast
  then obtain e where e: "q = Inl e" by (cases q) auto
  show ?thesis
    using r q e id_none [of i d e d'] get_foreign
    by (cases "errors_Is e ErrNoRows") (auto simp: live_user_domain_view)
qed

lemma ruv_Store_ok:
  assumes "postgres_Store db u d = (Inr v, d')"
  shows "\<exists>i. domain_view tbl d i = None \<and> v = stored_user ts u i \<and>
    domain_view tbl d' = (domain_view tbl d)(i \<mapsto> v)"
proof -
  obtain row rs where "db_NamedQueryContext db insertUser (FromUsersV1Domain u) d =
    (Inr (Inr row # rs), d')" and v: "v = ToV1Domain row"
    using postgres_store_Inr [OF assms] by blast
  then obtain i where "tbl d i = None"
    and "tbl d' = (tbl d)(i \<mapsto> inserted_row ts (FromUsersV1Domain u) i)"
    and "row = inserted_row ts (FromUsersV1Domain u) i"
    using insert_ok by fastforce
  with v show ?thesis
    using domain_view_upd [of tbl d' d i]
    by (intro exI [of _ i]) (simp add: ToV1Domain_updates domain_view_def)
qed

lemma insert_effect:
  assumes "db_NamedQueryContext db insertUser (FromUsersV1Domain u) d = (q, d')"
  shows "domain_view tbl d' = domain_view tbl d \<or> (\<exists>i. domain_view tbl d i = None \<and>
    domain_view tbl d' = (domain_view tbl d)(i \<mapsto> stored_user ts u i))"
proof -
  have "tbl d' = tbl d \<or> (\<exists>i. tbl d i = None \<and>
      tbl d' = (tbl d)(i \<mapsto> inserted_row ts (FromUsersV1Domain u) i))"
  proof (cases q)
    case (Inl err)
    with assms show ?thesis using insert_err by blast
  next
    case (Inr rows)
    with assms show ?thesis using insert_ok by blast
  qed
  then show ?thesis
  proof (elim disjE exE conjE)
    fix i assume "tbl d i = None"
      and t: "tbl d' = (tbl d)(i \<mapsto> inserted_row ts (FromUsersV1Domain u) i)"
    then show ?thesis
      using domain_view_upd [of tbl d' d, OF t]
      by (intro disjI2 exI [of _ i]) (simp add: ToV1Domain_updates domain_view_def)
  qed (intro disjI1 domain_view_same)
qed

lemma ruv_Store_err:
  "postgres_Store db u d = (Inl err, d') \<Longrightarrow>
   domain_view tbl d' = domain_view tbl d \<or> (\<exists>i. domain_view tbl d i = None \<and>
    domain_view tbl d' = (domain_view tbl d)(i \<mapsto> stored_user ts u i))"
  using postgres_store_Inl insert_effect by metis

lemma ruv_Store_err_type:
  assumes "postgres_Store db u d = (Inl err, d')"
  shows "errors_As_DomainError err = None \<or>
      (err = Conflict ''username or email already exists'' \<and>
       domain_view tbl d' = domain_view tbl d \<and>
       (\<exists>i v. domain_view tbl d i = Some v \<and> live v \<and>
          (uEmail v = uEmail u \<or> low (uUsername v) = low (uUsername u))))"
proof -
  obtain q where q: "db_NamedQueryContext db insertUser (FromUsersV1Domain u) d = (q, d')"
    and cases: "q = Inl err \<or>
     (\<exists>e msg. q = Inl e \<and> errors_As_PqError e = Some (PqError ''23505'' msg) \<and>
        err = Conflict ''username or email already exists'') \<or>
     (q = Inr [] \<and> err = ErrorString ''insert succeeded but RETURNING produced no row'') \<or>
     (\<exists>e rs. q = Inr (Inl e # rs) \<and> err = errorf_w ''scan inserted user'' e)"
    using postgres_store_Inl [OF assms] by blast
  from cases show ?thesis
  proof (elim disjE exE conjE)
    fix e msg
    assume e: "q = Inl e" "errors_As_PqError e = Some (PqError ''23505'' msg)"
      and "err = Conflict ''username or email already exists''"
    moreover obtain i r where "tbl d i = Some r" "live_row r" "tbl d' = tbl d"
      "rEmail r = uEmail u \<or> low (rUsername r) = low (uUsername u)"
      using insert_conflict [OF q [unfolded e] e(2)] by auto
    moreover from this have "domain_view tbl d i = Some (ToV1Domain r)"
      by (simp add: domain_view_def)
    ultimately show ?thesis
      using domain_view_same [of tbl d' d] by (metis ToV1Domain_sel(2,3) live_ToV1Domain)
  next
    assume "q = Inr []" "err = ErrorString ''insert succeeded but RETURNING produced no row''"
    then show ?thesis by (simp add: errors_As_DomainError_def)
  qed (use q query_foreign query_scan_foreign in auto)
qed

lemma ruv_ChangeActive:
  assumes "postgres_ChangeActiveUser db u d = (r, d')"
  shows "(r \<noteq> None \<and> domain_view tbl d' = domain_view tbl d) \<or>
    (\<exists>now. domain_view tbl d' = user_update (uid (uID u))
        (\<lambda>v. v\<lparr>uActive := uActive u, uUpdatedAt := Some now\<rparr>) (domain_view tbl d))"
proof -
  obtain q where q: "db_NamedQueryContext db updateUserActive (FromUsersV1Domain u) d = (q, d')"
    and r: "r = (case q of Inl err \<Rightarrow> Some err | Inr _ \<Rightarrow> None)"
    using assms by (auto simp: postgres_ChangeActiveUser_def Let_def split: prod.splits sum.splits)
  then have "(r \<noteq> None \<and> tbl d' = tbl d) \<or> (\<exists>now. tbl d' = row_update (uid (uID u))
        (\<lambda>row. row\<lparr>rActive := uActive u, rUpdatedAt := Some now\<rparr>) (tbl d))"
    using active_ok [of "FromUsersV1Domain u" d _ d'] active_err [of "FromUsersV1Domain u" d _ d']
    by (cases q) auto
  then show ?thesis
  proof (elim disjE exE conjE)
    fix now assume "tbl d' = row_update (uid (uID u))
        (\<lambda>row. row\<lparr>rActive := uActive u, rUpdatedAt := Some now\<rparr>) (tbl d)"
    from domain_view_row_update [OF this ToV1Domain_updates(3)] show ?thesis by blast
  qed (intro disjI1 conjI domain_view_same)
qed

lemma ruv_ChangeActive_ok:
  "postgres_ChangeActiveUser db u d = (None, d') \<Longrightarrow>
   \<exists>now. domain_view tbl d' = user_update (uid (uID u))
        (\<lambda>v. v\<lparr>uActive := uActive u, uUpdatedAt := Some now\<rparr>) (domain_view tbl d)"
  using ruv_ChangeActive by blast

lemma ruv_ChangeActive_err:
  "postgres_ChangeActiveUser db u d = (Some err, d') \<Longrightarrow>
   domain_view tbl d' = domain_view tbl d \<or>
   (\<exists>now. domain_view tbl d' = user_update (uid (uID u))
        (\<lambda>v. v\<lparr>uActive := uActive u, uUpdatedAt := Some now\<rparr>) (domain_view tbl d))"
  using ruv_ChangeActive by blast

lemma ruv_UpdatePassword:
  assumes "postgres_UpdatePassword db u d = (r, d')"
  shows "r = None \<Longrightarrow> live_user (domain_view tbl d) (uid (uID u)) \<and>
      domain_view tbl d' = user_update (uid (uID u)) (password_user ts u) (domain_view tbl d)"
    and "r = Some err \<Longrightarrow> (errors_As_DomainError err = None \<and>
        (domain_view tbl d' = domain_view tbl d \<or>
         domain_view tbl d' = user_update (uid (uID u)) (password_user ts u) (domain_view tbl d))) \<or>
      (err = NotFound ''user not found'' \<and> domain_view tbl d' = domain_view tbl d \<and>
        \<not> live_user (domain_view tbl d) (uid (uID u)))"
proof -
  obtain q where q: "db_NamedExecContext db updateUserPassword (FromUsersV1Domain u) d = (q, d')"
    and r: "r = rows_affected q"
    using assms by (auto simp: postgres_UpdatePassword_def Let_def split: prod.splits)
  have upd: "tbl d' = row_update (uid (uID u)) (password_row ts (FromUsersV1Domain u)) (tbl d) \<Longrightarrow>
    domain_view tbl d' = user_update (uid (uID u)) (password_user ts u) (domain_view tbl d)"
    by (erule domain_view_row_update) (rule ToV1Domain_updates)
  show "live_user (domain_view tbl d) (uid (uID u)) \<and>
      domain_view tbl d' = user_update (uid (uID u)) (password_user ts u) (domain_view tbl d)"
    if "r = None"
    using that r q upd password_ok [of "FromUsersV1Domain u" d _ d']
    by (auto simp: rows_affected_None live_user_domain_view)
  have same: "tbl d' = tbl d" if "q = Inr (Inr 0)"
    using password_ok [of "FromUsersV1Domain u" d 0 d'] q that
    by (auto simp: row_update_def has_live_def split: option.splits)
  show "(errors_As_DomainError err = None \<and>
        (domain_view tbl d' = domain_view tbl d \<or>
         domain_view tbl d' = user_update (uid (uID u)) (password_user ts u) (domain_view tbl d))) \<or>
      (err = NotFound ''user not found'' \<and> domain_view tbl d' = domain_view tbl d \<and>
        \<not> live_user (domain_view tbl d) (uid (uID u)))"
    if "r = Some err"
  proof -
    have eff: "domain_view tbl d' = domain_view tbl d \<or>
      domain_view tbl d' = user_update (uid (uID u)) (password_user ts u) (domain_view tbl d)"
      using password_err [OF q] upd domain_view_same [of tbl d' d] by auto
    from that r consider "q = Inl err" | "q = Inr (Inl err)"
      | "q = Inr (Inr 0)" "err = NotFound ''user not found''"
      by (auto simp: rows_affected_Some)
    then show ?thesis
    proof cases
      case 3
      then show ?thesis
        using same domain_view_same [of tbl d' d] password_ok [of "FromUsersV1Domain u" d 0 d'] q
        by (simp add: live_user_domain_view)
    qed (use eff q exec_foreign in auto)
  qed
qed

lemma ruv_SoftDelete:
  assumes "postgres_SoftDelete db i d = (r, d')"
  shows "r = None \<Longrightarrow> live_user (domain_view tbl d) (uid i) \<and>
      (\<exists>now. domain_view tbl d' = user_update (uid i)
        (\<lambda>v. v\<lparr>uDeletedAt := Some now, uUpdatedAt := Some now\<rparr>) (domain_view tbl d))"
    and "r = Some err \<Longrightarrow> errors_As_DomainError err = None \<or>
      (err = NotFound ''user not found'' \<and> domain_view tbl d' = domain_view tbl d \<and>
        \<not> live_user (domain_view tbl d) (uid i))"
proof -
  obtain q where q: "db_ExecContext db softDeleteUser [SqlString i] d = (q, d')"
    and r: "r = rows_affected q"
    using assms by (auto simp: postgres_SoftDelete_def split: prod.splits)
  show "live_user (domain_view tbl d) (uid i) \<and>
      (\<exists>now. domain_view tbl d' = user_update (uid i)
        (\<lambda>v. v\<lparr>uDeletedAt := Some now, uUpdatedAt := Some now\<rparr>) (domain_view tbl d))"
    if "r = None"
  proof -
    from that r obtain n where n: "q = Inr (Inr n)" "n \<noteq> 0" by (auto simp: rows_affected_None)
    obtain now where now: "tbl d' = row_update (uid i)
        (\<lambda>row. row\<lparr>rDeletedAt := Some now, rUpdatedAt := Some now\<rparr>) (tbl d)"
      and "n = 0 \<longleftrightarrow> \<not> has_live (tbl d) (uid i)"
      using delete_ok [OF q [unfolded n(1)]] by blast
    then show ?thesis
      using n(2) domain_view_row_update [OF now ToV1Domain_updates(4)]
      by (auto simp: live_user_domain_view)
  qed
  show "errors_As_DomainError err = None \<or>
      (err = NotFound ''user not found'' \<and> domain_view tbl d' = domain_view tbl d \<and>
        \<not> live_user (domain_view tbl d) (uid i))"
    if "r = Some err"
  proof -
    from that r consider "q = Inl err" | "q = Inr (Inl err)"
      | "q = Inr (Inr 0)" "err = NotFound ''user not found''"
      by (auto simp: rows_affected_Some)
    then show ?thesis
    proof cases
      case 3
      then show ?thesis
        using delete_ok [OF q [unfolded 3(1)]]
        by (auto simp: live_user_domain_view row_update_def has_live_def domain_view_def
            split: option.splits)
    qed (use q delete_foreign in auto)
  qed
qed

end

sublocale users_table \<subseteq> repo: user_repository "NewUserRepository db" "domain_view tbl" ts uid low
proof
  show "uID u = i \<and> uid i = i" if "domain_view tbl d i = Some u" for d i u
    using key_wf that by (fastforce simp: domain_view_def)
  show "i = j" if "domain_view tbl d i = Some u" "live u" "domain_view tbl d j = Some v" "live v"
    "uEmail u = uEmail v" for d i u j v
    using that email_unique by (auto simp: domain_view_def)
  show "domain_view tbl d' = domain_view tbl d"
    if "repo_GetByEmail (NewUserRepository db) u d = (x, d')" for u d x d'
    using postgres_get_cases [of db u d x d'] that
    by (auto intro!: domain_view_same dest: get_frame)
  show "domain_view tbl d' = domain_view tbl d"
    if "repo_GetByID (NewUserRepository db) i d = (x, d')" for i d x d'
    using postgres_getid_cases [of db i d x d'] that
    by (auto intro!: domain_view_same dest: get_frame)
  show "domain_view tbl d (uID v) = Some v \<and> live v \<and> uEmail v = uEmail u"
    if "repo_GetByEmail (NewUserRepository db) u d = (Inr v, d')" for u d v d'
    using postgres_get_cases [of db u d "Inr v" d'] that email_ok [of "uEmail u" d _ d']
    by (fastforce simp: domain_view_def split: sum.splits)
  show "uID v = uid i \<and> domain_view tbl d (uid i) = Some v \<and> live v"
    if "repo_GetByID (NewUserRepository db) i d = (Inr v, d')" for i d v d'
    using postgres_getid_cases [of db i d "Inr v" d'] that id_ok [of i d _ d']
    by (fastforce simp: domain_view_def split: sum.splits)
qed (simp_all only: NewUserRepository_sel,
  (erule ruv_GetByEmail_err ruv_GetByID_err ruv_Store_ok ruv_Store_err ruv_Store_err_type
    ruv_ChangeActive_ok ruv_ChangeActive_err ruv_UpdatePassword(1) [OF _ refl]
    ruv_UpdatePassword(2) [OF _ refl] ruv_SoftDelete(1) [OF _ refl] ruv_SoftDelete(2) [OF _ refl])+)

context users_table
begin

lemma repo_contract: "user_repository (NewUserRepository db) (domain_view tbl) ts uid low"
  by (rule repo.user_repository_axioms)

lemma soft_delete_hidden:
  assumes "postgres_SoftDelete db i d = (None, d')"
  shows "\<not> is_Inr (fst (postgres_GetByID db i d'))"
    and "domain_view tbl d (uid i) = Some u \<Longrightarrow>
      \<not> is_Inr (fst (postgres_GetByEmail db (zero_User\<lparr>uEmail := uEmail u\<rparr>) d'))"
proof -
  obtain now where alive: "live_user (domain_view tbl d) (uid i)"
    and upd: "domain_view tbl d' = user_update (uid i)
        (\<lambda>v. v\<lparr>uDeletedAt := Some now, uUpdatedAt := Some now\<rparr>) (domain_view tbl d)"
    using ruv_SoftDelete(1) [OF assms refl] by blast
  then obtain w where w: "domain_view tbl d (uid i) = Some w" "live w" by (auto simp: live_user_def)
  have dead: "domain_view tbl d' (uid i) =
      Some (w\<lparr>uDeletedAt := Some now, uUpdatedAt := Some now\<rparr>)"
    by (simp add: upd user_update_def w)
  show "\<not> is_Inr (fst (postgres_GetByID db i d'))"
  proof (cases "fst (postgres_GetByID db i d')")
    case (Inr v)
    then obtain d2 where "repo_GetByID (NewUserRepository db) i d' = (Inr v, d2)"
      by (cases "postgres_GetByID db i d'") auto
    from repo.GetByID_ok [OF this] dead show ?thesis by (auto simp: live_def)
  qed simp
  show "\<not> is_Inr (fst (postgres_GetByEmail db (zero_User\<lparr>uEmail := uEmail u\<rparr>) d'))"
    if u: "domain_view tbl d (uid i) = Some u"
  proof (cases "fst (postgres_GetByEmail db (zero_User\<lparr>uEmail := uEmail u\<rparr>) d')")
    case (Inr v)
    then obtain d2 where
      "repo_GetByEmail (NewUserRepository db) (zero_User\<lparr>uEmail := uEmail u\<rparr>) d' = (Inr v, d2)"
      by (cases "postgres_GetByEmail db (zero_User\<lparr>uEmail := uEmail u\<rparr>) d'") auto
    from repo.GetByEmail_ok [OF this] have v: "domain_view tbl d' (uID v) = Some v" "live v"
      "uEmail v = uEmail w"
      using u w by auto
    have "uID v \<noteq> uid i" using v dead by (auto simp: live_def)
    moreover from this v(1) have "domain_view tbl d (uID v) = Some v"
      by (auto simp: upd user_update_def w)
    ultimately show ?thesis
      using repo.uv_email_unique [OF _ v(2) w(1,2) v(3)] by blast
  qed simp
qed

lemma list_spec:
  assumes "postgres_List db flt off lim d = (Inr us, d')"
  shows "int (length us) \<le> hardLimit \<and> (0 < lim \<longrightarrow> int (length us) \<le> lim) \<and>
    sorted_wrt (\<lambda>a b. uCreatedAt b \<le> uCreatedAt a) us \<and>
    (\<forall>u\<in>set us. u \<in> ran (domain_view tbl d) \<and> (fIncludeDeleted flt \<or> live u) \<and>
      (fRoleID flt = 0 \<or> uRoleID u = fRoleID flt) \<and> (fActiveOnly flt \<longrightarrow> uActive u))"
proof -
  define L where "L = (if lim \<le> 0 \<or> lim > hardLimit then hardLimit else lim)"
  define Q where "Q = (if off < 0 then 0 else off)"
  obtain rows where sel: "db_SelectContext db
      (list_stmt (\<not> fIncludeDeleted flt) (fRoleID flt \<noteq> 0) (fActiveOnly flt))
      ((if fRoleID flt \<noteq> 0 then [SqlInt (fRoleID flt)] else []) @ [SqlInt L, SqlInt Q]) d = (Inr rows, d')"
    and us: "us = map ToV1Domain rows"
    using assms
    by (auto simp: postgres_List_def list_query_stmt L_def Q_def list_rows_map
        split: prod.splits sum.splits)
  have "0 \<le> L" "0 \<le> Q" by (auto simp: L_def Q_def hardLimit_def)
  from list_ok [OF sel this] obtain rs where rs: "set rs = {r. r \<in> ran (tbl d) \<and>
      (\<not> fIncludeDeleted flt \<longrightarrow> live_row r) \<and> (fRoleID flt \<noteq> 0 \<longrightarrow> rRoleId r = fRoleID flt) \<and>
      (fActiveOnly flt \<longrightarrow> rActive r)}"
    and srt: "sorted_wrt (\<lambda>a b. rCreatedAt b \<le> rCreatedAt a) rs"
    and rows: "rows = take (nat L) (drop (nat Q) rs)"
    unfolding page_def by blast
  have len: "int (length rows) \<le> L" using \<open>0 \<le> L\<close> by (simp add: rows)
  have "r \<in> set rs" if "r \<in> set rows" for r
    using that unfolding rows by (metis in_set_dropD in_set_takeD)
  moreover have "ToV1Domain r \<in> ran (domain_view tbl d)" if "r \<in> ran (tbl d)" for r
    using that by (force simp: ran_def domain_view_def)
  ultimately have mem: "\<forall>u\<in>set us. u \<in> ran (domain_view tbl d) \<and> (fIncludeDeleted flt \<or> live u) \<and>
      (fRoleID flt = 0 \<or> uRoleID u = fRoleID flt) \<and> (fActiveOnly flt \<longrightarrow> uActive u)"
    unfolding us using rs by auto
  have "sorted_wrt (\<lambda>a b. rCreatedAt b \<le> rCreatedAt a) rows"
    unfolding rows using srt by (simp add: sorted_wrt_take sorted_wrt_drop)
  then have "sorted_wrt (\<lambda>a b. uCreatedAt b \<le> uCreatedAt a) us"
    by (simp add: us sorted_wrt_map)
  with mem len show ?thesis by (auto simp: us L_def hardLimit_def split: if_splits)
qed

end

end
