(* ===== verification/Ref_Table.thy ===== *)
theory Ref_Table
  imports Repo_Refine
begin

text \<open>
  A reference table engine: it executes the statement texts of the repository on a list of rows,
  rounds instants to microseconds, numbers the keys it generates, and can be scripted to lose the
  connection. It satisfies \<open>users_table\<close>, so the repository contract can hold, and the evaluated
  runs of the development use it. An engine whose rows break an index answers every statement
  with an error.
\<close>

record ref_db =
  rd_rows :: "Users list"
  rd_next :: nat
  rd_now :: time
  rd_faults :: "bool list"

definition pg_ts :: "time \<Rightarrow> time" where
  "pg_ts t = (t + 500) div 1000 * 1000"

definition rd_live :: "ref_db \<Rightarrow> Users list" where
  "rd_live d = filter live_row (rd_rows d)"

definition rd_wf :: "ref_db \<Rightarrow> bool" where
  "rd_wf d \<longleftrightarrow> distinct (map rId (rd_rows d)) \<and> distinct (map rEmail (rd_live d)) \<and>
     distinct (map (\<lambda>r. map byte_to_lower (rUsername r)) (rd_live d))"

definition rd_tbl :: "ref_db \<Rightarrow> (string \<rightharpoonup> Users)" where
  "rd_tbl d = (if rd_wf d then map_of (map (\<lambda>r. (rId r, r)) (rd_rows d)) else Map.empty)"

definition rd_down :: "ref_db \<Rightarrow> bool" where
  "rd_down d \<longleftrightarrow> \<not> rd_wf d \<or> (case rd_faults d of [] \<Rightarrow> False | b # bs \<Rightarrow> b)"

definition rd_tick :: "ref_db \<Rightarrow> ref_db" where
  "rd_tick d = d\<lparr>rd_faults := tl (rd_faults d)\<rparr>"

definition bad_conn :: goerr where
  "bad_conn = ErrorString ''driver: bad connection''"

definition rd_get :: "string \<Rightarrow> sqlval list \<Rightarrow> ref_db \<Rightarrow> (goerr + Users) \<times> ref_db" where
  "rd_get st args d =
     (if rd_down d then (Inl bad_conn, rd_tick d)
      else case args of
          [SqlString x] \<Rightarrow>
            (if st = selectUserByEmail \<or> st = selectUserByID then
               (case List.find (\<lambda>r. live_row r \<and>
                     (if st = selectUserByEmail then rEmail r else rId r) = x) (rd_rows d) of
                  None \<Rightarrow> (Inl (Sentinel ErrNoRows), rd_tick d)
                | Some r \<Rightarrow> (Inr r, rd_tick d))
             else (Inl (PqError ''42601'' ''syntax error''), rd_tick d))
        | _ \<Rightarrow> (Inl (PqError ''42601'' ''syntax error''), rd_tick d))"

definition rd_upd :: "string \<Rightarrow> (Users \<Rightarrow> Users) \<Rightarrow> ref_db \<Rightarrow> ref_db" where
  "rd_upd i f d =
     (rd_tick d)\<lparr>rd_rows := map (\<lambda>r. if rId r = i \<and> live_row r then f r else r) (rd_rows d)\<rparr>"

definition rd_matches :: "string \<Rightarrow> ref_db \<Rightarrow> bool" where
  "rd_matches i d = list_ex (\<lambda>r. rId r = i \<and> live_row r) (rd_rows d)"

definition rd_insert :: "Users \<Rightarrow> ref_db \<Rightarrow> (goerr + (goerr + Users) list) \<times> ref_db" where
  "rd_insert r d =
     (let i = ''id-'' @ nat_to_dec (rd_next d); row = inserted_row pg_ts r i in
      if list_ex (\<lambda>q. rEmail q = rEmail r \<or>
           map byte_to_lower (rUsername q) = map byte_to_lower (rUsername r)) (rd_live d)
      then (Inl (PqError ''23505'' ''duplicate key value violates unique constraint''), rd_tick d)
      else if i \<in> set (map rId (rd_rows d)) then (Inl bad_conn, rd_tick d)
      else (Inr [Inr row], (rd_tick d)\<lparr>rd_rows := rd_rows d @ [row], rd_next := Suc (rd_next d)\<rparr>))"

definition rd_named_query ::
  "string \<Rightarrow> Users \<Rightarrow> ref_db \<Rightarrow> (goerr + (goerr + Users) list) \<times> ref_db" where
  "rd_named_query st r d =
     (if rd_down d then (Inl bad_conn, rd_tick d)
      else if st = insertUser then rd_insert r d
      else if st = updateUserActive then
        (Inr [], rd_upd (rId r) (\<lambda>row. row\<lparr>rActive := rActive r, rUpdatedAt := Some (rd_now d)\<rparr>) d)
      else (Inl (PqError ''42601'' ''syntax error''), rd_tick d))"

definition rd_named_exec ::
  "string \<Rightarrow> Users \<Rightarrow> ref_db \<Rightarrow> (goerr + (goerr + int)) \<times> ref_db" where
  "rd_named_exec st r d =
     (if rd_down d then (Inl bad_conn, rd_tick d)
      else if st = updateUserPassword then
        (Inr (Inr (if rd_matches (rId r) d then 1 else 0)), rd_upd (rId r) (password_row pg_ts r) d)
      else (Inl (PqError ''42601'' ''syntax error''), rd_tick d))"

definition rd_exec :: "string \<Rightarrow> sqlval list \<Rightarrow> ref_db \<Rightarrow> (goerr + (goerr + int)) \<times> ref_db" where
  "rd_exec st args d =
     (if rd_down d then (Inl bad_conn, rd_tick d)
      else case args of
          [SqlString i] \<Rightarrow>
            (if st = softDeleteUser then
               (Inr (Inr (if rd_matches i d then 1 else 0)),
                rd_upd i (\<lambda>row. row\<lparr>rDeletedAt := Some (rd_now d), rUpdatedAt := Some (rd_now d)\<rparr>) d)
             else (Inl (PqError ''42601'' ''syntax error''), rd_tick d))
        | _ \<Rightarrow> (Inl (PqError ''42601'' ''syntax error''), rd_tick d))"

definition list_combos :: "(bool \<times> bool \<times> bool) list" where
  "list_combos = [(a, b, c). a \<leftarrow> [True, False], b \<leftarrow> [True, False], c \<leftarrow> [True, False]]"

definition rd_page :: "(Users \<Rightarrow> bool) \<Rightarrow> int \<Rightarrow> int \<Rightarrow> ref_db \<Rightarrow> Users list" where
  "rd_page P lim off d =
     take (nat lim) (drop (nat off) (sort_key (\<lambda>r. - rCreatedAt r) (filter P (rd_rows d))))"

definition rd_select :: "string \<Rightarrow> sqlval list \<Rightarrow> ref_db \<Rightarrow> (goerr + Users list) \<times> ref_db" where
  "rd_select st args d =
     (if rd_down d then (Inl bad_conn, rd_tick d)
      else case List.find (\<lambda>(a, b, c). list_stmt a b c = st) list_combos of
          Some (nodel, role, act) \<Rightarrow>
            (case (role, args) of
               (True, [SqlInt rl, SqlInt lim, SqlInt off]) \<Rightarrow>
                 (Inr (rd_page (\<lambda>r. (nodel \<longrightarrow> live_row r) \<and> rRoleId r = rl \<and> (act \<longrightarrow> rActive r))
                    lim off d), rd_tick d)
             | (False, [SqlInt lim, SqlInt off]) \<Rightarrow>
                 (Inr (rd_page (\<lambda>r. (nodel \<longrightarrow> live_row r) \<and> (act \<longrightarrow> rActive r)) lim off d), rd_tick d)
             | _ \<Rightarrow> (Inl (PqError ''42601'' ''syntax error''), rd_tick d))
        | None \<Rightarrow> (Inl (PqError ''42601'' ''syntax error''), rd_tick d))"

definition ref_sqlx :: "ref_db sqlx_DB" where
  "ref_sqlx =
     \<lparr>db_GetContext = rd_get, db_SelectContext = rd_select, db_NamedQueryContext = rd_named_query,
      db_NamedExecContext = rd_named_exec, db_ExecContext = rd_exec\<rparr>"

lemma ref_sqlx_sel [simp]:
  "db_GetContext ref_sqlx = rd_get" "db_SelectContext ref_sqlx = rd_select"
  "db_NamedQueryContext ref_sqlx = rd_named_query" "db_NamedExecContext ref_sqlx = rd_named_exec"
  "db_ExecContext ref_sqlx = rd_exec"
  by (simp_all add: ref_sqlx_def)

section \<open>The engine on its view\<close>

lemma stmt_distinct [simp]:
  "selectUserByID \<noteq> selectUserByEmail" "selectUserByEmail \<noteq> selectUserByID"
  "updateUserActive \<noteq> insertUser" "insertUser \<noteq> updateUserActive"
  by (simp_all add: selectUserByID_def selectUserByEmail_def updateUserActive_def insertUser_def
      dq_def nl2_def)

lemma rd_tick_simps [simp]:
  "rd_rows (rd_tick d) = rd_rows d" "rd_wf (rd_tick d) = rd_wf d" "rd_tbl (rd_tick d) = rd_tbl d"
  "rd_now (rd_tick d) = rd_now d" "rd_next (rd_tick d) = rd_next d" "rd_live (rd_tick d) = rd_live d"
  by (simp_all add: rd_tick_def rd_wf_def rd_live_def rd_tbl_def)

lemma rd_down_wf: "\<not> rd_down d \<Longrightarrow> rd_wf d"
  by (simp add: rd_down_def)

lemma rd_tbl_iff: "rd_wf d \<Longrightarrow> rd_tbl d i = Some r \<longleftrightarrow> r \<in> set (rd_rows d) \<and> rId r = i"
  unfolding rd_tbl_def rd_wf_def
  by (force simp: map_of_eq_Some_iff distinct_map inj_on_def)

lemma rd_tbl_Some: "rd_tbl d i = Some r \<Longrightarrow> rd_wf d \<and> r \<in> set (rd_rows d) \<and> rId r = i"
  using rd_tbl_iff by (metis option.distinct(1) rd_tbl_def)

lemma rd_tbl_ran: "rd_wf d \<Longrightarrow> ran (rd_tbl d) = set (rd_rows d)"
  by (auto simp: ran_def rd_tbl_iff)

lemma rd_tbl_none: "rd_wf d \<Longrightarrow> rd_tbl d i = None \<longleftrightarrow> i \<notin> rId ` set (rd_rows d)"
  using rd_tbl_iff by (metis (no_types, lifting) image_iff not_None_eq)

lemma rd_has_live: "rd_wf d \<Longrightarrow> has_live (rd_tbl d) i \<longleftrightarrow> rd_matches i d"
  by (auto simp: has_live_def rd_matches_def rd_tbl_iff list_ex_iff)

lemma rd_live_unique:
  assumes "rd_wf d" "r \<in> set (rd_rows d)" "live_row r" "q \<in> set (rd_rows d)" "live_row q"
    and "rEmail r = rEmail q \<or> map byte_to_lower (rUsername r) = map byte_to_lower (rUsername q)"
  shows "r = q"
  using assms unfolding rd_wf_def rd_live_def
  by (auto simp: distinct_map inj_on_def)

text \<open>An update that keeps the indexed columns of a row and does not revive deleted rows.\<close>

definition keeps_index :: "(Users \<Rightarrow> Users) \<Rightarrow> bool" where
  "keeps_index f \<longleftrightarrow> (\<forall>r. rId (f r) = rId r \<and> rEmail (f r) = rEmail r \<and>
     rUsername (f r) = rUsername r \<and> (live_row (f r) \<longrightarrow> live_row r))"

lemma keeps_indexD:
  assumes "keeps_index f"
  shows "rId (f r) = rId r" "rEmail (f r) = rEmail r" "rUsername (f r) = rUsername r"
    "live_row (f r) \<Longrightarrow> live_row r"
  using assms by (auto simp: keeps_index_def)

lemma distinct_map_filter_and:
  "distinct (map h (filter P xs)) \<Longrightarrow> distinct (map h (filter (\<lambda>x. P x \<and> Q x) xs))"
  using distinct_map_filter [of h "filter P xs" Q] by simp

lemma option_eqI: "(\<And>x. a = Some x \<longleftrightarrow> b = Some x) \<Longrightarrow> a = b"
  by (metis option.exhaust)

lemma map_rows_wf:
  assumes "rd_wf d" and g: "keeps_index g" and rows: "rd_rows d' = map g (rd_rows d)"
  shows "rd_wf d'"
proof -
  have *: "filter (\<lambda>r. live_row (g r)) (rd_rows d) =
      filter (\<lambda>r. live_row (g r)) (filter live_row (rd_rows d))"
    using keeps_indexD(4) [OF g] by (auto intro: filter_cong)
  have live: "map h (filter live_row (map g rs)) = map h (filter (\<lambda>r. live_row (g r)) rs)"
    if "\<And>r. h (g r) = h r" for h :: "Users \<Rightarrow> string" and rs
    using that by (simp add: filter_map comp_def)
  show ?thesis
    using assms(1)
    by (simp add: rd_wf_def rd_live_def rows live keeps_indexD [OF g] comp_def *
        distinct_map_filter_and)
qed

lemma map_rows_tbl:
  assumes "rd_wf d" and g: "keeps_index g" and rows: "rd_rows d' = map g (rd_rows d)"
  shows "rd_tbl d' i = map_option g (rd_tbl d i)"
proof -
  have "map_of (map (\<lambda>r. (rId r, g r)) rs) i = map_option g (map_of (map (\<lambda>r. (rId r, r)) rs) i)"
    for rs by (induction rs) auto
  then show ?thesis
    using assms(1) map_rows_wf [OF assms]
    by (simp add: rd_tbl_def rows keeps_indexD [OF g] comp_def)
qed

lemma rd_upd_effect:
  assumes "rd_wf d" and f: "keeps_index f"
  shows "rd_tbl (rd_upd i f d) = row_update i f (rd_tbl d)"
proof (rule ext)
  fix j
  let ?g = "\<lambda>r. if rId r = i \<and> live_row r then f r else r"
  have "keeps_index ?g" using f by (auto simp: keeps_index_def)
  then have "rd_tbl (rd_upd i f d) j = map_option ?g (rd_tbl d j)"
    using map_rows_tbl [OF assms(1), of ?g "rd_upd i f d" j] by (simp add: rd_upd_def)
  then show "rd_tbl (rd_upd i f d) j = row_update i f (rd_tbl d) j"
    by (cases "rd_tbl d j"; cases "j = i")
       (auto simp: row_update_def split: option.splits dest: rd_tbl_Some)
qed

lemma keeps_index_updates [simp]:
  "keeps_index (\<lambda>row. row\<lparr>rActive := a, rUpdatedAt := Some u\<rparr>)"
  "keeps_index (password_row ts r)"
  "keeps_index (\<lambda>row. row\<lparr>rDeletedAt := Some t, rUpdatedAt := Some t'\<rparr>)"
  by (auto simp: keeps_index_def live_row_def password_row_def)

lemma rd_insert_cases:
  assumes "rd_wf d" and "rd_insert r d = (q, d')"
  shows "(\<exists>i. q = Inr [Inr (inserted_row pg_ts r i)] \<and> rd_tbl d i = None \<and>
      rd_tbl d' = (rd_tbl d)(i \<mapsto> inserted_row pg_ts r i)) \<or>
    (rd_tbl d' = rd_tbl d \<and> (q = Inl bad_conn \<or>
      (q = Inl (PqError ''23505'' ''duplicate key value violates unique constraint'') \<and>
       (\<exists>i row. rd_tbl d i = Some row \<and> live_row row \<and> (rEmail row = rEmail r \<or>
          map byte_to_lower (rUsername row) = map byte_to_lower (rUsername r))))))"
proof (cases "list_ex (\<lambda>q. rEmail q = rEmail r \<or>
           map byte_to_lower (rUsername q) = map byte_to_lower (rUsername r)) (rd_live d)")
  case True
  then obtain row where "row \<in> set (rd_rows d)" "live_row row" "rEmail row = rEmail r \<or>
           map byte_to_lower (rUsername row) = map byte_to_lower (rUsername r)"
    by (auto simp: list_ex_iff rd_live_def)
  with True assms show ?thesis
    by (auto simp: rd_insert_def rd_tbl_iff)
next
  case no_dup: False
  let ?i = "''id-'' @ nat_to_dec (rd_next d)"
  let ?row = "inserted_row pg_ts r ?i"
  show ?thesis
  proof (cases "?i \<in> rId ` set (rd_rows d)")
    case True
    with no_dup assms(2) show ?thesis by (auto simp: rd_insert_def Let_def)
  next
    case False
    then have d': "q = Inr [Inr ?row]" "rd_rows d' = rd_rows d @ [?row]"
      using no_dup assms(2) by (auto simp: rd_insert_def Let_def)
    have "rd_wf d'"
      using assms(1) no_dup False d'(2)
      by (auto simp: rd_wf_def rd_live_def inserted_row_def live_row_def list_ex_iff)
    moreover have "rId ?row = ?i" by (simp add: inserted_row_def)
    ultimately have "rd_tbl d' = (rd_tbl d)(?i \<mapsto> ?row)"
      using assms(1) False d'(2)
      by (intro ext option_eqI) (auto simp: rd_tbl_iff image_iff)
    with d' False assms(1) show ?thesis
      by (intro disjI1 exI [of _ ?i]) (simp add: rd_tbl_none)
  qed
qed

lemma list_stmt_inj: "list_stmt a b c = list_stmt x y z \<longleftrightarrow> a = x \<and> b = y \<and> c = z"
  by (cases a; cases b; cases c; cases x; cases y; cases z) simp_all

lemma find_combo:
  "List.find (\<lambda>(a, b, c). list_stmt a b c = list_stmt x y z) list_combos = Some (x, y, z)"
  by (cases x; cases y; cases z) (simp_all add: list_combos_def)

lemma rd_page_page:
  assumes "rd_wf d"
  shows "page (rd_tbl d) P lim off (rd_page P lim off d)"
proof -
  let ?rs = "sort_key (\<lambda>r. - rCreatedAt r) (filter P (rd_rows d))"
  have "distinct (rd_rows d)" using assms by (simp add: rd_wf_def distinct_map)
  moreover have "sorted_wrt (\<lambda>a b. rCreatedAt b \<le> rCreatedAt a) ?rs"
    using sorted_sort_key [of "\<lambda>r. - rCreatedAt r" "filter P (rd_rows d)"]
    by (simp add: sorted_map)
  ultimately show ?thesis
    unfolding page_def rd_page_def
    by (intro exI [of _ ?rs]) (auto simp: rd_tbl_ran [OF assms])
qed

lemma rd_get_cases:
  assumes "rd_get st args d = (q, d')"
  shows "rd_tbl d' = rd_tbl d \<and>
    ((\<exists>err. q = Inl err \<and> errors_As_DomainError err = None \<and> \<not> errors_Is err ErrNoRows) \<or>
     (\<exists>x. args = [SqlString x] \<and> rd_wf d \<and> (
        (q = Inl (Sentinel ErrNoRows) \<and> (\<forall>r\<in>set (rd_rows d). live_row r \<longrightarrow>
          (if st = selectUserByEmail then rEmail r else rId r) \<noteq> x)) \<or>
        (\<exists>r. q = Inr r \<and> r \<in> set (rd_rows d) \<and> live_row r \<and>
          (if st = selectUserByEmail then rEmail r else rId r) = x))))"
  using assms
  by (auto simp: rd_get_def bad_conn_def errors_As_DomainError_def errors_Is_def find_None_iff
      dest: find_SomeD rd_down_wf split: if_splits list.splits sqlval.splits option.splits)

lemma foreign_simps [simp]:
  "errors_As_DomainError bad_conn = None" "errors_As_DomainError (PqError c m) = None"
  "errors_As_DomainError (Sentinel s) = None" "errors_As_PqError bad_conn = None"
  "errors_As_PqError (PqError c m) = Some (PqError c m)"
  by (simp_all add: bad_conn_def errors_As_DomainError_def errors_As_PqError_def)

lemma rd_named_query_insert:
  "rd_named_query insertUser r d =
     (if rd_down d then (Inl bad_conn, rd_tick d) else rd_insert r d)"
  by (simp add: rd_named_query_def)

lemma rd_named_query_active:
  "rd_named_query updateUserActive r d =
     (if rd_down d then (Inl bad_conn, rd_tick d)
      else (Inr [], rd_upd (rId r) (\<lambda>row. row\<lparr>rActive := rActive r, rUpdatedAt := Some (rd_now d)\<rparr>) d))"
  by (simp add: rd_named_query_def)

lemma rd_query_foreign:
  assumes "rd_named_query st r d = (q, d')"
  shows "(\<forall>err. q = Inl err \<longrightarrow> errors_As_DomainError err = None) \<and>
    (\<forall>err rs. q \<noteq> Inr (Inl err # rs))"
  using assms by (auto simp: rd_named_query_def rd_insert_def Let_def split: if_splits)

lemma rd_select_ok:
  assumes "rd_select (list_stmt nodel role act)
        ((if role then [SqlInt rl] else []) @ [SqlInt lim, SqlInt off]) d = (Inr pg, d')"
  shows "page (rd_tbl d)
    (\<lambda>r. (nodel \<longrightarrow> live_row r) \<and> (role \<longrightarrow> rRoleId r = rl) \<and> (act \<longrightarrow> rActive r)) lim off pg"
  using assms rd_page_page
  by (cases role; cases "rd_down d") (auto simp: rd_select_def find_combo dest!: rd_down_wf)

interpretation ref_table: users_table ref_sqlx rd_tbl pg_ts "\<lambda>i. i" "map byte_to_lower"
proof
  fix d i r j q
  assume *: "rd_tbl d i = Some r" "live_row r" "rd_tbl d j = Some q" "live_row q"
  show "i = j" if "rEmail r = rEmail q"
    using * that rd_live_unique rd_tbl_Some by metis
  show "i = j" if "map byte_to_lower (rUsername r) = map byte_to_lower (rUsername q)"
    using * that rd_live_unique rd_tbl_Some by metis
next
  fix st a d q d'
  assume "db_GetContext ref_sqlx st a d = (q, d')"
  then show "rd_tbl d' = rd_tbl d" using rd_get_cases by simp
next
  fix st a d err d'
  assume "db_GetContext ref_sqlx st a d = (Inl err, d')"
  then show "errors_As_DomainError err = None" using rd_get_cases by fastforce
next
  fix em d r d'
  assume "db_GetContext ref_sqlx selectUserByEmail [SqlString em] d = (Inr r, d')"
  then show "rd_tbl d (rId r) = Some r \<and> live_row r \<and> rEmail r = em"
    using rd_get_cases [of selectUserByEmail "[SqlString em]" d "Inr r" d']
    by (simp add: rd_tbl_iff)
next
  fix em d err d' i r
  assume "db_GetContext ref_sqlx selectUserByEmail [SqlString em] d = (Inl err, d')"
    "errors_Is err ErrNoRows" "rd_tbl d i = Some r" "live_row r"
  then show "rEmail r \<noteq> em"
    using rd_get_cases [of selectUserByEmail "[SqlString em]" d "Inl err" d']
    by (auto dest: rd_tbl_Some)
next
  fix i d r d'
  assume "db_GetContext ref_sqlx selectUserByID [SqlString i] d = (Inr r, d')"
  then show "rId r = i \<and> rd_tbl d i = Some r \<and> live_row r"
    using rd_get_cases [of selectUserByID "[SqlString i]" d "Inr r" d']
    by (simp add: rd_tbl_iff)
next
  fix i d err d'
  assume "db_GetContext ref_sqlx selectUserByID [SqlString i] d = (Inl err, d')"
    "errors_Is err ErrNoRows"
  then show "\<not> has_live (rd_tbl d) i"
    using rd_get_cases [of selectUserByID "[SqlString i]" d "Inl err" d']
    by (auto simp: has_live_def dest: rd_tbl_Some)
next
  fix r d rows d'
  assume "db_NamedQueryContext ref_sqlx insertUser r d = (Inr rows, d')"
  then show "\<exists>i. rd_tbl d i = None \<and> rd_tbl d' = (rd_tbl d)(i \<mapsto> inserted_row pg_ts r i) \<and>
        (rows = [Inr (inserted_row pg_ts r i)] \<or> rows = [] \<or> (\<exists>x. rows = [Inl x]))"
    using rd_insert_cases [of d r "Inr rows" d'] rd_down_wf
    by (auto simp: rd_named_query_insert split: if_splits)
next
  fix r d err d'
  assume "db_NamedQueryContext ref_sqlx insertUser r d = (Inl err, d')"
  then have "rd_tbl d' = rd_tbl d"
    using rd_insert_cases [of d r "Inl err" d'] rd_down_wf
    by (auto simp: rd_named_query_insert split: if_splits)
  then show "rd_tbl d' = rd_tbl d \<or>
      (\<exists>i. rd_tbl d i = None \<and> rd_tbl d' = (rd_tbl d)(i \<mapsto> inserted_row pg_ts r i))" ..
next
  fix r d err d' msg
  assume "db_NamedQueryContext ref_sqlx insertUser r d = (Inl err, d')"
    "errors_As_PqError err = Some (PqError ''23505'' msg)"
  then show "rd_tbl d' = rd_tbl d \<and> (\<exists>i q. rd_tbl d i = Some q \<and> live_row q \<and>
      (rEmail q = rEmail r \<or> map byte_to_lower (rUsername q) = map byte_to_lower (rUsername r)))"
    using rd_insert_cases [of d r "Inl err" d'] rd_down_wf
    by (auto simp: rd_named_query_insert split: if_splits)
next
  fix r d rows d'
  assume "db_NamedQueryContext ref_sqlx updateUserActive r d = (Inr rows, d')"
  then show "\<exists>now. rd_tbl d' = row_update (rId r)
        (\<lambda>row. row\<lparr>rActive := rActive r, rUpdatedAt := Some now\<rparr>) (rd_tbl d)"
    by (auto simp: rd_named_query_active rd_upd_effect rd_down_wf split: if_splits)
next
  fix r d n d'
  assume "db_NamedExecContext ref_sqlx updateUserPassword r d = (Inr (Inr n), d')"
  then show "rd_tbl d' = row_update (rId r) (password_row pg_ts r) (rd_tbl d) \<and>
      (n = 0 \<longleftrightarrow> \<not> has_live (rd_tbl d) (rId r))"
    by (auto simp: rd_named_exec_def rd_upd_effect rd_down_wf rd_has_live split: if_splits)
next
  fix r d q d'
  assume "db_NamedExecContext ref_sqlx updateUserPassword r d = (q, d')"
  then show "rd_tbl d' = rd_tbl d \<or> rd_tbl d' = row_update (rId r) (password_row pg_ts r) (rd_tbl d)"
    by (auto simp: rd_named_exec_def rd_upd_effect rd_down_wf split: if_splits)
next
  fix i d n d'
  assume "db_ExecContext ref_sqlx softDeleteUser [SqlString i] d = (Inr (Inr n), d')"
  then show "\<exists>now. rd_tbl d' = row_update i
        (\<lambda>row. row\<lparr>rDeletedAt := Some now, rUpdatedAt := Some now\<rparr>) (rd_tbl d) \<and>
      (n = 0 \<longleftrightarrow> \<not> has_live (rd_tbl d) i)"
    by (auto simp: rd_exec_def rd_upd_effect rd_down_wf rd_has_live split: if_splits)
next
  fix i d q d'
  assume "db_ExecContext ref_sqlx softDeleteUser [SqlString i] d = (q, d')"
  then show "rd_tbl d' = rd_tbl d \<or> (\<exists>now. rd_tbl d' = row_update i
        (\<lambda>row. row\<lparr>rDeletedAt := Some now, rUpdatedAt := Some now\<rparr>) (rd_tbl d))"
    by (auto simp: rd_exec_def rd_upd_effect rd_down_wf split: if_splits)
next
  fix st a d q d'
  assume "db_SelectContext ref_sqlx st a d = (q, d')"
  then show "rd_tbl d' = rd_tbl d"
    by (auto simp: rd_select_def split: if_splits option.splits prod.splits bool.splits
        list.splits sqlval.splits)
next
  fix nodel role act rl lim off d pg d'
  assume "db_SelectContext ref_sqlx (list_stmt nodel role act)
        ((if role then [SqlInt rl] else []) @ [SqlInt lim, SqlInt off]) d = (Inr pg, d')"
  then show "page (rd_tbl d)
      (\<lambda>r. (nodel \<longrightarrow> live_row r) \<and> (role \<longrightarrow> rRoleId r = rl) \<and> (act \<longrightarrow> rActive r)) lim off pg"
    unfolding ref_sqlx_sel by (rule rd_select_ok)
qed (auto simp: rd_named_query_active rd_named_exec_def rd_exec_def
    dest: rd_tbl_Some rd_query_foreign
    split: if_splits list.splits sqlval.splits)

section \<open>Properties of the repository\<close>

text \<open>C10: the PostgreSQL repository implements its interface: on every database in which the six
  fixed statements and the generated list statements behave as PostgreSQL documents them on the
  migrated schema, the operations satisfy the contract \<open>user_repository\<close> (soft-deleted rows are
  invisible, a duplicate live e-mail or name is a conflict and changes nothing, a missing row is
  reported as not found, a password update writes exactly the three columns, no error of the driver
  is passed off as one of the application).\<close>

theorem repository_refines_contract:
  assumes "users_table db tbl ts uid low"
  shows "user_repository (NewUserRepository db) (domain_view tbl) ts uid low"
  by (rule users_table.repo_contract [OF assms])

theorem repository_refines_contract_witness:
  "users_table ref_sqlx rd_tbl pg_ts (\<lambda>i. i) (map byte_to_lower) \<and>
   user_repository (NewUserRepository ref_sqlx) (domain_view rd_tbl) pg_ts (\<lambda>i. i) (map byte_to_lower)"
  using ref_table.users_table_axioms repository_refines_contract by blast

text \<open>A soft-deleted user is gone for every lookup: after a deletion that reported success, a
  lookup by the same identifier or by the deleted user's e-mail does not return a user.\<close>

theorem soft_delete_hides:
  assumes "users_table db tbl ts uid low" and "postgres_SoftDelete db i d = (None, d')"
  shows "\<not> is_Inr (fst (postgres_GetByID db i d')) \<and>
    (\<forall>u. domain_view tbl d (uid i) = Some u \<longrightarrow>
      \<not> is_Inr (fst (postgres_GetByEmail db (zero_User\<lparr>uEmail := uEmail u\<rparr>) d')))"
  using users_table.soft_delete_hidden [OF assms] by blast

definition ref_rows :: "Users list" where
  "ref_rows =
     [inserted_row pg_ts \<lparr>rId = [], rUsername = ''ann'', rEmail = ''ann@x.io'',
        rPassword = ref_hash ''Old_pw_1'' 10, rActive = False, rRoleId = 2, rCreatedAt = 0,
        rUpdatedAt = None, rDeletedAt = None, rPasswordChangedAt = None\<rparr> ''id-0'']"

definition ref_d0 :: ref_db where
  "ref_d0 = \<lparr>rd_rows = ref_rows, rd_next = 1, rd_now = 50000, rd_faults = []\<rparr>"

theorem soft_delete_hides_witness:
  "\<exists>d'. postgres_SoftDelete ref_sqlx ''id-0'' ref_d0 = (None, d') \<and>
     \<not> is_Inr (fst (postgres_GetByID ref_sqlx ''id-0'' d'))"
proof -
  have "\<exists>d'. postgres_SoftDelete ref_sqlx ''id-0'' ref_d0 = (None, d')"
    by (simp add: postgres_SoftDelete_def rd_exec_def ref_d0_def ref_rows_def rd_down_def rd_wf_def
        rd_live_def live_row_def inserted_row_def rd_matches_def rows_affected_def)
  then show ?thesis using soft_delete_hides [OF ref_table.users_table_axioms] by blast
qed

text \<open>A page of users never exceeds the hard limit of 200 rows or the requested size, holds only
  rows that pass the filter (deleted rows only on request), and is in descending order of
  creation, for every offset and limit the caller passes, negative ones included.\<close>

theorem list_page_bounded:
  assumes "users_table db tbl ts uid low" and "postgres_List db flt off lim d = (Inr us, d')"
  shows "int (length us) \<le> hardLimit \<and> (0 < lim \<longrightarrow> int (length us) \<le> lim) \<and>
    sorted_wrt (\<lambda>a b. uCreatedAt b \<le> uCreatedAt a) us \<and>
    (\<forall>u\<in>set us. u \<in> ran (domain_view tbl d) \<and> (fIncludeDeleted flt \<or> live u) \<and>
      (fRoleID flt = 0 \<or> uRoleID u = fRoleID flt) \<and> (fActiveOnly flt \<longrightarrow> uActive u))"
  by (rule users_table.list_spec [OF assms])

theorem list_page_bounded_witness:
  "\<exists>us d'. postgres_List ref_sqlx \<lparr>fRoleID = 2, fActiveOnly = False, fIncludeDeleted = False\<rparr> (-3) 0 ref_d0 =
      (Inr us, d') \<and> length us = 1 \<and> int (length us) \<le> hardLimit"
proof -
  let ?f = "\<lparr>fRoleID = 2, fActiveOnly = False, fIncludeDeleted = False\<rparr> :: UserListFilter"
  have run: "fst (postgres_List ref_sqlx ?f (-3) 0 ref_d0) = Inr (map ToV1Domain ref_rows)"
    using find_combo [of True True False]
    by (simp add: postgres_List_def list_query_stmt rd_select_def rd_page_def ref_d0_def
        ref_rows_def rd_down_def rd_wf_def rd_live_def live_row_def inserted_row_def list_rows_map
        hardLimit_def del: list_stmt.simps)
  then obtain d' where "postgres_List ref_sqlx ?f (-3) 0 ref_d0 = (Inr (map ToV1Domain ref_rows), d')"
    by (metis fst_conv surj_pair)
  from this list_page_bounded [OF ref_table.users_table_axioms this] show ?thesis
    by (auto simp: ref_rows_def)
qed

end
