(* ===== verification/Users_Contract.thy ===== *)
theory Users_Contract
  imports Usecase_Users Ref_Table
begin

text \<open>
  The contract \<open>users_service\<close> of the user use case and its proof for the model over every
  repository and cache that keep their own contracts. \<open>uv\<close> is the table, \<open>coh\<close> the coherence of
  the cache with it, \<open>used\<close> the identifiers handed out by the environment. The errors that a
  broken connection produces are part of the contract: an operation that reports one may or may
  not have been carried out.
\<close>

definition activated :: "time \<Rightarrow> User \<Rightarrow> User" where
  "activated now v = v\<lparr>uActive := True, uUpdatedAt := Some now\<rparr>"

definition rotated :: "(time \<Rightarrow> time) \<Rightarrow> User \<Rightarrow> User \<Rightarrow> User" where
  "rotated ts u v = password_user ts u v"

locale users_service =
  fixes U :: "('u, 'e) UsersUsecase" and E :: "'e goenv" and used :: "'e \<Rightarrow> string set"
    and uv :: "'u \<Rightarrow> (string \<rightharpoonup> User)" and coh :: "'u \<Rightarrow> bool"
    and ts :: "time \<Rightarrow> time" and uid :: "string \<Rightarrow> string"
  assumes key: "uv s i = Some u \<Longrightarrow> uID u = i \<and> uid i = i"
    and email_unique: "uv s i = Some u \<Longrightarrow> live u \<Longrightarrow> uv s j = Some v \<Longrightarrow> live v \<Longrightarrow>
      uEmail u = uEmail v \<Longrightarrow> i = j"
    and ByEmail_frame: "uc_GetByEmail U em s e = (r, s', e') \<Longrightarrow>
      uv s' = uv s \<and> (coh s \<longrightarrow> coh s') \<and> used e \<subseteq> used e'"
    and ByEmail_ok: "coh s \<Longrightarrow> uc_GetByEmail U em s e = (Inr v, s', e') \<Longrightarrow>
      uv s (uID v) = Some v \<and> live v \<and> uEmail v = NormalizeEmail E em"
    and ByEmail_err: "uc_GetByEmail U em s e = (Inl err, s', e') \<Longrightarrow>
      domain_type err = Some ErrTypeInternal \<or>
      (err = NotFound ''user not found'' \<and>
       (\<forall>i v. uv s i = Some v \<longrightarrow> live v \<longrightarrow> uEmail v \<noteq> NormalizeEmail E em))"
    and ByID_frame: "uc_GetByID U i s e = (r, s', e') \<Longrightarrow>
      uv s' = uv s \<and> (coh s \<longrightarrow> coh s') \<and> used e \<subseteq> used e'"
    and ByID_ok: "uc_GetByID U i s e = (Inr v, s', e') \<Longrightarrow>
      uID v = uid i \<and> uv s (uid i) = Some v \<and> live v"
    and ByID_err: "uc_GetByID U i s e = (Inl err, s', e') \<Longrightarrow>
      domain_type err = Some ErrTypeInternal \<or>
      (err = NotFound ''user not found'' \<and> \<not> live_user (uv s) (uid i))"
    and Store_frame: "uc_Store U u s e = (r, s', e') \<Longrightarrow>
      (coh s \<longrightarrow> coh s') \<and> used e \<subseteq> used e'"
    and Store_ok: "uc_Store U u s e = (Inr v, s', e') \<Longrightarrow>
      uv s (uID v) = None \<and> uv s' = (uv s)(uID v \<mapsto> v) \<and> live v \<and> \<not> uActive v \<and>
      uEmail v = NormalizeEmail E (uEmail u) \<and> uUsername v = strings_TrimSpace (uUsername u) \<and>
      uRoleID v = uRoleID u \<and> uPasswordChangedAt v = None"
    and Store_err: "uc_Store U u s e = (Inl err, s', e') \<Longrightarrow>
      uv s' = uv s \<or> (\<exists>v. uv s (uID v) = None \<and> uv s' = (uv s)(uID v \<mapsto> v) \<and> live v \<and>
        \<not> uActive v \<and> uEmail v = NormalizeEmail E (uEmail u) \<and> uRoleID v = uRoleID u)"
    and Activate_frame: "uc_Activate U i s e = (ro, s', e') \<Longrightarrow> used e \<subseteq> used e'"
    and Activate_ok: "uc_Activate U i s e = (None, s', e') \<Longrightarrow>
      \<exists>now. uv s' = user_update (uid i) (activated now) (uv s)"
    and Activate_err: "uc_Activate U i s e = (Some err, s', e') \<Longrightarrow>
      domain_type err = Some ErrTypeInternal \<and>
      (uv s' = uv s \<or> (\<exists>now. uv s' = user_update (uid i) (activated now) (uv s)))"
    and Update_frame: "uc_UpdatePassword U (Some u) s e = (ro, s', e') \<Longrightarrow> used e \<subseteq> used e'"
    and Update_ok: "uc_UpdatePassword U (Some u) s e = (None, s', e') \<Longrightarrow>
      live_user (uv s) (uid (uID u)) \<and> uv s' = user_update (uid (uID u)) (rotated ts u) (uv s)"
    and Update_coh: "uc_UpdatePassword U (Some u) s e = (None, s', e') \<Longrightarrow> coh s \<Longrightarrow>
      uv s (uid (uID u)) = Some w \<Longrightarrow> uEmail w = uEmail u \<Longrightarrow> coh s'"
    and Update_err: "uc_UpdatePassword U (Some u) s e = (Some err, s', e') \<Longrightarrow>
      domain_type err \<noteq> None \<and>
      (uv s' = uv s \<or> uv s' = user_update (uid (uID u)) (rotated ts u) (uv s))"

section \<open>Coherence of the model\<close>

text \<open>Every value the cache may still return is the live row of the user it is keyed by, and no
  stored e-mail is empty.\<close>

definition coherent ::
  "('d \<Rightarrow> (string \<rightharpoonup> User)) \<Rightarrow> ('k \<Rightarrow> (string \<rightharpoonup> anyval)) \<Rightarrow> ('d, 'k) users_state \<Rightarrow> bool" where
  "coherent uv cv s \<longleftrightarrow>
     (\<forall>k v. cv (us_cache s) k = Some v \<longrightarrow>
        (\<exists>u. v = AnyUser u \<and> k = user_cacheKey (uEmail u) \<and> uv (us_db s) (uID u) = Some u \<and> live u)) \<and>
     (\<forall>i u. uv (us_db s) i = Some u \<longrightarrow> uEmail u \<noteq> '''')"

lemma user_cacheKey_inject [simp]: "user_cacheKey a = user_cacheKey b \<longleftrightarrow> a = b"
  by (simp add: user_cacheKey_def)

lemma coherent_cached:
  "coherent uv cv s \<Longrightarrow> cv (us_cache s) (user_cacheKey em) = Some v \<Longrightarrow>
   \<exists>u. v = AnyUser u \<and> uEmail u = em \<and> uv (us_db s) (uID u) = Some u \<and> live u"
  by (fastforce simp: coherent_def)

lemma coherent_smaller:
  assumes "coherent uv cv s" and "cv (us_cache s') \<subseteq>\<^sub>m cv (us_cache s)" and "uv (us_db s') = uv (us_db s)"
  shows "coherent uv cv s'"
proof -
  have "cv (us_cache s) k = Some v" if "cv (us_cache s') k = Some v" for k v
    using that assms(2) by (metis domI map_le_def)
  with assms(1,3) show ?thesis unfolding coherent_def by metis
qed

text \<open>A write of the loaded row under its own key.\<close>

lemma coherent_load:
  assumes "coherent uv cv s" and "cv (us_cache s') \<subseteq>\<^sub>m (cv (us_cache s))(user_cacheKey (uEmail u) \<mapsto> AnyUser u)"
    and "uv (us_db s') = uv (us_db s)" and "uv (us_db s) (uID u) = Some u" and "live u"
  shows "coherent uv cv s'"
proof -
  have "cv (us_cache s) k = Some v \<or> (k = user_cacheKey (uEmail u) \<and> v = AnyUser u)"
    if "cv (us_cache s') k = Some v" for k v
    using that assms(2) by (metis domI fun_upd_apply map_le_def option.inject)
  with assms(1,3-5) show ?thesis unfolding coherent_def by metis
qed

text \<open>A change of one row that keeps its e-mail, when the key of that row is deleted.\<close>

lemma coherent_update:
  assumes coh: "coherent uv cv s"
    and upd: "uv (us_db s') = user_update i f (uv (us_db s))" and f: "\<And>v. uEmail (f v) = uEmail v"
    and w: "uv (us_db s) i = Some w"
    and del: "cv (us_cache s') \<subseteq>\<^sub>m (cv (us_cache s)) |` (- {user_cacheKey (uEmail w)})"
  shows "coherent uv cv s'"
proof -
  have keep: "uv (us_db s') j = uv (us_db s) j" if "j \<noteq> i" for j
    using that by (simp add: upd user_update_def split: option.splits)
  have emails: "uEmail u \<noteq> ''''" if "uv (us_db s') j = Some u" for j u
    using that coh by (cases "j = i")
      (auto simp: upd user_update_def f coherent_def split: option.splits if_splits)
  have "\<exists>u. v = AnyUser u \<and> k = user_cacheKey (uEmail u) \<and> uv (us_db s') (uID u) = Some u \<and> live u"
    if v: "cv (us_cache s') k = Some v" for k v
  proof -
    from v del have "((cv (us_cache s)) |` (- {user_cacheKey (uEmail w)})) k = Some v"
      by (metis domI map_le_def)
    then have "cv (us_cache s) k = Some v" and k: "k \<noteq> user_cacheKey (uEmail w)"
      by (auto simp: restrict_map_def split: if_splits)
    with coh obtain u where u: "v = AnyUser u" "k = user_cacheKey (uEmail u)"
      "uv (us_db s) (uID u) = Some u" "live u"
      unfolding coherent_def by blast
    have "uID u \<noteq> i" using u(2,3) k w by auto
    with u keep show ?thesis by auto
  qed
  with emails show ?thesis unfolding coherent_def by blast
qed

lemma user_update_dead:
  assumes "\<not> live_user (user_update i f m) i" and "\<And>v. live (f v) = live v"
  shows "user_update i f m = m"
proof (cases "m i")
  case (Some u)
  have "\<not> live u"
  proof
    assume "live u"
    with Some have "user_update i f m i = Some (f u)" by (simp add: user_update_def)
    with assms \<open>live u\<close> show False by (simp add: live_user_def)
  qed
  with Some show ?thesis by (simp add: user_update_def)
qed (simp add: user_update_def)

text \<open>A new row under a fresh key.\<close>

lemma coherent_insert:
  assumes "coherent uv cv s" and "uv (us_db s) i = None" and "uEmail u \<noteq> ''''"
    and "uv (us_db s') = (uv (us_db s))(i \<mapsto> u)" and "us_cache s' = us_cache s"
  shows "coherent uv cv s'"
proof -
  have "uv (us_db s') j = Some w" if "uv (us_db s) j = Some w" for j w
    using that assms(2,4) by (metis fun_upd_other option.distinct(1))
  moreover have "uEmail w \<noteq> ''''" if "uv (us_db s') j = Some w" for j w
    using that assms(1,3,4) by (auto simp: coherent_def split: if_splits)
  ultimately show ?thesis using assms(1,5) unfolding coherent_def by metis
qed

section \<open>The use case keeps its contract\<close>

locale users_parts =
  env: uuid_lib E used + user_repository R uv ts uid low + ristretto_cache L cv
  for E :: "'e goenv" and used :: "'e \<Rightarrow> string set" and R :: "'d UserRepository"
    and uv :: "'d \<Rightarrow> (string \<rightharpoonup> User)" and ts :: "time \<Rightarrow> time" and uid :: "string \<Rightarrow> string"
    and low :: "string \<Rightarrow> string" and L :: "'k RistrettoCache" and cv :: "'k \<Rightarrow> (string \<rightharpoonup> anyval)" +
  fixes UC :: "('d, 'k) users_usecase"
  assumes parts: "uu_repo UC = R" "uu_ristrettoCache UC = L"
begin

lemma NewUser_used: "NewUser E a b c r k e = (q, e') \<Longrightarrow> used e \<subseteq> used e'"
  by (auto simp: NewUser_def Let_def split: if_splits prod.splits sum.splits
      dest!: env.now_used env.generate_used)

lemma Observe_used [simp]: "used e \<subseteq> used (ObserveCacheOp E l op r e)"
  by (simp add: ObserveCacheOp_def env.counter_used)

lemma Observe_usedD [intro]: "x \<in> used e \<Longrightarrow> x \<in> used (ObserveCacheOp E l op r e)"
  using Observe_used by blast

lemma load_cases:
  assumes "users_load E UC em s e = (r, s', e')"
  shows "\<exists>q d. repo_GetByEmail R (zero_User\<lparr>uEmail := em\<rparr>) (us_db s) = (q, d) \<and> q = r \<and>
    us_db s' = d \<and> uv d = uv (us_db s) \<and> used e \<subseteq> used e' \<and>
    (case q of Inl _ \<Rightarrow> us_cache s' = us_cache s
     | Inr u \<Rightarrow> us_cache s' = local_Set L (user_cacheKey em) (AnyUser u) (us_cache s))"
  using assms GetByEmail_frame
  by (auto simp: users_load_def parts split: prod.splits sum.splits)

lemma load_coherent:
  assumes "users_load E UC em s e = (r, s', e')" and "coherent uv cv s"
  shows "coherent uv cv s'"
proof (cases r)
  case (Inl x)
  with load_cases [OF assms(1)] have "us_cache s' = us_cache s" "uv (us_db s') = uv (us_db s)" by auto
  with assms(2) show ?thesis by (metis coherent_smaller map_le_refl)
next
  case (Inr u)
  with load_cases [OF assms(1)] obtain d where
    get: "repo_GetByEmail R (zero_User\<lparr>uEmail := em\<rparr>) (us_db s) = (Inr u, d)"
    and s': "us_cache s' = local_Set L (user_cacheKey em) (AnyUser u) (us_cache s)"
      "uv (us_db s') = uv (us_db s)"
    by auto
  have u: "uv (us_db s) (uID u) = Some u" "live u" "uEmail u = em"
    using GetByEmail_ok [OF get] by auto
  show ?thesis
    by (rule coherent_load [OF assms(2) _ s'(2) u(1,2)]) (simp add: s'(1) u(3) local_set)
qed

lemma ByEmail_cases:
  assumes "users_GetByEmail E UC em s e = (r, s', e')"
  shows "\<exists>val c. local_Get L (user_cacheKey (NormalizeEmail E em)) (us_cache s) = (val, c) \<and>
    ((\<exists>u. val = Some (AnyUser u) \<and> r = Inr u \<and> s' = s\<lparr>us_cache := c\<rparr> \<and> used e \<subseteq> used e') \<or>
     (\<exists>q e1. users_load E UC (NormalizeEmail E em) (s\<lparr>us_cache := c\<rparr>) e1 = (q, s', e') \<and>
        used e \<subseteq> used e1 \<and>
        r = (case q of Inl x \<Rightarrow> Inl (mapRepoError x ''get user by email'') | Inr u \<Rightarrow> Inr u)))"
proof -
  obtain val c where get: "local_Get L (user_cacheKey (NormalizeEmail E em)) (us_cache s) = (val, c)"
    by fastforce
  show ?thesis
  proof (cases "\<exists>u. val = Some (AnyUser u)")
    case True
    with assms get show ?thesis
      by (auto simp: users_GetByEmail_def Let_def parts)
  next
    case False
    obtain e1 where e1: "used e \<subseteq> used e1"
      and eq: "users_GetByEmail E UC em s e =
        (case users_load E UC (NormalizeEmail E em) (s\<lparr>us_cache := c\<rparr>) e1 of
            (Inl sfErr, s, e) \<Rightarrow> (Inl (mapRepoError sfErr ''get user by email''), s, e)
          | (Inr v, s, e) \<Rightarrow> (Inr v, s, e))"
      using False get
      by (cases val; cases "the val") (auto simp: users_GetByEmail_def Let_def parts)
    obtain q s1 e2 where
      l: "users_load E UC (NormalizeEmail E em) (s\<lparr>us_cache := c\<rparr>) e1 = (q, s1, e2)"
      by (metis prod_cases3)
    with assms eq have "s1 = s'" and "e2 = e'" and
      "r = (case q of Inl x \<Rightarrow> Inl (mapRepoError x ''get user by email'') | Inr u \<Rightarrow> Inr u)"
      by (auto split: sum.splits)
    with l e1 get show ?thesis by blast
  qed
qed

lemma ByEmail_frame_model:
  assumes "users_GetByEmail E UC em s e = (r, s', e')"
  shows "uv (us_db s') = uv (us_db s) \<and> (coherent uv cv s \<longrightarrow> coherent uv cv s') \<and> used e \<subseteq> used e'"
proof -
  obtain val c where get: "local_Get L (user_cacheKey (NormalizeEmail E em)) (us_cache s) = (val, c)"
    and cases: "(\<exists>u. val = Some (AnyUser u) \<and> r = Inr u \<and> s' = s\<lparr>us_cache := c\<rparr> \<and> used e \<subseteq> used e') \<or>
     (\<exists>q e1. users_load E UC (NormalizeEmail E em) (s\<lparr>us_cache := c\<rparr>) e1 = (q, s', e') \<and> used e \<subseteq> used e1)"
    using ByEmail_cases [OF assms] by blast
  have c: "coherent uv cv s \<Longrightarrow> coherent uv cv (s\<lparr>us_cache := c\<rparr>)"
    by (erule coherent_smaller) (simp_all add: local_get [OF get])
  from cases show ?thesis
  proof (elim disjE exE conjE)
    fix q e1
    assume l: "users_load E UC (NormalizeEmail E em) (s\<lparr>us_cache := c\<rparr>) e1 = (q, s', e')"
      and "used e \<subseteq> used e1"
    with load_cases [OF l] load_coherent [OF l] c show ?thesis by auto
  qed (use c in simp)
qed

lemma ByEmail_ok_model:
  assumes "coherent uv cv s" and "users_GetByEmail E UC em s e = (Inr v, s', e')"
  shows "uv (us_db s) (uID v) = Some v \<and> live v \<and> uEmail v = NormalizeEmail E em"
proof -
  obtain val c where get: "local_Get L (user_cacheKey (NormalizeEmail E em)) (us_cache s) = (val, c)"
    and cases: "val = Some (AnyUser v) \<or>
     (\<exists>e1. users_load E UC (NormalizeEmail E em) (s\<lparr>us_cache := c\<rparr>) e1 = (Inr v, s', e'))"
    using ByEmail_cases [OF assms(2)] by (fastforce split: sum.splits)
  from cases show ?thesis
  proof (elim disjE exE)
    assume "val = Some (AnyUser v)"
    then show ?thesis
      using coherent_cached [OF assms(1) local_get_value] get by blast
  next
    fix e1 assume "users_load E UC (NormalizeEmail E em) (s\<lparr>us_cache := c\<rparr>) e1 = (Inr v, s', e')"
    then show ?thesis
      using load_cases GetByEmail_ok by fastforce
  qed
qed

lemma ByEmail_err_model:
  assumes "users_GetByEmail E UC em s e = (Inl err, s', e')"
  shows "domain_type err = Some ErrTypeInternal \<or>
      (err = NotFound ''user not found'' \<and>
       (\<forall>i v. uv (us_db s) i = Some v \<longrightarrow> live v \<longrightarrow> uEmail v \<noteq> NormalizeEmail E em))"
proof -
  obtain c x e1 where l: "users_load E UC (NormalizeEmail E em) (s\<lparr>us_cache := c\<rparr>) e1 = (Inl x, s', e')"
    and err: "err = mapRepoError x ''get user by email''"
    using ByEmail_cases [OF assms] by (fastforce split: sum.splits)
  from load_cases [OF l] obtain d where
    "repo_GetByEmail R (zero_User\<lparr>uEmail := NormalizeEmail E em\<rparr>) (us_db s) = (Inl x, d)" by auto
  from GetByEmail_err [OF this] show ?thesis
    by (auto simp: err mapRepoError_foreign)
qed

lemma ByID_cases:
  assumes "users_GetByID UC i s e = (r, s', e')"
  shows "e' = e \<and> us_cache s' = us_cache s \<and> uv (us_db s') = uv (us_db s) \<and>
    (\<exists>q. repo_GetByID R i (us_db s) = (q, us_db s') \<and>
      r = (case q of Inl x \<Rightarrow> Inl (mapRepoError x ''get user by id'') | Inr u \<Rightarrow> Inr u))"
  using assms GetByID_frame
  by (auto simp: users_GetByID_def parts split: prod.splits sum.splits)

lemma ByID_frame_model:
  "users_GetByID UC i s e = (r, s', e') \<Longrightarrow>
   uv (us_db s') = uv (us_db s) \<and> (coherent uv cv s \<longrightarrow> coherent uv cv s') \<and> used e \<subseteq> used e'"
  using ByID_cases [of i s e r s' e'] coherent_smaller [of uv cv s s'] by auto

lemma ByID_ok_model:
  "users_GetByID UC i s e = (Inr v, s', e') \<Longrightarrow>
   uID v = uid i \<and> uv (us_db s) (uid i) = Some v \<and> live v"
  using ByID_cases [of i s e "Inr v" s' e'] GetByID_ok by auto

lemma ByID_err_model:
  assumes "users_GetByID UC i s e = (Inl err, s', e')"
  shows "domain_type err = Some ErrTypeInternal \<or>
      (err = NotFound ''user not found'' \<and> \<not> live_user (uv (us_db s)) (uid i))"
proof -
  obtain x where "repo_GetByID R i (us_db s) = (Inl x, us_db s')"
    and err: "err = mapRepoError x ''get user by id''"
    using ByID_cases [OF assms] by auto
  from GetByID_err [OF this(1)] show ?thesis by (auto simp: err mapRepoError_foreign)
qed

lemma Store_cases:
  assumes "users_Store E UC u s e = (r, s', e')"
  obtains (build) err where "r = Inl err" "s' = s"
      "\<exists>x. NewUser E (uUsername u) (uEmail u) (uPassword u) (uRoleID u) (uu_BcryptCost UC) e = (Inl x, e')"
  | (repo) user q where
      "NewUser E (uUsername u) (uEmail u) (uPassword u) (uRoleID u) (uu_BcryptCost UC) e = (Inr user, e')"
      "repo_Store R user (us_db s) = (q, us_db s')" "us_cache s' = us_cache s"
      "r = (case q of Inl x \<Rightarrow> Inl (mapRepoError x ''store user'') | Inr v \<Rightarrow> Inr v)"
  using assms by (auto simp: users_Store_def parts split: prod.splits sum.splits)

lemma stored_user_sel [simp]:
  "uID (stored_user t u i) = i" "uEmail (stored_user t u i) = uEmail u"
  "uUsername (stored_user t u i) = uUsername u" "uRoleID (stored_user t u i) = uRoleID u"
  "uPassword (stored_user t u i) = uPassword u"
  "live (stored_user t u i)" "\<not> uActive (stored_user t u i)"
  "uPasswordChangedAt (stored_user t u i) = None"
  by (simp_all add: stored_user_def live_def)

lemma Store_frame_model:
  assumes "users_Store E UC u s e = (r, s', e')"
  shows "(coherent uv cv s \<longrightarrow> coherent uv cv s') \<and> used e \<subseteq> used e'"
  using assms
proof (cases rule: Store_cases)
  case build
  then show ?thesis by (auto dest: NewUser_used)
next
  case (repo user q)
  have "uEmail user \<noteq> ''''" using NewUser_cases [OF repo(1)] by auto
  moreover have "uv (us_db s') = uv (us_db s) \<or>
      (\<exists>i. uv (us_db s) i = None \<and> uv (us_db s') = (uv (us_db s))(i \<mapsto> stored_user ts user i))"
  proof (cases q)
    case (Inl x)
    with repo(2) show ?thesis using Store_err by blast
  next
    case (Inr v)
    with repo(2) show ?thesis using Store_ok by blast
  qed
  ultimately have "coherent uv cv s \<Longrightarrow> coherent uv cv s'"
    using coherent_smaller [of uv cv s s'] coherent_insert [of uv cv s _ "stored_user ts user _" s']
      repo(3) by auto
  then show ?thesis using NewUser_used [OF repo(1)] by blast
qed

lemma Store_ok_model:
  assumes "users_Store E UC u s e = (Inr v, s', e')"
  shows "uv (us_db s) (uID v) = None \<and> uv (us_db s') = (uv (us_db s))(uID v \<mapsto> v) \<and>
      live v \<and> \<not> uActive v \<and> uEmail v = NormalizeEmail E (uEmail u) \<and>
      uUsername v = strings_TrimSpace (uUsername u) \<and> uRoleID v = uRoleID u \<and>
      uPasswordChangedAt v = None"
  using assms
proof (cases rule: Store_cases)
  case (repo user q)
  then have q: "q = Inr v" by simp
  from NewUser_cases [OF repo(1)] have "uEmail user = NormalizeEmail E (uEmail u)"
    "uUsername user = strings_TrimSpace (uUsername u)" "uRoleID user = uRoleID u"
    by auto
  with Store_ok [OF repo(2) [unfolded q]] show ?thesis by auto
qed simp

lemma Store_err_model:
  assumes "users_Store E UC u s e = (Inl err, s', e')"
  shows "uv (us_db s') = uv (us_db s) \<or>
    (\<exists>v. uv (us_db s) (uID v) = None \<and> uv (us_db s') = (uv (us_db s))(uID v \<mapsto> v) \<and> live v \<and> \<not> uActive v \<and>
      uEmail v = NormalizeEmail E (uEmail u) \<and> uRoleID v = uRoleID u)"
  using assms
proof (cases rule: Store_cases)
  case (repo user q)
  then obtain x where q: "q = Inl x" by (auto split: sum.splits)
  from NewUser_cases [OF repo(1)] have user: "uEmail user = NormalizeEmail E (uEmail u)" "uRoleID user = uRoleID u"
    by auto
  from Store_err [OF repo(2) [unfolded q]] show ?thesis
  proof (elim disjE exE conjE)
    fix i assume "uv (us_db s) i = None" "uv (us_db s') = (uv (us_db s))(i \<mapsto> stored_user ts user i)"
    with user show ?thesis by (intro disjI2 exI [of _ "stored_user ts user i"]) simp
  qed simp
qed simp

lemma Activate_cases:
  assumes "users_Activate E UC i s e = (r, s', e')"
  obtains (failed) now d err where
      "repo_ChangeActiveUser R (activated now (zero_User\<lparr>uID := i\<rparr>)) (us_db s) = (Some err, d)"
      "us_db s' = d" "us_cache s' = us_cache s" "r = Some (InternalCause (errorf_w ''activate user'' err))"
      "used e \<subseteq> used e'"
  | (ok) now d q where
      "repo_ChangeActiveUser R (activated now (zero_User\<lparr>uID := i\<rparr>)) (us_db s) = (None, d)"
      "repo_GetByID R i d = (q, us_db s')" "r = None" "used e \<subseteq> used e'"
      "fst (Activate E (zero_User\<lparr>uID := i\<rparr>) e) = activated now (zero_User\<lparr>uID := i\<rparr>)"
      "us_cache s' = (case q of
          Inl x \<Rightarrow> us_cache s
        | Inr u \<Rightarrow> if uEmail u \<noteq> '''' then local_Del L [user_cacheKey (uEmail u)] (us_cache s)
                   else us_cache s)"
proof -
  obtain now e1 where now: "time_Now E e = (now, e1)" by fastforce
  obtain q d where q: "repo_ChangeActiveUser R (activated now (zero_User\<lparr>uID := i\<rparr>)) (us_db s) = (q, d)"
    by fastforce
  have act: "Activate E (zero_User\<lparr>uID := i\<rparr>) e = (activated now (zero_User\<lparr>uID := i\<rparr>), e1)"
    by (simp add: Activate_def activated_def now)
  have used: "used e \<subseteq> used e1" by (rule env.now_used [OF now])
  show ?thesis
  proof (cases q)
    case (Some err)
    with assms q used show ?thesis
      by (intro failed [of now err d]) (auto simp: users_Activate_def act parts)
  next
    case None
    obtain g d' where g: "repo_GetByID R i d = (g, d')" by fastforce
    with None assms q used show ?thesis
      by (intro ok [of now d g]) (cases g; auto simp: users_Activate_def act parts split: if_splits)+
  qed
qed

lemma activated_sel [simp]:
  "uID (activated now u) = uID u" "uEmail (activated now u) = uEmail u" "uActive (activated now u)"
  "live (activated now u) \<longleftrightarrow> live u" "uPassword (activated now u) = uPassword u"
  "uPasswordChangedAt (activated now u) = uPasswordChangedAt u"
  "uRoleID (activated now u) = uRoleID u" "uUsername (activated now u) = uUsername u"
  by (simp_all add: activated_def live_def)

lemma ChangeActive_effect:
  assumes "repo_ChangeActiveUser R (activated now (zero_User\<lparr>uID := i\<rparr>)) d = (r, d')"
  shows "(r \<noteq> None \<and> uv d' = uv d) \<or> (\<exists>t. uv d' = user_update (uid i) (activated t) (uv d))"
proof -
  have "activated t = (\<lambda>v. v\<lparr>uActive := True, uUpdatedAt := Some t\<rparr>)" for t
    by (simp add: activated_def fun_eq_iff)
  then show ?thesis
    using ChangeActive_ok [of "activated now (zero_User\<lparr>uID := i\<rparr>)" d d']
      ChangeActive_err [of "activated now (zero_User\<lparr>uID := i\<rparr>)" d _ d'] assms
    by (cases r) auto
qed

lemma Activate_ok_model:
  assumes "users_Activate E UC i s e = (None, s', e')"
  shows "\<exists>now. uv (us_db s') = user_update (uid i) (activated now) (uv (us_db s))"
  using assms
proof (cases rule: Activate_cases)
  case (ok now d q)
  then show ?thesis using ChangeActive_effect [OF ok(1)] GetByID_frame [OF ok(2)] by auto
qed simp

lemma Activate_err_model:
  assumes "users_Activate E UC i s e = (Some err, s', e')"
  shows "domain_type err = Some ErrTypeInternal \<and> (uv (us_db s') = uv (us_db s) \<or>
    (\<exists>now. uv (us_db s') = user_update (uid i) (activated now) (uv (us_db s))))"
  using assms
proof (cases rule: Activate_cases)
  case (failed now d x)
  then show ?thesis using ChangeActive_effect [OF failed(1)] by auto
qed simp

text \<open>After an activation whose second read reached the database the cache is coherent. When
  that read fails, the inactive copy may stay cached.\<close>

lemma Activate_coherent:
  assumes "users_Activate E UC i s e = (None, s', e')" and coh: "coherent uv cv s"
    and alive: "repo_ChangeActiveUser R (fst (Activate E (zero_User\<lparr>uID := i\<rparr>) e)) (us_db s) = (None, d1)"
      "is_Inr (fst (repo_GetByID R i d1)) \<or> fst (repo_GetByID R i d1) = Inl (NotFound ''user not found'')"
  shows "coherent uv cv s'"
  using assms(1)
proof (cases rule: Activate_cases)
  case (ok now d q)
  obtain t where upd: "uv d = user_update (uid i) (activated t) (uv (us_db s))"
    using ChangeActive_effect [OF ok(1)] by auto
  have same: "uv (us_db s') = uv d" using GetByID_frame [OF ok(2)] by simp
  have "d1 = d" using alive(1) ok(1,5) by simp
  with alive(2) ok(2) have "is_Inr q \<or> q = Inl (NotFound ''user not found'')" by simp
  then show ?thesis
  proof
    assume "is_Inr q"
    then obtain v where q: "q = Inr v" by (cases q) auto
    from GetByID_ok [OF ok(2) [unfolded q]] have v: "uv d (uid i) = Some v" "live v" by auto
    then obtain w where w: "uv (us_db s) (uid i) = Some w" "uEmail w = uEmail v"
      using upd by (auto simp: user_update_def split: option.splits if_splits)
    then have "uEmail v \<noteq> ''''" using coh by (auto simp: coherent_def)
    with ok(6) q have "us_cache s' = local_Del L [user_cacheKey (uEmail w)] (us_cache s)"
      by (simp add: w(2))
    then have del: "cv (us_cache s') \<subseteq>\<^sub>m (cv (us_cache s)) |` (- {user_cacheKey (uEmail w)})"
      using local_del [of "[user_cacheKey (uEmail w)]" "us_cache s"] by simp
    show ?thesis
      by (rule coherent_update [OF coh _ _ w(1) del, of "activated t"]) (simp_all add: same upd)
  next
    assume q: "q = Inl (NotFound ''user not found'')"
    from GetByID_err [OF ok(2) [unfolded q]] have "\<not> live_user (uv d) (uid i)"
      by (simp add: apperror_defs)
    then have "uv d = uv (us_db s)"
      unfolding upd by (rule user_update_dead) simp
    with ok(6) q same coh show ?thesis
      using coherent_smaller [of uv cv s s'] by simp
  qed
qed simp

lemma Update_cases:
  assumes "users_UpdatePassword UC (Some u) s e = (r, s', e')"
  obtains (noid) "r = Some (BadRequest ''user id required'')" "s' = s" "e' = e"
  | (failed) err where "repo_UpdatePassword R u (us_db s) = (Some err, us_db s')" "e' = e"
      "us_cache s' = us_cache s" "r = Some (mapRepoError err (''update password for '' @ uID u))"
  | (ok) d where "repo_UpdatePassword R u (us_db s) = (None, d)" "r = None" "e' = e"
      "uv (us_db s') = uv d"
      "uEmail u \<noteq> '''' \<Longrightarrow> us_cache s' = local_Del L [user_cacheKey (uEmail u)] (us_cache s)"
proof (cases "uID u = ''''")
  case True
  with assms show ?thesis by (intro noid) (auto simp: users_UpdatePassword_def)
next
  case False
  obtain q d where q: "repo_UpdatePassword R u (us_db s) = (q, d)" by fastforce
  show ?thesis
  proof (cases q)
    case (Some err)
    with assms False q show ?thesis
      by (intro failed [of err]) (auto simp: users_UpdatePassword_def parts)
  next
    case None
    obtain g d' where g: "repo_GetByID R (uID u) d = (g, d')" by fastforce
    with None assms False q GetByID_frame [OF g] show ?thesis
      by (intro ok [of d])
         (auto simp: users_UpdatePassword_def parts Let_def split: if_splits sum.splits)
  qed
qed

lemma rotated_sel [simp]:
  "uID (rotated t u v) = uID v" "uEmail (rotated t u v) = uEmail v"
  "uPassword (rotated t u v) = uPassword u" "uActive (rotated t u v) = uActive v"
  "uPasswordChangedAt (rotated t u v) = map_option t (uPasswordChangedAt u)"
  "live (rotated t u v) \<longleftrightarrow> live v" "uRoleID (rotated t u v) = uRoleID v"
  by (simp_all add: rotated_def password_user_def live_def)

lemma rotated_eta: "rotated t u = password_user t u"
  by (simp add: rotated_def fun_eq_iff)

lemma Update_ok_model:
  assumes "users_UpdatePassword UC (Some u) s e = (None, s', e')"
  shows "live_user (uv (us_db s)) (uid (uID u)) \<and>
    uv (us_db s') = user_update (uid (uID u)) (rotated ts u) (uv (us_db s))"
  using assms
proof (cases rule: Update_cases)
  case (ok d)
  then show ?thesis using UpdatePassword_ok [OF ok(1)] by (simp add: rotated_eta)
qed auto

lemma Update_coh_model:
  assumes "users_UpdatePassword UC (Some u) s e = (None, s', e')" and coh: "coherent uv cv s"
    and w: "uv (us_db s) (uid (uID u)) = Some w" "uEmail w = uEmail u"
  shows "coherent uv cv s'"
  using assms(1)
proof (cases rule: Update_cases)
  case (ok d)
  have upd: "uv (us_db s') = user_update (uid (uID u)) (rotated ts u) (uv (us_db s))"
    using Update_ok_model [OF assms(1)] by simp
  have "uEmail u \<noteq> ''''" using coh w by (auto simp: coherent_def)
  with ok(5) have del: "cv (us_cache s') \<subseteq>\<^sub>m (cv (us_cache s)) |` (- {user_cacheKey (uEmail w)})"
    using local_del [of "[user_cacheKey (uEmail u)]" "us_cache s"] by (simp add: w(2))
  show ?thesis
    by (rule coherent_update [OF coh upd _ w(1) del]) simp
qed auto

lemma mapRepoError_NotNone: "domain_type (mapRepoError x op) \<noteq> None"
  by (rule mapRepoError_typed)

lemma Update_err_model:
  assumes "users_UpdatePassword UC (Some u) s e = (Some err, s', e')"
  shows "domain_type err \<noteq> None \<and> (uv (us_db s') = uv (us_db s) \<or>
    uv (us_db s') = user_update (uid (uID u)) (rotated ts u) (uv (us_db s)))"
  using assms
proof (cases rule: Update_cases)
  case (failed x)
  then show ?thesis
    using UpdatePassword_err [OF failed(1)] mapRepoError_typed by (auto simp: rotated_eta)
qed auto

lemma Update_used:
  "users_UpdatePassword UC (Some u) s e = (r, s', e') \<Longrightarrow> used e \<subseteq> used e'"
  by (erule Update_cases) auto

lemma Activate_used:
  "users_Activate E UC i s e = (r, s', e') \<Longrightarrow> used e \<subseteq> used e'"
  by (erule Activate_cases) auto

end

text \<open>The use case over any repository and cache with their contracts keeps the contract.\<close>

definition users_dict ::
  "'e goenv \<Rightarrow> ('d, 'k) users_usecase \<Rightarrow> (('d, 'k) users_state, 'e) UsersUsecase" where
  "users_dict E uc =
     \<lparr>uc_Store = users_Store E uc, uc_GetByEmail = users_GetByEmail E uc,
      uc_GetByID = users_GetByID uc, uc_Activate = users_Activate E uc,
      uc_UpdatePassword = users_UpdatePassword uc\<rparr>"

lemma users_dict_sel [simp]:
  "uc_Store (users_dict E uc) = users_Store E uc"
  "uc_GetByEmail (users_dict E uc) = users_GetByEmail E uc"
  "uc_GetByID (users_dict E uc) = users_GetByID uc"
  "uc_Activate (users_dict E uc) = users_Activate E uc"
  "uc_UpdatePassword (users_dict E uc) = users_UpdatePassword uc"
  by (simp_all add: users_dict_def)

lemma users_NewUsecase_dict:
  "users_NewUsecase E repo cache cost =
   users_dict E \<lparr>uu_repo = repo, uu_ristrettoCache = cache, uu_BcryptCost = cost\<rparr>"
  by (simp add: users_NewUsecase_def users_dict_def Let_def)

sublocale users_parts \<subseteq> service: users_service "users_dict E UC" E used
  "\<lambda>s. uv (us_db s)" "coherent uv cv" ts uid
proof (unfold_locales, unfold users_dict_sel)
  show "uID u = i \<and> uid i = i" if "uv (us_db s) i = Some u"
    for s :: "('d, 'k) users_state" and i u
    using uv_key that by blast
  show "i = j" if "uv (us_db s) i = Some u" "live u" "uv (us_db s) j = Some v" "live v"
    "uEmail u = uEmail v" for s :: "('d, 'k) users_state" and i u j v
    using uv_email_unique that by blast
qed (erule (1) Update_coh_model ByEmail_ok_model
  | erule ByEmail_frame_model ByEmail_err_model ByID_frame_model
    ByID_ok_model ByID_err_model Store_frame_model Store_ok_model Store_err_model Activate_used Activate_ok_model
    Activate_err_model Update_used Update_ok_model Update_err_model
  | assumption)+

section \<open>The reference stack\<close>

definition ref_users_uc :: "(ref_db, ref_ristr) users_usecase" where
  "ref_users_uc =
     \<lparr>uu_repo = NewUserRepository ref_sqlx, uu_ristrettoCache = NewRistrettoCache ref_ristr_lib,
      uu_BcryptCost = 10\<rparr>"

lemma ref_users_uc_sel [simp]:
  "uu_repo ref_users_uc = NewUserRepository ref_sqlx"
  "uu_ristrettoCache ref_users_uc = NewRistrettoCache ref_ristr_lib"
  "uu_BcryptCost ref_users_uc = 10"
  by (simp_all add: ref_users_uc_def)

interpretation ref_users: users_parts ref_env ref_used "NewUserRepository ref_sqlx"
  "domain_view rd_tbl" pg_ts "\<lambda>i. i" "map byte_to_lower" "NewRistrettoCache ref_ristr_lib" rk_map
  ref_users_uc
  by unfold_locales simp_all

section \<open>Properties\<close>

context users_parts
begin

lemma users_contract:
  "users_service (users_dict E UC) E used (\<lambda>s. uv (us_db s)) (coherent uv cv) ts uid"
  by (rule service.users_service_axioms)

end

text \<open>C11: the user use case keeps its contract over every repository and cache that keep theirs: its
  reads return live rows of the table under the normalised address (cache hits included), coherence
  of the cache survives every read, every registration and every successful password update, and
  database failures surface as internal errors, never as missing users.\<close>

theorem users_usecase_refines_contract:
  assumes "users_parts E used R uv ts uid low L cv UC"
  shows "users_service (users_dict E UC) E used (\<lambda>s. uv (us_db s)) (coherent uv cv) ts uid"
  by (rule users_parts.users_contract [OF assms])

theorem users_usecase_refines_contract_witness:
  "users_service (users_dict ref_env ref_users_uc) ref_env ref_used
     (\<lambda>s. domain_view rd_tbl (us_db s)) (coherent (domain_view rd_tbl) rk_map) pg_ts (\<lambda>i. i)"
  using users_usecase_refines_contract [OF ref_users.users_parts_axioms] .

text \<open>After an activation that reported success and whose second read reached the database, the
  cache is coherent: a later login cannot see the inactive copy that the one-time-code flow put
  there.\<close>

lemma activate_keeps_coherence:
  assumes "users_parts E used R uv ts uid low L cv UC"
    and "users_Activate E UC i s e = (None, s', e')" and "coherent uv cv s"
    and "repo_ChangeActiveUser R (fst (Activate E (zero_User\<lparr>uID := i\<rparr>) e)) (us_db s) = (None, d1)"
    and "is_Inr (fst (repo_GetByID R i d1)) \<or> fst (repo_GetByID R i d1) = Inl (NotFound ''user not found'')"
  shows "coherent uv cv s'"
  by (rule users_parts.Activate_coherent [OF assms])

definition ref_ann :: User where
  "ref_ann = ToV1Domain (hd ref_rows)"

text \<open>A state in which the cache holds the row of an inactive user, and the second statement on the
  database will or will not fail.\<close>

definition ref_us :: "bool list \<Rightarrow> (ref_db, ref_ristr) users_state" where
  "ref_us faults =
     \<lparr>us_db = ref_d0\<lparr>rd_faults := faults\<rparr>,
      us_cache = \<lparr>rk_map = [user_cacheKey ''ann@x.io'' \<mapsto> AnyUser ref_ann], rk_drop = False\<rparr>\<rparr>"

lemma ref_ann_sel [simp]:
  "uID ref_ann = ''id-0''" "uEmail ref_ann = ''ann@x.io''" "\<not> uActive ref_ann" "live ref_ann"
  by (simp_all add: ref_ann_def ref_rows_def inserted_row_def live_row_def)

lemma ref_us_view: "domain_view rd_tbl (us_db (ref_us fs)) = [''id-0'' \<mapsto> ref_ann]"
  by (rule ext) (simp add: ref_us_def domain_view_def rd_tbl_def rd_wf_def rd_live_def ref_d0_def
      ref_rows_def ref_ann_def inserted_row_def live_row_def)

lemma ref_us_coherent: "coherent (domain_view rd_tbl) rk_map (ref_us fs)"
proof -
  have "rk_map (us_cache (ref_us fs)) = [user_cacheKey ''ann@x.io'' \<mapsto> AnyUser ref_ann]"
    by (simp add: ref_us_def)
  then show ?thesis
    by (auto simp: coherent_def ref_us_view split: if_splits intro!: exI [of _ ref_ann])
qed

lemmas ref_run_defs =
  postgres_ChangeActiveUser_def postgres_GetByID_def postgres_GetByEmail_def Let_def
  rd_named_query_active rd_get_def rd_upd_def rd_tick_def rd_down_def rd_wf_def rd_live_def
  ref_d0_def ref_rows_def inserted_row_def live_row_def

text \<open>When the read that follows the update fails, the activation still reports success and the
  cache keeps the inactive copy: the next lookup by e-mail returns a user whose row is active as an
  inactive one.\<close>

theorem activate_may_leave_stale_copy:
  "\<exists>s' e' s'' e''. users_Activate ref_env ref_users_uc ''id-0'' (ref_us [False, True]) ref_e0 = (None, s', e') \<and>
     (\<exists>u. domain_view rd_tbl (us_db s') ''id-0'' = Some u \<and> uActive u) \<and>
     users_GetByEmail ref_env ref_users_uc ''ann@x.io'' s' e' = (Inr ref_ann, s'', e'') \<and> \<not> uActive ref_ann"
proof -
  have n: "NormalizeEmail ref_env ''ann@x.io'' = ''ann@x.io''" by code_simp
  show ?thesis
    by (simp add: users_Activate_def users_GetByEmail_def ref_run_defs ref_us_def Activate_def
        zero_User_def n ristrettoCache_Get_def domain_view_def rd_tbl_def)
qed

end
