(* ===== verification/Auth_Sessions.thy ===== *)
theory Auth_Sessions
  imports Auth_Order Users_Contract
begin

text \<open>
  Sessions. The locale \<open>auth_flows\<close> is the authentication use case over any user service, token
  service and Redis that keep their contracts. The preorder \<open>keeps\<close> says that the identifiers of
  revoked refresh tokens stay revoked; it meets the laws of \<open>auth_order\<close>, so every flow respects it,
  whatever fails on the way, and it holds along every sequence of requests. From it: once a refresh token was rotated or logged out, it is
  refused for ever.
\<close>

definition keeps ::
  "('r \<Rightarrow> keyspace) \<Rightarrow> ('e \<Rightarrow> string set) \<Rightarrow> ('u, 'r, 'm, 'e) world \<Rightarrow> ('u, 'r, 'm, 'e) world \<Rightarrow> bool" where
  "keeps rv used w w' \<longleftrightarrow>
     used (w_env w) \<subseteq> used (w_env w') \<and>
     (\<forall>i\<in>used (w_env w). rv (w_redis w) (RefreshKey i) = None \<longrightarrow> rv (w_redis w') (RefreshKey i) = None)"

locale auth_flows =
  red: redis_cache "au_redis UC" rv dttl +
  usr: users_service "au_users UC" E used uv coh ts uid +
  tok: jwt_service "au_jwt UC" used +
  env: uuid_lib E used
  for UC :: "('u, 'r, 'm, 'e) auth_usecase" and rv :: "'r \<Rightarrow> keyspace" and dttl :: duration
    and E :: "'e goenv" and used :: "'e \<Rightarrow> string set" and uv :: "'u \<Rightarrow> (string \<rightharpoonup> User)"
    and coh :: "'u \<Rightarrow> bool" and ts :: "time \<Rightarrow> time" and uid :: "string \<Rightarrow> string"
begin

abbreviation kps :: "('u, 'r, 'm, 'e) world \<Rightarrow> ('u, 'r, 'm, 'e) world \<Rightarrow> bool" where
  "kps \<equiv> keeps rv used"

lemma keeps_refl: "kps w w"
  by (simp add: keeps_def)

lemma keeps_trans: "kps w w1 \<Longrightarrow> kps w1 w2 \<Longrightarrow> kps w w2"
  unfolding keeps_def by (meson subset_iff)

section \<open>One call\<close>

lemma k_redis_gone:
  assumes "\<And>x r k'. f (w_redis w) = (x, r) \<Longrightarrow> rv (w_redis w) k' = None \<Longrightarrow> rv r k' = None"
  shows "flow kps w (on_redis f w)"
  using assms by (fastforce simp: on_redis_def keeps_def split: prod.splits)

lemma k_redis_other:
  assumes "\<And>x r. f (w_redis w) = (x, r) \<Longrightarrow> only {k} (rv (w_redis w)) (rv r)" and "\<And>i. k \<noteq> RefreshKey i"
  shows "flow kps w (on_redis f w)"
proof -
  obtain x r where f: "f (w_redis w) = (x, r)" by fastforce
  have "rv r (RefreshKey i) = None" if "rv (w_redis w) (RefreshKey i) = None" for i
    using only_None [OF assms(1) [OF f] _ that] assms(2) [of i] by auto
  with f show ?thesis by (auto simp: on_redis_def keeps_def)
qed

lemma k_users:
  assumes "\<And>x u e. f (w_users w) (w_env w) = (x, u, e) \<Longrightarrow> used (w_env w) \<subseteq> used e"
  shows "flow kps w (on_users f w)"
  using assms by (fastforce simp: on_users_def keeps_def split: prod.splits)

lemma remember_effect:
  assumes "rememberRefresh E UC pair w = (r, w')"
  shows "only {RefreshKey (RefreshJTI pair)} (rv (w_redis w)) (rv (w_redis w')) \<and>
    used (w_env w) \<subseteq> used (w_env w') \<and> w_users w' = w_users w \<and> w_mail w' = w_mail w"
proof -
  obtain ttl e1 where u: "time_Until E (RefreshExpiresAt pair) (w_env w) = (ttl, e1)" by fastforce
  have e1: "used (w_env w) \<subseteq> used e1"
    using u by (auto simp: time_Until_def split: prod.splits dest!: env.now_used)
  show ?thesis
  proof (cases "ttl \<le> 0")
    case True
    with assms u e1 show ?thesis by (auto simp: rememberRefresh_def on_env_def)
  next
    case False
    let ?k = "RefreshKey (RefreshJTI pair)"
    obtain q r1 where s: "cache_Set (au_redis UC) ?k (RefreshJTI pair) (w_redis w) = (q, r1)" by fastforce
    obtain x r2 where ex: "cache_Expire (au_redis UC) ?k ttl r1 = (x, r2)" by fastforce
    have "w_redis w' = r1 \<or> w_redis w' = r2" and "w_env w' = e1" "w_users w' = w_users w" "w_mail w' = w_mail w"
      using assms False u s ex
      by (cases q; auto simp: rememberRefresh_def on_env_def on_redis_def)+
    with red.Set_only [OF s] red.Expire_only [OF ex] e1 show ?thesis
      by (auto intro: only_trans_same)
  qed
qed

lemma mint_effect:
  assumes "mint_session E UC user w = (r, w')"
  shows "\<exists>jti. jti \<notin> used (w_env w) \<and> only {RefreshKey jti} (rv (w_redis w)) (rv (w_redis w')) \<and>
      used (w_env w) \<subseteq> used (w_env w') \<and> w_users w' = w_users w \<and> w_mail w' = w_mail w \<and>
      (\<forall>p. r = Inr p \<longrightarrow> RefreshJTI p = jti \<and>
        (\<exists>e e'. svc_GenerateTokenPair (au_jwt UC) (uID user) (IsAdmin user) (uEmail user) e = (Inr p, e')))"
    (is "\<exists>jti. ?P jti")
proof -
  obtain q e1 where g: "svc_GenerateTokenPair (au_jwt UC) (uID user) (IsAdmin user) (uEmail user) (w_env w) = (q, e1)"
    by fastforce
  note e1 = tok.pair_used [OF g]
  show ?thesis
  proof (cases q)
    case (Inl err)
    then have "w' = w\<lparr>w_env := e1\<rparr>" and "\<exists>x. r = Inl x"
      using assms g by (auto simp: mint_session_def on_env_def)
    moreover obtain jti where "jti \<notin> used (w_env w)"
    proof -
      obtain i e2 where "uuid_NewString E (w_env w) = (i, e2)" by fastforce
      with env.uuid_fresh that show ?thesis by blast
    qed
    ultimately show ?thesis using e1 by auto
  next
    case (Inr p)
    obtain x w2 where rem: "rememberRefresh E UC p (w\<lparr>w_env := e1\<rparr>) = (x, w2)" by fastforce
    then have "w' = w2" and "\<forall>p'. r = Inr p' \<longrightarrow> p' = p"
      using assms g Inr by (auto simp: mint_session_def on_env_def split: option.splits)
    with remember_effect [OF rem] tok.pair_fresh [OF g [unfolded Inr]] g Inr e1
    show ?thesis by (intro exI [of _ "RefreshJTI p"]) auto
  qed
qed

lemma k_mint: "flow kps w (mint_session E UC user w)"
proof -
  obtain r w2 where m: "mint_session E UC user w = (r, w2)" by fastforce
  from mint_effect [OF m] obtain jti where jti: "jti \<notin> used (w_env w)"
    and o: "only {RefreshKey jti} (rv (w_redis w)) (rv (w_redis w2))"
    and u: "used (w_env w) \<subseteq> used (w_env w2)" by blast
  have "rv (w_redis w2) (RefreshKey i) = None"
    if "i \<in> used (w_env w)" "rv (w_redis w) (RefreshKey i) = None" for i
    using only_None [OF o, of "RefreshKey i"] jti that by auto
  with u m show ?thesis by (auto simp: keeps_def)
qed

end

abbreviation grows :: "('e \<Rightarrow> string set) \<Rightarrow> 'e \<Rightarrow> 'e \<Rightarrow> bool" where
  "grows used e e' \<equiv> used e \<subseteq> used e'"

sublocale auth_flows \<subseteq> k: auth_order kps "grows used" E UC "\<lambda>_. True" "\<lambda>_. True"
proof
  fix w :: "('u, 'r, 'm, 'e) world" and k v t i em u and f :: "'m \<Rightarrow> goerr option \<times> 'm"
  show "flow kps w (on_redis (cache_Get (au_redis UC) k) w)" by (rule k_redis_gone) (rule red.Get_stays_gone)
  show "flow kps w (on_redis (cache_Del (au_redis UC) k) w)" by (rule k_redis_gone) (rule red.Del_stays_gone)
  show "flow kps w (on_redis (cache_Expire (au_redis UC) k t) w)" by (rule k_redis_gone) (rule red.Expire_stays_gone)
  show "flow kps w (on_redis (cache_Set (au_redis UC) k v) w)" if "\<And>i. k \<noteq> RefreshKey i"
    using that by (intro k_redis_other [of _ w k] red.Set_only)
  show "flow kps w (on_redis (cache_Incr (au_redis UC) k) w)" if "\<And>i. k \<noteq> RefreshKey i"
    using that by (intro k_redis_other [of _ w k] red.Incr_only)
  show "flow kps w (on_mail f w)" by (auto simp: on_mail_def keeps_def split: prod.splits)
  show "flow kps w (on_users (uc_GetByEmail (au_users UC) em) w)" by (rule k_users) (use usr.ByEmail_frame in blast)
  show "flow kps w (on_users (uc_GetByID (au_users UC) i) w)" by (rule k_users) (use usr.ByID_frame in blast)
  show "flow kps w (on_users (uc_Store (au_users UC) u) w)" by (rule k_users) (use usr.Store_frame in blast)
  show "flow kps w (on_users (uc_Activate (au_users UC) i) w)" by (rule k_users) (use usr.Activate_frame in blast)
  show "flow kps w (on_users (uc_UpdatePassword (au_users UC) (Some u)) w)" by (rule k_users) (use usr.Update_frame in blast)
  show "flow kps w (mint_session E UC u w)" by (rule k_mint)
qed (use env.now_used env.uuid_fresh env.generate_used env.rand_used tok.access_used tok.refresh_used
  in \<open>auto simp: keeps_def intro: env.counter_used [THEN subsetD] env.histogram_used [THEN subsetD]\<close>)

section \<open>Requests in sequence\<close>

text \<open>One request of any kind, with any arguments, served to completion.\<close>

inductive auth_request ::
  "'e goenv \<Rightarrow> ('u, 'r, 'm, 'e) auth_usecase \<Rightarrow> ('u, 'r, 'm, 'e) world \<Rightarrow> ('u, 'r, 'm, 'e) world \<Rightarrow> bool"
  for E :: "'e goenv" and UC :: "('u, 'r, 'm, 'e) auth_usecase" where
  req_Register: "Register UC u w = (r, w') \<Longrightarrow> auth_request E UC w w'"
| req_Login: "Login E UC em pw w = (r2, w') \<Longrightarrow> auth_request E UC w w'"
| req_SendOTP: "SendOTP E UC em w = Some (ro, w') \<Longrightarrow> auth_request E UC w w'"
| req_VerifyOTP: "VerifyOTP E UC em code w = (ro, w') \<Longrightarrow> auth_request E UC w w'"
| req_Refresh: "Refresh E UC tok w = (r2, w') \<Longrightarrow> auth_request E UC w w'"
| req_Logout: "Logout UC tok w = (ro, w') \<Longrightarrow> auth_request E UC w w'"
| req_ChangePassword: "auth_ChangePassword E UC i cur new w = (ro, w') \<Longrightarrow> auth_request E UC w w'"
| req_ForgotPassword: "ForgotPassword E UC em w = (ro, w') \<Longrightarrow> auth_request E UC w w'"
| req_ResetPassword: "ResetPassword E UC tok new w = (ro, w') \<Longrightarrow> auth_request E UC w w'"

inductive_cases auth_requestE: "auth_request E UC w w'"

abbreviation auth_history ::
  "'e goenv \<Rightarrow> ('u, 'r, 'm, 'e) auth_usecase \<Rightarrow> ('u, 'r, 'm, 'e) world \<Rightarrow> ('u, 'r, 'm, 'e) world \<Rightarrow> bool" where
  "auth_history E UC \<equiv> (auth_request E UC)\<^sup>*\<^sup>*"

context auth_flows
begin

lemma request_keeps: "auth_request E UC w w' \<Longrightarrow> kps w w'"
  by (erule auth_requestE)
     (blast intro: k.SendOTP_K flowD k.Register_K k.Login_K k.VerifyOTP_K k.Refresh_K k.Logout_K k.ChangePassword_K
       k.ForgotPassword_K k.ResetPassword_K)+

lemma history_keeps: "auth_history E UC w w' \<Longrightarrow> kps w w'"
  by (induction rule: rtranclp_induct) (blast intro: keeps_refl keeps_trans request_keeps)+

text \<open>A refresh token whose identifier is not in Redis is refused.\<close>

lemma Refresh_gone:
  assumes "svc_ParseRefreshToken (au_jwt UC) t e0 = (Inr c, e1)"
    and "rv (w_redis w) (RefreshKey (cID c)) = None"
  shows "\<exists>m. fst (Refresh E UC t w) = Inl (Unauthorized m)"
proof -
  obtain q e2 where p: "svc_ParseRefreshToken (au_jwt UC) t (w_env w) = (q, e2)" by fastforce
  show ?thesis
  proof (cases q)
    case (Inl err)
    with p show ?thesis by (auto simp: Refresh_def on_env_def)
  next
    case (Inr c')
    with p assms(1) have "c' = c" using tok.refresh_det by blast
    moreover obtain x r where "cache_Get (au_redis UC) (RefreshKey (cID c)) (w_redis w) = (Inl x, r)"
      using red.Get_absent [OF assms(2)] by blast
    ultimately show ?thesis using p Inr by (auto simp: Refresh_def on_env_def on_redis_def)
  qed
qed

lemma gone_for_ever:
  assumes "svc_ParseRefreshToken (au_jwt UC) t e0 = (Inr c, e1)" and "cID c \<in> used (w_env w)"
    and "rv (w_redis w) (RefreshKey (cID c)) = None" and "auth_history E UC w w'"
  shows "\<exists>x. fst (Refresh E UC t w') = Inl x \<and> domain_type x = Some ErrTypeUnauthorized"
proof -
  have "rv (w_redis w') (RefreshKey (cID c)) = None"
    using history_keeps [OF assms(4)] assms(2,3) by (auto simp: keeps_def)
  from Refresh_gone [OF assms(1) this] show ?thesis by auto
qed

lemma Logout_None:
  assumes "Logout UC t w = (None, w')"
  shows "\<exists>c e1. svc_ParseRefreshToken (au_jwt UC) t (w_env w) = (Inr c, e1) \<and> w_env w' = e1 \<and>
    rv (w_redis w') (RefreshKey (cID c)) = None"
  using assms red.Del_gone
  by (auto simp: Logout_def on_env_def on_redis_def split: prod.splits sum.splits option.splits)

lemma Logout_revokes:
  assumes "Logout UC t w = (None, w1)" and "auth_history E UC w1 w2"
    and "\<And>c e. svc_ParseRefreshToken (au_jwt UC) t (w_env w) = (Inr c, e) \<Longrightarrow> cID c \<in> used (w_env w)"
  shows "\<exists>x. fst (Refresh E UC t w2) = Inl x \<and> domain_type x = Some ErrTypeUnauthorized"
proof -
  obtain c e1 where c: "svc_ParseRefreshToken (au_jwt UC) t (w_env w) = (Inr c, e1)" "w_env w1 = e1"
    "rv (w_redis w1) (RefreshKey (cID c)) = None"
    using Logout_None [OF assms(1)] by blast
  have "cID c \<in> used (w_env w1)" using assms(3) [OF c(1)] tok.refresh_used [OF c(1)] c(2) by blast
  from gone_for_ever [OF c(1) this c(3) assms(2)] show ?thesis .
qed

end

end
