(* ===== verification/Auth_Stack.thy ===== *)
theory Auth_Stack
  imports Auth_Sessions
begin

text \<open>
  The authentication use case over the reference parts: the models of the program's own components
  (user use case, token service, Redis adapter) on the reference database, cache, token package,
  Redis server and environment, with a mailer that records what it was asked to send. It satisfies
  \<open>auth_flows\<close>, so the properties of the flows apply to it; the evaluated runs use it.
\<close>

record ref_mail =
  rm_sent :: "(string \<times> string) list"
  rm_full :: bool

definition rm_send :: "string \<Rightarrow> string \<Rightarrow> ref_mail \<Rightarrow> goerr option \<times> ref_mail" where
  "rm_send x receiver m =
     (if rm_full m then (Some (ErrorString ''mailer queue is full''), m)
      else (None, m\<lparr>rm_sent := (x, receiver) # rm_sent m\<rparr>))"

definition ref_cfg :: Config where
  "ref_cfg =
     \<lparr>OTPMaxAttempts = 5, OTPTTL = 5 * Minute, PasswordResetTTL = 30 * Minute, BcryptCost = 10,
      LoginMaxAttempts = 10, LoginLockoutTTL = 15 * Minute, ForgotMaxAttempts = 3,
      ForgotLockoutTTL = 15 * Minute\<rparr>"

type_synonym ref_uc_state = "(ref_db, ref_ristr) users_state"

definition ref_uc :: "(ref_uc_state, ref_redis, ref_mail, ref_world) auth_usecase" where
  "ref_uc =
     \<lparr>au_users = users_dict ref_env ref_users_uc, au_jwt = jwt_dict ref_env ref_jwtlib ref_jwt,
      au_mailer = \<lparr>mail_SendOTP = rm_send, mail_SendPasswordReset = rm_send\<rparr>,
      au_redis = NewRedisCache ref_client 5, au_cfg = ref_cfg\<rparr>"

lemma ref_uc_sel [simp]:
  "au_users ref_uc = users_dict ref_env ref_users_uc"
  "au_jwt ref_uc = jwt_dict ref_env ref_jwtlib ref_jwt"
  "au_mailer ref_uc = \<lparr>mail_SendOTP = rm_send, mail_SendPasswordReset = rm_send\<rparr>"
  "au_redis ref_uc = NewRedisCache ref_client 5" "au_cfg ref_uc = ref_cfg"
  by (simp_all add: ref_uc_def)

abbreviation ref_dttl :: duration where
  "ref_dttl \<equiv> wrap64 (5 * Minute)"

abbreviation ref_uv :: "ref_uc_state \<Rightarrow> (string \<rightharpoonup> User)" where
  "ref_uv \<equiv> \<lambda>s. domain_view rd_tbl (us_db s)"

abbreviation ref_coh :: "ref_uc_state \<Rightarrow> bool" where
  "ref_coh \<equiv> coherent (domain_view rd_tbl) rk_map"

interpretation ref_auth: auth_flows ref_uc rr_keys ref_dttl ref_env ref_used ref_uv ref_coh pg_ts "\<lambda>i. i"
proof (unfold auth_flows_def ref_uc_sel, intro conjI)
  show "redis_cache (NewRedisCache ref_client 5) rr_keys ref_dttl"
    by (rule ref_redis.cache.redis_cache_axioms)
  show "users_service (users_dict ref_env ref_users_uc) ref_env ref_used ref_uv ref_coh pg_ts (\<lambda>i. i)"
    by (rule ref_users.service.users_service_axioms)
  show "jwt_service (jwt_dict ref_env ref_jwtlib ref_jwt) ref_used"
    by (rule ref_jwt.svc.jwt_service_axioms)
  show "uuid_lib ref_env ref_used"
    by (rule ref_uuid.uuid_lib_axioms)
qed

section \<open>A running service\<close>

text \<open>One registered user, active or not, a server with scripted faults, empty caches.\<close>

definition ref_world0 ::
  "bool \<Rightarrow> bool list \<Rightarrow> (ref_uc_state, ref_redis, ref_mail, ref_world) world" where
  "ref_world0 act faults =
     \<lparr>w_users =
        \<lparr>us_db = ref_d0\<lparr>rd_rows := map (\<lambda>r. r\<lparr>rActive := act\<rparr>) ref_rows\<rparr>,
         us_cache = \<lparr>rk_map = Map.empty, rk_drop = False\<rparr>\<rparr>,
      w_redis = \<lparr>rr_keys = Map.empty, rr_faults = faults\<rparr>,
      w_mail = \<lparr>rm_sent = [], rm_full = False\<rparr>, w_env = ref_e0\<rparr>"

definition ref_user :: "bool \<Rightarrow> User" where
  "ref_user act = ref_ann\<lparr>uActive := act\<rparr>"

lemma ref_norm [simp]: "NormalizeEmail ref_env ''ann@x.io'' = ''ann@x.io''"
  by code_simp

lemma rr_up [simp]: "rr_faults s = [] \<Longrightarrow> rr_exec f s = (None, s\<lparr>rr_keys := f (rr_keys s)\<rparr>)"
  by (simp add: rr_exec_def rr_down_def rr_tick_def)

lemma ref_cache_up [simp]:
  assumes "rr_faults s = []"
  shows "cache_Set (NewRedisCache ref_client n) k v s =
      (None, s\<lparr>rr_keys := eff_set k (json_Marshal v) (wrap64 (n * Minute)) (rr_keys s)\<rparr>)"
    "cache_Del (NewRedisCache ref_client n) k s = (None, s\<lparr>rr_keys := eff_del k (rr_keys s)\<rparr>)"
    "cache_Expire (NewRedisCache ref_client n) k t s = (None, s\<lparr>rr_keys := eff_expire k t (rr_keys s)\<rparr>)"
    "rr_keys s k = None \<Longrightarrow> cache_Incr (NewRedisCache ref_client n) k s =
      (Inr 1, s\<lparr>rr_keys := eff_incr k (rr_keys s)\<rparr>)"
    "rr_keys s k = Some (p, lt) \<Longrightarrow> json_Unmarshal p = Some v \<Longrightarrow>
      cache_Get (NewRedisCache ref_client n) k s = (Inr v, s)"
  using assms
  by (simp_all add: redisCache_defs ref_client_def rr_down_def rr_tick_def incr_value_def)

lemma ref_pair:
  assumes "rw_now e = 1700000000 * Second"
  shows "\<exists>p e'. GenerateTokenPair ref_env ref_jwtlib ref_jwt u a em e = (Inr p, e') \<and>
    rw_now e' = rw_now e \<and> AccessExpiresAt p = 1700000000 * Second + 5 * Hour \<and>
    RefreshExpiresAt p = 1700000000 * Second + 168 * Hour"
  using assms
  by (simp add: GenerateTokenPair_def signAccess_def signRefresh_def Let_def jwt_sign_def
        ref_sign_def ref_jwt_def NewJWTServiceWithRefresh_def duration_defs wrap64_def)

lemma ref_mint:
  assumes "rw_now (w_env w) = 1700000000 * Second" and "rr_faults (w_redis w) = []"
  shows "\<exists>p w'. mint_session ref_env ref_uc u w = (Inr p, w') \<and> rr_faults (w_redis w') = []"
proof -
  obtain p e' where "GenerateTokenPair ref_env ref_jwtlib ref_jwt (uID u) (IsAdmin u) (uEmail u) (w_env w) = (Inr p, e')"
    and "rw_now e' = 1700000000 * Second" and "RefreshExpiresAt p = 1700000000 * Second + 168 * Hour"
    using ref_pair [OF assms(1)] assms(1) by metis
  with assms show ?thesis
    by (simp add: mint_session_def rememberRefresh_def on_env_def on_redis_def time_Until_def duration_defs)
qed

lemma ref_lookup:
  "\<exists>u' e'. users_GetByEmail ref_env ref_users_uc ''ann@x.io'' (w_users (ref_world0 act fs)) e =
     (Inr (ref_user act), u', e') \<and> rw_now e' = rw_now e"
  by (simp add: users_GetByEmail_def users_load_def ref_world0_def ref_user_def ref_ann_def ref_run_defs
      ristrettoCache_Get_def ristrettoCache_Set_def ToV1Domain_def zero_User_def ref_e0_def ObserveCacheOp_def)

lemma ref_count:
  assumes "rr_keys (w_redis w) k = None" and "rr_faults (w_redis w) = []"
  shows "count_attempt (NewRedisCache ref_client n) k t w =
    (1, w\<lparr>w_redis := (w_redis w)\<lparr>rr_keys := eff_expire k t (eff_incr k (rr_keys (w_redis w)))\<rparr>\<rparr>)"
  using assms by (simp add: count_attempt_def on_redis_def)

lemma ref_login:
  "\<exists>resp w'. Login ref_env ref_uc ''ann@x.io'' ''Old_pw_1'' (ref_world0 True []) = (Inr resp, w') \<and> rr_faults (w_redis w') = []"
proof -
  let ?k = "LoginAttemptsKey ''ann@x.io''"
  let ?w1 = "(ref_world0 True [])\<lparr>w_redis := \<lparr>rr_keys = eff_expire ?k (15 * Minute) (eff_incr ?k Map.empty), rr_faults = []\<rparr>\<rparr>"
  have c: "count_attempt (NewRedisCache ref_client 5) ?k (15 * Minute) (ref_world0 True []) = (1, ?w1)"
    by (subst ref_count) (simp_all add: ref_world0_def)
  obtain u' e' where
    l: "users_GetByEmail ref_env ref_users_uc ''ann@x.io'' (w_users (ref_world0 True [])) ref_e0 =
      (Inr (ref_user True), u', e')"
    and e': "rw_now e' = 1700000000 * Second"
    using ref_lookup [of True "[]" ref_e0] by (auto simp: ref_e0_def)
  let ?w2 = "?w1\<lparr>w_users := u', w_env := e'\<rparr>"
  have "rr_faults (w_redis ?w2) = []" "rw_now (w_env ?w2) = 1700000000 * Second" using e' by simp_all
  then obtain p w3 where m: "mint_session ref_env ref_uc (ref_user True) ?w2 = (Inr p, w3)" and w3: "rr_faults (w_redis w3) = []"
    using ref_mint by blast
  have v: "VerifyPassword ref_env (ref_user True) ''Old_pw_1''"
    by (simp add: VerifyPassword_def ref_user_def ref_ann_def ref_rows_def inserted_row_def ToV1Domain_def)
  have "on_users (users_GetByEmail ref_env ref_users_uc ''ann@x.io'') ?w1 = (Inr (ref_user True), ?w2)"
    using l by (simp add: on_users_def ref_world0_def)
  with c m w3 v show ?thesis
    by (simp add: Login_def ref_cfg_def ref_user_def on_redis_def)
qed
end
