(* ===== verification/Session_Props.thy ===== *)
theory Session_Props
  imports Auth_Stack
begin

text \<open>
  The properties of sessions, for every user service, token service and Redis that keep their
  contracts: what a successful refresh means, and that a refresh token that was rotated or logged
  out is refused for ever.
\<close>

context auth_flows
begin

text \<open>One case per way through \<^verbatim>\<open>Refresh\<close> that ends in a response.\<close>

lemma Refresh_Inr:
  assumes "Refresh E UC t w = (Inr resp, w')"
  obtains c e1 v r1 user u1 e2 pair w3 where
    "svc_ParseRefreshToken (au_jwt UC) t (w_env w) = (Inr c, e1)"
    "cache_Get (au_redis UC) (RefreshKey (cID c)) (w_redis w) = (Inr v, r1)"
    "uc_GetByEmail (au_users UC) (cEmail c) (w_users w) e1 = (Inr user, u1, e2)"
    "uActive user"
    "time_IsZero (TokensRevokedBefore user) \<or>
       (\<forall>iat. cIssuedAt c = Some iat \<longrightarrow> TokensRevokedBefore user \<le> iat)"
    "mint_session E UC user (w\<lparr>w_redis := r1, w_users := u1, w_env := e2\<rparr>) = (Inr pair, w3)"
    "w' = snd (on_redis (cache_Del (au_redis UC) (RefreshKey (cID c))) w3)"
    "resp = \<lparr>lrUser = user, lrAccessToken = AccessToken pair, lrRefreshToken = RefreshToken pair\<rparr>"
proof -
  obtain q e1 where p: "svc_ParseRefreshToken (au_jwt UC) t (w_env w) = (q, e1)" by fastforce
  with assms obtain c where c: "q = Inr c"
    by (cases q) (auto simp: Refresh_def on_env_def)
  obtain g r1 where g: "cache_Get (au_redis UC) (RefreshKey (cID c)) (w_redis w) = (g, r1)" by fastforce
  with assms p c obtain v where v: "g = Inr v"
    by (cases g) (auto simp: Refresh_def on_env_def on_redis_def)
  obtain l u1 e2 where l: "uc_GetByEmail (au_users UC) (cEmail c) (w_users w) e1 = (l, u1, e2)"
    by (metis prod_cases3)
  with assms p c g v obtain user where user: "l = Inr user"
    by (cases l) (auto simp: Refresh_def on_env_def on_redis_def on_users_def)
  let ?w = "w\<lparr>w_redis := r1, w_users := u1, w_env := e2\<rparr>"
  obtain m w3 where m: "mint_session E UC user ?w = (m, w3)" by fastforce
  have run: "Refresh E UC t w =
    (if \<not> uActive user then (Inl (Forbidden ''account is not activated''), ?w)
     else if \<not> time_IsZero (TokensRevokedBefore user) \<and>
        (case cIssuedAt c of None \<Rightarrow> False | Some iat \<Rightarrow> iat < TokensRevokedBefore user)
     then (Inl (Unauthorized ''refresh token has been revoked''), ?w)
     else case m of Inl err \<Rightarrow> (Inl err, w3)
       | Inr pair \<Rightarrow> (Inr \<lparr>lrUser = user, lrAccessToken = AccessToken pair, lrRefreshToken = RefreshToken pair\<rparr>,
           snd (on_redis (cache_Del (au_redis UC) (RefreshKey (cID c))) w3)))"
    using p c g v l user m
    by (simp add: Refresh_def on_env_def on_redis_def on_users_def Let_def split: sum.splits)
  with assms have act: "uActive user" by (auto split: if_splits)
  with assms run have iat: "time_IsZero (TokensRevokedBefore user) \<or>
       (\<forall>iat. cIssuedAt c = Some iat \<longrightarrow> TokensRevokedBefore user \<le> iat)"
    by (auto split: if_splits option.splits)
  with act assms run have "(case m of Inl err \<Rightarrow> (Inl err, w3)
       | Inr pair \<Rightarrow> (Inr \<lparr>lrUser = user, lrAccessToken = AccessToken pair, lrRefreshToken = RefreshToken pair\<rparr>,
           snd (on_redis (cache_Del (au_redis UC) (RefreshKey (cID c))) w3))) = (Inr resp, w')"
    by (auto split: if_splits option.splits)
  then obtain pair where "m = Inr pair"
    "w' = snd (on_redis (cache_Del (au_redis UC) (RefreshKey (cID c))) w3)"
    "resp = \<lparr>lrUser = user, lrAccessToken = AccessToken pair, lrRefreshToken = RefreshToken pair\<rparr>"
    by (cases m) auto
  with that p c g v l user act iat m show thesis by blast
qed

lemma mint_Inr:
  assumes "mint_session E UC user w = (Inr pair, w')"
  shows "\<exists>e1. svc_GenerateTokenPair (au_jwt UC) (uID user) (IsAdmin user) (uEmail user) (w_env w) = (Inr pair, e1) \<and>
    rememberRefresh E UC pair (w\<lparr>w_env := e1\<rparr>) = (None, w')"
  using assms
  by (auto simp: mint_session_def on_env_def split: prod.splits sum.splits option.splits)

lemma mint_used: "mint_session E UC user w = (r, w') \<Longrightarrow> used (w_env w) \<subseteq> used (w_env w')"
  using mint_effect by blast

text \<open>What a successful refresh means.\<close>

lemma Refresh_sound:
  assumes "Refresh E UC t w = (Inr resp, w')" and "coh (w_users w)"
  shows "\<exists>c e1 e2 e3 pair. svc_ParseRefreshToken (au_jwt UC) t (w_env w) = (Inr c, e1) \<and>
    rv (w_redis w) (RefreshKey (cID c)) \<noteq> None \<and>
    uv (w_users w) (uID (lrUser resp)) = Some (lrUser resp) \<and> live (lrUser resp) \<and>
    uEmail (lrUser resp) = NormalizeEmail E (cEmail c) \<and> uActive (lrUser resp) \<and>
    (time_IsZero (TokensRevokedBefore (lrUser resp)) \<or>
       (\<forall>iat. cIssuedAt c = Some iat \<longrightarrow> TokensRevokedBefore (lrUser resp) \<le> iat)) \<and>
    svc_GenerateTokenPair (au_jwt UC) (uID (lrUser resp)) (IsAdmin (lrUser resp)) (uEmail (lrUser resp)) e2 =
      (Inr pair, e3) \<and>
    lrAccessToken resp = AccessToken pair \<and> lrRefreshToken resp = RefreshToken pair"
  using assms(1)
proof (cases rule: Refresh_Inr)
  case (1 c e1 v r1 user u1 e2 pair w3)
  have "rv (w_redis w) (RefreshKey (cID c)) \<noteq> None" using red.Get_ok [OF 1(2)] by auto
  moreover have "uv (w_users w) (uID user) = Some user \<and> live user \<and> uEmail user = NormalizeEmail E (cEmail c)"
    by (rule usr.ByEmail_ok [OF assms(2) 1(3)])
  ultimately show ?thesis using 1 mint_Inr [OF 1(6)] by fastforce
qed

lemma Refresh_rotates:
  assumes run: "Refresh E UC t w = (Inr resp, w1)"
    and del: "\<And>c e s. svc_ParseRefreshToken (au_jwt UC) t (w_env w) = (Inr c, e) \<Longrightarrow>
      fst (cache_Del (au_redis UC) (RefreshKey (cID c)) s) = None"
    and c: "\<And>c e. svc_ParseRefreshToken (au_jwt UC) t (w_env w) = (Inr c, e) \<Longrightarrow> cID c \<in> used (w_env w)"
    and hist: "auth_history E UC w1 w2"
  shows "\<exists>x. fst (Refresh E UC t w2) = Inl x \<and> domain_type x = Some ErrTypeUnauthorized"
  using run
proof (cases rule: Refresh_Inr)
  case (1 c e1 v r1 user u1 e2 pair w3)
  let ?k = "RefreshKey (cID c)"
  obtain r where r: "cache_Del (au_redis UC) ?k (w_redis w3) = (None, r)"
    by (metis del [OF 1(1)] prod.collapse)
  then have "w1 = w3\<lparr>w_redis := r\<rparr>" using 1(7) by (simp add: on_redis_def)
  moreover have "rv r ?k = None" by (rule red.Del_gone [OF r])
  moreover have "used (w_env w) \<subseteq> used (w_env w3)"
    using tok.refresh_used [OF 1(1)] usr.ByEmail_frame [OF 1(3)] mint_used [OF 1(6)] by auto
  ultimately show ?thesis using c [OF 1(1)] hist by (intro gone_for_ever [OF 1(1)]) auto
qed

text \<open>Tokens the service minted carry identifiers it handed out.\<close>

lemma minted_used:
  assumes "svc_GenerateTokenPair (au_jwt UC) u a em e0 = (Inr p, e1)" "utf8_valid u" "utf8_valid em"
    and "used e1 \<subseteq> used (w_env w)" and "svc_ParseRefreshToken (au_jwt UC) (RefreshToken p) e = (Inr c, e')"
  shows "cID c \<in> used (w_env w)"
  using tok.refresh_binds [OF assms(1-3,5)] tok.pair_fresh [OF assms(1)] assms(4) by auto

end

section \<open>Properties\<close>

text \<open>C1: a refresh token that the service minted and that was logged out is refused as unauthorised
  for ever: no sequence of later requests of any kind, with any arguments and any failures of
  Redis, the database or the mailer, makes it usable again.\<close>

theorem logout_revokes_for_ever:
  assumes "auth_flows UC rv dttl E used uv coh ts uid"
    and "svc_GenerateTokenPair (au_jwt UC) u a em e0 = (Inr p, e1)" and "utf8_valid u" and "utf8_valid em"
    and "used e1 \<subseteq> used (w_env w)" and "Logout UC (RefreshToken p) w = (None, w1)"
    and "auth_history E UC w1 w2"
  shows "\<exists>x. fst (Refresh E UC (RefreshToken p) w2) = Inl x \<and> domain_type x = Some ErrTypeUnauthorized"
  using auth_flows.Logout_revokes [OF assms(1,6,7)] auth_flows.minted_used [OF assms(1-5)] by blast

text \<open>Rotation. After a refresh succeeded on a Redis that answers deletions, the refresh token it
  was called with is refused as unauthorised for ever, whatever requests follow.\<close>

theorem refresh_rotation_for_ever:
  assumes "auth_flows UC rv dttl E used uv coh ts uid"
    and "svc_GenerateTokenPair (au_jwt UC) u a em e0 = (Inr p, e1)" and "utf8_valid u" and "utf8_valid em"
    and "used e1 \<subseteq> used (w_env w)" and "\<forall>k s. fst (cache_Del (au_redis UC) k s) = None"
    and "Refresh E UC (RefreshToken p) w = (Inr resp, w1)" and "auth_history E UC w1 w2"
  shows "\<exists>x. fst (Refresh E UC (RefreshToken p) w2) = Inl x \<and> domain_type x = Some ErrTypeUnauthorized"
  using auth_flows.Refresh_rotates [OF assms(1,7) _ _ assms(8)] auth_flows.minted_used [OF assms(1-5)] assms(6)
  by blast

text \<open>C3: a refresh succeeds only for a token that the token service accepts as a refresh token, whose
  identifier is still in Redis, whose e-mail belongs to a live and active user of the table, and
  which was not issued before that user's last password change; the new pair is minted for that
  user with the role the table gives now.\<close>

theorem refresh_sound:
  assumes "auth_flows UC rv dttl E used uv coh ts uid"
    and "Refresh E UC t w = (Inr resp, w')" and "coh (w_users w)"
  shows "\<exists>c e1 e2 e3 pair. svc_ParseRefreshToken (au_jwt UC) t (w_env w) = (Inr c, e1) \<and>
    cKind c = KindRefresh \<and> rv (w_redis w) (RefreshKey (cID c)) \<noteq> None \<and>
    uv (w_users w) (uID (lrUser resp)) = Some (lrUser resp) \<and> live (lrUser resp) \<and>
    uEmail (lrUser resp) = NormalizeEmail E (cEmail c) \<and> uActive (lrUser resp) \<and>
    (time_IsZero (TokensRevokedBefore (lrUser resp)) \<or>
       (\<forall>iat. cIssuedAt c = Some iat \<longrightarrow> TokensRevokedBefore (lrUser resp) \<le> iat)) \<and>
    svc_GenerateTokenPair (au_jwt UC) (uID (lrUser resp)) (IsAdmin (lrUser resp)) (uEmail (lrUser resp)) e2 =
      (Inr pair, e3) \<and>
    lrAccessToken resp = AccessToken pair \<and> lrRefreshToken resp = RefreshToken pair"
proof -
  have "jwt_service (au_jwt UC) used" using assms(1) by (simp add: auth_flows_def)
  then show ?thesis
    using auth_flows.Refresh_sound [OF assms] jwt_service.refresh_kind by fastforce
qed


section \<open>Runs on the reference stack\<close>

text \<open>A Redis that never fails to answer a deletion.\<close>

definition ref_client_up :: "ref_redis redis_client" where
  "ref_client_up =
     ref_client\<lparr>client_Del := (\<lambda>k s. (None, (rr_tick s)\<lparr>rr_keys := eff_del k (rr_keys s)\<rparr>))\<rparr>"

interpretation ref_redis_up: redis_server ref_client_up rr_keys
  using ref_redis.redis_server_axioms
  by (simp add: redis_server_def ref_client_up_def after_self)

definition ref_uc_up :: "(ref_uc_state, ref_redis, ref_mail, ref_world) auth_usecase" where
  "ref_uc_up = ref_uc\<lparr>au_redis := NewRedisCache ref_client_up 5\<rparr>"

interpretation ref_auth_up: auth_flows ref_uc_up rr_keys ref_dttl ref_env ref_used ref_uv ref_coh pg_ts "\<lambda>i. i"
  using ref_auth.auth_flows_axioms ref_redis_up.cache.redis_cache_axioms [of 5]
  by (simp add: auth_flows_def ref_uc_up_def)

text \<open>A session of the active user: its pair was minted and is remembered in Redis.\<close>

definition ref_session :: "TokenPair \<Rightarrow> ref_world \<Rightarrow> (ref_uc_state, ref_redis, ref_mail, ref_world) world" where
  "ref_session p e =
     (ref_world0 True [])\<lparr>w_env := e,
        w_redis := \<lparr>rr_keys = [RefreshKey (RefreshJTI p) \<mapsto> (json_Marshal (RefreshJTI p), Some (168 * Hour))],
                    rr_faults = []\<rparr>\<rparr>"

lemma ref_session_sel [simp]:
  "w_env (ref_session p e) = e" "w_users (ref_session p e) = w_users (ref_world0 True [])"
  "rr_faults (w_redis (ref_session p e)) = []"
  "rr_keys (w_redis (ref_session p e)) (RefreshKey (RefreshJTI p)) =
     Some (json_Marshal (RefreshJTI p), Some (168 * Hour))"
  by (simp_all add: ref_session_def)

lemma ref_parse_world: "ParseRefreshToken ref_jwtlib ref_jwt t e = (r, e') \<Longrightarrow> e' = e"
  by (auto simp: ParseRefreshToken_def jwt_parse_def ref_parse_def
      split: prod.splits sum.splits option.splits if_splits)

lemma ref_texts [simp]: "utf8_valid ''id-0''" "utf8_valid ''ann@x.io''"
  by (rule ascii_utf8_valid, simp add: is_ascii_def byte_val_def)+

lemma ref_minted:
  obtains p e c where
    "GenerateTokenPair ref_env ref_jwtlib ref_jwt ''id-0'' False ''ann@x.io'' ref_e0 = (Inr p, e)"
    "rw_now e = 1700000000 * Second"
    "ParseRefreshToken ref_jwtlib ref_jwt (RefreshToken p) e = (Inr c, e)"
    "cID c = RefreshJTI p" "cEmail c = ''ann@x.io''" "ascii (RefreshJTI p)"
proof -
  have e0: "rw_now ref_e0 = 1700000000 * Second" by (simp add: ref_e0_def)
  obtain p e where p: "GenerateTokenPair ref_env ref_jwtlib ref_jwt ''id-0'' False ''ann@x.io'' ref_e0 = (Inr p, e)"
    and e: "rw_now e = 1700000000 * Second" "AccessExpiresAt p = 1700000000 * Second + 5 * Hour"
      "RefreshExpiresAt p = 1700000000 * Second + 168 * Hour"
    using ref_pair [OF e0] e0 by metis
  obtain c e' where "ParseRefreshToken ref_jwtlib ref_jwt (RefreshToken p) e = (Inr c, e')"
    "cEmail c = ''ann@x.io''" "cID c = RefreshJTI p"
    using ref_jwt.pair_parses(2) [OF p, of e "1700000000 * Second" e] e by (auto simp: duration_defs)
  moreover have "ascii (RefreshJTI p)"
  proof -
    obtain e1 where "signRefresh ref_env ref_jwtlib ref_jwt ''id-0'' ''ann@x.io'' e1 =
        (Inr (RefreshToken p, RefreshExpiresAt p, RefreshJTI p), e)"
      using GenerateTokenPair_Inr [OF p] by blast
    from signRefresh_Inr [OF this] obtain e2 where "uuid_NewString ref_env e2 = (RefreshJTI p, e)"
      by blast
    then show ?thesis by (rule ref_uuid.uuid_ascii)
  qed
  ultimately show thesis using that p e(1) ref_parse_world by blast
qed

lemma ref_revoked: "VerifyPassword ref_env (ref_user True) ''Old_pw_1''"
  "time_IsZero (TokensRevokedBefore (ref_user True))" "uActive (ref_user True)"
  by (simp_all add: ref_user_def ref_ann_def ref_rows_def inserted_row_def ToV1Domain_def
      VerifyPassword_def TokensRevokedBefore_def time_IsZero_def)

text \<open>Minting does not delete.\<close>

lemma mint_same:
  assumes "cache_Set (au_redis UC) = cache_Set (au_redis UC')" and "cache_Expire (au_redis UC) = cache_Expire (au_redis UC')"
    and "au_jwt UC = au_jwt UC'"
  shows "mint_session E UC = mint_session E UC'"
proof -
  have "rememberRefresh E UC = rememberRefresh E UC'" by (intro ext) (simp only: rememberRefresh_def assms)
  then show ?thesis by (intro ext) (simp only: mint_session_def assms)
qed

lemma ref_refresh:
  assumes "rw_now e = 1700000000 * Second"
    and "ParseRefreshToken ref_jwtlib ref_jwt (RefreshToken p) e = (Inr c, e)"
    and "cID c = RefreshJTI p" "cEmail c = ''ann@x.io''" "ascii (RefreshJTI p)"
    and UC: "UC = ref_uc \<or> UC = ref_uc_up"
  shows "\<exists>resp w1. Refresh ref_env UC (RefreshToken p) (ref_session p e) = (Inr resp, w1)"
proof -
  obtain u' e' where l: "users_GetByEmail ref_env ref_users_uc ''ann@x.io'' (w_users (ref_world0 True [])) e =
      (Inr (ref_user True), u', e')" and e': "rw_now e' = 1700000000 * Second"
    using ref_lookup [of True "[]" e] assms(1) by auto
  let ?w = "(ref_session p e)\<lparr>w_users := u', w_env := e'\<rparr>"
  obtain pair w3 where m: "mint_session ref_env ref_uc (ref_user True) ?w = (Inr pair, w3)"
    using ref_mint [of ?w "ref_user True"] e' by (auto simp: ref_session_def)
  have same: "mint_session ref_env ref_uc_up = mint_session ref_env ref_uc"
    by (rule mint_same) (simp_all add: fun_eq_iff ref_uc_up_def redisCache_defs ref_client_up_def)
  have get: "cache_Get (au_redis UC) (RefreshKey (RefreshJTI p)) (w_redis (ref_session p e)) =
      (Inr (RefreshJTI p), w_redis (ref_session p e))"
    using UC json_roundtrip [OF assms(5)]
    by (auto simp: ref_uc_up_def redisCache_defs ref_client_def ref_client_up_def rr_down_def rr_tick_def)
  have "au_users UC = users_dict ref_env ref_users_uc" "au_jwt UC = jwt_dict ref_env ref_jwtlib ref_jwt"
    "mint_session ref_env UC = mint_session ref_env ref_uc"
    using UC same by (auto simp: ref_uc_up_def)
  with assms(2-4) get l m show ?thesis
    by (simp add: Refresh_def on_env_def on_redis_def on_users_def ref_revoked Let_def)
qed

theorem refresh_sound_witness:
  "\<exists>p e resp w' c. Refresh ref_env ref_uc (RefreshToken p) (ref_session p e) = (Inr resp, w') \<and>
     svc_ParseRefreshToken (au_jwt ref_uc) (RefreshToken p) e = (Inr c, e) \<and>
     uEmail (lrUser resp) = NormalizeEmail ref_env (cEmail c)"
proof -
  obtain p e c where p: "GenerateTokenPair ref_env ref_jwtlib ref_jwt ''id-0'' False ''ann@x.io'' ref_e0 = (Inr p, e)"
    and parse: "rw_now e = 1700000000 * Second" "ParseRefreshToken ref_jwtlib ref_jwt (RefreshToken p) e = (Inr c, e)"
    "cID c = RefreshJTI p" "cEmail c = ''ann@x.io''" "ascii (RefreshJTI p)" by (rule ref_minted)
  obtain resp w1 where run: "Refresh ref_env ref_uc (RefreshToken p) (ref_session p e) = (Inr resp, w1)"
    using ref_refresh [OF parse] by blast
  have "ref_coh (w_users (ref_session p e))"
    by (simp add: coherent_def ref_world0_def domain_view_def rd_tbl_def ref_d0_def ref_rows_def
        inserted_row_def ToV1Domain_def)
  from refresh_sound [OF ref_auth.auth_flows_axioms run this] run parse(2) show ?thesis
    by auto
qed

theorem refresh_rotation_for_ever_witness:
  "\<exists>p e resp w1 x. Refresh ref_env ref_uc_up (RefreshToken p) (ref_session p e) = (Inr resp, w1) \<and>
     fst (Refresh ref_env ref_uc_up (RefreshToken p) w1) = Inl x \<and> domain_type x = Some ErrTypeUnauthorized"
proof -
  obtain p e c where p: "GenerateTokenPair ref_env ref_jwtlib ref_jwt ''id-0'' False ''ann@x.io'' ref_e0 = (Inr p, e)"
    and parse: "rw_now e = 1700000000 * Second" "ParseRefreshToken ref_jwtlib ref_jwt (RefreshToken p) e = (Inr c, e)"
    "cID c = RefreshJTI p" "cEmail c = ''ann@x.io''" "ascii (RefreshJTI p)" by (rule ref_minted)
  obtain resp w1 where run: "Refresh ref_env ref_uc_up (RefreshToken p) (ref_session p e) = (Inr resp, w1)"
    using ref_refresh [OF parse] by blast
  have "\<forall>k s. fst (cache_Del (au_redis ref_uc_up) k s) = None"
    by (simp add: ref_uc_up_def redisCache_defs ref_client_up_def)
  moreover have "svc_GenerateTokenPair (au_jwt ref_uc_up) ''id-0'' False ''ann@x.io'' ref_e0 = (Inr p, e)"
    using p by (simp add: ref_uc_up_def)
  ultimately show ?thesis
    using refresh_rotation_for_ever [OF ref_auth_up.auth_flows_axioms _ ref_texts _ _ run] run by fastforce
qed

theorem logout_revokes_for_ever_witness:
  "\<exists>p e w1 x. Logout ref_uc (RefreshToken p) (ref_session p e) = (None, w1) \<and>
     fst (Refresh ref_env ref_uc (RefreshToken p) w1) = Inl x \<and> domain_type x = Some ErrTypeUnauthorized"
proof -
  obtain p e c where p: "GenerateTokenPair ref_env ref_jwtlib ref_jwt ''id-0'' False ''ann@x.io'' ref_e0 = (Inr p, e)"
    and parse: "ParseRefreshToken ref_jwtlib ref_jwt (RefreshToken p) e = (Inr c, e)" by (rule ref_minted)
  obtain w1 where run: "Logout ref_uc (RefreshToken p) (ref_session p e) = (None, w1)"
    using parse by (simp add: Logout_def on_env_def on_redis_def)
  from logout_revokes_for_ever [OF ref_auth.auth_flows_axioms _ ref_texts _ run rtranclp.rtrancl_refl] p run
  show ?thesis by fastforce
qed

end
