(* ===== verification/Login_Props.thy ===== *)
theory Login_Props
  imports Session_Props
begin

text \<open>
  The properties of \<^verbatim>\<open>Login\<close>: what a success means, that an unknown address and a wrong password
  are answered alike, and what the attempt counter does.
\<close>

section \<open>The counter\<close>

context auth_flows
begin

lemma count_frame:
  assumes "count_attempt (au_redis UC) k t w = (n, w')"
  shows "only {k} (rv (w_redis w)) (rv (w_redis w')) \<and> w_users w' = w_users w \<and> w_mail w' = w_mail w \<and>
    w_env w' = w_env w"
proof -
  obtain q r1 where i: "cache_Incr (au_redis UC) k (w_redis w) = (q, r1)" by fastforce
  obtain x r2 where x: "cache_Expire (au_redis UC) k t r1 = (x, r2)" by fastforce
  have "w' = w\<lparr>w_redis := r1\<rparr> \<or> w' = w\<lparr>w_redis := r2\<rparr>"
    using assms i x by (auto simp: count_attempt_def on_redis_def split: sum.splits if_splits)
  with red.Incr_only [OF i] red.Expire_only [OF x] show ?thesis by (auto intro: only_trans_same)
qed

text \<open>The count is what Redis answered, or zero when it did not answer.\<close>

lemma count_answer:
  assumes "cache_Incr (au_redis UC) k (w_redis w) = (q, r1)"
  shows "fst (count_attempt (au_redis UC) k t w) = (case q of Inl _ \<Rightarrow> 0 | Inr n \<Rightarrow> n)"
  using assms by (auto simp: count_attempt_def on_redis_def split: sum.splits)

text \<open>A counter without a time-to-live keeps counting.\<close>

lemma count_persistent:
  assumes "rv (w_redis w) k = Some (Itoa n, None)" and "1 \<le> n" and "in_int64 (n + 1)"
    and "cache_Incr (au_redis UC) k (w_redis w) = (Inr a, r1)"
  shows "a = n + 1 \<and> count_attempt (au_redis UC) k t w = (n + 1, w\<lparr>w_redis := r1\<rparr>) \<and>
    rv r1 k = Some (Itoa (n + 1), None)"
proof -
  from red.Incr_ok [OF assms(4)] obtain m where m: "ages (rv (w_redis w)) m" "incr_value k m = Some a"
    "ages (eff_incr k m) (rv r1)" by blast
  have mk: "m k = Some (Itoa n, None)" by (rule ages_persistent [OF m(1) assms(1)])
  have "in_int64 n" using assms(2,3) by (auto simp: in_int64_def)
  with m(2) mk have a: "a = n + 1" by (auto simp: incr_value_def ParseInt64_Itoa split: if_splits)
  have "eff_incr k m k = Some (Itoa (n + 1), None)" using m(2) mk a by (simp add: eff_incr_def)
  then have "rv r1 k = Some (Itoa (n + 1), None)" by (rule ages_persistent [OF m(3)])
  with a assms(2,4) show ?thesis by (simp add: count_attempt_def on_redis_def)
qed

section \<open>Login\<close>

abbreviation login_key :: "string \<Rightarrow> string" where
  "login_key em \<equiv> LoginAttemptsKey (NormalizeEmail E em)"

abbreviation login_count :: "string \<Rightarrow> ('u, 'r, 'm, 'e) world \<Rightarrow> int \<times> ('u, 'r, 'm, 'e) world" where
  "login_count em w \<equiv>
     (if LoginMaxAttempts (au_cfg UC) > 0
      then count_attempt (au_redis UC) (login_key em) (LoginLockoutTTL (au_cfg UC)) w else (0, w))"

abbreviation locked :: "int \<Rightarrow> bool" where
  "locked n \<equiv> LoginMaxAttempts (au_cfg UC) > 0 \<and> n > LoginMaxAttempts (au_cfg UC)"

lemma Login_run:
  assumes "login_count em w = (n, w1)"
    and "uc_GetByEmail (au_users UC) (NormalizeEmail E em) (w_users w1) (w_env w1) = (l, u1, e1)"
  shows "Login E UC em pw w =
    (if locked n then (Inl (Forbidden ''too many failed login attempts, please try again later''), w1)
     else case l of
         Inl x \<Rightarrow> (Inl (Unauthorized ''invalid email or password''), w1\<lparr>w_users := u1, w_env := e1\<rparr>)
       | Inr user \<Rightarrow>
           if \<not> uActive user
           then (Inl (Forbidden ''account is not activated''), w1\<lparr>w_users := u1, w_env := e1\<rparr>)
           else if \<not> VerifyPassword E user pw
           then (Inl (Unauthorized ''invalid email or password''), w1\<lparr>w_users := u1, w_env := e1\<rparr>)
           else (case mint_session E UC user (w1\<lparr>w_users := u1, w_env := e1\<rparr>) of
               (Inl err, w) \<Rightarrow> (Inl err, w)
             | (Inr pair, w) \<Rightarrow>
                 (Inr \<lparr>lrUser = user, lrAccessToken = AccessToken pair, lrRefreshToken = RefreshToken pair\<rparr>,
                  snd (on_redis (cache_Del (au_redis UC) (login_key em)) w))))"
  unfolding Login_def Let_def assms(1) prod.case
  using assms(2) by (simp add: on_users_def split: sum.splits prod.splits)

lemma login_count_frame:
  "login_count em w = (n, w1) \<Longrightarrow>
   only {login_key em} (rv (w_redis w)) (rv (w_redis w1)) \<and> w_users w1 = w_users w \<and> w_env w1 = w_env w \<and>
   w_mail w1 = w_mail w"
  using count_frame [of "login_key em" "LoginLockoutTTL (au_cfg UC)" w n w1]
  by (auto simp del: not_less split: if_splits)

lemma Login_sound:
  assumes run: "Login E UC em pw w = (Inr resp, w')" and coh: "coh (w_users w)"
  shows "fst (login_count em w) \<le> LoginMaxAttempts (au_cfg UC) \<or> LoginMaxAttempts (au_cfg UC) \<le> 0"
    and "uv (w_users w) (uID (lrUser resp)) = Some (lrUser resp) \<and> live (lrUser resp) \<and>
      uEmail (lrUser resp) = NormalizeEmail E (NormalizeEmail E em)"
    and "uActive (lrUser resp)" and "VerifyPassword E (lrUser resp) pw"
    and "\<exists>e1 e2 pair. svc_GenerateTokenPair (au_jwt UC) (uID (lrUser resp)) (IsAdmin (lrUser resp))
      (uEmail (lrUser resp)) e1 = (Inr pair, e2) \<and>
      lrAccessToken resp = AccessToken pair \<and> lrRefreshToken resp = RefreshToken pair"
    and "uv (w_users w') = uv (w_users w) \<and> coh (w_users w') \<and> w_mail w' = w_mail w"
proof -
  obtain n w1 where c: "login_count em w = (n, w1)" by fastforce
  note fr = login_count_frame [OF c]
  obtain l u1 e1 where l: "uc_GetByEmail (au_users UC) (NormalizeEmail E em) (w_users w1) (w_env w1) = (l, u1, e1)"
    by (metis prod_cases3)
  let ?w2 = "w1\<lparr>w_users := u1, w_env := e1\<rparr>"
  note R = Login_run [OF c l, of pw]
  from run R have nl: "\<not> locked n" by auto
  with run R obtain user where user: "l = Inr user" by (cases l) auto
  with run R nl have act: "uActive user" and ver: "VerifyPassword E user pw" by (auto split: if_splits)
  obtain m w3 where m: "mint_session E UC user ?w2 = (m, w3)" by fastforce
  with run R nl user act ver obtain pair where pair: "m = Inr pair"
    "resp = \<lparr>lrUser = user, lrAccessToken = AccessToken pair, lrRefreshToken = RefreshToken pair\<rparr>"
    "w' = snd (on_redis (cache_Del (au_redis UC) (login_key em)) w3)"
    by (cases m) auto
  show "fst (login_count em w) \<le> LoginMaxAttempts (au_cfg UC) \<or> LoginMaxAttempts (au_cfg UC) \<le> 0"
    using nl c by auto
  show "uActive (lrUser resp)" "VerifyPassword E (lrUser resp) pw" using pair act ver by auto
  show "uv (w_users w) (uID (lrUser resp)) = Some (lrUser resp) \<and> live (lrUser resp) \<and>
      uEmail (lrUser resp) = NormalizeEmail E (NormalizeEmail E em)"
    using usr.ByEmail_ok [OF _ l [unfolded user]] coh fr pair by auto
  show "\<exists>e1 e2 pair. svc_GenerateTokenPair (au_jwt UC) (uID (lrUser resp)) (IsAdmin (lrUser resp))
      (uEmail (lrUser resp)) e1 = (Inr pair, e2) \<and>
      lrAccessToken resp = AccessToken pair \<and> lrRefreshToken resp = RefreshToken pair"
    using mint_Inr [OF m [unfolded pair(1)]] pair by auto
  have "w_users w3 = u1 \<and> w_mail w3 = w_mail w1" using mint_effect [OF m] by auto
  with usr.ByEmail_frame [OF l] pair(3) fr coh
  show "uv (w_users w') = uv (w_users w) \<and> coh (w_users w') \<and> w_mail w' = w_mail w"
    by (auto simp: on_redis_def split: prod.splits)
qed

text \<open>The refusals.\<close>

lemma Login_refused:
  assumes "login_count em w = (n, w1)"
    and "uc_GetByEmail (au_users UC) (NormalizeEmail E em) (w_users w) (w_env w) = (l, u1, e1)"
  shows "locked n \<Longrightarrow> fst (Login E UC em pw w) = Inl (Forbidden ''too many failed login attempts, please try again later'')"
    and "\<not> locked n \<Longrightarrow> (\<exists>x. l = Inl x) \<or> (\<exists>user. l = Inr user \<and> uActive user \<and> \<not> VerifyPassword E user pw) \<Longrightarrow>
      fst (Login E UC em pw w) = Inl (Unauthorized ''invalid email or password'')"
    and "\<not> locked n \<Longrightarrow> l = Inr user \<Longrightarrow> \<not> uActive user \<Longrightarrow>
      fst (Login E UC em pw w) = Inl (Forbidden ''account is not activated'')"
proof -
  have "uc_GetByEmail (au_users UC) (NormalizeEmail E em) (w_users w1) (w_env w1) = (l, u1, e1)"
    using login_count_frame [OF assms(1)] assms(2) by simp
  note R = Login_run [OF assms(1) this, of pw]
  show "locked n \<Longrightarrow> fst (Login E UC em pw w) = Inl (Forbidden ''too many failed login attempts, please try again later'')"
    "\<not> locked n \<Longrightarrow> (\<exists>x. l = Inl x) \<or> (\<exists>user. l = Inr user \<and> uActive user \<and> \<not> VerifyPassword E user pw) \<Longrightarrow>
      fst (Login E UC em pw w) = Inl (Unauthorized ''invalid email or password'')"
    "\<not> locked n \<Longrightarrow> l = Inr user \<Longrightarrow> \<not> uActive user \<Longrightarrow>
      fst (Login E UC em pw w) = Inl (Forbidden ''account is not activated'')"
    unfolding R by auto
qed

lemma Login_locked:
  assumes "LoginMaxAttempts (au_cfg UC) > 0" and "LoginMaxAttempts (au_cfg UC) \<le> k" and "in_int64 (k + 1)"
    and "rv (w_redis w) (login_key em) = Some (Itoa k, None)"
    and "cache_Incr (au_redis UC) (login_key em) (w_redis w) = (Inr a, r1)"
  shows "Login E UC em pw w =
      (Inl (Forbidden ''too many failed login attempts, please try again later''), w\<lparr>w_redis := r1\<rparr>) \<and>
    rv r1 (login_key em) = Some (Itoa (k + 1), None)"
proof -
  have c: "count_attempt (au_redis UC) (login_key em) (LoginLockoutTTL (au_cfg UC)) w = (k + 1, w\<lparr>w_redis := r1\<rparr>)"
    and r: "rv r1 (login_key em) = Some (Itoa (k + 1), None)"
    using count_persistent [OF assms(4) _ assms(3,5)] assms(1,2) by auto
  with assms(1,2) show ?thesis by (simp add: Login_def Let_def)
qed

end

text \<open>An entry without a time-to-live that is left alone. Only a login for its address touches a counter of
  login attempts.\<close>

definition pinned :: "('r \<Rightarrow> keyspace) \<Rightarrow> string \<Rightarrow> ('u, 'r, 'm, 'e) world \<Rightarrow> ('u, 'r, 'm, 'e) world \<Rightarrow> bool" where
  "pinned rv k w w' \<longleftrightarrow> (\<forall>p. rv (w_redis w) k = Some (p, None) \<longrightarrow> rv (w_redis w') k = Some (p, None))"

context auth_flows
begin

lemma pinned_redis:
  assumes "\<And>x r. f (w_redis w) = (x, r) \<Longrightarrow> only K (rv (w_redis w)) (rv r)" and "k \<notin> K"
  shows "flow (pinned rv k) w (on_redis f w)"
proof -
  obtain x r where f: "f (w_redis w) = (x, r)" by fastforce
  from only_persistent [OF assms(1) [OF f] assms(2)] f show ?thesis by (simp add: on_redis_def pinned_def)
qed

lemma pinned_mint: "flow (pinned rv (LoginAttemptsKey addr)) w (mint_session E UC user w)"
proof -
  obtain r w2 where m: "mint_session E UC user w = (r, w2)" by fastforce
  from mint_effect [OF m] obtain jti where "only {RefreshKey jti} (rv (w_redis w)) (rv (w_redis w2))" by blast
  from only_persistent [OF this] m show ?thesis by (simp add: pinned_def)
qed

end

sublocale auth_flows \<subseteq> pin: auth_order "pinned rv (LoginAttemptsKey addr)" "\<lambda>_ _. True" E UC "\<lambda>_. True"
    "\<lambda>k. k \<noteq> LoginAttemptsKey addr" for addr
proof
  fix w :: "('u, 'r, 'm, 'e) world" and k v t u
  let ?pin = "pinned rv (LoginAttemptsKey addr)"
  show "flow ?pin w (on_redis (cache_Get (au_redis UC) k) w)" by (rule pinned_redis [where K = "{}", OF red.Get_only]) simp_all
  show "flow ?pin w (on_redis (cache_Del (au_redis UC) k) w)" if "k \<noteq> LoginAttemptsKey addr"
    by (rule pinned_redis [OF red.Del_only]) (use that in auto)
  show "flow ?pin w (on_redis (cache_Expire (au_redis UC) k t) w)" if "k \<noteq> LoginAttemptsKey addr"
    by (rule pinned_redis [OF red.Expire_only]) (use that in auto)
  show "flow ?pin w (on_redis (cache_Set (au_redis UC) k v) w)" if "k \<noteq> LoginAttemptsKey addr"
    by (rule pinned_redis [OF red.Set_only]) (use that in auto)
  show "flow ?pin w (on_redis (cache_Incr (au_redis UC) k) w)" if "k \<noteq> LoginAttemptsKey addr"
    by (rule pinned_redis [OF red.Incr_only]) (use that in auto)
  show "flow ?pin w (mint_session E UC u w)" by (rule pinned_mint)
qed (auto simp: pinned_def on_mail_def on_users_def split: prod.splits)

context auth_flows
begin

lemma request_pinned:
  assumes "auth_request E UC w w'"
  shows "pinned rv (LoginAttemptsKey addr) w w' \<or> (\<exists>em pw r. NormalizeEmail E em = addr \<and> Login E UC em pw w = (r, w'))"
  using assms
proof (cases rule: auth_request.cases)
  case (req_Login em pw r)
  then show ?thesis
    using flowD [OF req_Login pin.Login_K] by (cases "NormalizeEmail E em = addr") auto
qed (blast intro: flowD pin.SendOTP_K pin.Register_K pin.VerifyOTP_K pin.Refresh_K pin.Logout_K pin.ChangePassword_K
    pin.ForgotPassword_K pin.ResetPassword_K)+

lemma lock_kept:
  assumes "(auth_request E UC ^^ j) w w'"
    and "0 < LoginMaxAttempts (au_cfg UC)" and "LoginMaxAttempts (au_cfg UC) \<le> k" and "k + int j < 2 ^ 63 - 1"
    and "rv (w_redis w) (LoginAttemptsKey addr) = Some (Itoa k, None)"
    and answers: "\<And>s n. rv s (LoginAttemptsKey addr) = Some (Itoa n, None) \<Longrightarrow> 0 < n \<Longrightarrow> in_int64 (n + 1) \<Longrightarrow>
      \<exists>a s'. cache_Incr (au_redis UC) (LoginAttemptsKey addr) s = (Inr a, s')"
  shows "\<exists>k'. k \<le> k' \<and> k' \<le> k + int j \<and> rv (w_redis w') (LoginAttemptsKey addr) = Some (Itoa k', None)"
  using assms(1,4)
proof (induction j arbitrary: w')
  case 0
  with assms(5) show ?case by auto
next
  case (Suc j)
  then obtain w1 where "(auth_request E UC ^^ j) w w1" and step: "auth_request E UC w1 w'" by auto
  with Suc obtain k' where k': "k \<le> k'" "k' \<le> k + int j"
    and e: "rv (w_redis w1) (LoginAttemptsKey addr) = Some (Itoa k', None)" by force
  have b: "in_int64 (k' + 1)" using k' Suc.prems(2) assms(2,3) by (auto simp: in_int64_def)
  obtain a s where i: "cache_Incr (au_redis UC) (LoginAttemptsKey addr) (w_redis w1) = (Inr a, s)"
    using answers [OF e _ b] k'(1) assms(2,3) by force
  from request_pinned [OF step, of addr] show ?case
  proof (elim disjE exE conjE)
    assume "pinned rv (LoginAttemptsKey addr) w1 w'"
    with e k' show ?thesis by (intro exI [of _ k']) (simp add: pinned_def)
  next
    fix em pw r
    assume em: "NormalizeEmail E em = addr" and run: "Login E UC em pw w1 = (r, w')"
    from Login_locked [OF assms(2) _ b, of w1 em a s pw] e i em run k' assms(3) show ?thesis
      by (intro exI [of _ "k' + 1"]) auto
  qed
qed

end


section \<open>Properties\<close>

text \<open>C5: a login succeeds only for a live and active user of the table under the normalised address,
  with a password that verifies against the stored hash and, when the limit is on, within the
  allowed number of attempts; the tokens of the response are minted for that user with its role,
  and the table is left as it was.\<close>

theorem login_sound:
  assumes "auth_flows UC rv dttl E used uv coh ts uid"
    and "Login E UC em pw w = (Inr resp, w')" and "coh (w_users w)" and "ascii em"
  shows "uv (w_users w) (uID (lrUser resp)) = Some (lrUser resp) \<and> live (lrUser resp) \<and>
    uEmail (lrUser resp) = NormalizeEmail E em \<and> uActive (lrUser resp) \<and>
    VerifyPassword E (lrUser resp) pw \<and>
    (LoginMaxAttempts (au_cfg UC) \<le> 0 \<or>
     fst (count_attempt (au_redis UC) (LoginAttemptsKey (NormalizeEmail E em)) (LoginLockoutTTL (au_cfg UC)) w)
       \<le> LoginMaxAttempts (au_cfg UC)) \<and>
    (\<exists>e1 e2 pair. svc_GenerateTokenPair (au_jwt UC) (uID (lrUser resp)) (IsAdmin (lrUser resp))
       (uEmail (lrUser resp)) e1 = (Inr pair, e2) \<and>
       lrAccessToken resp = AccessToken pair \<and> lrRefreshToken resp = RefreshToken pair) \<and>
    uv (w_users w') = uv (w_users w) \<and> coh (w_users w')"
proof -
  have n: "NormalizeEmail E (NormalizeEmail E em) = NormalizeEmail E em"
    by (rule NormalizeEmail_idem_ascii [OF assms(4)])
  note L = auth_flows.Login_sound [OF assms(1-3)]
  show ?thesis
    using L(1) L(2) [unfolded n] L(3,4,5,6) by (auto split: if_splits)
qed

lemma ref_coh0: "ref_coh (w_users (ref_world0 act fs))"
  by (simp add: coherent_def ref_world0_def domain_view_def rd_tbl_def ref_d0_def ref_rows_def
      inserted_row_def ToV1Domain_def)

lemma ref_ascii [simp]: "ascii ''ann@x.io''"
  by (simp add: is_ascii_def byte_val_def)

theorem login_sound_witness:
  "\<exists>resp w'. Login ref_env ref_uc ''ann@x.io'' ''Old_pw_1'' (ref_world0 True []) = (Inr resp, w') \<and>
     uEmail (lrUser resp) = ''ann@x.io'' \<and> uActive (lrUser resp)"
proof -
  obtain resp w' where
    run: "Login ref_env ref_uc ''ann@x.io'' ''Old_pw_1'' (ref_world0 True []) = (Inr resp, w')"
    using ref_login by blast
  from login_sound [OF ref_auth.auth_flows_axioms run ref_coh0 ref_ascii] run show ?thesis by auto
qed

text \<open>C14: a login is refused in three ways. Over the limit every login for the address is told that it is
  locked. Otherwise an unknown address, a lookup that failed and an active account with a wrong password
  get the same error: the answer does not tell which of the three happened. An account that is not
  activated is told apart, whatever the password.\<close>

theorem login_refusals_alike:
  assumes "auth_flows UC rv dttl E used uv coh ts uid"
    and "n = (if 0 < LoginMaxAttempts (au_cfg UC)
      then fst (count_attempt (au_redis UC) (LoginAttemptsKey (NormalizeEmail E em)) (LoginLockoutTTL (au_cfg UC)) w) else 0)"
    and "uc_GetByEmail (au_users UC) (NormalizeEmail E em) (w_users w) (w_env w) = (l, u1, e1)"
  shows "(0 < LoginMaxAttempts (au_cfg UC) \<and> LoginMaxAttempts (au_cfg UC) < n \<longrightarrow>
      fst (Login E UC em pw w) = Inl (Forbidden ''too many failed login attempts, please try again later'')) \<and>
    (\<not> (0 < LoginMaxAttempts (au_cfg UC) \<and> LoginMaxAttempts (au_cfg UC) < n) \<longrightarrow>
      ((\<exists>x. l = Inl x) \<or> (\<exists>user. l = Inr user \<and> uActive user \<and> \<not> VerifyPassword E user pw) \<longrightarrow>
        fst (Login E UC em pw w) = Inl (Unauthorized ''invalid email or password'')) \<and>
      (\<forall>user. l = Inr user \<and> \<not> uActive user \<longrightarrow>
        fst (Login E UC em pw w) = Inl (Forbidden ''account is not activated'')))"
proof -
  obtain w1 where c: "(if 0 < LoginMaxAttempts (au_cfg UC)
      then count_attempt (au_redis UC) (LoginAttemptsKey (NormalizeEmail E em)) (LoginLockoutTTL (au_cfg UC)) w else (0, w)) = (n, w1)"
    using assms(2) by (metis fst_conv prod.collapse)
  note R = auth_flows.Login_refused [OF assms(1) c assms(3), where pw = pw]
  show ?thesis using R(1,2) R(3) by (intro conjI impI allI) blast+
qed

lemma ref_count0:
  "count_attempt (NewRedisCache ref_client 5) k t (ref_world0 act []) =
    (1, (ref_world0 act [])\<lparr>w_redis := \<lparr>rr_keys = eff_expire k t (eff_incr k Map.empty), rr_faults = []\<rparr>\<rparr>)"
  by (subst ref_count) (simp_all add: ref_world0_def)

theorem login_refusals_alike_witness:
  "fst (Login ref_env ref_uc ''ann@x.io'' ''guess'' (ref_world0 True [])) =
     Inl (Unauthorized ''invalid email or password'') \<and>
   fst (Login ref_env ref_uc ''ann@x.io'' ''guess'' (ref_world0 False [])) = Inl (Forbidden ''account is not activated'')"
proof -
  have n: "fst (count_attempt (au_redis ref_uc) k t (ref_world0 act [])) = 1" for k t act using ref_count0 by simp
  have e: "w_env (ref_world0 act []) = ref_e0" for act by (simp add: ref_world0_def)
  obtain u1 e1 where l: "users_GetByEmail ref_env ref_users_uc ''ann@x.io'' (w_users (ref_world0 True [])) ref_e0 =
      (Inr (ref_user True), u1, e1)"
    using ref_lookup by blast
  obtain u2 e2 where m: "users_GetByEmail ref_env ref_users_uc ''ann@x.io'' (w_users (ref_world0 False [])) ref_e0 =
      (Inr (ref_user False), u2, e2)"
    using ref_lookup by blast
  have v: "\<not> VerifyPassword ref_env (ref_user True) ''guess''"
    by (simp add: VerifyPassword_def ref_user_def ref_ann_def ref_rows_def inserted_row_def
        ToV1Domain_def ref_hash_def ref_compare_def Itoa_def starts_with_iff)
  have "fst (Login ref_env ref_uc ''ann@x.io'' ''guess'' (ref_world0 True [])) = Inl (Unauthorized ''invalid email or password'')"
    using login_refusals_alike [OF ref_auth.auth_flows_axioms, of 1 "''ann@x.io''" "ref_world0 True []"
        "Inr (ref_user True)" u1 e1 "''guess''"] l v ref_revoked(3) n e by (simp add: ref_cfg_def)
  moreover have "fst (Login ref_env ref_uc ''ann@x.io'' ''guess'' (ref_world0 False [])) = Inl (Forbidden ''account is not activated'')"
    using login_refusals_alike [OF ref_auth.auth_flows_axioms, of 1 "''ann@x.io''" "ref_world0 False []"
        "Inr (ref_user False)" u2 e2 "''guess''"] m n e by (simp add: ref_cfg_def ref_user_def)
  ultimately show ?thesis ..
qed

text \<open>C15: once the attempt counter of an address has reached the limit and has no time-to-live, the address
  stays locked. After any sequence of requests of any kind, logins included, on a Redis that answers each
  increment of this counter, and while the counter fits 64 bits, the counter is still there without a
  time-to-live, not smaller than before, and a login for the address is refused whatever the password
  (the time-to-live is set by the first attempt only, and a failure to set it is ignored).\<close>

theorem login_lock_permanent:
  assumes "auth_flows UC rv dttl E used uv coh ts uid"
    and "0 < LoginMaxAttempts (au_cfg UC)" and "LoginMaxAttempts (au_cfg UC) \<le> k" and "k + int j < 2 ^ 63 - 1"
    and "rv (w_redis w) (LoginAttemptsKey (NormalizeEmail E em)) = Some (Itoa k, None)"
    and "\<forall>s n. rv s (LoginAttemptsKey (NormalizeEmail E em)) = Some (Itoa n, None) \<and> 0 < n \<and> in_int64 (n + 1) \<longrightarrow>
      (\<exists>a s'. cache_Incr (au_redis UC) (LoginAttemptsKey (NormalizeEmail E em)) s = (Inr a, s'))"
    and "(auth_request E UC ^^ j) w w'"
  shows "\<exists>k'. k \<le> k' \<and> rv (w_redis w') (LoginAttemptsKey (NormalizeEmail E em)) = Some (Itoa k', None) \<and>
    fst (Login E UC em pw w') = Inl (Forbidden ''too many failed login attempts, please try again later'')"
proof -
  from auth_flows.lock_kept [OF assms(1,7,2-5)] assms(6)
  obtain k' where k': "k \<le> k'" "k' \<le> k + int j"
    and e: "rv (w_redis w') (LoginAttemptsKey (NormalizeEmail E em)) = Some (Itoa k', None)" by blast
  have b: "in_int64 (k' + 1)" using k' assms(2-4) by (auto simp: in_int64_def)
  obtain a s where "cache_Incr (au_redis UC) (LoginAttemptsKey (NormalizeEmail E em)) (w_redis w') = (Inr a, s)"
    using assms(2,3,6) e b k'(1) by fastforce
  from auth_flows.Login_locked [OF assms(1,2) _ b e this, of pw] k' e assms(3) show ?thesis by auto
qed

text \<open>A Redis that always answers \<^verbatim>\<open>INCR\<close>.\<close>

definition ref_counting :: "ref_redis redis_client" where
  "ref_counting =
     ref_client\<lparr>client_Incr := (\<lambda>k s.
        case incr_value k (rr_keys s) of
          None \<Rightarrow> (Inl (ErrorString ''ERR value is not an integer or out of range''), s)
        | Some n \<Rightarrow> (Inr n, s\<lparr>rr_keys := eff_incr k (rr_keys s)\<rparr>))\<rparr>"

interpretation ref_redis_counting: redis_server ref_counting rr_keys
proof -
  have "\<exists>m. ages (rr_keys s) m \<and> incr_value k m = Some n \<and> ages (eff_incr k m) (rr_keys s')"
    if "client_Incr ref_counting k s = (Inr n, s')" for k s n s'
    using that by (intro exI [of _ "rr_keys s"]) (auto simp: ref_counting_def split: option.splits)
  then show "redis_server ref_counting rr_keys"
    using ref_redis.redis_server_axioms
    by (auto simp: redis_server_def ref_counting_def split: option.splits)
qed

definition ref_uc_counting :: "(ref_uc_state, ref_redis, ref_mail, ref_world) auth_usecase" where
  "ref_uc_counting = ref_uc\<lparr>au_redis := NewRedisCache ref_counting 5\<rparr>"

interpretation ref_auth_counting: auth_flows ref_uc_counting rr_keys ref_dttl ref_env ref_used ref_uv ref_coh pg_ts "\<lambda>i. i"
  using ref_auth.auth_flows_axioms ref_redis_counting.cache.redis_cache_axioms [of 5]
  by (simp add: auth_flows_def ref_uc_counting_def)

theorem login_lock_permanent_witness:
  "\<exists>w w'. rr_keys (w_redis w) (LoginAttemptsKey ''ann@x.io'') = Some (Itoa 10, None) \<and>
     w' = snd (Login ref_env ref_uc_counting ''ann@x.io'' ''Old_pw_1'' w) \<and>
     fst (Login ref_env ref_uc_counting ''ann@x.io'' ''Old_pw_1'' w') =
       Inl (Forbidden ''too many failed login attempts, please try again later'')"
proof -
  let ?k = "LoginAttemptsKey ''ann@x.io''" and ?L = "Login ref_env ref_uc_counting ''ann@x.io'' ''Old_pw_1''"
  let ?w = "(ref_world0 True [])\<lparr>w_redis := \<lparr>rr_keys = [?k \<mapsto> (Itoa 10, None)], rr_faults = []\<rparr>\<rparr>"
  have "\<exists>a s'. cache_Incr (au_redis ref_uc_counting) ?k s = (Inr a, s')"
    if "rr_keys s ?k = Some (Itoa n, None)" "0 < n" "in_int64 (n + 1)" for s n
  proof -
    have "incr_value ?k (rr_keys s) \<noteq> None"
      using that ParseInt64_Itoa [of n] by (auto simp: incr_value_def in_int64_def)
    then show ?thesis
      by (auto simp: ref_uc_counting_def redisCache_defs ref_counting_def)
  qed
  then have "\<forall>s n. rr_keys s ?k = Some (Itoa n, None) \<and> 0 < n \<and> in_int64 (n + 1) \<longrightarrow>
      (\<exists>a s'. cache_Incr (au_redis ref_uc_counting) ?k s = (Inr a, s'))" by blast
  moreover have "(auth_request ref_env ref_uc_counting ^^ 1) ?w (snd (?L ?w))"
    by (simp only: relpowp_1) (rule req_Login [OF prod.collapse [symmetric]])
  ultimately show ?thesis
    using login_lock_permanent [OF ref_auth_counting.auth_flows_axioms, of 10 1 ?w "''ann@x.io''" "snd (?L ?w)" "''Old_pw_1''"]
    by (intro exI [of _ ?w] exI [of _ "snd (?L ?w)"]) (auto simp: ref_uc_counting_def ref_cfg_def)
qed

end
