(* ===== verification/Otp_Props.thy ===== *)
theory Otp_Props
  imports Login_Props
begin

text \<open>
  The one-time-code flows: what \<^verbatim>\<open>SendOTP\<close> mails and stores, and what a successful
  \<^verbatim>\<open>VerifyOTP\<close> means.
\<close>

context auth_flows
begin

lemma only_get: "cache_Get (au_redis UC) k s = (q, r) \<Longrightarrow> only K (rv s) (rv r)"
  by (rule red.Get_only)

text \<open>The ways through \<^verbatim>\<open>VerifyOTP\<close> that end in success.\<close>

lemma VerifyOTP_None:
  assumes "VerifyOTP E UC em code w = (None, w')"
  obtains user u1 e1 n w1 r2 u3 e3 where
    "uc_GetByEmail (au_users UC) (NormalizeEmail E em) (w_users w) (w_env w) = (Inr user, u1, e1)"
    "\<not> uActive user"
    "count_attempt (au_redis UC) (OTPAttemptsKey (NormalizeEmail E em)) (OTPTTL (au_cfg UC))
       (w\<lparr>w_users := u1, w_env := e1\<rparr>) = (n, w1)"
    "n \<le> OTPMaxAttempts (au_cfg UC)"
    "cache_Get (au_redis UC) (UserOTPKey (NormalizeEmail E em)) (w_redis w1) = (Inr code, r2)"
    "uc_Activate (au_users UC) (uID user) (w_users w1) (ObserveCacheOp E ''redis'' ''get'' ''hit'' (w_env w1)) =
       (None, u3, e3)"
    "w' = snd (on_redis (cache_Del (au_redis UC) (OTPAttemptsKey (NormalizeEmail E em)))
       (snd (on_redis (cache_Del (au_redis UC) (UserOTPKey (NormalizeEmail E em)))
         (w1\<lparr>w_redis := r2, w_users := u3, w_env := e3\<rparr>))))"
proof -
  let ?em = "NormalizeEmail E em"
  obtain l u1 e1 where l: "uc_GetByEmail (au_users UC) ?em (w_users w) (w_env w) = (l, u1, e1)"
    by (metis prod_cases3)
  with assms obtain user where user: "l = Inr user"
    by (cases l) (auto simp: VerifyOTP_def Let_def on_users_def)
  let ?w = "w\<lparr>w_users := u1, w_env := e1\<rparr>"
  have act: "\<not> uActive user"
    using assms l user by (auto simp: VerifyOTP_def Let_def on_users_def)
  obtain n w1 where c: "count_attempt (au_redis UC) (OTPAttemptsKey ?em) (OTPTTL (au_cfg UC)) ?w = (n, w1)"
    by fastforce
  have n: "n \<le> OTPMaxAttempts (au_cfg UC)"
    using assms l user act c by (auto simp: VerifyOTP_def Let_def on_users_def split: if_splits)
  obtain q r2 where g: "cache_Get (au_redis UC) (UserOTPKey ?em) (w_redis w1) = (q, r2)" by fastforce
  have "\<exists>stored. q = Inr stored \<and> stored = code"
    using assms l user act c n g
    by (cases q) (auto simp: VerifyOTP_def Let_def on_users_def on_redis_def ConstantTimeCompare_def
        split: if_splits)
  then have q: "q = Inr code" by simp
  obtain x u3 e3 where a: "uc_Activate (au_users UC) (uID user) (w_users w1)
      (ObserveCacheOp E ''redis'' ''get'' ''hit'' (w_env w1)) = (x, u3, e3)"
    by (metis prod_cases3)
  let ?w3 = "w1\<lparr>w_redis := r2, w_users := u3, w_env := e3\<rparr>"
  let ?del = "\<lambda>k w. snd (on_redis (cache_Del (au_redis UC) k) w)"
  have "VerifyOTP E UC em code w =
      (case x of Some err \<Rightarrow> (Some err, ?w3)
       | None \<Rightarrow> (None, ?del (OTPAttemptsKey ?em) (?del (UserOTPKey ?em) ?w3)))"
    using l user act c n g q a
    by (simp add: VerifyOTP_def Let_def on_users_def on_redis_def observe_def ConstantTimeCompare_def
        split: option.splits)
  with assms have "x = None" and "w' = ?del (OTPAttemptsKey ?em) (?del (UserOTPKey ?em) ?w3)"
    by (auto split: option.splits)
  with that l user act c n g q a show thesis by blast
qed

lemma VerifyOTP_sound:
  assumes run: "VerifyOTP E UC em code w = (None, w')" and coh: "coh (w_users w)"
  shows "\<exists>user now p t. uv (w_users w) (uID user) = Some user \<and> live user \<and> \<not> uActive user \<and>
    uEmail user = NormalizeEmail E (NormalizeEmail E em) \<and>
    rv (w_redis w) (UserOTPKey (NormalizeEmail E em)) = Some (p, t) \<and> json_Unmarshal p = Some code \<and>
    fst (count_attempt (au_redis UC) (OTPAttemptsKey (NormalizeEmail E em)) (OTPTTL (au_cfg UC)) w)
      \<le> OTPMaxAttempts (au_cfg UC) \<and>
    uv (w_users w') = user_update (uID user) (activated now) (uv (w_users w))"
  using run
proof (cases rule: VerifyOTP_None)
  case (1 user u1 e1 n w1 r2 u3 e3)
  let ?em = "NormalizeEmail E em"
  have user: "uv (w_users w) (uID user) = Some user \<and> live user \<and> uEmail user = NormalizeEmail E ?em"
    by (rule usr.ByEmail_ok [OF coh 1(1)])
  then have uid: "uid (uID user) = uID user" using usr.key by blast
  have fr: "only {OTPAttemptsKey ?em} (rv (w_redis w)) (rv (w_redis w1))" "w_users w1 = u1"
    using count_frame [OF 1(3)] by simp_all
  obtain p t where p: "rv (w_redis w1) (UserOTPKey ?em) = Some (p, t)" "json_Unmarshal p = Some code"
    using red.Get_ok [OF 1(5)] by blast
  have "rv (w_redis w) (UserOTPKey ?em) = Some (p, t)"
    by (rule only_Some [OF fr(1) _ p(1)]) simp
  moreover obtain now where "uv u3 = user_update (uID user) (activated now) (uv (w_users w))"
    using usr.Activate_ok [OF 1(6)] usr.ByEmail_frame [OF 1(1)] fr(2) uid by auto
  moreover have "w_users w' = u3" using 1(7) by (simp add: on_redis_def split: prod.splits)
  moreover have "fst (count_attempt (au_redis UC) (OTPAttemptsKey ?em) (OTPTTL (au_cfg UC)) w) = n"
    using 1(3) by (auto simp: count_attempt_def on_redis_def split: prod.splits sum.splits if_splits)
  ultimately show ?thesis using user 1(2,4) p(2) by blast
qed

text \<open>What a successful \<^verbatim>\<open>SendOTP\<close> did.\<close>

lemma SendOTP_None:
  assumes run: "SendOTP E UC em w = Some (None, w')"
  obtains user u1 e1 code e2 m where
    "uc_GetByEmail (au_users UC) (NormalizeEmail E em) (w_users w) (w_env w) = (Inr user, u1, e1)"
    "\<not> uActive user" "GenerateOTPCode E 6 e1 = Some (Inr code, e2)"
    "mail_SendOTP (au_mailer UC) code (NormalizeEmail E em) (w_mail w) = (None, m)" "w_mail w' = m"
    "w_redis w' = snd (cache_Del (au_redis UC) (OTPAttemptsKey (NormalizeEmail E em))
       (snd (cache_Set (au_redis UC) (UserOTPKey (NormalizeEmail E em)) code (w_redis w))))"
proof -
  let ?em = "NormalizeEmail E em"
  obtain l u1 e1 where l: "uc_GetByEmail (au_users UC) ?em (w_users w) (w_env w) = (l, u1, e1)"
    by (metis prod_cases3)
  with run obtain user where user: "l = Inr user"
    by (cases l) (auto simp: SendOTP_def Let_def on_users_def)
  have act: "\<not> uActive user"
    using run l user by (auto simp: SendOTP_def Let_def on_users_def)
  have gen: "\<exists>code e2. GenerateOTPCode E 6 e1 = Some (Inr code, e2)"
    using run l user act
    by (auto simp: SendOTP_def Let_def on_users_def split: option.splits sum.splits)
  then obtain code e2 where code: "GenerateOTPCode E 6 e1 = Some (Inr code, e2)" by blast
  obtain x m where m: "mail_SendOTP (au_mailer UC) code ?em (w_mail w) = (x, m)" by fastforce
  obtain y r1 where y: "cache_Set (au_redis UC) (UserOTPKey ?em) code (w_redis w) = (y, r1)" by fastforce
  obtain d r2 where d: "cache_Del (au_redis UC) (OTPAttemptsKey ?em) r1 = (d, r2)" by fastforce
  have x: "x = None"
    using run l user act code m by (cases x) (auto simp: SendOTP_def Let_def on_users_def on_mail_def)
  have "w_mail w' = m \<and> w_redis w' = r2"
    using run l user act code m x y d
    by (cases y) (auto simp: SendOTP_def Let_def on_users_def on_mail_def on_redis_def observe_def)
  then have "w_mail w' = m" and "w_redis w' = snd (cache_Del (au_redis UC) (OTPAttemptsKey ?em)
       (snd (cache_Set (au_redis UC) (UserOTPKey ?em) code (w_redis w))))"
    using y d by simp_all
  then show thesis by (rule that [OF l [unfolded user] act code m [unfolded x]])
qed

lemma SendOTP_sound:
  assumes run: "SendOTP E UC em w = Some (None, w')" and coh: "coh (w_users w)"
  shows "\<exists>user u1 e1 code e2.
    uc_GetByEmail (au_users UC) (NormalizeEmail E em) (w_users w) (w_env w) = (Inr user, u1, e1) \<and>
    uv (w_users w) (uID user) = Some user \<and> live user \<and> \<not> uActive user \<and>
    uEmail user = NormalizeEmail E (NormalizeEmail E em) \<and>
    GenerateOTPCode E 6 e1 = Some (Inr code, e2) \<and> length code = 6 \<and> list_all is_digit code \<and>
    mail_SendOTP (au_mailer UC) code (NormalizeEmail E em) (w_mail w) = (None, w_mail w') \<and>
    w_redis w' = snd (cache_Del (au_redis UC) (OTPAttemptsKey (NormalizeEmail E em))
      (snd (cache_Set (au_redis UC) (UserOTPKey (NormalizeEmail E em)) code (w_redis w)))) \<and>
    (fst (cache_Set (au_redis UC) (UserOTPKey (NormalizeEmail E em)) code (w_redis w)) = None \<longrightarrow>
      rv (w_redis w') (UserOTPKey (NormalizeEmail E em)) \<in>
        {Some (json_Marshal code, if 0 < dttl then Some dttl else None), None})"
  using run
proof (cases rule: SendOTP_None)
  case (1 user u1 e1 code e2 m)
  let ?k = "UserOTPKey (NormalizeEmail E em)"
  obtain s r1 where s: "cache_Set (au_redis UC) ?k code (w_redis w) = (s, r1)" by fastforce
  obtain d r2 where d: "cache_Del (au_redis UC) (OTPAttemptsKey (NormalizeEmail E em)) r1 = (d, r2)" by fastforce
  have "rv r2 ?k \<in> {Some (json_Marshal code, if 0 < dttl then Some dttl else None), None}" if "s = None"
    using red.Set_entry [OF s] only_Some [OF red.Del_only [OF d], of ?k] that by (cases "rv r2 ?k") auto
  moreover have "w_redis w' = r2" using 1(6) s d by simp
  moreover have "length code = 6 \<and> list_all is_digit code"
    using otp_loop_digits [of E 6 "''''" e1 "(Inr code, e2)"] 1(3) by (simp add: GenerateOTPCode_def)
  ultimately show ?thesis
    using usr.ByEmail_ok [OF coh 1(1)] 1 s
    by (intro exI [of _ user] exI [of _ u1] exI [of _ e1] exI [of _ code] exI [of _ e2]) simp
qed

end


section \<open>Properties\<close>

text \<open>C6: a one-time code activates an account only if the account is a live, inactive user of the
  table under the normalised address, the submitted code is the one stored for that address, and
  the attempt counter is within its limit; the table then changes in that one row only, which
  becomes active.\<close>

theorem verify_otp_sound:
  assumes "auth_flows UC rv dttl E used uv coh ts uid"
    and "VerifyOTP E UC em code w = (None, w')" and "coh (w_users w)" and "ascii em"
  shows "\<exists>user now p t. uv (w_users w) (uID user) = Some user \<and> live user \<and> \<not> uActive user \<and>
    uEmail user = NormalizeEmail E em \<and>
    rv (w_redis w) (UserOTPKey (NormalizeEmail E em)) = Some (p, t) \<and> json_Unmarshal p = Some code \<and>
    fst (count_attempt (au_redis UC) (OTPAttemptsKey (NormalizeEmail E em)) (OTPTTL (au_cfg UC)) w)
      \<le> OTPMaxAttempts (au_cfg UC) \<and>
    uv (w_users w') = (uv (w_users w))(uID user \<mapsto> activated now user)"
proof -
  have upd: "user_update i f m = m(i \<mapsto> f u)" if "m i = Some u" "live u"
    for m :: "string \<rightharpoonup> User" and i f u
    using that by (simp add: user_update_def)
  show ?thesis
    using auth_flows.VerifyOTP_sound [OF assms(1-3)] NormalizeEmail_idem_ascii [OF assms(4)]
    by (fastforce simp: upd)
qed

lemma ref_lookup_world:
  assumes "rw_now (w_env w) = 1700000000 * Second" and "w_users w = w_users (ref_world0 act [])"
  shows "\<exists>u' e'. users_GetByEmail ref_env ref_users_uc ''ann@x.io'' (w_users w) (w_env w) =
     (Inr (ref_user act), u', e') \<and> rw_now e' = 1700000000 * Second"
  using ref_lookup [of act "[]" "w_env w"] assms by simp

text \<open>The state in which the code \<^verbatim>\<open>000000\<close> was sent to the registered user.\<close>

definition ref_otp_world :: "(ref_uc_state, ref_redis, ref_mail, ref_world) world" where
  "ref_otp_world =
     (ref_world0 False [])\<lparr>w_redis :=
        \<lparr>rr_keys = [UserOTPKey ''ann@x.io'' \<mapsto> (json_Marshal ''000000'', Some (5 * Minute))], rr_faults = []\<rparr>\<rparr>"

lemma ref_user_sel [simp]:
  "uID (ref_user act) = ''id-0''" "uActive (ref_user act) = act" "uEmail (ref_user act) = ''ann@x.io''"
  by (simp_all add: ref_user_def)

lemma ref_activate:
  assumes "users_GetByEmail ref_env ref_users_uc ''ann@x.io'' (w_users (ref_world0 False [])) ref_e0 = (l, u1, e1)"
  shows "\<exists>u2 e2. users_Activate ref_env ref_users_uc ''id-0'' u1 e = (None, u2, e2)"
proof -
  have "us_db u1 = us_db (w_users (ref_world0 False []))"
    using assms
    by (auto simp: users_GetByEmail_def users_load_def ref_world0_def ref_run_defs
        ristrettoCache_Get_def ristrettoCache_Set_def zero_User_def)
  then have "\<exists>d. repo_ChangeActiveUser (NewUserRepository ref_sqlx)
      (fst (Activate ref_env (zero_User\<lparr>uID := ''id-0''\<rparr>) e)) (us_db u1) = (None, d)"
    by (simp add: ref_run_defs ref_world0_def Activate_def zero_User_def)
  then obtain d where "repo_ChangeActiveUser (NewUserRepository ref_sqlx)
      (fst (Activate ref_env (zero_User\<lparr>uID := ''id-0''\<rparr>) e)) (us_db u1) = (None, d)" ..
  then show ?thesis
    by (cases "postgres_GetByID ref_sqlx ''id-0'' d"; cases "fst (postgres_GetByID ref_sqlx ''id-0'' d)")
       (auto simp: users_Activate_def Activate_def)
qed

lemma json_zeros: "json_Unmarshal (json_Marshal ''000000'') = Some ''000000''"
  by (rule json_roundtrip) (simp add: is_ascii_def byte_val_def)

theorem verify_otp_sound_witness:
  "\<exists>w' now. VerifyOTP ref_env ref_uc ''ann@x.io'' ''000000'' ref_otp_world = (None, w') \<and>
     ref_uv (w_users w') = (ref_uv (w_users ref_otp_world))(''id-0'' \<mapsto> activated now (ref_user False))"
proof -
  let ?k = "OTPAttemptsKey ''ann@x.io''"
  obtain u1 e1 where l: "users_GetByEmail ref_env ref_users_uc ''ann@x.io'' (w_users (ref_world0 False [])) ref_e0 =
      (Inr (ref_user False), u1, e1)" using ref_lookup by blast
  let ?w1 = "ref_otp_world\<lparr>w_users := u1, w_env := e1\<rparr>"
  let ?m = "eff_expire ?k (5 * Minute) (eff_incr ?k (rr_keys (w_redis ref_otp_world)))"
  have sel: "w_users ref_otp_world = w_users (ref_world0 False [])" "w_env ref_otp_world = ref_e0"
    "rr_faults (w_redis ref_otp_world) = []" "rr_keys (w_redis ref_otp_world) ?k = None"
    by (simp_all add: ref_otp_world_def ref_world0_def)
  have c: "count_attempt (NewRedisCache ref_client 5) ?k (5 * Minute) ?w1 =
      (1, ?w1\<lparr>w_redis := (w_redis ref_otp_world)\<lparr>rr_keys := ?m\<rparr>\<rparr>)"
    using sel by (subst ref_count) simp_all
  have "?m (UserOTPKey ''ann@x.io'') = Some (json_Marshal ''000000'', Some (5 * Minute))"
    by (simp add: eff_defs ref_otp_world_def split: option.splits)
  with json_zeros sel(3) have g: "cache_Get (NewRedisCache ref_client 5) (UserOTPKey ''ann@x.io'')
      ((w_redis ref_otp_world)\<lparr>rr_keys := ?m\<rparr>) = (Inr ''000000'', (w_redis ref_otp_world)\<lparr>rr_keys := ?m\<rparr>)"
    by (intro ref_cache_up(5)) simp_all
  obtain u2 e2 where a: "users_Activate ref_env ref_users_uc ''id-0'' u1
      (ObserveCacheOp ref_env ''redis'' ''get'' ''hit'' e1) = (None, u2, e2)"
    using ref_activate [OF l] by blast
  have "\<exists>w'. VerifyOTP ref_env ref_uc ''ann@x.io'' ''000000'' ref_otp_world = (None, w')"
    using l sel c g a
    by (simp add: VerifyOTP_def on_users_def on_redis_def observe_def ref_cfg_def ConstantTimeCompare_def Let_def)
  then obtain w' where run: "VerifyOTP ref_env ref_uc ''ann@x.io'' ''000000'' ref_otp_world = (None, w')" ..
  from verify_otp_sound [OF ref_auth.auth_flows_axioms run _ ref_ascii] ref_coh0 sel(1)
  obtain user now where u: "ref_uv (w_users ref_otp_world) (uID user) = Some user" "live user" "uEmail user = ''ann@x.io''"
    "ref_uv (w_users w') = (ref_uv (w_users ref_otp_world))(uID user \<mapsto> activated now user)"
    by auto
  have "user = ref_user False"
    using u(1) sel(1)
    by (auto simp: ref_world0_def ref_user_def ref_ann_def domain_view_def rd_tbl_def ref_d0_def ref_rows_def
        inserted_row_def ToV1Domain_def split: if_splits)
  with u run show ?thesis by auto
qed

text \<open>C17: a one-time code is sent only to the live, inactive user of the normalised address; it is the six digits
  that were generated for this request, and it is mailed to that address. The same code is then written to
  Redis under the address and the counter of attempts is deleted; when Redis accepted the write, the
  entry is that code with the configured time-to-live, until it runs out. (The flow tolerates a write that
  Redis refused.) The users are those of a coherent cache and the address is ASCII.\<close>

theorem send_otp_sound:
  assumes "auth_flows UC rv dttl E used uv coh ts uid"
    and "SendOTP E UC em w = Some (None, w')" and "coh (w_users w)" and "ascii em"
  shows "\<exists>user u1 e1 code e2.
    uc_GetByEmail (au_users UC) (NormalizeEmail E em) (w_users w) (w_env w) = (Inr user, u1, e1) \<and>
    uv (w_users w) (uID user) = Some user \<and> live user \<and> \<not> uActive user \<and> uEmail user = NormalizeEmail E em \<and>
    GenerateOTPCode E 6 e1 = Some (Inr code, e2) \<and> length code = 6 \<and> list_all is_digit code \<and>
    mail_SendOTP (au_mailer UC) code (NormalizeEmail E em) (w_mail w) = (None, w_mail w') \<and>
    w_redis w' = snd (cache_Del (au_redis UC) (OTPAttemptsKey (NormalizeEmail E em))
      (snd (cache_Set (au_redis UC) (UserOTPKey (NormalizeEmail E em)) code (w_redis w)))) \<and>
    (fst (cache_Set (au_redis UC) (UserOTPKey (NormalizeEmail E em)) code (w_redis w)) = None \<longrightarrow>
      rv (w_redis w') (UserOTPKey (NormalizeEmail E em)) \<in>
        {Some (json_Marshal code, if 0 < dttl then Some dttl else None), None})"
  using auth_flows.SendOTP_sound [OF assms(1-3)] unfolding NormalizeEmail_idem_ascii [OF assms(4)] .

lemma ref_otp_code:
  "\<exists>u1 e1 code e3. users_GetByEmail ref_env ref_users_uc ''ann@x.io'' (w_users (ref_world0 False [])) ref_e0 =
     (Inr (ref_user False), u1, e1) \<and> GenerateOTPCode ref_env 6 e1 = Some (Inr code, e3)"
proof -
  let ?w = "ref_world0 False []"
  obtain u1 e1 where l: "users_GetByEmail ref_env ref_users_uc ''ann@x.io'' (w_users ?w) ref_e0 =
      (Inr (ref_user False), u1, e1)" using ref_lookup by blast
  obtain bufs e2 where reads: "otp_reads ref_env (6 + 10) 1 e1 = Some (bufs, e2)" and
    b: "bufs = [take 16 (rw_tape e1 @ replicate 16 0)]" by simp
  have "rw_tape e1 = []"
    using l by (auto simp: users_GetByEmail_def users_load_def ref_world0_def ref_run_defs ref_e0_def
        ristrettoCache_Get_def ristrettoCache_Set_def zero_User_def ObserveCacheOp_def)
  then have "6 \<le> length (filter otp_good (concat bufs))" using b by (simp add: otp_good_def)
  then obtain code e3 where code: "GenerateOTPCode ref_env 6 e1 = Some (Inr code, e3)"
    using otp_loop_returns [OF reads, of "''''"] by (auto simp: GenerateOTPCode_def)
  with l show ?thesis by blast
qed

theorem send_otp_sound_witness:
  "\<exists>w' code. SendOTP ref_env ref_uc ''ann@x.io'' (ref_world0 False []) = Some (None, w') \<and>
     rm_sent (w_mail w') = [(code, ''ann@x.io'')] \<and> length code = 6 \<and>
     rr_keys (w_redis w') (UserOTPKey ''ann@x.io'') = Some (json_Marshal code, Some (5 * Minute))"
proof -
  let ?w = "ref_world0 False []"
  obtain u1 e1 code e3 where l: "users_GetByEmail ref_env ref_users_uc ''ann@x.io'' (w_users ?w) ref_e0 =
      (Inr (ref_user False), u1, e1)" and code: "GenerateOTPCode ref_env 6 e1 = Some (Inr code, e3)"
    using ref_otp_code by blast
  have w: "w_env ?w = ref_e0" "w_mail ?w = \<lparr>rm_sent = [], rm_full = False\<rparr>" "rr_faults (w_redis ?w) = []"
    by (simp_all add: ref_world0_def)
  have "\<exists>w'. SendOTP ref_env ref_uc ''ann@x.io'' ?w = Some (None, w')"
    using l code w
    by (simp add: SendOTP_def on_users_def on_mail_def on_redis_def rm_send_def observe_def Let_def)
  then obtain w' where run: "SendOTP ref_env ref_uc ''ann@x.io'' ?w = Some (None, w')" ..
  from send_otp_sound [OF ref_auth.auth_flows_axioms run ref_coh0 ref_ascii] obtain c2 where
    c2: "length c2 = 6" "rm_send c2 ''ann@x.io'' (w_mail ?w) = (None, w_mail w')"
      "w_redis w' = snd (cache_Del (au_redis ref_uc) (OTPAttemptsKey ''ann@x.io'')
        (snd (cache_Set (au_redis ref_uc) (UserOTPKey ''ann@x.io'') c2 (w_redis ?w))))"
    by auto
  then have "rr_keys (w_redis w') (UserOTPKey ''ann@x.io'') = Some (json_Marshal c2, Some (5 * Minute))"
    using w(3) by (simp add: eff_defs duration_defs wrap64_def)
  moreover have "rm_sent (w_mail w') = [(c2, ''ann@x.io'')]" using c2(2) [symmetric] w(2) by (simp add: rm_send_def)
  ultimately show ?thesis using c2(1) run by blast
qed

end
