(* ===== verification/Password_Props.thy ===== *)
theory Password_Props
  imports Otp_Props
begin

text \<open>
  The password flows: what a successful change or reset means for the table, for the token cutoff
  in Redis and for the reset token; and what \<^verbatim>\<open>ForgotPassword\<close> does for unknown addresses.
\<close>

section \<open>Rotation of a credential\<close>

text \<open>The cutoff was handed to Redis: \<open>s'\<close> is the state after the write of the instant and, when Redis accepted
  it, the change of its time-to-live.\<close>

definition published :: "('u, 'r, 'm, 'e) auth_usecase \<Rightarrow> string \<Rightarrow> time \<Rightarrow> 'r \<Rightarrow> 'r \<Rightarrow> bool" where
  "published uc i now s s' \<longleftrightarrow>
     (case cache_Set (au_redis uc) (TokenCutoffKey i) (Itoa (time_Unix now)) s of
        (Some err, r) \<Rightarrow> s' = r
      | (None, r) \<Rightarrow> s' = snd (cache_Expire (au_redis uc) (TokenCutoffKey i) tokenCutoffTTL r))"

lemma cutoff_publishes: "published uc i t (w_redis w) (w_redis (recordTokenCutoff uc i t w))"
  by (auto simp: published_def recordTokenCutoff_def on_redis_def Let_def split: prod.splits option.splits)

context auth_flows
begin

lemma published_entry:
  assumes "published UC i now s s'" and "fst (cache_Set (au_redis UC) (TokenCutoffKey i) (Itoa (time_Unix now)) s) = None"
    and "rv s' (TokenCutoffKey i) = Some (p, lt)"
  shows "p = json_Marshal (Itoa (time_Unix now))"
proof -
  obtain r where x: "cache_Set (au_redis UC) (TokenCutoffKey i) (Itoa (time_Unix now)) s = (None, r)"
    using assms(2) by (metis prod.collapse)
  then obtain y where y: "cache_Expire (au_redis UC) (TokenCutoffKey i) tokenCutoffTTL r = (y, s')"
    using assms(1) by (cases "cache_Expire (au_redis UC) (TokenCutoffKey i) tokenCutoffTTL r") (simp add: published_def)
  from red.Expire_entry [OF y assms(3)] red.Set_entry [OF x] show ?thesis by auto
qed

lemma update_live: "m i = Some u \<Longrightarrow> live u \<Longrightarrow> user_update i f m = m(i \<mapsto> f u)"
  by (simp add: user_update_def)

text \<open>The lookup, the hashing and the update that \<^verbatim>\<open>ChangePassword\<close> and \<^verbatim>\<open>ResetPassword\<close> share.\<close>

lemma rotation:
  assumes get: "uc_GetByID (au_users UC) i s e = (Inr user, s1, e1)"
    and chg: "ChangePassword E user new cost e2 = (Inr user', e3)"
    and upd: "uc_UpdatePassword (au_users UC) (Some user') s1 e3 = (None, s2, e4)"
    and bcrypt: "bcrypt_lib E"
  shows "\<exists>now v. uPasswordChangedAt user' = Some now \<and> uv s (uid i) = Some user \<and> live user \<and>
    uv s2 = (uv s)(uid i \<mapsto> v) \<and> VerifyPassword E v new \<and> uPasswordChangedAt v = Some (ts now) \<and>
    uID v = uID user \<and> uEmail v = uEmail user \<and> uActive v = uActive user \<and> uRoleID v = uRoleID user \<and>
    (coh s \<longrightarrow> coh s2)"
proof -
  have user: "uID user = uid i" "uv s (uid i) = Some user" "live user" using usr.ByID_ok [OF get] by auto
  have fr: "uv s1 = uv s" "coh s \<Longrightarrow> coh s1" using usr.ByID_frame [OF get] by auto
  note ch = ChangePassword_frame [OF chg]
  obtain now where now: "uPasswordChangedAt user' = Some now" using ch(7) by blast
  have uid: "uid (uID user') = uid i" using usr.key [OF user(2)] user(1) ch(1) by simp
  have uv2: "uv s2 = (uv s)(uid i \<mapsto> rotated ts user' user)"
    using usr.Update_ok [OF upd] update_live [of "uv s" "uid i" user] user uid fr(1) by simp
  have coh: "coh s \<longrightarrow> coh s2"
    using usr.Update_coh [OF upd, of user] fr user uid ch(2) by auto
  have "VerifyPassword E (rotated ts user' user) new"
    using bcrypt_lib.ChangePassword_verifies [OF bcrypt chg]
    by (simp add: VerifyPassword_def rotated_def password_user_def)
  moreover have "uPasswordChangedAt (rotated ts user' user) = Some (ts now)" "uID (rotated ts user' user) = uID user"
    "uEmail (rotated ts user' user) = uEmail user" "uActive (rotated ts user' user) = uActive user"
    "uRoleID (rotated ts user' user) = uRoleID user"
    using now by (simp_all add: rotated_def password_user_def)
  ultimately show ?thesis using now user uv2 coh by blast
qed

lemma cutoff_effect:
  "w_users (recordTokenCutoff UC i t w) = w_users w \<and> w_mail (recordTokenCutoff UC i t w) = w_mail w \<and>
   only {TokenCutoffKey i} (rv (w_redis w)) (rv (w_redis (recordTokenCutoff UC i t w))) \<and>
   (\<forall>p lt. rv (w_redis (recordTokenCutoff UC i t w)) (TokenCutoffKey i) = Some (p, lt) \<longrightarrow>
      p = json_Marshal (Itoa (time_Unix t)) \<or> rv (w_redis w) (TokenCutoffKey i) = Some (p, lt))"
proof -
  let ?k = "TokenCutoffKey i" and ?v = "Itoa (time_Unix t)"
  obtain x r1 where x: "cache_Set (au_redis UC) ?k ?v (w_redis w) = (x, r1)" by fastforce
  obtain y r2 where y: "cache_Expire (au_redis UC) ?k tokenCutoffTTL r1 = (y, r2)" by fastforce
  note set = red.Set_entry [OF x]
  show ?thesis
  proof (cases x)
    case None
    have "p = json_Marshal ?v" if "rv r2 ?k = Some (p, lt)" for p lt
      using red.Expire_entry [OF y that] set None by auto
    then show ?thesis
      using x y None red.Set_only [OF x] red.Expire_only [OF y]
      by (auto simp: recordTokenCutoff_def on_redis_def Let_def intro: only_trans_same)
  next
    case (Some err)
    then show ?thesis using x set red.Set_only [OF x] by (auto simp: recordTokenCutoff_def on_redis_def Let_def)
  qed
qed

section \<open>ChangePassword\<close>

lemma Change_None:
  assumes "auth_ChangePassword E UC i cur new w = (None, w')"
  obtains user u1 e1 user' e2 u3 e3 where
    "new \<noteq> ''''" "uc_GetByID (au_users UC) i (w_users w) (w_env w) = (Inr user, u1, e1)"
    "VerifyPassword E user cur"
    "ChangePassword E user new (BcryptCost (au_cfg UC)) e1 = (Inr user', e2)"
    "uc_UpdatePassword (au_users UC) (Some user') u1 e2 = (None, u3, e3)"
    "w' = (case uPasswordChangedAt user' of None \<Rightarrow> w\<lparr>w_users := u3, w_env := e3\<rparr>
           | Some t \<Rightarrow> recordTokenCutoff UC i t (w\<lparr>w_users := u3, w_env := e3\<rparr>))"
proof -
  have new: "new \<noteq> ''''" using assms by (auto simp: auth_ChangePassword_def)
  obtain l u1 e1 where l: "uc_GetByID (au_users UC) i (w_users w) (w_env w) = (l, u1, e1)"
    by (metis prod_cases3)
  with assms new obtain user where user: "l = Inr user"
    by (cases l) (auto simp: auth_ChangePassword_def on_users_def)
  have ver: "VerifyPassword E user cur"
    using assms new l user by (auto simp: auth_ChangePassword_def on_users_def split: if_splits)
  obtain q e2 where q: "ChangePassword E user new (BcryptCost (au_cfg UC)) e1 = (q, e2)" by fastforce
  with assms new l user ver obtain user' where user': "q = Inr user'"
    by (cases q) (auto simp: auth_ChangePassword_def on_users_def on_env_def)
  obtain x u3 e3 where x: "uc_UpdatePassword (au_users UC) (Some user') u1 e2 = (x, u3, e3)"
    by (metis prod_cases3)
  have "x = None" and "w' = (case uPasswordChangedAt user' of None \<Rightarrow> w\<lparr>w_users := u3, w_env := e3\<rparr>
           | Some t \<Rightarrow> recordTokenCutoff UC i t (w\<lparr>w_users := u3, w_env := e3\<rparr>))"
    using assms new l user ver q user' x
    by (cases x; auto simp: auth_ChangePassword_def on_users_def on_env_def)+
  with that new l user ver q user' x show thesis by blast
qed

lemma Change_sound:
  assumes run: "auth_ChangePassword E UC i cur new w = (None, w')" and bcrypt: "bcrypt_lib E"
  shows "\<exists>user now v. uv (w_users w) (uid i) = Some user \<and> live user \<and> VerifyPassword E user cur \<and>
    uv (w_users w') = (uv (w_users w))(uid i \<mapsto> v) \<and> VerifyPassword E v new \<and>
    uPasswordChangedAt v = Some (ts now) \<and> uEmail v = uEmail user \<and> uActive v = uActive user \<and>
    uRoleID v = uRoleID user \<and> (coh (w_users w) \<longrightarrow> coh (w_users w')) \<and>
    published UC i now (w_redis w) (w_redis w') \<and>
    (\<forall>p lt. rv (w_redis w') (TokenCutoffKey i) = Some (p, lt) \<longrightarrow>
       p = json_Marshal (Itoa (time_Unix now)) \<or>
       fst (cache_Set (au_redis UC) (TokenCutoffKey i) (Itoa (time_Unix now)) (w_redis w)) \<noteq> None \<and>
       rv (w_redis w) (TokenCutoffKey i) = Some (p, lt))"
  using run
proof (cases rule: Change_None)
  case (1 user u1 e1 user' e2 u3 e3)
  from rotation [OF 1(2,4,5) bcrypt] obtain now v where
    R: "uPasswordChangedAt user' = Some now" "uv (w_users w) (uid i) = Some user" "live user"
      "uv u3 = (uv (w_users w))(uid i \<mapsto> v)" "VerifyPassword E v new" "uPasswordChangedAt v = Some (ts now)"
      "uEmail v = uEmail user" "uActive v = uActive user" "uRoleID v = uRoleID user"
      "coh (w_users w) \<longrightarrow> coh u3" by blast
  let ?w3 = "w\<lparr>w_users := u3, w_env := e3\<rparr>"
  have w': "w' = recordTokenCutoff UC i now ?w3" using 1(6) R(1) by simp
  have pub: "published UC i now (w_redis w) (w_redis w')" using cutoff_publishes [of UC i now ?w3] by (simp add: w')
  have "p = json_Marshal (Itoa (time_Unix now)) \<or>
      fst (cache_Set (au_redis UC) (TokenCutoffKey i) (Itoa (time_Unix now)) (w_redis w)) \<noteq> None \<and>
      rv (w_redis w) (TokenCutoffKey i) = Some (p, lt)" if "rv (w_redis w') (TokenCutoffKey i) = Some (p, lt)" for p lt
    using published_entry [OF pub _ that] cutoff_effect [of i now ?w3] that unfolding w' by auto
  moreover have "w_users w' = u3" using cutoff_effect [of i now ?w3] by (simp add: w')
  ultimately show ?thesis using R 1(3) pub by blast
qed

end


section \<open>ResetPassword\<close>

context auth_flows
begin

abbreviation del :: "string \<Rightarrow> ('u, 'r, 'm, 'e) world \<Rightarrow> ('u, 'r, 'm, 'e) world" where
  "del k w \<equiv> snd (on_redis (cache_Del (au_redis UC) k) w)"

lemma del_frame [simp]: "w_users (del k w) = w_users w" "w_mail (del k w) = w_mail w" "w_env (del k w) = w_env w"
  by (simp_all add: on_redis_def split: prod.splits)

lemma del_redis: "w_redis (del k w) = snd (cache_Del (au_redis UC) k (w_redis w))"
  by (simp add: on_redis_def split: prod.splits)

lemma del_only: "only {k} (rv (w_redis w)) (rv (w_redis (del k w)))"
  using red.Del_only by (cases "cache_Del (au_redis UC) k (w_redis w)") (simp add: on_redis_def)

lemma del_gone:
  assumes "fst (cache_Del (au_redis UC) k (w_redis w)) = None"
  shows "rv (w_redis (del k w)) k = None"
proof -
  obtain r where r: "cache_Del (au_redis UC) k (w_redis w) = (None, r)" by (metis assms prod.collapse)
  then show ?thesis using red.Del_gone [OF r] by (simp add: on_redis_def)
qed

lemma Reset_None:
  assumes "ResetPassword E UC token new w = (None, w')"
  obtains i r1 user u1 e1 user' e2 u3 e3 where
    "new \<noteq> ''''" "token \<noteq> ''''" "cache_Get (au_redis UC) (PasswordResetKey token) (w_redis w) = (Inr i, r1)"
    "uc_GetByID (au_users UC) i (w_users w) (w_env w) = (Inr user, u1, e1)"
    "ChangePassword E user new (BcryptCost (au_cfg UC)) e1 = (Inr user', e2)"
    "uc_UpdatePassword (au_users UC) (Some user') u1 e2 = (None, u3, e3)"
    "w' = (case uPasswordChangedAt user' of
         None \<Rightarrow> del (UserResetIndexKey i) (del (PasswordResetKey token) (w\<lparr>w_redis := r1, w_users := u3, w_env := e3\<rparr>))
       | Some t \<Rightarrow> recordTokenCutoff UC i t
           (del (UserResetIndexKey i) (del (PasswordResetKey token) (w\<lparr>w_redis := r1, w_users := u3, w_env := e3\<rparr>))))"
proof -
  have new: "new \<noteq> ''''" "token \<noteq> ''''" using assms by (auto simp: ResetPassword_def split: if_splits)
  obtain g r1 where g: "cache_Get (au_redis UC) (PasswordResetKey token) (w_redis w) = (g, r1)" by fastforce
  with assms new obtain i where i: "g = Inr i"
    by (cases g) (auto simp: ResetPassword_def on_redis_def)
  have ne: "i \<noteq> ''''" using assms new g i by (auto simp: ResetPassword_def on_redis_def)
  obtain l u1 e1 where l: "uc_GetByID (au_users UC) i (w_users w) (w_env w) = (l, u1, e1)"
    by (metis prod_cases3)
  with assms new g i ne obtain user where user: "l = Inr user"
    by (cases l) (auto simp: ResetPassword_def on_users_def on_redis_def)
  obtain q e2 where q: "ChangePassword E user new (BcryptCost (au_cfg UC)) e1 = (q, e2)" by fastforce
  with assms new g i ne l user obtain user' where user': "q = Inr user'"
    by (cases q) (auto simp: ResetPassword_def on_users_def on_env_def on_redis_def)
  obtain x u3 e3 where x: "uc_UpdatePassword (au_users UC) (Some user') u1 e2 = (x, u3, e3)"
    by (metis prod_cases3)
  let ?d = "del (UserResetIndexKey i) (del (PasswordResetKey token) (w\<lparr>w_redis := r1, w_users := u3, w_env := e3\<rparr>))"
  have "ResetPassword E UC token new w =
     (case x of Some err \<Rightarrow> (Some err, w\<lparr>w_redis := r1, w_users := u3, w_env := e3\<rparr>)
      | None \<Rightarrow> (None, case uPasswordChangedAt user' of None \<Rightarrow> ?d | Some t \<Rightarrow> recordTokenCutoff UC i t ?d))"
    using new g i ne l user q user' x
    by (simp add: ResetPassword_def on_users_def on_env_def on_redis_def [of "cache_Get _ _"] Let_def
        split: option.splits)
  with assms have "x = None" and
    "w' = (case uPasswordChangedAt user' of None \<Rightarrow> ?d | Some t \<Rightarrow> recordTokenCutoff UC i t ?d)"
    by (auto split: option.splits)
  with that new g i l user q user' x show thesis by blast
qed

lemma Reset_sound:
  assumes run: "ResetPassword E UC token new w = (None, w')" and bcrypt: "bcrypt_lib E"
  shows "\<exists>i r1 p t user now v. cache_Get (au_redis UC) (PasswordResetKey token) (w_redis w) = (Inr i, r1) \<and>
    rv (w_redis w) (PasswordResetKey token) = Some (p, t) \<and> json_Unmarshal p = Some i \<and>
    uv (w_users w) (uid i) = Some user \<and> live user \<and> uv (w_users w') = (uv (w_users w))(uid i \<mapsto> v) \<and>
    VerifyPassword E v new \<and> uPasswordChangedAt v = Some (ts now) \<and> uEmail v = uEmail user \<and>
    uActive v = uActive user \<and> uRoleID v = uRoleID user \<and> (coh (w_users w) \<longrightarrow> coh (w_users w')) \<and>
    published UC i now (snd (cache_Del (au_redis UC) (UserResetIndexKey i)
      (snd (cache_Del (au_redis UC) (PasswordResetKey token) r1)))) (w_redis w') \<and>
    (fst (cache_Del (au_redis UC) (PasswordResetKey token) r1) = None \<longrightarrow>
      rv (w_redis w') (PasswordResetKey token) = None)"
proof -
  obtain i r1 user u1 e1 user' e2 u3 e3 where "new \<noteq> ''''" "token \<noteq> ''''"
    and get: "cache_Get (au_redis UC) (PasswordResetKey token) (w_redis w) = (Inr i, r1)"
    and rot: "uc_GetByID (au_users UC) i (w_users w) (w_env w) = (Inr user, u1, e1)"
      "ChangePassword E user new (BcryptCost (au_cfg UC)) e1 = (Inr user', e2)"
      "uc_UpdatePassword (au_users UC) (Some user') u1 e2 = (None, u3, e3)"
    and end_w: "w' = (case uPasswordChangedAt user' of
         None \<Rightarrow> del (UserResetIndexKey i) (del (PasswordResetKey token) (w\<lparr>w_redis := r1, w_users := u3, w_env := e3\<rparr>))
       | Some t \<Rightarrow> recordTokenCutoff UC i t
           (del (UserResetIndexKey i) (del (PasswordResetKey token) (w\<lparr>w_redis := r1, w_users := u3, w_env := e3\<rparr>))))"
    by (rule Reset_None [OF run])
  obtain p t where p: "rv (w_redis w) (PasswordResetKey token) = Some (p, t)" "json_Unmarshal p = Some i"
    using red.Get_ok [OF get] by blast
  from rotation [OF rot bcrypt] obtain now v where
    R: "uPasswordChangedAt user' = Some now" "uv (w_users w) (uid i) = Some user" "live user"
      "uv u3 = (uv (w_users w))(uid i \<mapsto> v)" "VerifyPassword E v new" "uPasswordChangedAt v = Some (ts now)"
      "uEmail v = uEmail user" "uActive v = uActive user" "uRoleID v = uRoleID user"
      "coh (w_users w) \<longrightarrow> coh u3" by blast
  let ?w1 = "del (PasswordResetKey token) (w\<lparr>w_redis := r1, w_users := u3, w_env := e3\<rparr>)"
  let ?w2 = "del (UserResetIndexKey i) ?w1"
  have w': "w' = recordTokenCutoff UC i now ?w2" using end_w R(1) by simp
  note C = cutoff_effect [of i now ?w2]
  have users: "w_users w' = u3" using C by (simp add: w')
  have o2: "only {UserResetIndexKey i} (rv (w_redis ?w1)) (rv (w_redis ?w2))" by (rule del_only)
  have o3: "only {TokenCutoffKey i} (rv (w_redis ?w2)) (rv (w_redis w'))" using C by (simp add: w')
  have "published UC i now (snd (cache_Del (au_redis UC) (UserResetIndexKey i)
      (snd (cache_Del (au_redis UC) (PasswordResetKey token) r1)))) (w_redis w')"
    using cutoff_publishes [of UC i now ?w2] by (simp add: w' del_redis)
  moreover have "rv (w_redis w') (PasswordResetKey token) = None"
    if "fst (cache_Del (au_redis UC) (PasswordResetKey token) r1) = None"
  proof -
    have "rv (w_redis ?w1) (PasswordResetKey token) = None" by (rule del_gone) (use that in simp)
    then show ?thesis using only_None [OF o2, of "PasswordResetKey token"] only_None [OF o3] by simp
  qed
  ultimately show ?thesis using p R users get
    by (intro exI [of _ i] exI [of _ r1] exI [of _ p] exI [of _ t] exI [of _ user] exI [of _ now] exI [of _ v]) simp
qed

lemma Reset_spent:
  assumes "rv (w_redis w) (PasswordResetKey token) = None" and "new \<noteq> ''''" and "token \<noteq> ''''"
  shows "fst (ResetPassword E UC token new w) = Some (Unauthorized ''reset token is invalid or expired'')"
proof -
  obtain x r where "cache_Get (au_redis UC) (PasswordResetKey token) (w_redis w) = (Inl x, r)"
    using red.Get_absent [OF assms(1)] by blast
  with assms(2,3) show ?thesis by (simp add: ResetPassword_def on_redis_def)
qed

end


section \<open>ForgotPassword\<close>

context auth_flows
begin

abbreviation forgot_count :: "string \<Rightarrow> ('u, 'r, 'm, 'e) world \<Rightarrow> int \<times> ('u, 'r, 'm, 'e) world" where
  "forgot_count em w \<equiv>
     (if ForgotMaxAttempts (au_cfg UC) > 0
      then count_attempt (au_redis UC) (ForgotAttemptsKey (NormalizeEmail E em)) (ForgotLockoutTTL (au_cfg UC)) w
      else (0, w))"

lemma Forgot_run:
  assumes "forgot_count em w = (n, w1)"
    and "ForgotMaxAttempts (au_cfg UC) \<le> 0 \<or> n \<le> ForgotMaxAttempts (au_cfg UC)"
    and "generateResetToken E (w_env w1) = (Inr token, e1)"
    and "uc_GetByEmail (au_users UC) (NormalizeEmail E em) (w_users w1) e1 = (l, u2, e2)"
  shows "ForgotPassword E UC em w =
    (case l of
       Inl err \<Rightarrow>
         if is_NotFound err then
           (None, del (PasswordResetKey token)
              (snd (on_redis (cache_Expire (au_redis UC) (PasswordResetKey token) (PasswordResetTTL (au_cfg UC)))
                (snd (on_redis (cache_Set (au_redis UC) (PasswordResetKey token) ''decoy'')
                  (w1\<lparr>w_users := u2, w_env := e2\<rparr>))))))
         else (Some err, w1\<lparr>w_users := u2, w_env := e2\<rparr>)
     | Inr user \<Rightarrow> issue_reset UC (NormalizeEmail E em) token user (w1\<lparr>w_users := u2, w_env := e2\<rparr>))"
  unfolding ForgotPassword_def Let_def assms(1) prod.case
  using assms(2-4) by (auto simp: on_env_def on_users_def split: sum.splits)

lemma Forgot_unknown:
  assumes "forgot_count em w = (n, w1)"
    and "ForgotMaxAttempts (au_cfg UC) \<le> 0 \<or> n \<le> ForgotMaxAttempts (au_cfg UC)"
    and "generateResetToken E (w_env w1) = (Inr token, e1)"
    and "uc_GetByEmail (au_users UC) (NormalizeEmail E em) (w_users w1) e1 = (Inl err, u2, e2)" "is_NotFound err"
    and "ForgotPassword E UC em w = (r, w')"
  shows "r = None \<and> w_mail w' = w_mail w \<and> uv (w_users w') = uv (w_users w) \<and>
    only {ForgotAttemptsKey (NormalizeEmail E em), PasswordResetKey token} (rv (w_redis w)) (rv (w_redis w')) \<and>
    (fst (cache_Del (au_redis UC) (PasswordResetKey token)
       (snd (cache_Expire (au_redis UC) (PasswordResetKey token) (PasswordResetTTL (au_cfg UC))
         (snd (cache_Set (au_redis UC) (PasswordResetKey token) ''decoy'' (w_redis w1)))))) = None \<longrightarrow>
     rv (w_redis w') (PasswordResetKey token) = None)"
proof -
  let ?t = "PasswordResetKey token" and ?a = "ForgotAttemptsKey (NormalizeEmail E em)"
  have fr: "w_users w1 = w_users w" "w_mail w1 = w_mail w" "only {?a} (rv (w_redis w)) (rv (w_redis w1))"
    using assms(1) count_frame [of "ForgotAttemptsKey (NormalizeEmail E em)" "ForgotLockoutTTL (au_cfg UC)" w n w1]
    by (auto split: if_splits)
  have "r = None" and w': "w' = del (PasswordResetKey token)
      (snd (on_redis (cache_Expire (au_redis UC) (PasswordResetKey token) (PasswordResetTTL (au_cfg UC)))
        (snd (on_redis (cache_Set (au_redis UC) (PasswordResetKey token) ''decoy'')
          (w1\<lparr>w_users := u2, w_env := e2\<rparr>)))))"
    using assms(6) Forgot_run [OF assms(1-4)] assms(5) by simp_all
  moreover have "w_mail w' = w_mail w1 \<and> w_users w' = u2"
    unfolding w' by (simp add: on_redis_def split: prod.splits)
  moreover define s1 s2 where "s1 = snd (cache_Set (au_redis UC) ?t ''decoy'' (w_redis w1))"
    and "s2 = snd (cache_Expire (au_redis UC) ?t (PasswordResetTTL (au_cfg UC)) s1)"
  have r: "w_redis w' = snd (cache_Del (au_redis UC) ?t s2)"
    unfolding w' s1_def s2_def by (simp add: on_redis_def split: prod.splits)
  have "only {?t} (rv (w_redis w1)) (rv s1)" "only {?t} (rv s1) (rv s2)" "only {?t} (rv s2) (rv (w_redis w'))"
    unfolding r s1_def s2_def by (metis red.Set_only red.Expire_only red.Del_only prod.collapse)+
  then have "only {?t} (rv (w_redis w1)) (rv (w_redis w'))" by (blast intro: only_trans_same)
  then have "only {?a, ?t} (rv (w_redis w)) (rv (w_redis w'))"
    using only_trans [OF fr(3)] by fastforce
  moreover have "rv (w_redis w') ?t = None" if "fst (cache_Del (au_redis UC) ?t s2) = None"
    unfolding r using red.Del_gone that by (metis prod.collapse)
  ultimately show ?thesis using fr usr.ByEmail_frame [OF assms(4)] unfolding s1_def s2_def by simp
qed

text \<open>The tail for a known address: the earlier token of the user is gone, the new one is mailed.\<close>

lemma issue_effect:
  assumes run: "issue_reset UC em token user w = (None, w')"
    and prior: "cache_Get (au_redis UC) (UserResetIndexKey (uID user)) (w_redis w) = (g, r1)"
  shows "\<exists>m. mail_SendPasswordReset (au_mailer UC) token em (w_mail w) = (None, m) \<and> w_mail w' = m \<and>
    w_users w' = w_users w \<and>
    (\<forall>p t. rv (w_redis w') (PasswordResetKey token) = Some (p, t) \<longrightarrow> p = json_Marshal (uID user)) \<and>
    (\<forall>old. g = Inr old \<and> old \<noteq> '''' \<and> old \<noteq> token \<and> fst (cache_Del (au_redis UC) (PasswordResetKey old) r1) = None \<longrightarrow>
       rv (w_redis w') (PasswordResetKey old) = None)"
proof -
  let ?tk = "PasswordResetKey token" and ?ik = "UserResetIndexKey (uID user)" and ?ttl = "PasswordResetTTL (au_cfg UC)"
  define w1 where "w1 = w\<lparr>w_redis := r1\<rparr>"
  define w2 where "w2 = (case g of Inr p \<Rightarrow> if p \<noteq> '''' then del (PasswordResetKey p) w1 else w1 | Inl _ \<Rightarrow> w1)"
  obtain s r3 where s: "cache_Set (au_redis UC) ?tk (uID user) (w_redis w2) = (s, r3)" by fastforce
  obtain x r4 where x: "cache_Expire (au_redis UC) ?tk ?ttl r3 = (x, r4)" by fastforce
  obtain y r5 where y: "cache_Set (au_redis UC) ?ik token r4 = (y, r5)" by fastforce
  obtain z r6 where z: "cache_Expire (au_redis UC) ?ik ?ttl r5 = (z, r6)" by fastforce
  obtain ml m where m: "mail_SendPasswordReset (au_mailer UC) token em (w_mail w2) = (ml, m)" by fastforce
  have w2: "w_mail w2 = w_mail w" "w_users w2 = w_users w"
    by (auto simp: w2_def w1_def split: sum.splits)
  have unfolded: "issue_reset UC em token user w =
     (case s of Some err \<Rightarrow> (Some (InternalCause (errorf_w ''persist reset token'' err)), w2\<lparr>w_redis := r3\<rparr>)
      | None \<Rightarrow>
          (case ml of
             Some err \<Rightarrow> (Some (InternalCause (errorf_w ''send reset email'' err)),
                w2\<lparr>w_redis := (case y of Some e \<Rightarrow> r5 | None \<Rightarrow> r6), w_mail := m\<rparr>)
           | None \<Rightarrow> (None, w2\<lparr>w_redis := (case y of Some e \<Rightarrow> r5 | None \<Rightarrow> r6), w_mail := m\<rparr>)))"
    using prior s x y z m
    by (simp add: issue_reset_def on_redis_def [of "cache_Get _ _"] w1_def [symmetric] w2_def [symmetric])
       (simp add: on_redis_def on_mail_def Let_def split: option.splits)
  with run have s0: "s = None" and ml: "ml = None"
    and w': "w' = w2\<lparr>w_redis := (case y of Some e \<Rightarrow> r5 | None \<Rightarrow> r6), w_mail := m\<rparr>"
    by (auto split: option.splits)
  have r': "only {?ik} (rv r4) (rv (w_redis w'))"
    using red.Set_only [OF y] red.Expire_only [OF z] by (auto simp: w' intro: only_trans_same split: option.splits)
  have tok: "p = json_Marshal (uID user)" if "rv (w_redis w') ?tk = Some (p, t)" for p t
  proof -
    have "rv r4 ?tk = Some (p, t)" by (rule only_Some [OF r' _ that]) simp
    from red.Expire_entry [OF x this] red.Set_entry [OF s] s0 show ?thesis by auto
  qed
  have old: "rv (w_redis w') (PasswordResetKey old) = None"
    if "g = Inr old" "old \<noteq> ''''" "old \<noteq> token" "fst (cache_Del (au_redis UC) (PasswordResetKey old) r1) = None" for old
  proof -
    have "rv (w_redis w2) (PasswordResetKey old) = None"
      using that del_gone [of "PasswordResetKey old" w1] by (simp add: w2_def) (simp add: w1_def)
    moreover have "only {?tk} (rv (w_redis w2)) (rv r4)"
      by (rule only_trans_same [OF red.Set_only [OF s] red.Expire_only [OF x]])
    ultimately have "rv r4 (PasswordResetKey old) = None" using only_None that(3) by fastforce
    with only_None [OF r'] show ?thesis by simp
  qed
  show ?thesis using m ml w' w2 tok old by auto
qed

end


section \<open>Properties\<close>

text \<open>C8: a password change succeeds only for a live user whose current password was given; afterwards
  the new password verifies against the stored row, the instant of the change is recorded in the
  row, no other row has changed, and the cache is still coherent. The same instant is written to Redis
  as the cutoff of the user, with its time-to-live; an entry found there afterwards is this cutoff,
  unless Redis refused the write, which the flow tolerates.\<close>

theorem change_password_sound:
  assumes "auth_flows UC rv dttl E used uv coh ts uid" and "bcrypt_lib E"
    and "auth_ChangePassword E UC i cur new w = (None, w')"
  shows "\<exists>user now v. uv (w_users w) (uid i) = Some user \<and> live user \<and> VerifyPassword E user cur \<and>
    uv (w_users w') = (uv (w_users w))(uid i \<mapsto> v) \<and> VerifyPassword E v new \<and>
    uPasswordChangedAt v = Some (ts now) \<and> uEmail v = uEmail user \<and> uActive v = uActive user \<and>
    uRoleID v = uRoleID user \<and> (coh (w_users w) \<longrightarrow> coh (w_users w')) \<and>
    published UC i now (w_redis w) (w_redis w') \<and>
    (\<forall>p lt. rv (w_redis w') (TokenCutoffKey i) = Some (p, lt) \<longrightarrow>
       p = json_Marshal (Itoa (time_Unix now)) \<or>
       fst (cache_Set (au_redis UC) (TokenCutoffKey i) (Itoa (time_Unix now)) (w_redis w)) \<noteq> None \<and>
       rv (w_redis w) (TokenCutoffKey i) = Some (p, lt))"
  by (rule auth_flows.Change_sound [OF assms(1,3,2)])

lemma ref_byid:
  "users_GetByID ref_users_uc ''id-0'' (w_users (ref_world0 act [])) e =
     (Inr (ref_user act), w_users (ref_world0 act []), e)"
  by (simp add: users_GetByID_def ref_world0_def ref_user_def ref_ann_def ref_run_defs ToV1Domain_def)

lemma ref_update:
  assumes "uID u = ''id-0''"
  shows "\<exists>s. users_UpdatePassword ref_users_uc (Some u) (w_users (ref_world0 act [])) e = (None, s, e)"
  using assms
  by (simp add: users_UpdatePassword_def ref_world0_def ref_run_defs postgres_UpdatePassword_def
      rd_named_exec_def rd_matches_def rows_affected_def FromUsersV1Domain_def)

lemma ref_change:
  "ChangePassword ref_env u ''New_pw_2'' 10 e =
     (Inr (u\<lparr>uPassword := ref_hash ''New_pw_2'' 10, uPasswordChangedAt := Some (rw_now e),
        uUpdatedAt := Some (rw_now e)\<rparr>), e)"
  by (simp add: ChangePassword_def clamp_cost_def ref_generate_def)

lemma ref_cost [simp]: "BcryptCost ref_cfg = 10"
  by (simp add: ref_cfg_def)

theorem change_password_sound_witness:
  "\<exists>w' v. auth_ChangePassword ref_env ref_uc ''id-0'' ''Old_pw_1'' ''New_pw_2'' (ref_world0 True []) = (None, w') \<and>
     ref_uv (w_users w') ''id-0'' = Some v \<and> VerifyPassword ref_env v ''New_pw_2'' \<and>
     (\<exists>p. rr_keys (w_redis w') (TokenCutoffKey ''id-0'') = Some (p, Some tokenCutoffTTL))"
proof -
  let ?w = "ref_world0 True []" and ?u = "(ref_user True)\<lparr>uPassword := ref_hash ''New_pw_2'' 10,
    uPasswordChangedAt := Some (rw_now ref_e0), uUpdatedAt := Some (rw_now ref_e0)\<rparr>"
  obtain s where s: "users_UpdatePassword ref_users_uc (Some ?u) (w_users ?w) ref_e0 = (None, s, ref_e0)"
    using ref_update [of ?u True ref_e0] by auto
  have e: "w_env ?w = ref_e0" by (simp add: ref_world0_def)
  have "\<exists>w'. auth_ChangePassword ref_env ref_uc ''id-0'' ''Old_pw_1'' ''New_pw_2'' ?w = (None, w')"
    using s e by (simp add: auth_ChangePassword_def on_users_def on_env_def ref_byid ref_change ref_revoked(1))
  then obtain w' where run:
    "auth_ChangePassword ref_env ref_uc ''id-0'' ''Old_pw_1'' ''New_pw_2'' ?w = (None, w')" ..
  from change_password_sound [OF ref_auth.auth_flows_axioms ref_bcrypt.bcrypt_lib_axioms run] obtain v now where
    v: "ref_uv (w_users w') ''id-0'' = Some v" "VerifyPassword ref_env v ''New_pw_2''"
      "published ref_uc ''id-0'' now (w_redis ?w) (w_redis w')" by auto
  have "rr_faults (w_redis ?w) = []" by (simp add: ref_world0_def)
  with v(3) have "\<exists>p. rr_keys (w_redis w') (TokenCutoffKey ''id-0'') = Some (p, Some tokenCutoffTTL)"
    by (simp add: published_def eff_defs tokenCutoffTTL_def duration_defs)
  with run v show ?thesis by blast
qed

text \<open>C9: a reset succeeds only with a token that Redis maps to the identifier of a live user; the new
  password then verifies, only that row has changed, the token and the index of the user are deleted
  from Redis and the cutoff is written. When Redis answered the deletion of the token, the token is spent:
  a second reset with it is refused as unauthorised. (The flow ignores a deletion that Redis refused.)\<close>

theorem reset_password_sound:
  assumes "auth_flows UC rv dttl E used uv coh ts uid" and "bcrypt_lib E"
    and "ResetPassword E UC token new w = (None, w')"
  shows "\<exists>i r1 p t user now v. cache_Get (au_redis UC) (PasswordResetKey token) (w_redis w) = (Inr i, r1) \<and>
    rv (w_redis w) (PasswordResetKey token) = Some (p, t) \<and> json_Unmarshal p = Some i \<and>
    uv (w_users w) (uid i) = Some user \<and> live user \<and> uv (w_users w') = (uv (w_users w))(uid i \<mapsto> v) \<and>
    VerifyPassword E v new \<and> uPasswordChangedAt v = Some (ts now) \<and> uEmail v = uEmail user \<and>
    uActive v = uActive user \<and> uRoleID v = uRoleID user \<and> (coh (w_users w) \<longrightarrow> coh (w_users w')) \<and>
    published UC i now (snd (cache_Del (au_redis UC) (UserResetIndexKey i)
      (snd (cache_Del (au_redis UC) (PasswordResetKey token) r1)))) (w_redis w') \<and>
    (fst (cache_Del (au_redis UC) (PasswordResetKey token) r1) = None \<longrightarrow>
      (\<forall>new2. new2 \<noteq> '''' \<longrightarrow> fst (ResetPassword E UC token new2 w') =
        Some (Unauthorized ''reset token is invalid or expired'')))"
proof -
  have "token \<noteq> ''''" using assms(3) by (auto simp: ResetPassword_def split: if_splits)
  then have spent: "rv (w_redis w') (PasswordResetKey token) = None \<Longrightarrow> (\<forall>new2. new2 \<noteq> '''' \<longrightarrow>
      fst (ResetPassword E UC token new2 w') = Some (Unauthorized ''reset token is invalid or expired''))"
    using auth_flows.Reset_spent [OF assms(1)] by blast
  show ?thesis using auth_flows.Reset_sound [OF assms(1,3,2)] spent by (elim ex_forward conj_forward) (assumption | simp)+
qed

theorem reset_password_sound_witness:
  "\<exists>w w' v. ResetPassword ref_env ref_uc_up ''tok'' ''New_pw_2'' w = (None, w') \<and>
     ref_uv (w_users w') ''id-0'' = Some v \<and> VerifyPassword ref_env v ''New_pw_2'' \<and>
     fst (ResetPassword ref_env ref_uc_up ''tok'' ''Other_3'' w') =
       Some (Unauthorized ''reset token is invalid or expired'')"
proof -
  let ?r = "\<lparr>rr_keys = [PasswordResetKey ''tok'' \<mapsto> (json_Marshal ''id-0'', Some (30 * Minute))], rr_faults = []\<rparr>"
  let ?w = "(ref_world0 True [])\<lparr>w_redis := ?r\<rparr>" and ?u = "(ref_user True)\<lparr>uPassword := ref_hash ''New_pw_2'' 10,
    uPasswordChangedAt := Some (rw_now ref_e0), uUpdatedAt := Some (rw_now ref_e0)\<rparr>"
  obtain s where s: "users_UpdatePassword ref_users_uc (Some ?u) (w_users (ref_world0 True [])) ref_e0 = (None, s, ref_e0)"
    using ref_update [of ?u True ref_e0] by auto
  have j: "json_Unmarshal (json_Marshal ''id-0'') = Some ''id-0''"
    by (rule json_roundtrip) (simp add: is_ascii_def byte_val_def)
  have g: "cache_Get (au_redis ref_uc_up) (PasswordResetKey ''tok'') ?r = (Inr ''id-0'', ?r)"
    using j by (simp add: ref_uc_up_def redisCache_defs ref_client_def ref_client_up_def rr_down_def rr_tick_def)
  have up: "au_users ref_uc_up = users_dict ref_env ref_users_uc" "au_cfg ref_uc_up = ref_cfg"
    "w_env (ref_world0 True []) = ref_e0" "\<forall>k s. fst (cache_Del (au_redis ref_uc_up) k s) = None"
    by (simp_all add: ref_uc_up_def ref_world0_def redisCache_defs ref_client_up_def)
  have "\<exists>w'. ResetPassword ref_env ref_uc_up ''tok'' ''New_pw_2'' ?w = (None, w')"
    using s g up
    by (simp add: ResetPassword_def on_users_def on_env_def on_redis_def [of "cache_Get _ _"] ref_byid ref_change Let_def)
  then obtain w' where run: "ResetPassword ref_env ref_uc_up ''tok'' ''New_pw_2'' ?w = (None, w')" ..
  from reset_password_sound [OF ref_auth_up.auth_flows_axioms ref_bcrypt.bcrypt_lib_axioms run] up(4) j g
  obtain v where "ref_uv (w_users w') ''id-0'' = Some v" "VerifyPassword ref_env v ''New_pw_2''"
    "fst (ResetPassword ref_env ref_uc_up ''tok'' ''Other_3'' w') =
       Some (Unauthorized ''reset token is invalid or expired'')"
    by auto
  with run show ?thesis by blast
qed

text \<open>C18: below the limit of requests, \<^verbatim>\<open>ForgotPassword\<close> reports success for an address without an account as it
  does for a known one, sends no mail and leaves the table alone. In Redis it touches nothing but the
  counter of requests of the address and the entry of the token it made up, and that entry is gone
  again when Redis answered its deletion.\<close>

theorem forgot_password_unknown:
  assumes "auth_flows UC rv dttl E used uv coh ts uid"
    and "count_attempt (au_redis UC) (ForgotAttemptsKey (NormalizeEmail E em)) (ForgotLockoutTTL (au_cfg UC)) w = (n, w1)"
    and "0 < ForgotMaxAttempts (au_cfg UC)" and "n \<le> ForgotMaxAttempts (au_cfg UC)"
    and "generateResetToken E (w_env w) = (Inr token, e1)"
    and "uc_GetByEmail (au_users UC) (NormalizeEmail E em) (w_users w) e1 = (Inl err, u2, e2)"
    and "domain_type err = Some ErrTypeNotFound" and "ForgotPassword E UC em w = (r, w')"
  shows "r = None \<and> w_mail w' = w_mail w \<and> uv (w_users w') = uv (w_users w) \<and>
    only {ForgotAttemptsKey (NormalizeEmail E em), PasswordResetKey token} (rv (w_redis w)) (rv (w_redis w')) \<and>
    (fst (cache_Del (au_redis UC) (PasswordResetKey token)
       (snd (cache_Expire (au_redis UC) (PasswordResetKey token) (PasswordResetTTL (au_cfg UC))
         (snd (cache_Set (au_redis UC) (PasswordResetKey token) ''decoy'' (w_redis w1)))))) = None \<longrightarrow>
     rv (w_redis w') (PasswordResetKey token) = None)"
proof -
  have fr: "w_users w1 = w_users w" "w_env w1 = w_env w"
    using auth_flows.count_frame [OF assms(1,2)] by simp_all
  show ?thesis
    using auth_flows.Forgot_unknown [OF assms(1), of em w n w1 token e1 err u2 e2 r w'] assms(2-8) fr
    by (simp add: is_NotFound_def)
qed


text \<open>C19: for a known address a successful \<^verbatim>\<open>ForgotPassword\<close> below the limit of requests mails the new token to
  that address, and an entry of the token in Redis is the identifier of the user. When Redis answered
  the read of the user's index with the token issued before, and the deletion of that token, then the
  earlier token can no longer be used. (The flow ignores the errors of both calls.)\<close>

theorem reset_token_replaces_earlier:
  assumes "auth_flows UC rv dttl E used uv coh ts uid"
    and "count_attempt (au_redis UC) (ForgotAttemptsKey (NormalizeEmail E em)) (ForgotLockoutTTL (au_cfg UC)) w = (n, w1)"
    and "0 < ForgotMaxAttempts (au_cfg UC)" and "n \<le> ForgotMaxAttempts (au_cfg UC)"
    and "generateResetToken E (w_env w) = (Inr token, e1)"
    and "uc_GetByEmail (au_users UC) (NormalizeEmail E em) (w_users w) e1 = (Inr user, u2, e2)"
    and "ForgotPassword E UC em w = (None, w')"
    and "cache_Get (au_redis UC) (UserResetIndexKey (uID user)) (w_redis w1) = (g, r1)"
  shows "mail_SendPasswordReset (au_mailer UC) token (NormalizeEmail E em) (w_mail w) = (None, w_mail w') \<and>
    uv (w_users w') = uv (w_users w) \<and>
    (\<forall>p t. rv (w_redis w') (PasswordResetKey token) = Some (p, t) \<longrightarrow> p = json_Marshal (uID user)) \<and>
    (\<forall>old new. g = Inr old \<and> old \<noteq> '''' \<and> old \<noteq> token \<and>
       fst (cache_Del (au_redis UC) (PasswordResetKey old) r1) = None \<and> new \<noteq> '''' \<longrightarrow>
       fst (ResetPassword E UC old new w') = Some (Unauthorized ''reset token is invalid or expired''))"
proof -
  have fr: "w_users w1 = w_users w" "w_env w1 = w_env w" "w_mail w1 = w_mail w"
    using auth_flows.count_frame [OF assms(1,2)] by simp_all
  have run: "issue_reset UC (NormalizeEmail E em) token user (w1\<lparr>w_users := u2, w_env := e2\<rparr>) = (None, w')"
    using auth_flows.Forgot_run [OF assms(1), of em w n w1 token e1 "Inr user" u2 e2] assms(2-7) fr by simp
  have get: "cache_Get (au_redis UC) (UserResetIndexKey (uID user)) (w_redis (w1\<lparr>w_users := u2, w_env := e2\<rparr>)) = (g, r1)"
    using assms(8) by simp
  have "uv u2 = uv (w_users w)"
    using users_service.ByEmail_frame [OF auth_flows.axioms(2) [OF assms(1)] assms(6)] by simp
  with auth_flows.issue_effect [OF assms(1) run get] auth_flows.Reset_spent [OF assms(1)] fr show ?thesis by auto
qed

section \<open>Witnesses of the forgotten password\<close>

lemma ref_up_cache [simp]:
  assumes "rr_faults s = []"
  shows "cache_Set (NewRedisCache ref_client_up n) k v s =
      (None, s\<lparr>rr_keys := eff_set k (json_Marshal v) (wrap64 (n * Minute)) (rr_keys s)\<rparr>)"
    "cache_Del (NewRedisCache ref_client_up n) k s = (None, s\<lparr>rr_keys := eff_del k (rr_keys s)\<rparr>)"
    "cache_Expire (NewRedisCache ref_client_up n) k t s = (None, s\<lparr>rr_keys := eff_expire k t (rr_keys s)\<rparr>)"
    "rr_keys s k = None \<Longrightarrow> cache_Incr (NewRedisCache ref_client_up n) k s =
      (Inr 1, s\<lparr>rr_keys := eff_incr k (rr_keys s)\<rparr>)"
    "rr_keys s k = Some (p, lt) \<Longrightarrow> json_Unmarshal p = Some v \<Longrightarrow>
      cache_Get (NewRedisCache ref_client_up n) k s = (Inr v, s)"
  using assms
  by (simp_all add: redisCache_defs ref_client_def ref_client_up_def rr_down_def rr_tick_def incr_value_def)

lemma ref_uc_up_sel [simp]:
  "au_users ref_uc_up = users_dict ref_env ref_users_uc" "au_redis ref_uc_up = NewRedisCache ref_client_up 5"
  "au_mailer ref_uc_up = au_mailer ref_uc" "au_cfg ref_uc_up = ref_cfg"
  by (simp_all add: ref_uc_up_def)

theorem forgot_password_unknown_witness:
  "\<exists>w'. ForgotPassword ref_env ref_uc_up ''bob@x.io'' (ref_world0 True []) = (None, w') \<and>
     rm_sent (w_mail w') = []"
proof -
  let ?w = "ref_world0 True []" and ?k = "ForgotAttemptsKey ''bob@x.io''"
  obtain r w' where run: "ForgotPassword ref_env ref_uc_up ''bob@x.io'' ?w = (r, w')" by fastforce
  have n: "NormalizeEmail ref_env ''bob@x.io'' = ''bob@x.io''" by code_simp
  have w: "rr_faults (w_redis ?w) = []" "rr_keys (w_redis ?w) ?k = None" "w_env ?w = ref_e0" "rm_sent (w_mail ?w) = []"
    by (simp_all add: ref_world0_def)
  then have c: "\<exists>w1. count_attempt (NewRedisCache ref_client_up 5) ?k t ?w = (1, w1)" for t
    by (simp add: count_attempt_def on_redis_def)
  obtain token e1 where t: "generateResetToken ref_env ref_e0 = (Inr token, e1)"
    by (simp add: generateResetToken_def)
  have l: "\<exists>u2 e2. users_GetByEmail ref_env ref_users_uc ''bob@x.io'' (w_users ?w) e1 =
      (Inl (NotFound ''user not found''), u2, e2)"
    by (simp add: users_GetByEmail_def users_load_def ref_world0_def ref_run_defs n
        ristrettoCache_Get_def ristrettoCache_Set_def zero_User_def)
  show ?thesis
    using forgot_password_unknown [OF ref_auth_up.auth_flows_axioms, of "''bob@x.io''" ?w 1 _ token e1
        "NotFound ''user not found''" _ _ r w'] c [of "ForgotLockoutTTL ref_cfg"] t l run n w
    by (auto simp: ref_cfg_def)
qed

theorem reset_token_replaces_earlier_witness:
  "\<exists>w w' token. ForgotPassword ref_env ref_uc_up ''ann@x.io'' w = (None, w') \<and>
     rm_sent (w_mail w') = [(token, ''ann@x.io'')] \<and>
     fst (ResetPassword ref_env ref_uc_up ''tokA'' ''New_pw_2'' w') =
       Some (Unauthorized ''reset token is invalid or expired'')"
proof -
  let ?r = "\<lparr>rr_keys = [UserResetIndexKey ''id-0'' \<mapsto> (json_Marshal ''tokA'', Some (30 * Minute)),
       PasswordResetKey ''tokA'' \<mapsto> (json_Marshal ''id-0'', Some (30 * Minute))], rr_faults = []\<rparr>"
  let ?w = "(ref_world0 True [])\<lparr>w_redis := ?r\<rparr>" and ?k = "ForgotAttemptsKey ''ann@x.io''"
  let ?r1 = "?r\<lparr>rr_keys := eff_expire ?k (ForgotLockoutTTL ref_cfg) (eff_incr ?k (rr_keys ?r))\<rparr>"
  have j: "json_Unmarshal (json_Marshal ''tokA'') = Some ''tokA''"
    by (rule json_roundtrip) (simp add: is_ascii_def byte_val_def)
  have idx: "rr_keys ?r1 (UserResetIndexKey ''id-0'') = Some (json_Marshal ''tokA'', Some (30 * Minute))"
    by (simp add: eff_defs split: option.splits)
  have g: "cache_Get (NewRedisCache ref_client_up 5) (UserResetIndexKey ''id-0'') ?r1 = (Inr ''tokA'', ?r1)"
    by (rule ref_up_cache(5) [OF _ idx j]) simp
  have c: "count_attempt (NewRedisCache ref_client_up 5) ?k (ForgotLockoutTTL ref_cfg) ?w = (1, ?w\<lparr>w_redis := ?r1\<rparr>)"
    by (simp add: count_attempt_def on_redis_def)
  have w: "w_mail (ref_world0 True []) = \<lparr>rm_sent = [], rm_full = False\<rparr>" "w_env (ref_world0 True []) = ref_e0"
    by (simp_all add: ref_world0_def)
  obtain token e1 where t: "generateResetToken ref_env ref_e0 = (Inr token, e1)" and len: "length token = 43"
    by (simp add: generateResetToken_def RawURLEncoding_length resetTokenBytes_def ref_e0_def)
  obtain u2 e2 where l: "users_GetByEmail ref_env ref_users_uc ''ann@x.io'' (w_users (ref_world0 True [])) e1 =
      (Inr (ref_user True), u2, e2)" using ref_lookup by blast
  let ?w2 = "?w\<lparr>w_redis := ?r1, w_users := u2, w_env := e2\<rparr>"
  have "\<exists>w'. issue_reset ref_uc_up ''ann@x.io'' token (ref_user True) ?w2 = (None, w')"
    using g w by (simp add: issue_reset_def on_redis_def on_mail_def rm_send_def Let_def)
  then obtain w' where i: "issue_reset ref_uc_up ''ann@x.io'' token (ref_user True) ?w2 = (None, w')" ..
  have run: "ForgotPassword ref_env ref_uc_up ''ann@x.io'' ?w = (None, w')"
    using ref_auth_up.Forgot_run [of "''ann@x.io''" ?w 1 "?w\<lparr>w_redis := ?r1\<rparr>" token e1 "Inr (ref_user True)" u2 e2] c t l i w(2)
    by (simp add: ref_cfg_def)
  have del: "fst (cache_Del (au_redis ref_uc_up) (PasswordResetKey ''tokA'') ?r1) = None" by simp
  have "rm_send token ''ann@x.io'' (w_mail ?w) = (None, w_mail w') \<and>
     fst (ResetPassword ref_env ref_uc_up ''tokA'' ''New_pw_2'' w') =
       Some (Unauthorized ''reset token is invalid or expired'')"
    using reset_token_replaces_earlier [OF ref_auth_up.auth_flows_axioms, of "''ann@x.io''" ?w 1 "?w\<lparr>w_redis := ?r1\<rparr>" token e1
        "ref_user True" u2 e2 w' "Inr ''tokA''" ?r1] c t l run g w len del
    by (auto simp: ref_cfg_def)
  moreover from this have "w_mail w' = \<lparr>rm_sent = [(token, ''ann@x.io'')], rm_full = False\<rparr>" using w(1) by (simp add: rm_send_def)
  ultimately have "rm_sent (w_mail w') = [(token, ''ann@x.io'')] \<and> fst (ResetPassword ref_env ref_uc_up ''tokA'' ''New_pw_2'' w') =
       Some (Unauthorized ''reset token is invalid or expired'')" by simp
  then show ?thesis using run by blast
qed

section \<open>Deletions that Redis refuses\<close>

text \<open>The flows ignore the error of a deletion, so what should be spent can stay: a reset that reports success leaves
  its token in Redis when the deletion failed, and a second request leaves the earlier token there when
  the read of the index failed.\<close>

lemma reset_may_leave_token:
  "\<exists>w w' p lt. ResetPassword ref_env ref_uc ''tok'' ''New_pw_2'' w = (None, w') \<and>
     rr_keys (w_redis w') (PasswordResetKey ''tok'') = Some (p, lt) \<and> json_Unmarshal p = Some ''id-0''"
proof -
  let ?m = "[PasswordResetKey ''tok'' \<mapsto> (json_Marshal ''id-0'', Some (30 * Minute))]"
  let ?r = "\<lparr>rr_keys = ?m, rr_faults = [False, True]\<rparr>"
  let ?w = "(ref_world0 True [])\<lparr>w_redis := ?r\<rparr>" and ?u = "(ref_user True)\<lparr>uPassword := ref_hash ''New_pw_2'' 10,
    uPasswordChangedAt := Some (rw_now ref_e0), uUpdatedAt := Some (rw_now ref_e0)\<rparr>"
  obtain s where s: "users_UpdatePassword ref_users_uc (Some ?u) (w_users (ref_world0 True [])) ref_e0 = (None, s, ref_e0)"
    using ref_update [of ?u True ref_e0] by auto
  have j: "json_Unmarshal (json_Marshal ''id-0'') = Some ''id-0''"
    by (rule json_roundtrip) (simp add: is_ascii_def byte_val_def)
  have g: "cache_Get (NewRedisCache ref_client 5) (PasswordResetKey ''tok'') ?r = (Inr ''id-0'', ?r\<lparr>rr_faults := [True]\<rparr>)"
    using j by (simp add: redisCache_defs ref_client_def rr_down_def rr_tick_def)
  have d: "cache_Del (NewRedisCache ref_client 5) k (?r\<lparr>rr_faults := [True]\<rparr>) =
      (Some (ErrorString ''dial tcp: connection refused''), ?r\<lparr>rr_faults := []\<rparr>)" for k
    by (simp add: redisCache_defs ref_client_def rr_exec_def rr_down_def rr_tick_def)
  have e: "w_env (ref_world0 True []) = ref_e0" by (simp add: ref_world0_def)
  have "\<exists>w'. ResetPassword ref_env ref_uc ''tok'' ''New_pw_2'' ?w = (None, w') \<and>
      rr_keys (w_redis w') (PasswordResetKey ''tok'') = Some (json_Marshal ''id-0'', Some (30 * Minute))"
    using s g d e
    by (simp add: ResetPassword_def on_users_def on_env_def on_redis_def ref_byid ref_change recordTokenCutoff_def Let_def eff_defs)
  with j show ?thesis by blast
qed

lemma forgot_may_leave_token:
  "\<exists>w w' p lt. issue_reset ref_uc ''ann@x.io'' ''tokB'' (ref_user True) w = (None, w') \<and>
     rr_keys (w_redis w') (PasswordResetKey ''tokA'') = Some (p, lt) \<and> json_Unmarshal p = Some ''id-0''"
proof -
  let ?m = "[UserResetIndexKey ''id-0'' \<mapsto> (json_Marshal ''tokA'', Some (30 * Minute)),
       PasswordResetKey ''tokA'' \<mapsto> (json_Marshal ''id-0'', Some (30 * Minute))]"
  let ?r = "\<lparr>rr_keys = ?m, rr_faults = [True]\<rparr>" and ?w = "(ref_world0 True [])\<lparr>w_redis := \<lparr>rr_keys = ?m, rr_faults = [True]\<rparr>\<rparr>"
  have j: "json_Unmarshal (json_Marshal ''id-0'') = Some ''id-0''"
    by (rule json_roundtrip) (simp add: is_ascii_def byte_val_def)
  have g: "cache_Get (NewRedisCache ref_client 5) (UserResetIndexKey ''id-0'') ?r =
      (Inl (ErrorString ''dial tcp: connection refused''), ?r\<lparr>rr_faults := []\<rparr>)"
    by (simp add: redisCache_defs ref_client_def rr_down_def rr_tick_def)
  have m: "w_mail (ref_world0 True []) = \<lparr>rm_sent = [], rm_full = False\<rparr>" by (simp add: ref_world0_def)
  have "\<exists>w'. issue_reset ref_uc ''ann@x.io'' ''tokB'' (ref_user True) ?w = (None, w') \<and>
      rr_keys (w_redis w') (PasswordResetKey ''tokA'') = Some (json_Marshal ''id-0'', Some (30 * Minute))"
    using g m by (simp add: issue_reset_def on_redis_def on_mail_def rm_send_def Let_def eff_defs)
  with j show ?thesis by blast
qed

end
