(* ===== verification/Middleware_Auth.thy ===== *)
theory Middleware_Auth
  imports Http_Base Password_Props
begin

text \<open>
  \<^verbatim>\<open>internal/http/middlewares/middleware.auth.go\<close>: the gate in front of the authenticated routes.
  \<open>next\<close> is the rest of the handler chain. The properties: the chain is entered only with an
  access token that is valid, not revoked by a password change, and privileged enough; and a
  token issued before the last published password change is turned away.
\<close>

record ('r, 'e) AuthMiddleware =
  am_jwtService :: "'e JWTService"
  am_redisCache :: "'r RedisCache option"
  am_isAdmin :: bool

type_synonym ('u, 'r, 'm, 'e) gin_handler =
  "gin_ctx \<Rightarrow> ('u, 'r, 'm, 'e) world \<Rightarrow> gin_ctx \<times> ('u, 'r, 'm, 'e) world"

text \<open>The cutoff check: whether the token is revoked by a password rotation. Every failure (no
  cache, no issue date, a Redis error, an empty or unreadable entry) lets the token pass.\<close>

definition cutoff_revokes ::
  "('r, 'e) AuthMiddleware \<Rightarrow> JwtCustomClaim \<Rightarrow> ('u, 'r, 'm, 'e) world \<Rightarrow> bool \<times> ('u, 'r, 'm, 'e) world" where
  "cutoff_revokes m user w =
     (case (am_redisCache m, cIssuedAt user) of
        (Some redisCache, Some iat) \<Rightarrow>
          (case on_redis (cache_Get redisCache (TokenCutoffKey (cUserID user))) w of
             (Inl getErr, w) \<Rightarrow> (False, w)
           | (Inr cutoffStr, w) \<Rightarrow>
               if cutoffStr \<noteq> '''' then
                 (case ParseInt64 cutoffStr of
                    None \<Rightarrow> (False, w)
                  | Some cutoff \<Rightarrow> (time_Unix iat < cutoff, w))
               else (False, w))
      | _ \<Rightarrow> (False, w))"

definition AuthMiddleware_Handle ::
  "('r, 'e) AuthMiddleware \<Rightarrow> ('u, 'r, 'm, 'e) gin_handler \<Rightarrow> ('u, 'r, 'm, 'e) gin_handler" where
  "AuthMiddleware_Handle m next ctx w =
     (if g_authorization ctx = '''' then (NewAbortResponse ctx ''missing authorization header'', w)
      else
        (case strings_Split (g_authorization ctx) (CHR '' '') of
           [scheme, tok] \<Rightarrow>
             if scheme \<noteq> ''Bearer'' then (NewAbortResponse ctx ''token must content bearer'', w)
             else
               (case on_env (svc_ParseToken (am_jwtService m) tok) w of
                  (Inl err, w) \<Rightarrow> (NewAbortResponse ctx ''invalid token'', w)
                | (Inr user, w) \<Rightarrow>
                    (case cutoff_revokes m user w of
                       (True, w) \<Rightarrow> (NewAbortResponse ctx ''token has been revoked'', w)
                     | (False, w) \<Rightarrow>
                         if cIsAdmin user \<noteq> am_isAdmin m \<and> \<not> cIsAdmin user
                         then (NewAbortResponse ctx ''you don't have access for this action'', w)
                         else next (gin_Set ctx CtxAuthenticatedUserKey (CtxClaims user)) w))
         | _ \<Rightarrow> (NewAbortResponse ctx ''invalid header format'', w)))"

definition NewAuthMiddleware ::
  "'e JWTService \<Rightarrow> 'r RedisCache \<Rightarrow> bool \<Rightarrow> ('u, 'r, 'm, 'e) gin_handler \<Rightarrow> ('u, 'r, 'm, 'e) gin_handler" where
  "NewAuthMiddleware jwtService redisCache isAdmin =
     AuthMiddleware_Handle \<lparr>am_jwtService = jwtService, am_redisCache = Some redisCache, am_isAdmin = isAdmin\<rparr>"

section \<open>The gate\<close>

text \<open>\<open>refused\<close>: one 401 was written and the chain was aborted; the rest of the chain did not run.\<close>

definition refused :: "gin_ctx \<Rightarrow> gin_ctx \<Rightarrow> bool" where
  "refused c c' \<longleftrightarrow> g_aborted c' \<and>
     (\<exists>msg. g_out c' = g_out c @ [(401, \<lparr>rStatus = False, rMessage = msg, rData = NoData, rRequestID = requestID c\<rparr>)])"

lemma abort_refused [simp]: "refused c (NewAbortResponse c msg)"
  by (simp add: refused_def NewAbortResponse_def gin_AbortWithStatusJSON_def gin_JSON_def)

lemma ParseInt64_ItoaD:
  assumes "ParseInt64 (Itoa n) = Some k"
  shows "n = k"
proof (cases "in_int64 n")
  case True
  then show ?thesis using ParseInt64_Itoa assms by simp
next
  case False
  obtain c cs where cs: "nat_to_dec (nat \<bar>n\<bar>) = c # cs" "is_digit c" using nat_to_dec_Cons by blast
  have "dec_val 0 (c # cs) = Some (nat \<bar>n\<bar>)" using dec_val_nat_to_dec [of "nat \<bar>n\<bar>"] cs by simp
  with False cs not_digit_sign assms have False
    by (cases "n < 0") (auto simp: ParseInt64_def Itoa_def simp del: dec_val.simps split: if_splits)
  then show ?thesis ..
qed

lemma Itoa_ascii: "ascii (Itoa n)"
  by (auto simp: Itoa_def is_ascii_def [of "CHR ''-''"] byte_val_def)

lemma split_two: "strings_Split s sep = [a, b] \<Longrightarrow> s = a @ [sep] @ b"
  using strings_Split_join [of sep s] by simp

lemma split_no_sep: "sep \<notin> set s \<Longrightarrow> strings_Split s sep = [s]"
  by (induction s) auto

lemma cutoff_frame:
  assumes "cutoff_revokes m user w = (b, w')"
  shows "w_users w' = w_users w \<and> w_env w' = w_env w \<and> w_mail w' = w_mail w"
  using assms
  by (auto simp: cutoff_revokes_def on_redis_def split: option.splits prod.splits sum.splits if_splits)

lemma Handle_cases:
  assumes "AuthMiddleware_Handle m next ctx w = (c', w')"
  obtains (turned_away) "refused ctx c'" "w_users w' = w_users w" "w_mail w' = w_mail w"
  | (entered) tok user e1 w2 where
    "g_authorization ctx = ''Bearer '' @ tok"
    "svc_ParseToken (am_jwtService m) tok (w_env w) = (Inr user, e1)"
    "cutoff_revokes m user (w\<lparr>w_env := e1\<rparr>) = (False, w2)"
    "am_isAdmin m \<longrightarrow> cIsAdmin user"
    "next (gin_Set ctx CtxAuthenticatedUserKey (CtxClaims user)) w2 = (c', w')"
proof (cases "\<exists>scheme tok. strings_Split (g_authorization ctx) (CHR '' '') = [scheme, tok]")
  case False
  then have "(c', w') = (NewAbortResponse ctx ''missing authorization header'', w) \<or>
      (c', w') = (NewAbortResponse ctx ''invalid header format'', w)"
    using assms by (auto simp: AuthMiddleware_Handle_def split: if_splits list.splits)
  with turned_away show thesis by auto
next
  case True
  then obtain scheme tok where sp: "strings_Split (g_authorization ctx) (CHR '' '') = [scheme, tok]" by blast
  then have ne: "g_authorization ctx \<noteq> ''''" by auto
  note auth = split_two [OF sp]
  obtain q e1 where p: "svc_ParseToken (am_jwtService m) tok (w_env w) = (q, e1)" by fastforce
  show thesis
  proof (cases "scheme = ''Bearer'' \<and> is_Inr q")
    case False
    then have "w_users w' = w_users w \<and> w_mail w' = w_mail w \<and> refused ctx c'"
      using assms sp ne p
      by (cases q) (auto simp: AuthMiddleware_Handle_def on_env_def split: if_splits)
    with turned_away show thesis by blast
  next
    case True
    then obtain user where q: "q = Inr user" and b: "scheme = ''Bearer''" by (cases q) auto
    obtain rv w2 where c: "cutoff_revokes m user (w\<lparr>w_env := e1\<rparr>) = (rv, w2)" by fastforce
    have w2: "w_users w2 = w_users w" "w_mail w2 = w_mail w" using cutoff_frame [OF c] by simp_all
    have run: "AuthMiddleware_Handle m next ctx w =
        (if rv then (NewAbortResponse ctx ''token has been revoked'', w2)
         else if cIsAdmin user \<noteq> am_isAdmin m \<and> \<not> cIsAdmin user
         then (NewAbortResponse ctx ''you don't have access for this action'', w2)
         else next (gin_Set ctx CtxAuthenticatedUserKey (CtxClaims user)) w2)"
      using sp ne p q b c by (simp add: AuthMiddleware_Handle_def on_env_def)
    show thesis
    proof (cases "rv \<or> (am_isAdmin m \<and> \<not> cIsAdmin user)")
      case True
      with assms run w2 have "refused ctx c'" "w_users w' = w_users w" "w_mail w' = w_mail w"
        by (auto split: if_splits)
      then show thesis by (rule turned_away)
    next
      case False
      with assms run have "next (gin_Set ctx CtxAuthenticatedUserKey (CtxClaims user)) w2 = (c', w')" by auto
      with entered [of tok user e1 w2] False p q b c auth show thesis by simp
    qed
  qed
qed

lemma CurrentUser_after_gate:
  "CurrentUserFromContext (gin_Set ctx CtxAuthenticatedUserKey (CtxClaims user)) =
     Inr \<lparr>cuID = cUserID user, cuEmail = cEmail user, cuIsAdmin = cIsAdmin user, cuJTI = cID user\<rparr>"
  by (simp add: CurrentUserFromContext_def gin_Set_def)

context auth_flows
begin

lemma cutoff_published:
  assumes "am_redisCache m = Some (au_redis UC)" and "cIssuedAt user = Some iat"
    and "rv (w_redis w) (TokenCutoffKey (cUserID user)) = Some (json_Marshal (Itoa n), lt)"
    and "cache_Get (au_redis UC) (TokenCutoffKey (cUserID user)) (w_redis w) = (Inr v, r)"
    and "in_int64 n" and "time_Unix iat < n"
  shows "fst (cutoff_revokes m user w)"
proof -
  have "json_Unmarshal (json_Marshal (Itoa n)) = Some v"
    using red.Get_ok [OF assms(4)] assms(3) by auto
  then have "v = Itoa n" using json_roundtrip [OF Itoa_ascii] by simp
  then show ?thesis
    using assms ParseInt64_Itoa [OF assms(5)] by (simp add: cutoff_revokes_def on_redis_def)
qed

lemma gate_sound:
  assumes run: "AuthMiddleware_Handle m next ctx w = (c', w')"
    and m: "am_jwtService m = au_jwt UC" "am_redisCache m = Some (au_redis UC)"
  shows "(refused ctx c' \<and> w_users w' = w_users w \<and> w_mail w' = w_mail w) \<or>
    (\<exists>tok user e1 w2. g_authorization ctx = ''Bearer '' @ tok \<and>
       svc_ParseToken (au_jwt UC) tok (w_env w) = (Inr user, e1) \<and> cKind user \<noteq> KindRefresh \<and>
       (am_isAdmin m \<longrightarrow> cIsAdmin user) \<and>
       (\<forall>iat n lt v r. cIssuedAt user = Some iat \<and> in_int64 n \<and>
          rv (w_redis w) (TokenCutoffKey (cUserID user)) = Some (json_Marshal (Itoa n), lt) \<and>
          cache_Get (au_redis UC) (TokenCutoffKey (cUserID user)) (w_redis w) = (Inr v, r) \<longrightarrow>
          n \<le> time_Unix iat) \<and>
       w_users w2 = w_users w \<and> w_mail w2 = w_mail w \<and>
       next (gin_Set ctx CtxAuthenticatedUserKey (CtxClaims user)) w2 = (c', w'))"
  using run
proof (cases rule: Handle_cases)
  case (entered tok user e1 w2)
  have "n \<le> time_Unix iat" if "cIssuedAt user = Some iat" "in_int64 n"
    "rv (w_redis w) (TokenCutoffKey (cUserID user)) = Some (json_Marshal (Itoa n), lt)"
    "cache_Get (au_redis UC) (TokenCutoffKey (cUserID user)) (w_redis w) = (Inr v, r)" for iat n lt v r
    using cutoff_published [OF m(2), of user iat "w\<lparr>w_env := e1\<rparr>" n lt v r] that entered(3)
    by (cases "time_Unix iat < n") auto
  moreover have "w_users w2 = w_users w \<and> w_mail w2 = w_mail w" using cutoff_frame [OF entered(3)] by simp
  moreover have "cKind user \<noteq> KindRefresh" using tok.access_kind entered(2) m(1) by metis
  ultimately show ?thesis
    using entered unfolding m(1)
    by (intro disjI2 exI [of _ tok] exI [of _ user] exI [of _ e1] exI [of _ w2]) blast
qed blast

lemma gate_refuses_old:
  assumes m: "am_jwtService m = au_jwt UC" "am_redisCache m = Some (au_redis UC)"
    and hdr: "g_authorization ctx = ''Bearer '' @ tk" "CHR '' '' \<notin> set tk"
    and parse: "svc_ParseToken (au_jwt UC) tk (w_env w) = (Inr user, e1)" "cIssuedAt user = Some iat"
    and pub: "rv (w_redis w) (TokenCutoffKey (cUserID user)) = Some (json_Marshal (Itoa n), lt)"
      "cache_Get (au_redis UC) (TokenCutoffKey (cUserID user)) (w_redis w) = (Inr v, r)" "in_int64 n"
    and old: "time_Unix iat < n"
  shows "refused ctx (fst (AuthMiddleware_Handle m next ctx w))"
proof -
  obtain b w2 where c: "cutoff_revokes m user (w\<lparr>w_env := e1\<rparr>) = (b, w2)" by fastforce
  with cutoff_published [OF m(2) parse(2), of "w\<lparr>w_env := e1\<rparr>" n lt v r] pub old have "b" by simp
  moreover have "strings_Split (g_authorization ctx) (CHR '' '') = [''Bearer'', tk]"
    using split_no_sep [OF hdr(2)] by (simp add: hdr(1))
  ultimately show ?thesis using hdr m parse c by (simp add: AuthMiddleware_Handle_def on_env_def)
qed

end

section \<open>Properties\<close>

text \<open>C21: the handlers behind the gate run only for a request that carries an access token in the bearer
  scheme which the token service accepts, which is not a refresh token, which was not issued
  before the cutoff that Redis holds and returns for its user, and which is an administrator's
  where the route asks for one; they then see the claims of that token. Every other request is
  answered with one 401 and changes neither the users nor the mailer.\<close>

theorem auth_gate_sound:
  assumes "auth_flows UC rv dttl E used uv coh ts uid"
    and "AuthMiddleware_Handle \<lparr>am_jwtService = au_jwt UC, am_redisCache = Some (au_redis UC), am_isAdmin = adm\<rparr>
      next ctx w = (c', w')"
  shows "(refused ctx c' \<and> w_users w' = w_users w \<and> w_mail w' = w_mail w) \<or>
    (\<exists>tok user e1 w2. g_authorization ctx = ''Bearer '' @ tok \<and>
       svc_ParseToken (au_jwt UC) tok (w_env w) = (Inr user, e1) \<and> cKind user \<noteq> KindRefresh \<and>
       (adm \<longrightarrow> cIsAdmin user) \<and>
       (\<forall>iat n lt v r. cIssuedAt user = Some iat \<and> in_int64 n \<and>
          rv (w_redis w) (TokenCutoffKey (cUserID user)) = Some (json_Marshal (Itoa n), lt) \<and>
          cache_Get (au_redis UC) (TokenCutoffKey (cUserID user)) (w_redis w) = (Inr v, r) \<longrightarrow>
          n \<le> time_Unix iat) \<and>
       w_users w2 = w_users w \<and> w_mail w2 = w_mail w \<and>
       next (gin_Set ctx CtxAuthenticatedUserKey (CtxClaims user)) w2 = (c', w'))"
  using auth_flows.gate_sound [OF assms] by simp

text \<open>C22: a password change revokes the access tokens that were issued before it, whatever cutoff Redis held
  before. When the change reported success, Redis accepted the write of its cutoff and returns the entry
  to a later request with a token of that user, the entry is the instant of this change, the one that
  the row of the user shows, and if the token was issued in an earlier second the request is refused.\<close>

theorem change_password_revokes_access:
  assumes "auth_flows UC rv dttl E used uv coh ts uid" and "bcrypt_lib E"
    and "auth_ChangePassword E UC i cur new w = (None, w')"
    and "cache_Get (au_redis UC) (TokenCutoffKey i) (w_redis w') = (Inr v, r)"
    and "g_authorization ctx = ''Bearer '' @ tk" and "CHR '' '' \<notin> set tk"
    and "svc_ParseToken (au_jwt UC) tk (w_env w') = (Inr user, e1)"
    and "cUserID user = i" and "cIssuedAt user = Some iat"
  shows "\<exists>now u. uv (w_users w') (uid i) = Some u \<and> uPasswordChangedAt u = Some (ts now) \<and>
    (fst (cache_Set (au_redis UC) (TokenCutoffKey i) (Itoa (time_Unix now)) (w_redis w)) = None \<longrightarrow>
     v = Itoa (time_Unix now) \<and>
     (in_int64 (time_Unix now) \<and> time_Unix iat < time_Unix now \<longrightarrow>
      refused ctx (fst (AuthMiddleware_Handle
        \<lparr>am_jwtService = au_jwt UC, am_redisCache = Some (au_redis UC), am_isAdmin = adm\<rparr> next ctx w'))))"
proof -
  obtain now u where u: "uv (w_users w') (uid i) = Some u" "uPasswordChangedAt u = Some (ts now)"
    and pub: "published UC i now (w_redis w) (w_redis w')"
    using auth_flows.Change_sound [OF assms(1,3,2)] by auto
  obtain p lt where p: "rv (w_redis w') (TokenCutoffKey i) = Some (p, lt)" "json_Unmarshal p = Some v"
    using redis_cache.Get_ok [OF auth_flows.axioms(1) [OF assms(1)] assms(4)]
      redis_cache.Get_ages [OF auth_flows.axioms(1) [OF assms(1)] assms(4)] by blast
  have rest: "v = Itoa (time_Unix now) \<and> (in_int64 (time_Unix now) \<and> time_Unix iat < time_Unix now \<longrightarrow>
      refused ctx (fst (AuthMiddleware_Handle
        \<lparr>am_jwtService = au_jwt UC, am_redisCache = Some (au_redis UC), am_isAdmin = adm\<rparr> next ctx w')))"
    if ok: "fst (cache_Set (au_redis UC) (TokenCutoffKey i) (Itoa (time_Unix now)) (w_redis w)) = None"
  proof -
    have "p = json_Marshal (Itoa (time_Unix now))" by (rule auth_flows.published_entry [OF assms(1) pub ok p(1)])
    with p json_roundtrip [OF Itoa_ascii] show ?thesis
      using auth_flows.gate_refuses_old [OF assms(1) _ _ assms(5,6,7,9), of
        "\<lparr>am_jwtService = au_jwt UC, am_redisCache = Some (au_redis UC), am_isAdmin = adm\<rparr>"
        "time_Unix now" lt v r] assms(4,8) by simp
  qed
  show ?thesis by (intro exI [of _ now] exI [of _ u] conjI u impI rest)
qed


section \<open>Runs on the reference stack\<close>

text \<open>An access token of the registered user, issued two hours and forty-six minutes before the clock
  of the reference environment.\<close>

definition ref_claims :: JwtCustomClaim where
  "ref_claims =
     \<lparr>cUserID = ''id-0'', cIsAdmin = False, cEmail = ''ann@x.io'', cKind = KindAccess, cID = ''uuid-0'',
      cExpiresAt = Some (1700008000 * Second), cIssuer = ''go-rest'', cIssuedAt = Some (1699990000 * Second)\<rparr>"

definition ref_token :: string where
  "ref_token = enc_fields
     [j_secretKey ref_jwt, ''id-0'', ''f'', ''ann@x.io'', KindAccess, ''uuid-0'', Itoa (1700008000 * Second),
      ''go-rest'', Itoa (1699990000 * Second)]"

lemma enc_fields_set: "c \<in> set (enc_fields ss) \<Longrightarrow> c = CHR ''x'' \<or> c = CHR ''.'' \<or> (\<exists>s\<in>set ss. c \<in> set s)"
  by (induction ss) (auto split: if_splits)

lemma Itoa_no_space: "0 \<le> n \<Longrightarrow> CHR '' '' \<notin> set (Itoa n)"
  using nat_to_dec_digits [of "nat n"] by (auto simp: Itoa_def list_all_iff is_digit_def byte_val_def)

lemma ref_token_no_space: "CHR '' '' \<notin> set ref_token"
proof
  assume "CHR '' '' \<in> set ref_token"
  from enc_fields_set [OF this [unfolded ref_token_def]] show False
    using Itoa_no_space [of "1700008000 * Second"] Itoa_no_space [of "1699990000 * Second"]
    by (auto simp: ref_jwt_def NewJWTServiceWithRefresh_def KindAccess_def Second_def)
qed

lemma ref_token_parses:
  assumes "rw_now e < 1700008000 * Second"
  shows "ParseToken ref_jwtlib ref_jwt ref_token e = (Inr ref_claims, e)"
proof -
  have "ref_sign ref_claims (j_secretKey ref_jwt) = Inr ref_token"
    by (simp add: ref_sign_def ref_claims_def ref_token_def opt_time_def)
  from ref_decode_sign [OF this] assms show ?thesis
    by (simp add: ParseToken_def jwt_parse_def ref_parse_def jwt_keyfunc_def)
       (simp add: ref_claims_def)
qed

definition ref_bearer :: gin_ctx where
  "ref_bearer = ref_ctx\<lparr>g_authorization := ''Bearer '' @ ref_token\<rparr>"

definition ref_next :: "(ref_uc_state, ref_redis, ref_mail, ref_world) gin_handler" where
  "ref_next c w = (NewSuccessResponse c 200 ''ok'' NoData, w)"

definition ref_am :: "(ref_redis, ref_world) AuthMiddleware" where
  "ref_am = \<lparr>am_jwtService = au_jwt ref_uc, am_redisCache = Some (au_redis ref_uc), am_isAdmin = False\<rparr>"

theorem auth_gate_sound_witness:
  "\<exists>c' w' tok user e1. AuthMiddleware_Handle ref_am ref_next ref_bearer (ref_world0 True []) = (c', w') \<and>
     map fst (g_out c') = [200] \<and> g_authorization ref_bearer = ''Bearer '' @ tok \<and>
     svc_ParseToken (au_jwt ref_uc) tok ref_e0 = (Inr user, e1) \<and> cKind user \<noteq> KindRefresh"
proof -
  let ?w = "ref_world0 True []"
  obtain c' w' where run: "AuthMiddleware_Handle ref_am ref_next ref_bearer ?w = (c', w')" by fastforce
  have w: "w_env ?w = ref_e0" "rr_faults (w_redis ?w) = []" "rr_keys (w_redis ?w) = Map.empty"
    by (simp_all add: ref_world0_def)
  have p: "ParseToken ref_jwtlib ref_jwt ref_token ref_e0 = (Inr ref_claims, ref_e0)"
    by (rule ref_token_parses) (simp add: ref_e0_def Second_def)
  have sp: "strings_Split (''Bearer '' @ ref_token) (CHR '' '') = [''Bearer'', ref_token]"
    using split_no_sep [OF ref_token_no_space] by simp
  obtain x r where get: "cache_Get (NewRedisCache ref_client 5) (TokenCutoffKey ''id-0'') (w_redis ?w) = (Inl x, r)"
    using ref_auth.red.Get_absent [of "w_redis ?w" "TokenCutoffKey ''id-0''"] w(3) by auto
  have cl: "cUserID ref_claims = ''id-0''" "cIssuedAt ref_claims = Some (1699990000 * Second)" "\<not> cIsAdmin ref_claims"
    by (simp_all add: ref_claims_def)
  have cut: "cutoff_revokes ref_am ref_claims (?w\<lparr>w_env := ref_e0\<rparr>) = (False, ?w\<lparr>w_env := ref_e0, w_redis := r\<rparr>)"
    using get cl by (simp add: cutoff_revokes_def ref_am_def on_redis_def)
  have am: "am_jwtService ref_am = jwt_dict ref_env ref_jwtlib ref_jwt" "\<not> am_isAdmin ref_am"
    by (simp_all add: ref_am_def)
  have b: "g_authorization ref_bearer = ''Bearer '' @ ref_token" "g_out ref_bearer = []"
    by (simp_all add: ref_bearer_def ref_ctx_def)
  have code: "map fst (g_out c') = [200]"
    using run w(1) p sp cut am cl(3) b
    by (auto simp: AuthMiddleware_Handle_def on_env_def ref_next_def gin_Set_def)
  then have "\<not> refused ref_bearer c'" by (auto simp: refused_def)
  with auth_gate_sound [OF ref_auth.auth_flows_axioms run [unfolded ref_am_def]] run code w(1) show ?thesis
    by (auto simp del: ref_uc_sel)
qed

theorem change_password_revokes_access_witness:
  "\<exists>w w' lt. rr_keys (w_redis w) (TokenCutoffKey ''id-0'') = Some (json_Marshal (Itoa 1600000000), lt) \<and>
     auth_ChangePassword ref_env ref_uc ''id-0'' ''Old_pw_1'' ''New_pw_2'' w = (None, w') \<and>
     refused ref_bearer (fst (AuthMiddleware_Handle ref_am ref_next ref_bearer w'))"
proof -
  let ?k = "TokenCutoffKey ''id-0''"
  let ?m = "[?k \<mapsto> (json_Marshal (Itoa 1600000000), Some tokenCutoffTTL)]"
  let ?w = "(ref_world0 True [])\<lparr>w_redis := \<lparr>rr_keys = ?m, rr_faults = []\<rparr>\<rparr>"
  let ?u = "(ref_user True)\<lparr>uPassword := ref_hash ''New_pw_2'' 10,
    uPasswordChangedAt := Some (rw_now ref_e0), uUpdatedAt := Some (rw_now ref_e0)\<rparr>"
  let ?v = "Itoa (time_Unix (rw_now ref_e0))"
  obtain s where s: "users_UpdatePassword ref_users_uc (Some ?u) (w_users (ref_world0 True [])) ref_e0 = (None, s, ref_e0)"
    using ref_update [of ?u True ref_e0] by auto
  have e: "w_env (ref_world0 True []) = ref_e0" "rr_faults (w_redis ?w) = []"
    by (simp_all add: ref_world0_def)
  obtain w' where w': "w' = recordTokenCutoff ref_uc ''id-0'' (rw_now ref_e0) (?w\<lparr>w_users := s, w_env := ref_e0\<rparr>)"
    by blast
  have run: "auth_ChangePassword ref_env ref_uc ''id-0'' ''Old_pw_1'' ''New_pw_2'' ?w = (None, w')"
    using s e by (simp add: auth_ChangePassword_def on_users_def on_env_def ref_byid ref_change ref_revoked(1) w')
  have red: "rr_faults (w_redis w') = [] \<and> w_env w' = ref_e0 \<and>
      rr_keys (w_redis w') ?k = Some (json_Marshal ?v, Some tokenCutoffTTL)"
    using e by (simp add: w' recordTokenCutoff_def on_redis_def eff_defs tokenCutoffTTL_def duration_defs Let_def)
  have get: "cache_Get (au_redis ref_uc) ?k (w_redis w') = (Inr ?v, w_redis w')"
    using red json_roundtrip [OF Itoa_ascii] by simp
  have parse: "svc_ParseToken (au_jwt ref_uc) ref_token (w_env w') = (Inr ref_claims, ref_e0)"
    using red ref_token_parses [of ref_e0] by (simp add: ref_e0_def Second_def)
  have bearer: "g_authorization ref_bearer = ''Bearer '' @ ref_token" by (simp add: ref_bearer_def)
  have claims: "cUserID ref_claims = ''id-0''" "cIssuedAt ref_claims = Some (1699990000 * Second)"
    by (simp_all add: ref_claims_def)
  have set: "fst (cache_Set (au_redis ref_uc) ?k x (w_redis ?w)) = None" for x by simp
  have "\<exists>now. fst (cache_Set (au_redis ref_uc) ?k (Itoa (time_Unix now)) (w_redis ?w)) = None \<longrightarrow>
      ?v = Itoa (time_Unix now) \<and> (in_int64 (time_Unix now) \<and> time_Unix (1699990000 * Second) < time_Unix now \<longrightarrow>
      refused ref_bearer (fst (AuthMiddleware_Handle ref_am ref_next ref_bearer w')))"
    using change_password_revokes_access [OF ref_auth.auth_flows_axioms ref_bcrypt.bcrypt_lib_axioms run get bearer
        ref_token_no_space parse claims, of False ref_next]
    unfolding ref_am_def by (elim ex_forward) (elim exE conjE, assumption)
  then obtain now where n: "fst (cache_Set (au_redis ref_uc) ?k (Itoa (time_Unix now)) (w_redis ?w)) = None \<longrightarrow>
      ?v = Itoa (time_Unix now) \<and> (in_int64 (time_Unix now) \<and> time_Unix (1699990000 * Second) < time_Unix now \<longrightarrow>
      refused ref_bearer (fst (AuthMiddleware_Handle ref_am ref_next ref_bearer w')))" ..
  from mp [OF n set] have v: "?v = Itoa (time_Unix now)" and
    imp: "in_int64 (time_Unix now) \<and> time_Unix (1699990000 * Second) < time_Unix now \<longrightarrow>
      refused ref_bearer (fst (AuthMiddleware_Handle ref_am ref_next ref_bearer w'))" by (rule conjunct1, rule conjunct2)
  have "Itoa (time_Unix (rw_now ref_e0)) = Itoa 1700000000"
    by (simp add: ref_e0_def time_Unix_def Second_def)
  then have "ParseInt64 (Itoa (time_Unix now)) = Some 1700000000"
    using v ParseInt64_Itoa [of 1700000000] by (simp add: in_int64_def)
  then have "time_Unix now = 1700000000" by (rule ParseInt64_ItoaD)
  with imp have "refused ref_bearer (fst (AuthMiddleware_Handle ref_am ref_next ref_bearer w'))"
    by (auto simp: in_int64_def time_Unix_def Second_def)
  with run show ?thesis by (intro exI [of _ ?w] exI [of _ w'] exI [of _ "Some tokenCutoffTTL"]) simp
qed

end
