(* ===== verification/Handler_Props.thy ===== *)
theory Handler_Props
  imports Handlers_Auth Middleware_Auth
begin

text \<open>
  The properties of the endpoints: every request is answered once, with a status of the documented
  set, and the security log agrees with the answer; registration makes ordinary inactive accounts
  only; and the composition of the gate, the handler and the flow for a password change.
\<close>

section \<open>The contract of a handler\<close>

text \<open>\<open>answered c c'\<close>: one response was added, a success exactly when its status is 200 or 201;
  \<open>audited c c'\<close>: also the security log is unchanged and the response is an error, or it has one
  event more, which says what the response says.\<close>

definition answered :: "gin_ctx \<Rightarrow> gin_ctx \<Rightarrow> bool" where
  "answered c c' \<longleftrightarrow>
     (\<exists>code body. g_out c' = g_out c @ [(code, body)] \<and> (rStatus body \<longleftrightarrow> code = 200 \<or> code = 201) \<and>
        code \<in> {200, 201, 400, 401, 403, 404, 409, 422, 500})"

definition audited :: "gin_ctx \<Rightarrow> gin_ctx \<Rightarrow> bool" where
  "audited c c' \<longleftrightarrow> answered c c' \<and>
     (g_audit c' = g_audit c \<and> \<not> rStatus (snd (last (g_out c'))) \<or>
      (\<exists>ev. g_audit c' = g_audit c @ [ev] \<and> evSuccess ev = rStatus (snd (last (g_out c')))))"

lemma answer_audit [simp]:
  "g_audit (NewSuccessResponse c code m d) = g_audit c" "g_audit (NewErrorResponse c code m) = g_audit c"
  "g_audit (RespondWithError c err) = g_audit c"
  by (auto simp: NewSuccessResponse_def NewErrorResponse_def RespondWithError_def gin_JSON_def Let_def
      split: option.splits goerr.splits)

lemma record_event_frame:
  assumes "record_event H ev ctx w = (c', w')"
  shows "g_out c' = g_out ctx \<and> g_keys c' = g_keys ctx \<and> (\<exists>t. g_audit c' = g_audit ctx @ [ev\<lparr>evTime := t\<rparr>]) \<and>
    w_users w' = w_users w \<and> w_redis w' = w_redis w \<and> w_mail w' = w_mail w"
  using assms audit_Record_one [of "h_env H" ev "g_audit ctx" "w_env w"]
  by (fastforce simp: record_event_def split: prod.splits)

lemma Respond_audited: "audited c (RespondWithError c err)"
proof -
  obtain code body where r: "g_out (RespondWithError c err) = g_out c @ [(code, body)]" "\<not> rStatus body"
    "code \<in> {400, 401, 403, 404, 409, 422, 500}"
    using RespondWithError_one [of c err] by blast
  then have "answered c (RespondWithError c err)"
    unfolding answered_def by (intro exI [of _ code] exI [of _ body]) auto
  with r show ?thesis by (simp add: audited_def)
qed

lemma Error_audited: "code \<in> {400, 401, 403, 404, 409, 422, 500} \<Longrightarrow> audited c (NewErrorResponse c code m)"
  by (auto simp: audited_def answered_def)

lemma fail_audited:
  assumes "\<not> evSuccess ev"
  shows "audited c (fst (fail_with H ev err c w))"
proof -
  obtain c1 w1 where r: "record_event H ev c w = (c1, w1)" by fastforce
  obtain code body where o: "g_out (RespondWithError c1 err) = g_out c1 @ [(code, body)]" "\<not> rStatus body"
    "code \<in> {400, 401, 403, 404, 409, 422, 500}"
    using RespondWithError_one [of c1 err] by blast
  then have "answered c (RespondWithError c1 err)"
    using record_event_frame [OF r] unfolding answered_def by (intro exI [of _ code] exI [of _ body]) auto
  with o record_event_frame [OF r] assms show ?thesis by (auto simp: fail_with_def r audited_def)
qed

lemma succeed_audited:
  assumes "evSuccess ev" and "code = 200 \<or> code = 201"
  shows "audited c (fst (succeed_with H ev code m d c w))"
proof -
  obtain c1 w1 where r: "record_event H ev c w = (c1, w1)" by fastforce
  with record_event_frame [OF r] assms show ?thesis
    by (auto simp: succeed_with_def audited_def answered_def)
qed

lemma body_audited:
  "(\<And>req. audited ctx (fst (k req))) \<Longrightarrow> audited ctx (fst (with_body H bind flds k ctx w))"
  by (auto simp: with_body_def Respond_audited intro!: Error_audited split: sum.splits option.splits)

lemmas audited_intros = body_audited fail_audited succeed_audited Respond_audited Error_audited

lemma audit_blank [simp]: "evSuccess (auditFromGin c) = False"
  by (simp add: auditFromGin_def zero_Event_def Let_def)

lemma handlers_audited:
  "audited ctx (fst (Handler_Register H uc ctx w))"
  "audited ctx (fst (Handler_Login H uc ctx w))"
  "audited ctx (fst (Handler_VerifyOTP H uc ctx w))"
  "audited ctx (fst (Handler_Refresh H uc ctx w))"
  "audited ctx (fst (Handler_Logout H uc ctx w))"
  "audited ctx (fst (Handler_ForgotPassword H uc ctx w))"
  "audited ctx (fst (Handler_ResetPassword H uc ctx w))"
  unfolding Handler_Register_def Handler_Login_def Handler_VerifyOTP_def Handler_Refresh_def Handler_Logout_def
    Handler_ForgotPassword_def Handler_ResetPassword_def Let_def
  by (rule body_audited; auto intro!: audited_intros split: prod.splits sum.splits option.splits)+

lemma Change_audited: "audited ctx (fst (Handler_ChangePassword H uc ctx w))"
  unfolding Handler_ChangePassword_def
  by (auto intro!: audited_intros split: prod.splits sum.splits option.splits)

lemma SendOTP_audited: "Handler_SendOTP H uc ctx w = Some (c', w') \<Longrightarrow> audited ctx c'"
proof -
  assume run: "Handler_SendOTP H uc ctx w = Some (c', w')"
  have ok: "audited ctx c'" if "succeed_with H ev 200 m d ctx w1 = (c', w')" "evSuccess ev" for ev m d w1
    using succeed_audited [of ev 200 ctx H m d w1] that by simp
  show ?thesis
  proof (cases "bind_SendOTP H (g_body ctx)")
    case (Inl err)
    with run show ?thesis by (auto simp: Handler_SendOTP_def intro: Error_audited)
  next
    case (Inr req)
    show ?thesis
    proof (cases "ValidatePayloads (h_env H) (h_unicode H) (h_Struct H) (SendOTPRequest_fields req)")
      case (Some err)
      with run Inr show ?thesis by (auto simp: Handler_SendOTP_def intro: Respond_audited)
    next
      case None
      with run Inr obtain r w1 where sent: "auc_SendOTP uc (soEmail req) w = Some (r, w1)"
        by (auto simp: Handler_SendOTP_def split: option.splits)
      show ?thesis
      proof (cases r)
        case (Some err)
        with run Inr None sent have "c' = RespondWithError ctx err" by (simp add: Handler_SendOTP_def)
        then show ?thesis by (simp only: Respond_audited)
      next
        case r: None
        with run Inr None sent show ?thesis
          by (intro ok [of "(auditFromGin ctx)\<lparr>evType := EventOTPSent, evSuccess := True, evEmail := soEmail req\<rparr>"
                "''otp code has been send to '' @ soEmail req" NoData w1])
             (simp_all add: Handler_SendOTP_def)
      qed
    qed
  qed
qed

section \<open>Properties\<close>

text \<open>C23: every authentication endpoint answers a request with exactly one response, whose status is
  one of 200, 201, 400, 401, 403, 404, 409, 422, 500 and is 200 or 201 exactly for a success;
  and the security log gets at most one event, gets one for every success, and never records a
  success that the client was not told, whatever the use case returns.\<close>

theorem endpoints_answer_once:
  "audited ctx (fst (Handler_Register H uc ctx w)) \<and> audited ctx (fst (Handler_Login H uc ctx w)) \<and>
   (\<forall>c' w'. Handler_SendOTP H uc ctx w = Some (c', w') \<longrightarrow> audited ctx c') \<and>
   audited ctx (fst (Handler_VerifyOTP H uc ctx w)) \<and> audited ctx (fst (Handler_Refresh H uc ctx w)) \<and>
   audited ctx (fst (Handler_Logout H uc ctx w)) \<and> audited ctx (fst (Handler_ChangePassword H uc ctx w)) \<and>
   audited ctx (fst (Handler_ForgotPassword H uc ctx w)) \<and> audited ctx (fst (Handler_ResetPassword H uc ctx w))"
  by (intro conjI allI impI handlers_audited Change_audited) (rule SendOTP_audited)


section \<open>Compositions\<close>

context auth_flows
begin

lemma Register_Inr:
  "Register UC u w = (Inr v, w') \<Longrightarrow>
   \<exists>s' e'. uc_Store (au_users UC) u (w_users w) (w_env w) = (Inr v, s', e') \<and> w_users w' = s'"
  by (auto simp: Register_def on_users_def split: prod.splits sum.splits)

lemma register_endpoint:
  assumes run: "Handler_Register H (auth_NewUsecase E UC) ctx w = (c', w')"
    and ok: "rStatus (snd (last (g_out c')))"
  shows "\<exists>req v. bind_Register H (g_body ctx) = Inr req \<and>
    ValidatePayloads (h_env H) (h_unicode H) (h_Struct H) (RegisterRequest_fields req) = None \<and>
    uv (w_users w) (uID v) = None \<and> uv (w_users w') = (uv (w_users w))(uID v \<mapsto> v) \<and>
    live v \<and> \<not> uActive v \<and> uRoleID v = RoleUser \<and> \<not> IsAdmin v \<and>
    uEmail v = NormalizeEmail E (rgEmail req) \<and>
    (\<exists>rid. last (g_out c') = (201, \<lparr>rStatus = True, rMessage = ''registration user success'',
       rData = UserMap (FromV1Domain v), rRequestID = rid\<rparr>))"
proof -
  have bad: "\<not> rStatus (snd (last (g_out (RespondWithError c err))))" for c err
    using RespondWithError_one [of c err] by auto
  obtain req where req: "bind_Register H (g_body ctx) = Inr req"
    and val: "ValidatePayloads (h_env H) (h_unicode H) (h_Struct H) (RegisterRequest_fields req) = None"
    using run ok bad
    by (cases "bind_Register H (g_body ctx)") (auto simp: Handler_Register_def with_body_def split: option.splits)
  obtain q w1 where q: "Register UC (RegisterRequest_ToV1Domain req) w = (q, w1)" by fastforce
  then obtain v where v: "q = Inr v"
    using run ok bad req val
    by (cases q) (auto simp: Handler_Register_def with_body_def fail_with_def split: prod.splits)
  let ?ev = "(auditFromGin ctx)\<lparr>evType := EventRegister, evSuccess := True, evUserID := uID v, evEmail := uEmail v\<rparr>"
  obtain c1 w2 where r: "record_event H ?ev ctx w1 = (c1, w2)" by fastforce
  with run req val q v have c': "c' = NewSuccessResponse c1 201 ''registration user success'' (UserMap (FromV1Domain v))"
    and w': "w' = w2"
    by (simp_all add: Handler_Register_def with_body_def succeed_with_def)
  from Register_Inr [OF q [unfolded v]] obtain s' e' where
    s: "uc_Store (au_users UC) (RegisterRequest_ToV1Domain req) (w_users w) (w_env w) = (Inr v, s', e')" "w_users w1 = s'"
    by blast
  note St = usr.Store_ok [OF s(1)]
  have "w_users w' = s'" using record_event_frame [OF r] s(2) w' by simp
  moreover have "uRoleID v = RoleUser" "\<not> IsAdmin v"
    using St by (simp_all add: RegisterRequest_ToV1Domain_def RoleUser_def RoleAdmin_def IsAdmin_def)
  ultimately show ?thesis
    using req val St c' by (auto simp: RegisterRequest_ToV1Domain_def)
qed

lemma change_endpoint:
  assumes run: "Handler_ChangePassword H (auth_NewUsecase E UC) ctx w = (c', w')"
    and ok: "rStatus (snd (last (g_out c')))" and cur: "CurrentUserFromContext ctx = Inr cu"
  shows "\<exists>req w1. bind_ChangePassword H (g_body ctx) = Inr req \<and>
    auth_ChangePassword E UC (cuID cu) (cpCurrentPassword req) (cpNewPassword req) w = (None, w1) \<and>
    w_users w' = w_users w1"
proof -
  have bad: "\<not> rStatus (snd (last (g_out (RespondWithError c err))))" for c err
    using RespondWithError_one [of c err] by auto
  obtain req where req: "bind_ChangePassword H (g_body ctx) = Inr req"
    and val: "ValidatePayloads (h_env H) (h_unicode H) (h_Struct H) (ChangePasswordRequest_fields req) = None"
    using run ok bad cur
    by (cases "bind_ChangePassword H (g_body ctx)")
       (auto simp: Handler_ChangePassword_def with_body_def split: option.splits)
  obtain x w1 where x: "auth_ChangePassword E UC (cuID cu) (cpCurrentPassword req) (cpNewPassword req) w = (x, w1)"
    by fastforce
  have None: "x = None"
    using run ok bad cur req val x
    by (cases x) (auto simp: Handler_ChangePassword_def with_body_def fail_with_def split: prod.splits)
  have "w_users w' = w_users w1"
    using run cur req val x None record_event_frame
    by (fastforce simp: Handler_ChangePassword_def with_body_def succeed_with_def split: prod.splits)
  with req x None show ?thesis by blast
qed

lemma change_route:
  assumes run: "NewAuthMiddleware (au_jwt UC) (au_redis UC) False (Handler_ChangePassword H (auth_NewUsecase E UC))
      ctx w = (c', w')"
    and ok: "rStatus (snd (last (g_out c')))" and bcrypt: "bcrypt_lib E"
  shows "\<exists>tok claims e1 req user now v.
    g_authorization ctx = ''Bearer '' @ tok \<and>
    svc_ParseToken (au_jwt UC) tok (w_env w) = (Inr claims, e1) \<and> cKind claims \<noteq> KindRefresh \<and>
    bind_ChangePassword H (g_body ctx) = Inr req \<and>
    uv (w_users w) (uid (cUserID claims)) = Some user \<and> live user \<and>
    VerifyPassword E user (cpCurrentPassword req) \<and>
    uv (w_users w') = (uv (w_users w))(uid (cUserID claims) \<mapsto> v) \<and> VerifyPassword E v (cpNewPassword req) \<and>
    uPasswordChangedAt v = Some (ts now)"
proof -
  let ?next = "Handler_ChangePassword H (auth_NewUsecase E UC)"
  have nr: "\<not> refused ctx c'" using ok by (auto simp: refused_def)
  obtain tok claims e1 w2 where
    t: "g_authorization ctx = ''Bearer '' @ tok" "svc_ParseToken (au_jwt UC) tok (w_env w) = (Inr claims, e1)"
      "cKind claims \<noteq> KindRefresh" "w_users w2 = w_users w"
      "?next (gin_Set ctx CtxAuthenticatedUserKey (CtxClaims claims)) w2 = (c', w')"
    using gate_sound [OF run [unfolded NewAuthMiddleware_def]] nr by auto
  obtain req w3 where
    r: "bind_ChangePassword H (g_body (gin_Set ctx CtxAuthenticatedUserKey (CtxClaims claims))) = Inr req"
      "auth_ChangePassword E UC (cUserID claims) (cpCurrentPassword req) (cpNewPassword req) w2 = (None, w3)"
      "w_users w' = w_users w3"
    using change_endpoint [OF t(5) ok CurrentUser_after_gate] by auto
  from Change_sound [OF r(2) bcrypt] obtain user now v where
    "uv (w_users w2) (uid (cUserID claims)) = Some user" "live user" "VerifyPassword E user (cpCurrentPassword req)"
    "uv (w_users w3) = (uv (w_users w2))(uid (cUserID claims) \<mapsto> v)" "VerifyPassword E v (cpNewPassword req)"
    "uPasswordChangedAt v = Some (ts now)" by blast
  moreover have "bind_ChangePassword H (g_body ctx) = Inr req" using r(1) by (simp add: gin_Set_def)
  ultimately show ?thesis using t(1-4) r(3) by auto
qed

end

text \<open>C24: a registration that is answered with success added exactly one user to the table: a live,
  inactive one with the role of an ordinary user under the normalised address, and the response
  shows that user. No request body can register an administrator or an active account.\<close>

theorem register_endpoint_sound:
  assumes "auth_flows UC rv dttl E used uv coh ts uid"
    and "Handler_Register H (auth_NewUsecase E UC) ctx w = (c', w')"
    and "rStatus (snd (last (g_out c')))"
  shows "\<exists>req v. bind_Register H (g_body ctx) = Inr req \<and>
    ValidatePayloads (h_env H) (h_unicode H) (h_Struct H) (RegisterRequest_fields req) = None \<and>
    uv (w_users w) (uID v) = None \<and> uv (w_users w') = (uv (w_users w))(uID v \<mapsto> v) \<and>
    live v \<and> \<not> uActive v \<and> uRoleID v = RoleUser \<and> \<not> IsAdmin v \<and>
    uEmail v = NormalizeEmail E (rgEmail req) \<and>
    (\<exists>rid. last (g_out c') = (201, \<lparr>rStatus = True, rMessage = ''registration user success'',
       rData = UserMap (FromV1Domain v), rRequestID = rid\<rparr>))"
  by (rule auth_flows.register_endpoint [OF assms])

text \<open>The route for changing a password, from the bearer token to the table: when it answers with
  success, the request carried an accepted access token, the current password of the user of that
  token was given, and the table changed only in the row of that user, whose new password is the
  submitted one.\<close>

theorem change_password_route_sound:
  assumes "auth_flows UC rv dttl E used uv coh ts uid" and "bcrypt_lib E"
    and "NewAuthMiddleware (au_jwt UC) (au_redis UC) False (Handler_ChangePassword H (auth_NewUsecase E UC))
      ctx w = (c', w')"
    and "rStatus (snd (last (g_out c')))"
  shows "\<exists>tok claims e1 req user now v.
    g_authorization ctx = ''Bearer '' @ tok \<and>
    svc_ParseToken (au_jwt UC) tok (w_env w) = (Inr claims, e1) \<and> cKind claims \<noteq> KindRefresh \<and>
    bind_ChangePassword H (g_body ctx) = Inr req \<and>
    uv (w_users w) (uid (cUserID claims)) = Some user \<and> live user \<and>
    VerifyPassword E user (cpCurrentPassword req) \<and>
    uv (w_users w') = (uv (w_users w))(uid (cUserID claims) \<mapsto> v) \<and> VerifyPassword E v (cpNewPassword req) \<and>
    uPasswordChangedAt v = Some (ts now)"
  by (rule auth_flows.change_route [OF assms(1,3,4,2)])

section \<open>Evaluated requests\<close>

text \<open>Decoders that yield fixed bodies; an absent, an empty and a cut body are refused.\<close>

definition ref_bind :: "'q \<Rightarrow> body_reader option \<Rightarrow> goerr + 'q" where
  "ref_bind q r =
     (case r of
        None \<Rightarrow> Inl (ErrorString ''invalid request'')
      | Some b \<Rightarrow> if br_data b = '''' \<or> br_tooLarge b then Inl (ErrorString ''EOF'') else Inr q)"

text \<open>The tokens of the first session of the user.\<close>

definition ref_pair0 :: TokenPair where
  "ref_pair0 = projr (fst (GenerateTokenPair ref_env ref_jwtlib ref_jwt ''id-0'' False ''ann@x.io'' ref_e0))"

definition ref_H :: "ref_world handler_env" where
  "ref_H =
     \<lparr>h_env = ref_env, h_unicode = ref_unicode, h_Struct = ref_Struct,
      bind_Register = ref_bind \<lparr>rgUsername = ''bob'', rgEmail = ''bob@x.io'', rgPassword = ''Long_enough_1''\<rparr>,
      bind_Login = ref_bind \<lparr>lqEmail = ''ann@x.io'', lqPassword = ''Old_pw_1''\<rparr>,
      bind_SendOTP = ref_bind \<lparr>soEmail = ''ann@x.io''\<rparr>,
      bind_VerifyOTP = ref_bind \<lparr>voEmail = ''ann@x.io'', voCode = ''000000''\<rparr>,
      bind_Refresh = ref_bind \<lparr>rqRefreshToken = RefreshToken ref_pair0\<rparr>,
      bind_ChangePassword = ref_bind \<lparr>cpCurrentPassword = ''Old_pw_1'', cpNewPassword = ''Long_enough_1''\<rparr>,
      bind_ForgotPassword = ref_bind \<lparr>fpEmail = ''ann@x.io''\<rparr>,
      bind_ResetPassword = ref_bind \<lparr>rpToken = ''tok'', rpNewPassword = ''Long_enough_1''\<rparr>\<rparr>"

lemma ref_H_sel [simp]:
  "h_env ref_H = ref_env" "h_unicode ref_H = ref_unicode" "h_Struct ref_H = ref_Struct"
  by (simp_all add: ref_H_def)

definition ref_body :: gin_ctx where
  "ref_body = ref_bearer\<lparr>g_body := Some \<lparr>br_data = ''{}'', br_tooLarge = False\<rparr>\<rparr>"

theorem endpoints_answer_once_witness:
  "\<exists>c' w'. Handler_SendOTP ref_H (auth_NewUsecase ref_env ref_uc) ref_ctx (ref_world0 True []) = Some (c', w') \<and>
     map fst (g_out c') = [400] \<and> audited ref_ctx c'"
proof -
  have "Handler_SendOTP ref_H (auth_NewUsecase ref_env ref_uc) ref_ctx (ref_world0 True []) =
      Some (NewErrorResponse ref_ctx 400 ''invalid request body'', ref_world0 True [])"
    by (simp add: Handler_SendOTP_def ref_H_def ref_bind_def ref_ctx_def)
  moreover from endpoints_answer_once [of ref_ctx ref_H "auth_NewUsecase ref_env ref_uc" "ref_world0 True []"] this
  have "audited ref_ctx (NewErrorResponse ref_ctx 400 ''invalid request body'')" by blast
  ultimately show ?thesis by (simp add: ref_ctx_def)
qed

lemma ref_body_ascii: "ascii ''bob''" "ascii ''bob@x.io''" "ascii ''Long_enough_1''" "ascii ''Old_pw_1''"
  by (simp_all add: is_ascii_def byte_val_def)

lemma ref_lengths:
  "length (runes ''bob'') = 3" "length (runes ''bob@x.io'') = 8" "length (runes ''Long_enough_1'') = 13"
  "length (runes ''Old_pw_1'') = 8"
  by (simp_all only: runes_ascii ref_body_ascii length_map) simp_all

lemma ref_strong: "StrongPassword ref_unicode ''Long_enough_1''"
  unfolding StrongPassword_iff runes_ascii [OF ref_body_ascii(3)]
  by (simp add: ref_unicode_def in_range_def is_digit_def byte_val_def)

lemma ref_register_valid:
  "ValidatePayloads ref_env ref_unicode ref_Struct
     (RegisterRequest_fields \<lparr>rgUsername = ''bob'', rgEmail = ''bob@x.io'', rgPassword = ''Long_enough_1''\<rparr>) = None"
  unfolding ref_validator.register_valid
  by (simp add: ref_lengths ref_builtin_def ref_strong del: runes.simps)

lemma ref_change_valid:
  "ValidatePayloads ref_env ref_unicode ref_Struct
     (ChangePasswordRequest_fields \<lparr>cpCurrentPassword = ''Old_pw_1'', cpNewPassword = ''Long_enough_1''\<rparr>) = None"
  unfolding ref_validator.ValidatePayloads_None ChangePasswordRequest_fields_def
  by (simp add: ref_validator.rules_spec ref_lengths ref_strong del: runes.simps)

lemma ref_store:
  "\<exists>v s. users_Store ref_env ref_users_uc
     (RegisterRequest_ToV1Domain \<lparr>rgUsername = ''bob'', rgEmail = ''bob@x.io'', rgPassword = ''Long_enough_1''\<rparr>)
     (w_users (ref_world0 True [])) ref_e0 = (Inr v, s, ref_e0)"
proof -
  have "strings_TrimSpace ''bob'' = ''bob''" "NormalizeEmail ref_env ''bob@x.io'' = ''bob@x.io''" by code_simp+
  moreover have "map byte_to_lower ''ann'' = ''ann''" "map byte_to_lower ''bob'' = ''bob''" by code_simp+
  moreover have "nat_to_dec 1 = ''1''" by code_simp
  ultimately show ?thesis
    by (simp add: users_Store_def NewUser_def RegisterRequest_ToV1Domain_def clamp_cost_def ref_generate_def
        postgres_Store_def rd_named_query_def rd_insert_def ref_world0_def ref_run_defs FromUsersV1Domain_def
        zero_User_def)
qed

lemma ref_served:
  "\<exists>c' w'. succeed_with ref_H ev code m d c w = (c', w') \<and> rStatus (snd (last (g_out c')))"
  by (simp add: succeed_with_def record_event_def audit_Record_def)

theorem register_endpoint_sound_witness:
  "\<exists>c' w' v. Handler_Register ref_H (auth_NewUsecase ref_env ref_uc) ref_body (ref_world0 True []) = (c', w') \<and>
     ref_uv (w_users w') (uID v) = Some v \<and> \<not> uActive v \<and> uEmail v = NormalizeEmail ref_env ''bob@x.io''"
proof -
  let ?w = "ref_world0 True []" and ?req = "\<lparr>rgUsername = ''bob'', rgEmail = ''bob@x.io'', rgPassword = ''Long_enough_1''\<rparr>"
  obtain v s where "users_Store ref_env ref_users_uc (RegisterRequest_ToV1Domain ?req) (w_users ?w) ref_e0 = (Inr v, s, ref_e0)"
    using ref_store by blast
  then have reg: "Register ref_uc (RegisterRequest_ToV1Domain ?req) ?w = (Inr v, ?w\<lparr>w_users := s, w_env := ref_e0\<rparr>)"
    by (simp add: Register_def on_users_def ref_world0_def)
  have b: "bind_Register ref_H (g_body ref_body) = Inr ?req"
    by (simp add: ref_H_def ref_bind_def ref_body_def)
  obtain c' w' where run: "Handler_Register ref_H (auth_NewUsecase ref_env ref_uc) ref_body ?w = (c', w')"
    and ok: "rStatus (snd (last (g_out c')))"
    using ref_served ref_register_valid reg b by (fastforce simp: Handler_Register_def with_body_def)
  from register_endpoint_sound [OF ref_auth.auth_flows_axioms run ok] run b show ?thesis by auto
qed

lemma ref_gate:
  assumes b: "g_authorization c = ''Bearer '' @ ref_token"
  shows "\<exists>w2. w_users w2 = w_users (ref_world0 True []) \<and> w_env w2 = ref_e0 \<and>
     NewAuthMiddleware (au_jwt ref_uc) (au_redis ref_uc) False next c (ref_world0 True []) =
       next (gin_Set c CtxAuthenticatedUserKey (CtxClaims ref_claims)) w2"
proof -
  let ?w = "ref_world0 True []" and ?m = "\<lparr>am_jwtService = au_jwt ref_uc, am_redisCache = Some (au_redis ref_uc), am_isAdmin = False\<rparr>"
  have w: "w_env ?w = ref_e0" "rr_keys (w_redis ?w) = Map.empty" by (simp_all add: ref_world0_def)
  have p: "ParseToken ref_jwtlib ref_jwt ref_token ref_e0 = (Inr ref_claims, ref_e0)"
    by (rule ref_token_parses) (simp add: ref_e0_def Second_def)
  have sp: "strings_Split (''Bearer '' @ ref_token) (CHR '' '') = [''Bearer'', ref_token]"
    using split_no_sep [OF ref_token_no_space] by simp
  obtain x r where get: "cache_Get (NewRedisCache ref_client 5) (TokenCutoffKey ''id-0'') (w_redis ?w) = (Inl x, r)"
    using ref_auth.red.Get_absent [of "w_redis ?w" "TokenCutoffKey ''id-0''"] w(2) by auto
  have cl: "cUserID ref_claims = ''id-0''" "cIssuedAt ref_claims = Some (1699990000 * Second)" "\<not> cIsAdmin ref_claims"
    by (simp_all add: ref_claims_def)
  have cut: "cutoff_revokes ?m ref_claims (?w\<lparr>w_env := ref_e0\<rparr>) = (False, ?w\<lparr>w_env := ref_e0, w_redis := r\<rparr>)"
    using get cl by (simp add: cutoff_revokes_def on_redis_def)
  show ?thesis
    by (rule exI [of _ "?w\<lparr>w_env := ref_e0, w_redis := r\<rparr>"])
       (use p sp cut b cl w in \<open>simp add: NewAuthMiddleware_def AuthMiddleware_Handle_def on_env_def\<close>)
qed

lemma ref_change_runs:
  assumes c: "g_authorization c = ''Bearer '' @ ref_token" "g_body c = Some b" "br_data b \<noteq> ''''" "\<not> br_tooLarge b"
  shows "\<exists>c' w'. NewAuthMiddleware (au_jwt ref_uc) (au_redis ref_uc) False
      (Handler_ChangePassword ref_H (auth_NewUsecase ref_env ref_uc)) c (ref_world0 True []) = (c', w') \<and>
    rStatus (snd (last (g_out c')))"
proof -
  let ?w = "ref_world0 True []" and ?c = "gin_Set c CtxAuthenticatedUserKey (CtxClaims ref_claims)"
  let ?next = "Handler_ChangePassword ref_H (auth_NewUsecase ref_env ref_uc)"
  let ?u = "(ref_user True)\<lparr>uPassword := ref_hash ''Long_enough_1'' 10,
    uPasswordChangedAt := Some (rw_now ref_e0), uUpdatedAt := Some (rw_now ref_e0)\<rparr>"
  obtain w2 where w2: "w_users w2 = w_users ?w" "w_env w2 = ref_e0"
    "NewAuthMiddleware (au_jwt ref_uc) (au_redis ref_uc) False ?next c ?w = ?next ?c w2"
    using ref_gate [OF c(1)] by blast
  obtain s where s: "users_UpdatePassword ref_users_uc (Some ?u) (w_users ?w) ref_e0 = (None, s, ref_e0)"
    using ref_update [of ?u True ref_e0] by auto
  have ch: "ChangePassword ref_env (ref_user True) ''Long_enough_1'' 10 ref_e0 = (Inr ?u, ref_e0)"
    by (simp add: ChangePassword_def clamp_cost_def ref_generate_def)
  have "\<exists>w3. auth_ChangePassword ref_env ref_uc ''id-0'' ''Old_pw_1'' ''Long_enough_1'' w2 = (None, w3)"
    using s w2 ch by (simp add: auth_ChangePassword_def on_users_def on_env_def ref_byid ref_revoked(1))
  then obtain w3 where w3: "auth_ChangePassword ref_env ref_uc ''id-0'' ''Old_pw_1'' ''Long_enough_1'' w2 = (None, w3)" ..
  have "bind_ChangePassword ref_H (g_body ?c) = Inr \<lparr>cpCurrentPassword = ''Old_pw_1'', cpNewPassword = ''Long_enough_1''\<rparr>"
    using c by (simp add: ref_H_def ref_bind_def gin_Set_def)
  then show ?thesis
    unfolding w2(3) using ref_served ref_change_valid w3
    by (fastforce simp: Handler_ChangePassword_def with_body_def CurrentUser_after_gate ref_claims_def)
qed

theorem change_password_route_sound_witness:
  "\<exists>c' w' v. NewAuthMiddleware (au_jwt ref_uc) (au_redis ref_uc) False
       (Handler_ChangePassword ref_H (auth_NewUsecase ref_env ref_uc)) ref_body (ref_world0 True []) = (c', w') \<and>
     ref_uv (w_users w') ''id-0'' = Some v \<and> VerifyPassword ref_env v ''Long_enough_1''"
proof -
  let ?w = "ref_world0 True []"
  let ?req = "\<lparr>cpCurrentPassword = ''Old_pw_1'', cpNewPassword = ''Long_enough_1''\<rparr>"
  obtain c' w' where run': "NewAuthMiddleware (au_jwt ref_uc) (au_redis ref_uc) False
      (Handler_ChangePassword ref_H (auth_NewUsecase ref_env ref_uc)) ref_body ?w = (c', w')"
    and ok: "rStatus (snd (last (g_out c')))"
    using ref_change_runs [of ref_body] by (auto simp: ref_body_def ref_bearer_def)
  obtain tok claims e1 req v where
    "g_authorization ref_body = ''Bearer '' @ tok" "svc_ParseToken (au_jwt ref_uc) tok (w_env ?w) = (Inr claims, e1)"
    "bind_ChangePassword ref_H (g_body ref_body) = Inr req"
    "ref_uv (w_users w') = (ref_uv (w_users ?w))(cUserID claims \<mapsto> v)" "VerifyPassword ref_env v (cpNewPassword req)"
    using change_password_route_sound [OF ref_auth.auth_flows_axioms ref_bcrypt.bcrypt_lib_axioms run' ok] by blast
  moreover have "ParseToken ref_jwtlib ref_jwt ref_token ref_e0 = (Inr ref_claims, ref_e0)"
    by (rule ref_token_parses) (simp add: ref_e0_def Second_def)
  moreover have "w_env ?w = ref_e0" "g_authorization ref_body = ''Bearer '' @ ref_token" "cUserID ref_claims = ''id-0''"
    "bind_ChangePassword ref_H (g_body ref_body) = Inr ?req"
    by (simp_all add: ref_world0_def ref_body_def ref_bearer_def ref_claims_def ref_H_def ref_bind_def)
  ultimately show ?thesis using run' by auto
qed

end
