(* ===== verification/Rate_Limit.thy ===== *)
theory Rate_Limit
  imports Http_Base Complex_Main
begin

text \<open>
  \<^verbatim>\<open>internal/http/middlewares/middleware.ratelimit.go\<close>: a token bucket per client address, with a
  sweep that forgets idle addresses. The buckets are those of \<^verbatim>\<open>golang.org/x/time/rate\<close>, a
  parameter with its documented behaviour (a bucket starts full, refills at its rate up to its
  size, and a call is allowed when it holds a token). Floating point numbers are rationals.
  The property: in any span of time, whatever the interleaving of requests and sweeps, no address
  gets more requests through than the burst plus what the rate gives for the span.
\<close>

record 'l rate_lib =
  rate_NewLimiter :: "rat \<Rightarrow> int \<Rightarrow> 'l"
  rate_Allow :: "'l \<Rightarrow> time \<Rightarrow> bool \<times> 'l"
  rate_Tokens :: "'l \<Rightarrow> time \<Rightarrow> rat"
  rate_Limit :: "'l \<Rightarrow> rat"

record 'l ipLimiter =
  il_limiter :: 'l
  il_lastSeen :: time

record 'l RateLimiter =
  rl_visitors :: "string \<rightharpoonup> 'l ipLimiter"
  rl_rate :: rat
  rl_burst :: int

definition NewRateLimiter :: "rat \<Rightarrow> int \<Rightarrow> 'l RateLimiter" where
  "NewRateLimiter r burst = \<lparr>rl_visitors = Map.empty, rl_rate = r, rl_burst = burst\<rparr>"

definition getLimiter ::
  "'l rate_lib \<Rightarrow> 'e goenv \<Rightarrow> 'l RateLimiter \<Rightarrow> string \<Rightarrow> 'e \<Rightarrow> 'l \<times> 'l RateLimiter \<times> 'e" where
  "getLimiter L E rl ip e =
     (case rl_visitors rl ip of
        None \<Rightarrow>
          (let limiter = rate_NewLimiter L (rl_rate rl) (rl_burst rl) in
           case time_Now E e of
             (now, e) \<Rightarrow>
               (limiter, rl\<lparr>rl_visitors := (rl_visitors rl)(ip \<mapsto> \<lparr>il_limiter = limiter, il_lastSeen = now\<rparr>)\<rparr>, e))
      | Some v \<Rightarrow>
          (case time_Now E e of
             (now, e) \<Rightarrow>
               (il_limiter v, rl\<lparr>rl_visitors := (rl_visitors rl)(ip \<mapsto> v\<lparr>il_lastSeen := now\<rparr>)\<rparr>, e)))"

text \<open>One sweep of \<^verbatim>\<open>cleanup\<close>, in the order in which the map yields its keys.\<close>

fun cleanup_sweep ::
  "'e goenv \<Rightarrow> string list \<Rightarrow> 'l RateLimiter \<Rightarrow> 'e \<Rightarrow> 'l RateLimiter \<times> 'e" where
  "cleanup_sweep E [] rl e = (rl, e)"
| "cleanup_sweep E (ip # ips) rl e =
     (case rl_visitors rl ip of
        None \<Rightarrow> cleanup_sweep E ips rl e
      | Some v \<Rightarrow>
          (case time_Now E e of
             (now, e) \<Rightarrow>
               if now - il_lastSeen v > 5 * Minute
               then cleanup_sweep E ips (rl\<lparr>rl_visitors := (rl_visitors rl)(ip := None)\<rparr>) e
               else cleanup_sweep E ips rl e))"

definition resetSeconds :: "rat \<Rightarrow> int \<Rightarrow> rat \<Rightarrow> int" where
  "resetSeconds r burst tokens =
     (if r > 0 \<and> of_int burst - tokens > 0 then ceiling ((of_int burst - tokens) / r) else 0)"

definition writeRateLimitHeaders ::
  "'l rate_lib \<Rightarrow> 'e goenv \<Rightarrow> gin_ctx \<Rightarrow> int \<Rightarrow> 'l \<Rightarrow> 'e \<Rightarrow> gin_ctx \<times> 'e" where
  "writeRateLimitHeaders L E c burst limiter e =
     (case time_Now E e of
        (t, e) \<Rightarrow>
          (let tokens = rate_Tokens L limiter t;
               remaining = max (floor tokens) 0;
               reset = resetSeconds (rate_Limit L limiter) burst tokens;
               c = gin_SetHeader c ''X-RateLimit-Limit'' (Itoa burst);
               c = gin_SetHeader c ''X-RateLimit-Remaining'' (Itoa remaining)
           in case time_Now E e of
                (now, e) \<Rightarrow> (gin_SetHeader c ''X-RateLimit-Reset'' (Itoa (time_Unix (now + wrap64 (reset * Second)))), e)))"

definition retryAfterSeconds :: "'l rate_lib \<Rightarrow> 'e goenv \<Rightarrow> 'l \<Rightarrow> 'e \<Rightarrow> int \<times> 'e" where
  "retryAfterSeconds L E limiter e =
     (let r = rate_Limit L limiter in
      if r \<le> 0 then (1, e)
      else case time_Now E e of
          (t, e) \<Rightarrow>
            (let deficit = 1 - rate_Tokens L limiter t
             in if deficit \<le> 0 then (0, e) else (ceiling (deficit / r), e)))"

text \<open>The answer to a request over the limit; the envelope is that of the handlers.\<close>

definition rateLimitedResponse :: "gin_ctx \<Rightarrow> BaseResponse" where
  "rateLimitedResponse c =
     \<lparr>rStatus = False, rMessage = ''too many requests, please try again later'', rData = NoData,
      rRequestID = gin_GetString c ''X-Request-ID''\<rparr>"

text \<open>The admission of a request: whether it passes, and the context and state after the check.\<close>

definition rl_admit ::
  "'l rate_lib \<Rightarrow> 'e goenv \<Rightarrow> gin_ctx \<Rightarrow> 'l RateLimiter \<Rightarrow> 'e \<Rightarrow> bool \<times> gin_ctx \<times> 'l RateLimiter \<times> 'e" where
  "rl_admit L E c rl e =
     (let ip = g_clientIP c in
      case getLimiter L E rl ip e of
        (limiter, rl, e) \<Rightarrow>
          (case writeRateLimitHeaders L E c (rl_burst rl) limiter e of
             (c, e) \<Rightarrow>
               (case time_Now E e of
                  (t, e) \<Rightarrow>
                    (case rate_Allow L limiter t of
                       (ok, limiter) \<Rightarrow>
                         (let rl = rl\<lparr>rl_visitors := (rl_visitors rl)(ip := map_option (\<lambda>v. v\<lparr>il_limiter := limiter\<rparr>)
                                (rl_visitors rl ip))\<rparr>
                          in if ok then (True, c, rl, e)
                             else (case retryAfterSeconds L E limiter e of
                                     (retryAfter, e) \<Rightarrow>
                                       (False,
                                        (let c = gin_SetHeader c ''Retry-After'' (Itoa retryAfter)
                                         in gin_AbortWithStatusJSON c 429 (rateLimitedResponse c)),
                                        rl, e)))))))"

definition rl_Middleware ::
  "'l rate_lib \<Rightarrow> 'e goenv \<Rightarrow> (gin_ctx \<Rightarrow> 'l RateLimiter \<Rightarrow> 'e \<Rightarrow> gin_ctx \<times> 'l RateLimiter \<times> 'e) \<Rightarrow>
   gin_ctx \<Rightarrow> 'l RateLimiter \<Rightarrow> 'e \<Rightarrow> gin_ctx \<times> 'l RateLimiter \<times> 'e" where
  "rl_Middleware L E next c rl e =
     (case rl_admit L E c rl e of
        (True, c, rl, e) \<Rightarrow> next c rl e
      | (False, c, rl, e) \<Rightarrow> (c, rl, e))"

section \<open>What the parts are\<close>

text \<open>A clock that does not run backwards; \<open>clock e\<close> is the last instant read.\<close>

locale mono_clock =
  fixes E :: "'e goenv" and clock :: "'e \<Rightarrow> time"
  assumes now_mono: "time_Now E e = (t, e') \<Longrightarrow> clock e \<le> t \<and> t \<le> clock e'"

text \<open>The token bucket: \<open>avail l t\<close> tokens at an instant not before its last change \<open>used l\<close>.\<close>

locale token_bucket =
  fixes L :: "'l rate_lib" and avail :: "'l \<Rightarrow> time \<Rightarrow> rat" and used :: "'l \<Rightarrow> time option"
    and made :: "'l \<Rightarrow> rat \<times> int"
  assumes new_full: "0 \<le> b \<Longrightarrow> avail (rate_NewLimiter L r b) t = of_int b"
    and new_made: "made (rate_NewLimiter L r b) = (r, b)" "used (rate_NewLimiter L r b) = None"
    and refill: "made l = (r, b) \<Longrightarrow> 0 \<le> r \<Longrightarrow> (\<forall>u. used l = Some u \<longrightarrow> u \<le> t) \<Longrightarrow> t \<le> t' \<Longrightarrow>
      avail l t' = min (of_int b) (avail l t + r * of_int (t' - t) / of_int Second)"
    and allow: "(\<forall>u. used l = Some u \<longrightarrow> u \<le> t) \<Longrightarrow> rate_Allow L l t = (ok, l') \<Longrightarrow>
      (ok \<longleftrightarrow> 1 \<le> avail l t) \<and> made l' = made l \<and> (\<forall>u. used l' = Some u \<longrightarrow> u \<le> t) \<and>
      avail l' t = avail l t - (if ok then 1 else 0)"

text \<open>The history of a limiter, and how many requests of one address it let through: time passes,
  requests are admitted or not, sweeps run. The check of one request takes at most \<open>slack\<close>.\<close>

inductive rl_run ::
  "'l rate_lib \<Rightarrow> 'e goenv \<Rightarrow> ('e \<Rightarrow> time) \<Rightarrow> duration \<Rightarrow> string \<Rightarrow> 'l RateLimiter \<Rightarrow> 'e \<Rightarrow> nat \<Rightarrow>
   'l RateLimiter \<Rightarrow> 'e \<Rightarrow> bool"
  for L E clock slack ip rl0 e0 where
  rl_start: "rl_run L E clock slack ip rl0 e0 0 rl0 e0"
| rl_elapse: "rl_run L E clock slack ip rl0 e0 n rl e \<Longrightarrow> clock e \<le> clock e' \<Longrightarrow>
    rl_run L E clock slack ip rl0 e0 n rl e'"
| rl_request: "rl_run L E clock slack ip rl0 e0 n rl e \<Longrightarrow> rl_admit L E c rl e = (ok, c', rl', e') \<Longrightarrow>
    clock e' \<le> clock e + slack \<Longrightarrow>
    rl_run L E clock slack ip rl0 e0 (if ok \<and> g_clientIP c = ip then Suc n else n) rl' e'"
| rl_sweep: "rl_run L E clock slack ip rl0 e0 n rl e \<Longrightarrow> cleanup_sweep E ips rl e = (rl', e') \<Longrightarrow>
    rl_run L E clock slack ip rl0 e0 n rl' e'"

locale rate_limiting = mono_clock E clock + token_bucket L avail used made
  for E :: "'e goenv" and clock :: "'e \<Rightarrow> time" and L :: "'l rate_lib"
    and avail :: "'l \<Rightarrow> time \<Rightarrow> rat" and used :: "'l \<Rightarrow> time option" and made :: "'l \<Rightarrow> rat \<times> int" +
  fixes r :: rat and b :: int and slack :: duration
  assumes rate: "0 \<le> r" and burst: "0 \<le> b"
    and idle_fills: "of_int b \<le> r * of_int (5 * Minute - slack) / of_int Second"
begin

definition bucket_ok :: "'l ipLimiter \<Rightarrow> 'e \<Rightarrow> bool" where
  "bucket_ok v e \<longleftrightarrow> made (il_limiter v) = (r, b) \<and>
     (\<exists>t0. t0 \<le> clock e \<and> t0 \<le> il_lastSeen v + slack \<and> (\<forall>u. used (il_limiter v) = Some u \<longrightarrow> u \<le> t0) \<and>
        0 \<le> avail (il_limiter v) t0 \<and> avail (il_limiter v) t0 \<le> of_int b)"

definition limiter_ok :: "'l RateLimiter \<Rightarrow> 'e \<Rightarrow> bool" where
  "limiter_ok rl e \<longleftrightarrow> rl_rate rl = r \<and> rl_burst rl = b \<and> (\<forall>ip v. rl_visitors rl ip = Some v \<longrightarrow> bucket_ok v e)"

definition level :: "'l RateLimiter \<Rightarrow> string \<Rightarrow> time \<Rightarrow> rat" where
  "level rl ip t = (case rl_visitors rl ip of None \<Rightarrow> of_int b | Some v \<Rightarrow> avail (il_limiter v) t)"

definition gain :: "time \<Rightarrow> time \<Rightarrow> rat" where
  "gain t t' = r * of_int (t' - t) / of_int Second"

lemma gain_nonneg: "t \<le> t' \<Longrightarrow> 0 \<le> gain t t'"
  using rate by (simp add: gain_def Second_def)

lemma gain_add: "gain t t' + gain t' t'' = gain t t''"
  by (simp add: gain_def Second_def field_simps)

lemma gain_self [simp]: "gain t t = 0"
  by (simp add: gain_def)

lemma avail_later:
  assumes "made l = (r, b)" and "\<forall>u. used l = Some u \<longrightarrow> u \<le> t" and "t \<le> t'"
  shows "avail l t' \<le> avail l t + gain t t'" "avail l t' \<le> of_int b"
    "avail l t \<le> of_int b \<Longrightarrow> avail l t \<le> avail l t'"
  using refill [OF assms(1) rate assms(2,3), folded gain_def] gain_nonneg [OF assms(3)] by auto

text \<open>A bucket that was idle for the whole period of the sweep is full.\<close>

lemma idle_full:
  assumes v: "bucket_ok v e" and t: "clock e \<le> t" "5 * Minute < t - il_lastSeen v"
  shows "avail (il_limiter v) t = of_int b"
proof -
  obtain t0 where t0: "t0 \<le> clock e" "t0 \<le> il_lastSeen v + slack" "\<forall>u. used (il_limiter v) = Some u \<longrightarrow> u \<le> t0"
    "0 \<le> avail (il_limiter v) t0" and m: "made (il_limiter v) = (r, b)"
    using v by (auto simp: bucket_ok_def)
  have "of_int b \<le> gain t0 t"
  proof -
    have "5 * Minute - slack \<le> t - t0" using t t0(2) by simp
    then have "(of_int (5 * Minute - slack) :: rat) \<le> of_int (t - t0)" by (simp only: of_int_le_iff)
    then have "r * of_int (5 * Minute - slack) / of_int Second \<le> gain t0 t"
      unfolding gain_def using rate by (intro divide_right_mono mult_left_mono) (simp_all add: Second_def)
    with idle_fills show ?thesis by simp
  qed
  moreover have "t0 \<le> t" using t0(1) t(1) by simp
  ultimately show ?thesis using refill [OF m rate t0(3), of t, folded gain_def] t0(4) by simp
qed

lemma bucket_later: "bucket_ok v e \<Longrightarrow> clock e \<le> clock e' \<Longrightarrow> bucket_ok v e'"
  by (auto simp: bucket_ok_def intro: order_trans)

lemma bucket_now:
  assumes "bucket_ok v e"
  shows "\<forall>u. used (il_limiter v) = Some u \<longrightarrow> u \<le> clock e" "made (il_limiter v) = (r, b)"
    "0 \<le> avail (il_limiter v) (clock e)" "avail (il_limiter v) (clock e) \<le> of_int b"
proof -
  obtain t0 where t0: "t0 \<le> clock e" "\<forall>u. used (il_limiter v) = Some u \<longrightarrow> u \<le> t0"
    "0 \<le> avail (il_limiter v) t0" "avail (il_limiter v) t0 \<le> of_int b" and m: "made (il_limiter v) = (r, b)"
    using assms by (auto simp: bucket_ok_def)
  then show "\<forall>u. used (il_limiter v) = Some u \<longrightarrow> u \<le> clock e" "made (il_limiter v) = (r, b)"
    "0 \<le> avail (il_limiter v) (clock e)" "avail (il_limiter v) (clock e) \<le> of_int b"
    using avail_later [OF m t0(2,1)] by auto
qed

lemma level_later:
  assumes "limiter_ok rl e" and "clock e \<le> t"
  shows "level rl ip t \<le> level rl ip (clock e) + gain (clock e) t"
proof (cases "rl_visitors rl ip")
  case None
  then show ?thesis using gain_nonneg [OF assms(2)] by (simp add: level_def)
next
  case (Some v)
  then have "bucket_ok v e" using assms(1) by (simp add: limiter_ok_def)
  with Some show ?thesis
    using avail_later(1) [OF bucket_now(2,1) assms(2)] by (simp add: level_def)
qed

lemma level_burst: "limiter_ok rl e \<Longrightarrow> level rl ip (clock e) \<le> of_int b"
  using bucket_now(4) by (auto simp: level_def limiter_ok_def split: option.splits)

lemma elapse_ok: "limiter_ok rl e \<Longrightarrow> clock e \<le> clock e' \<Longrightarrow> limiter_ok rl e'"
  unfolding limiter_ok_def using bucket_later by blast

lemma headers_clock: "writeRateLimitHeaders L E c n l e = (c', e') \<Longrightarrow> clock e \<le> clock e'"
  by (auto simp: writeRateLimitHeaders_def Let_def split: prod.splits dest!: now_mono)

lemma retry_clock: "retryAfterSeconds L E l e = (k, e') \<Longrightarrow> clock e \<le> clock e'"
  by (auto simp: retryAfterSeconds_def Let_def split: prod.splits if_splits dest!: now_mono)

lemma admit_elim:
  assumes "rl_admit L E c rl e = (ok, c', rl', e')"
  obtains l now t l' where
    "l = (case rl_visitors rl (g_clientIP c) of None \<Rightarrow> rate_NewLimiter L (rl_rate rl) (rl_burst rl) | Some v \<Rightarrow> il_limiter v)"
    "clock e \<le> now" "now \<le> t" "t \<le> clock e'" "rate_Allow L l t = (ok, l')"
    "rl' = rl\<lparr>rl_visitors := (rl_visitors rl)(g_clientIP c \<mapsto> \<lparr>il_limiter = l', il_lastSeen = now\<rparr>)\<rparr>"
proof -
  obtain now e1 where n: "time_Now E e = (now, e1)" by fastforce
  define l where "l = (case rl_visitors rl (g_clientIP c) of
      None \<Rightarrow> rate_NewLimiter L (rl_rate rl) (rl_burst rl) | Some v \<Rightarrow> il_limiter v)"
  define rl1 where "rl1 = rl\<lparr>rl_visitors := (rl_visitors rl)(g_clientIP c \<mapsto> \<lparr>il_limiter = l, il_lastSeen = now\<rparr>)\<rparr>"
  have g: "getLimiter L E rl (g_clientIP c) e = (l, rl1, e1)"
  proof (cases "rl_visitors rl (g_clientIP c)")
    case None
    with n show ?thesis by (simp add: getLimiter_def l_def rl1_def Let_def)
  next
    case (Some v)
    with n show ?thesis by (cases v) (simp add: getLimiter_def l_def rl1_def)
  qed
  obtain c1 e2 where h: "writeRateLimitHeaders L E c (rl_burst rl1) l e1 = (c1, e2)" by fastforce
  obtain t e3 where t: "time_Now E e2 = (t, e3)" by fastforce
  obtain ok' l' where a: "rate_Allow L l t = (ok', l')" by fastforce
  obtain k e4 where k: "retryAfterSeconds L E l' e3 = (k, e4)" by fastforce
  have "ok' = ok \<and> rl' = rl\<lparr>rl_visitors := (rl_visitors rl)(g_clientIP c \<mapsto> \<lparr>il_limiter = l', il_lastSeen = now\<rparr>)\<rparr> \<and>
      (e' = e3 \<or> e' = e4)"
    using assms g h t a k by (cases ok') (auto simp: rl_admit_def rl1_def Let_def)
  moreover have "clock e \<le> now" "now \<le> t" "t \<le> clock e3" "clock e3 \<le> clock e4"
    using now_mono [OF n] now_mono [OF t] headers_clock [OF h] retry_clock [OF k] by auto
  ultimately show thesis using that [OF l_def, of now t l'] a by auto
qed

text \<open>Every step pays for what it lets through.\<close>

lemma admit_pays:
  assumes ok: "limiter_ok rl e" and run: "rl_admit L E c rl e = (adm, c', rl', e')" and time: "clock e' \<le> clock e + slack"
  shows "limiter_ok rl' e' \<and> clock e \<le> clock e' \<and>
    (if adm \<and> g_clientIP c = ip then 1 else 0) + level rl' ip (clock e') \<le> level rl ip (clock e) + gain (clock e) (clock e')"
  using run
proof (cases rule: admit_elim)
  case (1 l now t l')
  let ?ip = "g_clientIP c"
  have le: "clock e \<le> t" "clock e \<le> clock e'" using 1(2-4) by auto
  have cfg: "rl_rate rl = r" "rl_burst rl = b" using ok by (simp_all add: limiter_ok_def)
  have l: "made l = (r, b) \<and> (\<forall>u. used l = Some u \<longrightarrow> u \<le> clock e) \<and> avail l (clock e) = level rl ?ip (clock e) \<and>
      0 \<le> avail l (clock e) \<and> avail l (clock e) \<le> of_int b"
  proof (cases "rl_visitors rl ?ip")
    case None
    then show ?thesis using 1(1) cfg new_full [OF burst, of r] new_made burst by (simp add: level_def)
  next
    case (Some v)
    then have "bucket_ok v e" using ok by (simp add: limiter_ok_def)
    with Some 1(1) show ?thesis using bucket_now [of v e] by (simp add: level_def)
  qed
  have used_t: "\<forall>u. used l = Some u \<longrightarrow> u \<le> t" using l le(1) by auto
  note al = allow [OF used_t 1(5)]
  have at_t: "avail l t \<le> avail l (clock e) + gain (clock e) t" "avail l t \<le> of_int b" "0 \<le> avail l t"
    using avail_later [OF _ _ le(1), of l] l by auto
  have new: "bucket_ok \<lparr>il_limiter = l', il_lastSeen = now\<rparr> e'"
    unfolding bucket_ok_def
    using al l at_t 1(2,3,4) time by (auto intro!: exI [of _ t] split: if_splits)
  have lo: "limiter_ok rl' e'"
    unfolding limiter_ok_def
  proof (intro conjI allI impI)
    fix ip' v assume "rl_visitors rl' ip' = Some v"
    then show "bucket_ok v e'"
      using new 1(6) bucket_later [OF _ le(2)] ok by (cases "ip' = ?ip") (auto simp: limiter_ok_def)
  qed (use 1(6) cfg in simp_all)
  have "(if adm \<and> ?ip = ip then 1 else 0) + level rl' ip (clock e') \<le> level rl ip (clock e) + gain (clock e) (clock e')"
  proof (cases "ip = ?ip")
    case True
    have "avail l' (clock e') \<le> avail l' t + gain t (clock e')"
      using avail_later(1) [of l' t "clock e'"] al l 1(4) by simp
    then show ?thesis
      using True 1(6) al at_t(1) l gain_add [of "clock e" t "clock e'"] by (simp add: level_def split: if_splits)
  next
    case False
    then have "level rl' ip (clock e') = level rl ip (clock e')" using 1(6) by (simp add: level_def)
    with False level_later [OF ok le(2)] show ?thesis by simp
  qed
  with lo le(2) show ?thesis by simp
qed

lemma sweep_pays:
  "limiter_ok rl e \<Longrightarrow> cleanup_sweep E ips rl e = (rl', e') \<Longrightarrow>
   limiter_ok rl' e' \<and> clock e \<le> clock e' \<and> level rl' ip (clock e') \<le> level rl ip (clock e) + gain (clock e) (clock e')"
proof (induction ips arbitrary: rl e)
  case Nil
  then show ?case by simp
next
  case (Cons a ips)
  show ?case
  proof (cases "rl_visitors rl a")
    case None
    with Cons show ?thesis by simp
  next
    case (Some v)
    obtain now e1 where n: "time_Now E e = (now, e1)" by fastforce
    note nm = now_mono [OF n]
    then have le: "clock e \<le> clock e1" by simp
    note ok1 = elapse_ok [OF Cons.prems(1) le]
    let ?rl = "rl\<lparr>rl_visitors := (rl_visitors rl)(a := None)\<rparr>"
    show ?thesis
    proof (cases "now - il_lastSeen v > 5 * Minute")
      case False
      then have "cleanup_sweep E ips rl e1 = (rl', e')" using Cons.prems(2) Some n by simp
      note ih = Cons.IH [OF ok1 this]
      with le level_later [OF Cons.prems(1) le, of ip] gain_add [of "clock e" "clock e1" "clock e'"]
      show ?thesis by (auto intro: order_trans [of _ "clock e1"])
    next
      case True
      then have run: "cleanup_sweep E ips ?rl e1 = (rl', e')" using Cons.prems(2) Some n by simp
      have okrl: "limiter_ok ?rl e1" using ok1 unfolding limiter_ok_def by (auto split: if_splits)
      have v: "bucket_ok v e" using Cons.prems(1) Some by (simp add: limiter_ok_def)
      have "avail (il_limiter v) (clock e1) = of_int b"
        using idle_full [OF v le] True nm by simp
      then have "level ?rl ip (clock e1) = level rl ip (clock e1)" using Some by (simp add: level_def)
      with Cons.IH [OF okrl run] le level_later [OF Cons.prems(1) le, of ip] gain_add [of "clock e" "clock e1" "clock e'"]
      show ?thesis by (auto intro: order_trans [of _ "clock e1"])
    qed
  qed
qed

lemma run_pays:
  assumes "rl_run L E clock slack ip rl0 e0 n rl e" and "limiter_ok rl0 e0"
  shows "limiter_ok rl e \<and> clock e0 \<le> clock e \<and>
    of_nat n + level rl ip (clock e) \<le> level rl0 ip (clock e0) + gain (clock e0) (clock e)"
  using assms
proof (induction rule: rl_run.induct)
  case (rl_elapse n rl e e')
  then have ih: "limiter_ok rl e" "clock e0 \<le> clock e" "clock e \<le> clock e'"
    "of_nat n + level rl ip (clock e) \<le> level rl0 ip (clock e0) + gain (clock e0) (clock e)" by auto
  from elapse_ok [OF ih(1,3)] level_later [OF ih(1,3), of ip] ih gain_add [of "clock e0" "clock e" "clock e'"]
  show ?case by auto
next
  case (rl_request n rl e c ok c' rl' e')
  then have ih: "limiter_ok rl e" "clock e0 \<le> clock e"
    "of_nat n + level rl ip (clock e) \<le> level rl0 ip (clock e0) + gain (clock e0) (clock e)" by auto
  from admit_pays [OF ih(1) rl_request.hyps(2,3), of ip] ih gain_add [of "clock e0" "clock e" "clock e'"]
  show ?case by auto
next
  case (rl_sweep n rl e ips rl' e')
  then have ih: "limiter_ok rl e" "clock e0 \<le> clock e"
    "of_nat n + level rl ip (clock e) \<le> level rl0 ip (clock e0) + gain (clock e0) (clock e)" by auto
  from sweep_pays [OF ih(1) rl_sweep.hyps(2), of ip] ih gain_add [of "clock e0" "clock e" "clock e'"]
  show ?case by auto
qed simp

lemma fresh_ok: "limiter_ok (NewRateLimiter r b) e"
  by (simp add: limiter_ok_def NewRateLimiter_def)

end

section \<open>Properties\<close>

text \<open>C33: from any moment after the start of a limiter, in any span of time and for any interleaving of
  requests of all addresses with sweeps of the cleanup, the number of requests of one address that
  pass is at most the burst plus the rate times the seconds of the span. Forgetting an idle
  address never gives it more, provided a bucket fills within the five minutes less the time a
  check takes (here: a burst of 5 at 5 per minute).\<close>

theorem rate_limit_holds:
  assumes "mono_clock E clock" and "token_bucket L avail used made" and "0 \<le> r" and "0 \<le> b"
    and "of_int b \<le> r * of_int (5 * Minute - slack) / of_int Second"
    and "rl_run L E clock slack ip0 (NewRateLimiter r b) e0 n0 rl1 e1"
    and "rl_run L E clock slack ip rl1 e1 n rl2 e2"
  shows "of_nat n \<le> of_int b + r * of_int (clock e2 - clock e1) / of_int Second"
proof -
  have rl: "rate_limiting E clock L avail used made r b slack"
    using assms(1-5) by (simp add: rate_limiting_def rate_limiting_axioms_def)
  note gain = rate_limiting.gain_def [OF rl]
  have ok: "rate_limiting.limiter_ok clock avail used made r b slack rl1 e1"
    using rate_limiting.run_pays [OF rl assms(6) rate_limiting.fresh_ok [OF rl]] by blast
  note pays = rate_limiting.run_pays [OF rl assms(7) ok]
  have "0 \<le> rate_limiting.level avail b rl2 ip (clock e2)"
    using pays rate_limiting.bucket_now(3) [OF rl] assms(4)
    by (auto simp: rate_limiting.level_def [OF rl] rate_limiting.limiter_ok_def [OF rl] split: option.splits)
  with pays rate_limiting.level_burst [OF rl ok, of ip] show ?thesis by (simp add: gain)
qed

section \<open>A reference bucket\<close>

datatype ref_bucket = FreshBucket rat int | UsedBucket rat int rat time

primrec rb_avail :: "ref_bucket \<Rightarrow> time \<Rightarrow> rat" where
  "rb_avail (FreshBucket r b) t = of_int b"
| "rb_avail (UsedBucket r b k u) t = min (of_int b) (k + r * of_int (t - u) / of_int Second)"

primrec rb_made :: "ref_bucket \<Rightarrow> rat \<times> int" where
  "rb_made (FreshBucket r b) = (r, b)"
| "rb_made (UsedBucket r b k u) = (r, b)"

primrec rb_used :: "ref_bucket \<Rightarrow> time option" where
  "rb_used (FreshBucket r b) = None"
| "rb_used (UsedBucket r b k u) = Some u"

definition rb_allow :: "ref_bucket \<Rightarrow> time \<Rightarrow> bool \<times> ref_bucket" where
  "rb_allow l t =
     (if 1 \<le> rb_avail l t then (True, UsedBucket (fst (rb_made l)) (snd (rb_made l)) (rb_avail l t - 1) t) else (False, l))"

definition ref_rate :: "ref_bucket rate_lib" where
  "ref_rate = \<lparr>rate_NewLimiter = FreshBucket, rate_Allow = rb_allow, rate_Tokens = rb_avail, rate_Limit = fst \<circ> rb_made\<rparr>"

lemma rb_refill:
  assumes "rb_made l = (r, b)" and "0 \<le> r" and "\<forall>u. rb_used l = Some u \<longrightarrow> u \<le> t" and "t \<le> t'"
  shows "rb_avail l t' = min (of_int b) (rb_avail l t + r * of_int (t' - t) / of_int Second)"
proof (cases l)
  case (FreshBucket r' b')
  moreover have "0 \<le> r * of_int (t' - t) / of_int Second" using assms(2,4) by (simp add: Second_def)
  ultimately show ?thesis using assms(1) by simp
next
  case (UsedBucket r' b' k u)
  have "r * of_int (t - u) / of_int Second + r * of_int (t' - t) / of_int Second = r * of_int (t' - u) / of_int Second"
    by (simp add: Second_def field_simps)
  moreover have "0 \<le> r * of_int (t' - t) / of_int Second" using assms(2,4) by (simp add: Second_def)
  ultimately show ?thesis using assms(1) UsedBucket by (simp only: rb_avail.simps rb_made.simps prod.inject)
qed

lemma rb_avail_burst: "rb_avail l t \<le> of_int (snd (rb_made l))"
  by (cases l) simp_all

interpretation ref_bucket: token_bucket ref_rate rb_avail rb_used rb_made
proof (unfold_locales, goal_cases)
  case (4 l r b t t')
  then show ?case by (rule rb_refill)
next
  case (5 l t ok l')
  then show ?case
    using rb_avail_burst [of l t] by (auto simp: ref_rate_def rb_allow_def split: if_splits)
qed (simp_all add: ref_rate_def)

interpretation ref_clock: mono_clock ref_env rw_now
  by unfold_locales auto

text \<open>The limiter of the server: 5 requests per minute, a burst of 5; a check may take four minutes.\<close>

interpretation server_limit: rate_limiting ref_env rw_now ref_rate rb_avail rb_used rb_made "5 / 60" 5 "4 * Minute"
  by unfold_locales (simp_all add: Minute_def Second_def)

theorem rate_limit_holds_witness:
  "\<exists>rl e. rl_run ref_rate ref_env rw_now (4 * Minute) ''10.0.0.1'' (NewRateLimiter (5 / 60) 5) ref_e0 1 rl e \<and>
     (of_nat 1 :: rat) \<le> of_int 5 + 5 / 60 * of_int (rw_now e - rw_now ref_e0) / of_int Second"
proof -
  let ?rl = "NewRateLimiter (5 / 60) 5 :: ref_bucket RateLimiter"
  obtain ok c' rl e where adm: "rl_admit ref_rate ref_env ref_ctx ?rl ref_e0 = (ok, c', rl, e)" by (metis prod_cases4)
  have ok: "ok" "rw_now e \<le> rw_now ref_e0 + 4 * Minute"
    using adm by (auto simp: rl_admit_def getLimiter_def writeRateLimitHeaders_def NewRateLimiter_def ref_rate_def
        rb_allow_def Minute_def Second_def Let_def)
  have "rl_run ref_rate ref_env rw_now (4 * Minute) ''10.0.0.1'' ?rl ref_e0
      (if ok \<and> g_clientIP ref_ctx = ''10.0.0.1'' then Suc 0 else 0) rl e"
    by (rule rl_request [OF rl_start adm ok(2)])
  then have run: "rl_run ref_rate ref_env rw_now (4 * Minute) ''10.0.0.1'' ?rl ref_e0 1 rl e"
    using ok(1) by (simp add: ref_ctx_def)
  show ?thesis
    using rate_limit_holds [OF ref_clock.mono_clock_axioms ref_bucket.token_bucket_axioms server_limit.rate
        server_limit.burst server_limit.idle_fills rl_start run] run by blast
qed

end
