(* ===== verification/App_Config.thy ===== *)
theory App_Config
  imports Usecase_Auth Complex_Main
begin

text \<open>
  \<^verbatim>\<open>internal/config/config.go\<close>: loading, defaulting and checking the configuration. The reader of the
  environment (viper), the parser of URLs and the quoting of a string in an error are parameters.
\<close>

record AppConfig =
  ac_Port :: int
  ac_Environment :: string
  ac_Debug :: bool
  ac_DBPostgreDriver :: string
  ac_DBPostgreDsn :: string
  ac_DBPostgreURL :: string
  ac_DBMaxOpenConns :: int
  ac_DBMaxIdleConns :: int
  ac_DBConnMaxLifeMins :: int
  ac_JWTSecret :: string
  ac_JWTExpired :: int
  ac_JWTIssuer :: string
  ac_JWTRefreshExpired :: int
  ac_OTPEmail :: string
  ac_OTPPassword :: string
  ac_OTPMaxAttempts :: int
  ac_MailerWorkers :: int
  ac_MailerQueueSize :: int
  ac_MailerRetries :: int
  ac_BcryptCost :: int
  ac_OTelExporter :: string
  ac_OTelSampleRatio :: rat
  ac_REDISHost :: string
  ac_REDISPassword :: string
  ac_REDISExpired :: int
  ac_AllowedOrigins :: string

definition EnvironmentProduction :: string where
  "EnvironmentProduction = ''production''"

definition EnvironmentDevelopment :: string where
  "EnvironmentDevelopment = ''development''"

definition ErrLoadConfig :: goerr where
  "ErrLoadConfig = ErrorString ''failed to load config file''"

definition ErrParseConfig :: goerr where
  "ErrParseConfig = ErrorString ''failed to parse env to config struct''"

definition ErrEmptyVar :: goerr where
  "ErrEmptyVar = ErrorString ''required variable environment is empty''"

fun origins_loop :: "string list \<Rightarrow> string list \<Rightarrow> string list" where
  "origins_loop out [] = out"
| "origins_loop out (p # parts) =
     (let trimmed = strings_TrimSpace p
      in if trimmed \<noteq> '''' then origins_loop (out @ [trimmed]) parts else origins_loop out parts)"

text \<open>The empty list stands for both \<^verbatim>\<open>nil\<close> and an empty slice.\<close>

definition AllowedOriginsList :: "AppConfig \<Rightarrow> string list" where
  "AllowedOriginsList c =
     (if ac_AllowedOrigins c = '''' then
        if ac_Environment c = EnvironmentProduction then [] else [''*'']
      else origins_loop [] (strings_Split (ac_AllowedOrigins c) (CHR '','')))"

definition when_zero :: "(AppConfig \<Rightarrow> int) \<Rightarrow> (AppConfig \<Rightarrow> AppConfig) \<Rightarrow> AppConfig \<Rightarrow> AppConfig" where
  "when_zero get upd c = (if get c = 0 then upd c else c)"

definition applyDefaults :: "AppConfig \<Rightarrow> AppConfig" where
  "applyDefaults c =
     (let c = when_zero ac_DBMaxOpenConns (\<lambda>c. c\<lparr>ac_DBMaxOpenConns := 25\<rparr>) c;
          c = when_zero ac_DBMaxIdleConns (\<lambda>c. c\<lparr>ac_DBMaxIdleConns := 5\<rparr>) c;
          c = when_zero ac_DBConnMaxLifeMins (\<lambda>c. c\<lparr>ac_DBConnMaxLifeMins := 15\<rparr>) c;
          c = when_zero ac_OTPMaxAttempts (\<lambda>c. c\<lparr>ac_OTPMaxAttempts := 5\<rparr>) c;
          c = when_zero ac_MailerWorkers (\<lambda>c. c\<lparr>ac_MailerWorkers := 2\<rparr>) c;
          c = when_zero ac_MailerQueueSize (\<lambda>c. c\<lparr>ac_MailerQueueSize := 64\<rparr>) c;
          c = when_zero ac_MailerRetries (\<lambda>c. c\<lparr>ac_MailerRetries := 3\<rparr>) c;
          c = when_zero ac_BcryptCost (\<lambda>c. c\<lparr>ac_BcryptCost := 12\<rparr>) c;
          c = when_zero ac_JWTRefreshExpired (\<lambda>c. c\<lparr>ac_JWTRefreshExpired := 7\<rparr>) c
      in if ac_OTelSampleRatio c = 0 \<and> ac_OTelExporter c \<noteq> '''' then c\<lparr>ac_OTelSampleRatio := 1\<rparr> else c)"

record config_lib =
  viper_ReadInConfig :: "goerr option"
  viper_Unmarshal :: "AppConfig \<Rightarrow> goerr option \<times> AppConfig"
  url_Parse :: "string \<Rightarrow> goerr option"
  strconv_Quote :: "string \<Rightarrow> string"

text \<open>The checks, in the order of the code; the first that fails gives the error.\<close>

definition config_check :: "config_lib \<Rightarrow> AppConfig \<Rightarrow> goerr option" where
  "config_check X c =
     (if ac_Port c = 0 \<or> ac_Environment c = '''' \<or> ac_JWTSecret c = '''' \<or> ac_JWTExpired c = 0 \<or>
         ac_JWTIssuer c = '''' \<or> ac_OTPEmail c = '''' \<or> ac_OTPPassword c = '''' \<or> ac_REDISHost c = '''' \<or>
         ac_REDISPassword c = '''' \<or> ac_REDISExpired c = 0 \<or> ac_DBPostgreDriver c = ''''
      then Some ErrEmptyVar
      else if ac_Port c < 1 \<or> ac_Port c > 65535
      then Some (ErrorString (''PORT must be between 1 and 65535, got '' @ Itoa (ac_Port c)))
      else if ac_JWTExpired c < 1 \<or> ac_JWTExpired c > 720
      then Some (ErrorString (''JWT_EXPIRED must be between 1 and 720 hours, got '' @ Itoa (ac_JWTExpired c)))
      else if ac_JWTRefreshExpired c < 1 \<or> ac_JWTRefreshExpired c > 365
      then Some (ErrorString (''JWT_REFRESH_EXPIRED must be between 1 and 365 days, got '' @ Itoa (ac_JWTRefreshExpired c)))
      else if length (ac_JWTSecret c) < 32
      then Some (ErrorString (''JWT_SECRET must be at least 32 characters (got '' @ Itoa (int (length (ac_JWTSecret c))) @
             '') '' @ [CHR 0xE2, CHR 0x80, CHR 0x94] @ '' HS256 requires 256-bit entropy''))
      else if ac_REDISExpired c < 1
      then Some (ErrorString (''REDIS_EXPIRED must be at least 1 minute, got '' @ Itoa (ac_REDISExpired c)))
      else if ac_DBMaxOpenConns c < 1 \<or> ac_DBMaxIdleConns c < 0 \<or> ac_DBMaxIdleConns c > ac_DBMaxOpenConns c
      then Some (ErrorString (''invalid DB pool config: open='' @ Itoa (ac_DBMaxOpenConns c) @ '' idle='' @
             Itoa (ac_DBMaxIdleConns c)))
      else if ac_OTPMaxAttempts c < 1
      then Some (ErrorString (''OTP_MAX_ATTEMPTS must be >= 1, got '' @ Itoa (ac_OTPMaxAttempts c)))
      else if ac_BcryptCost c < 10 \<or> ac_BcryptCost c > 31
      then Some (ErrorString (''BCRYPT_COST must be between 10 and 31, got '' @ Itoa (ac_BcryptCost c)))
      else if ac_Environment c = EnvironmentDevelopment then
        if ac_DBPostgreDsn c = '''' then Some ErrEmptyVar else None
      else if ac_Environment c = EnvironmentProduction then
        if ac_DBPostgreURL c = '''' then Some ErrEmptyVar
        else (case url_Parse X (ac_DBPostgreURL c) of
                Some err \<Rightarrow> Some (errorf_w ''DB_POSTGRE_URL is not a valid URL'' err)
              | None \<Rightarrow>
                  if ac_AllowedOrigins c = ''''
                  then Some (ErrorString ''ALLOWED_ORIGINS must be set in production (comma-separated origins)'')
                  else None)
      else Some (ErrorString (''ENVIRONMENT must be 'development' or 'production', got '' @
             strconv_Quote X (ac_Environment c))))"

definition InitializeAppConfig :: "config_lib \<Rightarrow> AppConfig \<Rightarrow> goerr option \<times> AppConfig" where
  "InitializeAppConfig X c =
     (case viper_ReadInConfig X of
        Some err \<Rightarrow> (Some ErrLoadConfig, c)
      | None \<Rightarrow>
          (case viper_Unmarshal X c of
             (Some err, c) \<Rightarrow> (Some ErrParseConfig, c)
           | (None, c) \<Rightarrow> (let c = applyDefaults c in (config_check X c, c))))"

text \<open>What \<^verbatim>\<open>NewApp\<close> (\<^verbatim>\<open>cmd/api/server/server.go\<close>) passes on.\<close>

definition server_auth_config :: "AppConfig \<Rightarrow> Config" where
  "server_auth_config c =
     \<lparr>OTPMaxAttempts = ac_OTPMaxAttempts c, OTPTTL = wrap64 (ac_REDISExpired c * Minute),
      PasswordResetTTL = 30 * Minute, BcryptCost = ac_BcryptCost c, LoginMaxAttempts = 10,
      LoginLockoutTTL = 15 * Minute, ForgotMaxAttempts = 3, ForgotLockoutTTL = 15 * Minute\<rparr>"

definition server_jwt :: "AppConfig \<Rightarrow> jwtService" where
  "server_jwt c = NewJWTServiceWithRefresh (ac_JWTSecret c) (ac_JWTIssuer c) (ac_JWTExpired c) (ac_JWTRefreshExpired c)"

section \<open>Lemmas\<close>

lemma origins_loop_eq: "origins_loop out parts = out @ filter (\<lambda>s. s \<noteq> '''') (map strings_TrimSpace parts)"
  by (induction parts arbitrary: out) (auto simp: Let_def)

lemma when_zero_frame: "(\<And>c. g (upd c) = g c) \<Longrightarrow> g (when_zero get upd c) = g c"
  by (simp add: when_zero_def)

lemma when_zero_own: "get (upd c) \<noteq> 0 \<Longrightarrow> get (when_zero get upd c) \<noteq> 0"
  by (simp add: when_zero_def)

lemmas when_zero_frames =
  when_zero_frame [of ac_DBMaxOpenConns]
  when_zero_frame [of ac_DBMaxIdleConns]
  when_zero_frame [of ac_DBConnMaxLifeMins]
  when_zero_frame [of ac_OTPMaxAttempts]
  when_zero_frame [of ac_MailerWorkers]
  when_zero_frame [of ac_MailerQueueSize]
  when_zero_frame [of ac_MailerRetries]
  when_zero_frame [of ac_BcryptCost]
  when_zero_frame [of ac_JWTRefreshExpired]
  when_zero_frame [of ac_OTelSampleRatio] when_zero_frame [of ac_OTelExporter]

lemma applyDefaults_nonzero:
  "ac_DBMaxOpenConns (applyDefaults c) \<noteq> 0" "ac_DBMaxIdleConns (applyDefaults c) \<noteq> 0"
  "ac_DBConnMaxLifeMins (applyDefaults c) \<noteq> 0" "ac_OTPMaxAttempts (applyDefaults c) \<noteq> 0"
  "ac_MailerWorkers (applyDefaults c) \<noteq> 0" "ac_MailerQueueSize (applyDefaults c) \<noteq> 0"
  "ac_MailerRetries (applyDefaults c) \<noteq> 0" "ac_BcryptCost (applyDefaults c) \<noteq> 0"
  "ac_JWTRefreshExpired (applyDefaults c) \<noteq> 0"
  "ac_OTelSampleRatio (applyDefaults c) \<noteq> 0 \<or> ac_OTelExporter (applyDefaults c) = ''''"
  unfolding applyDefaults_def Let_def
  by (split if_split; simp add: when_zero_frames when_zero_own)+

lemma applyDefaults_idem: "applyDefaults (applyDefaults c) = applyDefaults c"
proof -
  have "applyDefaults d = d"
    if "ac_DBMaxOpenConns d \<noteq> 0" "ac_DBMaxIdleConns d \<noteq> 0" "ac_DBConnMaxLifeMins d \<noteq> 0" "ac_OTPMaxAttempts d \<noteq> 0"
      "ac_MailerWorkers d \<noteq> 0" "ac_MailerQueueSize d \<noteq> 0" "ac_MailerRetries d \<noteq> 0" "ac_BcryptCost d \<noteq> 0"
      "ac_JWTRefreshExpired d \<noteq> 0" "ac_OTelSampleRatio d \<noteq> 0 \<or> ac_OTelExporter d = ''''" for d
    using that by (auto simp: applyDefaults_def when_zero_def)
  then show ?thesis using applyDefaults_nonzero by simp
qed

lemma config_check_None:
  assumes "config_check X c = None"
  shows "1 \<le> ac_Port c \<and> ac_Port c \<le> 65535" "1 \<le> ac_JWTExpired c \<and> ac_JWTExpired c \<le> 720"
    "1 \<le> ac_JWTRefreshExpired c \<and> ac_JWTRefreshExpired c \<le> 365" "32 \<le> length (ac_JWTSecret c)"
    "1 \<le> ac_REDISExpired c" "0 \<le> ac_DBMaxIdleConns c \<and> ac_DBMaxIdleConns c \<le> ac_DBMaxOpenConns c"
    "1 \<le> ac_OTPMaxAttempts c" "10 \<le> ac_BcryptCost c \<and> ac_BcryptCost c \<le> 31"
    "ac_Environment c = EnvironmentDevelopment \<or> ac_Environment c = EnvironmentProduction \<and> ac_AllowedOrigins c \<noteq> ''''"
  using assms by (simp_all add: config_check_def split: if_splits option.splits)

lemma Initialize_None:
  assumes "InitializeAppConfig X c0 = (None, c)"
  shows "config_check X c = None \<and> (\<exists>u. c = applyDefaults u)"
  using assms by (auto simp: InitializeAppConfig_def Let_def split: option.splits prod.splits)

section \<open>Properties\<close>

text \<open>C40: a configuration that is accepted gives the components what they rely on: the signing secret has
  at least 32 bytes; the lifetimes of the access and the refresh token are positive durations of
  at most 720 hours and 365 days, computed without overflow; the number of attempts for a code is
  positive; passwords are hashed with the configured cost, as bcrypt takes it; the default for
  cross-origin requests, every origin, is not used in production, and every listed origin is a
  trimmed, non-empty part of the setting; and the defaults are a fixed point.\<close>

theorem accepted_config_sound:
  assumes "InitializeAppConfig X c0 = (None, c)" and "bcrypt_MinCost E \<le> 10" and "31 \<le> bcrypt_MaxCost E"
  shows "32 \<le> length (j_secretKey (server_jwt c)) \<and>
    wrap64 (j_expired (server_jwt c) * Hour) \<in> {Hour..720 * Hour} \<and>
    wrap64 (j_refreshExpired (server_jwt c) * 24 * Hour) \<in> {24 * Hour..365 * 24 * Hour} \<and>
    1 \<le> OTPMaxAttempts (server_auth_config c) \<and>
    clamp_cost E (BcryptCost (server_auth_config c)) = ac_BcryptCost c \<and>
    (ac_Environment c = EnvironmentProduction \<longrightarrow> AllowedOriginsList c =
       filter (\<lambda>s. s \<noteq> '''') (map strings_TrimSpace (strings_Split (ac_AllowedOrigins c) (CHR '','')))) \<and>
    applyDefaults c = c"
proof -
  have ck: "config_check X c = None" and fixpoint: "applyDefaults c = c"
    using Initialize_None [OF assms(1)] applyDefaults_idem by auto
  note b = config_check_None [OF ck]
  have w: "wrap64 (j_expired (server_jwt c) * Hour) = ac_JWTExpired c * Hour"
    "wrap64 (j_refreshExpired (server_jwt c) * 24 * Hour) = ac_JWTRefreshExpired c * 24 * Hour"
    using b(2,3) by (simp_all add: server_jwt_def NewJWTServiceWithRefresh_def wrap64_id in_int64_def duration_defs)
  have o: "ac_Environment c = EnvironmentProduction \<longrightarrow> AllowedOriginsList c =
       filter (\<lambda>s. s \<noteq> '''') (map strings_TrimSpace (strings_Split (ac_AllowedOrigins c) (CHR '','')))"
    using b(9) by (auto simp: AllowedOriginsList_def origins_loop_eq EnvironmentDevelopment_def EnvironmentProduction_def)
  show ?thesis
    unfolding w using b fixpoint o assms(2,3)
    by (simp add: server_jwt_def NewJWTServiceWithRefresh_def server_auth_config_def clamp_cost_def duration_defs)
qed

definition ref_settings :: AppConfig where
  "ref_settings =
     \<lparr>ac_Port = 8080, ac_Environment = ''production'', ac_Debug = False, ac_DBPostgreDriver = ''postgres'',
      ac_DBPostgreDsn = '''', ac_DBPostgreURL = ''postgres://db/app'', ac_DBMaxOpenConns = 0,
      ac_DBMaxIdleConns = 0, ac_DBConnMaxLifeMins = 0, ac_JWTSecret = ''0123456789abcdef0123456789abcdef'',
      ac_JWTExpired = 720, ac_JWTIssuer = ''go-rest'', ac_JWTRefreshExpired = 0, ac_OTPEmail = ''noreply@x.io'',
      ac_OTPPassword = ''pw'', ac_OTPMaxAttempts = 0, ac_MailerWorkers = 0, ac_MailerQueueSize = 0,
      ac_MailerRetries = 0, ac_BcryptCost = 0, ac_OTelExporter = '''', ac_OTelSampleRatio = 0,
      ac_REDISHost = ''redis:6379'', ac_REDISPassword = ''pw'', ac_REDISExpired = 5,
      ac_AllowedOrigins = ''https://a.io, https://b.io''\<rparr>"

definition ref_config_lib :: config_lib where
  "ref_config_lib =
     \<lparr>viper_ReadInConfig = None, viper_Unmarshal = (\<lambda>c. (None, ref_settings)), url_Parse = (\<lambda>s. None),
      strconv_Quote = (\<lambda>s. [CHR 0x22] @ s @ [CHR 0x22])\<rparr>"

text \<open>The accepted configuration of this witness also shows a lifetime of access tokens, 720 hours, that
  exceeds the 24 hours for which the revocation by a password change is kept.\<close>

theorem accepted_config_sound_witness:
  "\<exists>c. InitializeAppConfig ref_config_lib ref_settings = (None, c) \<and> clamp_cost ref_env (ac_BcryptCost c) = 12 \<and>
     AllowedOriginsList c = [''https://a.io'', ''https://b.io''] \<and> tokenCutoffTTL < wrap64 (j_expired (server_jwt c) * Hour)"
proof -
  let ?c = "applyDefaults ref_settings"
  have run: "InitializeAppConfig ref_config_lib ref_settings = (None, ?c)"
  proof -
    have "config_check ref_config_lib ?c = None" by code_simp
    then show ?thesis by (simp add: InitializeAppConfig_def) (simp add: ref_config_lib_def)
  qed
  have c: "ac_BcryptCost ?c = 12" "ac_Environment ?c = EnvironmentProduction" "ac_JWTExpired ?c = 720"
    "ac_AllowedOrigins ?c = ''https://a.io, https://b.io''"
    by code_simp+
  have "filter (\<lambda>s. s \<noteq> '''') (map strings_TrimSpace (strings_Split ''https://a.io, https://b.io'' (CHR '',''))) =
      [''https://a.io'', ''https://b.io'']" by code_simp
  moreover have "tokenCutoffTTL < wrap64 (j_expired (server_jwt ?c) * Hour)"
    by (simp add: server_jwt_def NewJWTServiceWithRefresh_def c(3) tokenCutoffTTL_def duration_defs wrap64_id in_int64_def)
  moreover from accepted_config_sound [OF run, of ref_env] c
  have "clamp_cost ref_env (ac_BcryptCost ?c) = 12" and
    "AllowedOriginsList ?c = filter (\<lambda>s. s \<noteq> '''') (map strings_TrimSpace (strings_Split ''https://a.io, https://b.io'' (CHR '','')))"
    by (simp_all add: server_auth_config_def)
  ultimately show ?thesis using run by auto
qed

end
