(* ===== verification/Http_Chain.thy ===== *)
theory Http_Chain
  imports Handler_Props Rate_Limit App_Config
begin

text \<open>
  The chain of handlers of a request, and the middlewares of \<^verbatim>\<open>internal/http/middlewares\<close> that
  decide nothing about the caller: the request identifier, the metrics, the security headers, the
  cross-origin settings, the limit on the body and the access log line. A handler takes the context
  and the state of the application and returns both; \<open>None\<close> is a handler that does not return (the
  one-time code draws random bytes until they fit). A middleware also takes the rest of the chain.
\<close>

record ('l, 'u, 'r, 'm, 'e) app_state =
  as_limiter :: "'l RateLimiter"
  as_world :: "('u, 'r, 'm, 'e) world"

type_synonym ('l, 'u, 'r, 'm, 'e) hfun =
  "gin_ctx \<Rightarrow> ('l, 'u, 'r, 'm, 'e) app_state \<Rightarrow> (gin_ctx \<times> ('l, 'u, 'r, 'm, 'e) app_state) option"

type_synonym ('l, 'u, 'r, 'm, 'e) mw = "('l, 'u, 'r, 'm, 'e) hfun \<Rightarrow> ('l, 'u, 'r, 'm, 'e) hfun"

text \<open>\<^verbatim>\<open>c.Next()\<close>: the rest of the chain runs unless the request was aborted.\<close>

definition gin_Next :: "('l, 'u, 'r, 'm, 'e) hfun \<Rightarrow> ('l, 'u, 'r, 'm, 'e) hfun" where
  "gin_Next next c s = (if g_aborted c then Some (c, s) else next c s)"

text \<open>A handler that does not call \<^verbatim>\<open>Next\<close>, or calls it last, is followed by the rest of the chain.\<close>

definition then_Next :: "('l, 'u, 'r, 'm, 'e) hfun \<Rightarrow> ('l, 'u, 'r, 'm, 'e) mw" where
  "then_Next h next c s = (case h c s of None \<Rightarrow> None | Some (c, s) \<Rightarrow> gin_Next next c s)"

fun chain :: "('l, 'u, 'r, 'm, 'e) mw list \<Rightarrow> ('l, 'u, 'r, 'm, 'e) hfun" where
  "chain [] c s = Some (c, s)"
| "chain (m # ms) c s = m (chain ms) c s"

text \<open>Handlers over the parts of the state.\<close>

definition of_ctx :: "(gin_ctx \<Rightarrow> gin_ctx) \<Rightarrow> ('l, 'u, 'r, 'm, 'e) hfun" where
  "of_ctx f c s = Some (f c, s)"

definition of_env :: "(gin_ctx \<Rightarrow> 'e \<Rightarrow> gin_ctx \<times> 'e) \<Rightarrow> ('l, 'u, 'r, 'm, 'e) hfun" where
  "of_env f c s =
     (case f c (w_env (as_world s)) of (c, e) \<Rightarrow> Some (c, s\<lparr>as_world := (as_world s)\<lparr>w_env := e\<rparr>\<rparr>))"

definition of_world :: "('u, 'r, 'm, 'e) gin_handler \<Rightarrow> ('l, 'u, 'r, 'm, 'e) hfun" where
  "of_world h c s = (case h c (as_world s) of (c, w) \<Rightarrow> Some (c, s\<lparr>as_world := w\<rparr>))"

definition of_partial ::
  "(gin_ctx \<Rightarrow> ('u, 'r, 'm, 'e) world \<Rightarrow> ('u, 'r, 'm, 'e) served option) \<Rightarrow> ('l, 'u, 'r, 'm, 'e) hfun" where
  "of_partial h c s = (case h c (as_world s) of None \<Rightarrow> None | Some (c, w) \<Rightarrow> Some (c, s\<lparr>as_world := w\<rparr>))"

section \<open>Middlewares of other packages\<close>

text \<open>A middleware whose code is not in the repository: what it does before and after \<^verbatim>\<open>Next\<close>.\<close>

record 'e gin_mw =
  mw_before :: "gin_ctx \<Rightarrow> 'e \<Rightarrow> gin_ctx \<times> 'e"
  mw_after :: "gin_ctx \<Rightarrow> 'e \<Rightarrow> gin_ctx \<times> 'e"

definition third_party :: "'e gin_mw \<Rightarrow> ('l, 'u, 'r, 'm, 'e) mw" where
  "third_party m next c s =
     (case of_env (mw_before m) c s of
        None \<Rightarrow> None
      | Some (c, s) \<Rightarrow>
          (case gin_Next next c s of
             None \<Rightarrow> None
           | Some (c, s) \<Rightarrow> of_env (mw_after m) c s))"

section \<open>middleware.requestid.go\<close>

definition RequestIDHeader :: string where
  "RequestIDHeader = ''X-Request-ID''"

definition RequestID_pick :: "'e goenv \<Rightarrow> gin_ctx \<Rightarrow> 'e \<Rightarrow> gin_ctx \<times> 'e" where
  "RequestID_pick E c e =
     (case (if g_xRequestID c = '''' then uuid_NewString E e else (g_xRequestID c, e)) of
        (rid, e) \<Rightarrow>
          (let c = gin_Set c RequestIDHeader (CtxString rid);
               c = gin_SetHeader c RequestIDHeader rid;
               c = c\<lparr>g_ctxRequestID := rid\<rparr>;
               c = (case g_span c of None \<Rightarrow> c | Some t \<Rightarrow> c\<lparr>g_traceID := t\<rparr>)
           in (c, e)))"

definition RequestIDMiddleware :: "'e goenv \<Rightarrow> ('l, 'u, 'r, 'm, 'e) mw" where
  "RequestIDMiddleware E = then_Next (of_env (RequestID_pick E))"

section \<open>middleware.metrics.go\<close>

definition MetricsMiddleware :: "'e goenv \<Rightarrow> ('l, 'u, 'r, 'm, 'e) mw" where
  "MetricsMiddleware E next c s =
     (case time_Now E (w_env (as_world s)) of
        (start, e) \<Rightarrow>
          (case gin_Next next c (s\<lparr>as_world := (as_world s)\<lparr>w_env := e\<rparr>\<rparr>) of
             None \<Rightarrow> None
           | Some (c, s) \<Rightarrow>
               (case time_Now E (w_env (as_world s)) of
                  (now, e) \<Rightarrow>
                    (let duration = now - start;
                         status = Itoa (g_status c);
                         path = (if g_fullPath c = '''' then ''unknown'' else g_fullPath c);
                         e = counter_Inc E ''http_requests_total'' [g_method c, path, status] e;
                         e = histogram_Observe E ''http_request_duration_seconds'' [g_method c, path] duration e
                     in Some (c, s\<lparr>as_world := (as_world s)\<lparr>w_env := e\<rparr>\<rparr>)))))"

section \<open>middleware.security.go\<close>

definition security_headers :: "bool \<Rightarrow> gin_ctx \<Rightarrow> gin_ctx" where
  "security_headers isProduction c =
     (let c = gin_SetHeader c ''X-Content-Type-Options'' ''nosniff'';
          c = gin_SetHeader c ''X-Frame-Options'' ''DENY'';
          c = gin_SetHeader c ''Referrer-Policy'' ''strict-origin-when-cross-origin'';
          c = gin_SetHeader c ''Content-Security-Policy'' (''default-src 'none'; frame-ancestors 'none'' @ [CHR 0x27]);
          c = gin_SetHeader c ''Permissions-Policy''
                ''accelerometer=(), camera=(), geolocation=(), gyroscope=(), magnetometer=(), microphone=(), payment=(), usb=()''
      in if isProduction then gin_SetHeader c ''Strict-Transport-Security'' ''max-age=31536000; includeSubDomains''
         else c)"

definition SecurityHeadersMiddleware :: "AppConfig \<Rightarrow> ('l, 'u, 'r, 'm, 'e) mw" where
  "SecurityHeadersMiddleware cfg =
     (let isProduction = (ac_Environment cfg = EnvironmentProduction)
      in then_Next (of_ctx (security_headers isProduction)))"

section \<open>middleware.cors.go\<close>

record CorsConfig =
  cors_AllowOrigins :: "string list"
  cors_AllowMethods :: "string list"
  cors_AllowHeaders :: "string list"
  cors_ExposeHeaders :: "string list"
  cors_AllowCredentials :: bool
  cors_MaxAge :: int

definition cors_settings :: "AppConfig \<Rightarrow> CorsConfig" where
  "cors_settings cfg =
     (let origins = AllowedOriginsList cfg;
          c = \<lparr>cors_AllowOrigins = [], cors_AllowMethods = [''GET'', ''POST'', ''PUT'', ''PATCH'', ''DELETE'', ''OPTIONS''],
               cors_AllowHeaders = [''Origin'', ''Content-Type'', ''Content-Length'', ''Accept-Encoding'', ''X-CSRF-Token'',
                 ''Authorization'', ''Accept'', ''Cache-Control'', ''X-Requested-With'', ''X-Request-ID''],
               cors_ExposeHeaders = [''Content-Length'', ''X-Request-ID''], cors_AllowCredentials = False,
               cors_MaxAge = 12 * Hour\<rparr>
      in if length origins = 1 \<and> hd origins = ''*'' then c\<lparr>cors_AllowOrigins := origins\<rparr>
         else c\<lparr>cors_AllowOrigins := origins, cors_AllowCredentials := True\<rparr>)"

section \<open>middleware.bodysizelimit.go\<close>

definition DefaultBodyMaxBytes :: int where
  "DefaultBodyMaxBytes = 1048576"

definition AuthBodyMaxBytes :: int where
  "AuthBodyMaxBytes = 4096"

text \<open>\<^verbatim>\<open>http.MaxBytesReader\<close>: the first \<open>n\<close> bytes, then an error when there are more.\<close>

definition http_MaxBytesReader :: "body_reader \<Rightarrow> int \<Rightarrow> body_reader" where
  "http_MaxBytesReader r n =
     (if int (length (br_data r)) \<le> max n 0 then r
      else \<lparr>br_data = take (nat n) (br_data r), br_tooLarge = True\<rparr>)"

definition limit_body :: "int \<Rightarrow> gin_ctx \<Rightarrow> gin_ctx" where
  "limit_body maxBytes c =
     (case g_body c of None \<Rightarrow> c | Some r \<Rightarrow> c\<lparr>g_body := Some (http_MaxBytesReader r maxBytes)\<rparr>)"

definition BodySizeLimitMiddleware :: "int \<Rightarrow> ('l, 'u, 'r, 'm, 'e) mw" where
  "BodySizeLimitMiddleware maxBytes = then_Next (of_ctx (limit_body maxBytes))"

section \<open>middleware.access_log.go\<close>

text \<open>The time stamp, the latency and the rest are the texts that \<^verbatim>\<open>fmt\<close> prints for them.\<close>

record LogFormatterParams =
  lp_TimeStamp :: time
  lp_StatusCode :: int
  lp_Latency :: int
  lp_ClientIP :: string
  lp_Method :: string
  lp_Path :: string
  lp_ErrorMessage :: string
  lp_UserAgent :: string
  lp_Keys :: "string \<rightharpoonup> ctxval"

record fmt_lib =
  time_Format :: "time \<Rightarrow> string"
  duration_String :: "int \<Rightarrow> string"

definition accessLogColor :: "int \<Rightarrow> string" where
  "accessLogColor code = (if code \<ge> 500 then ''41'' else if code \<ge> 400 then ''43'' else ''42'')"

definition accessLogRequestID :: "(string \<rightharpoonup> ctxval) \<Rightarrow> string" where
  "accessLogRequestID keys =
     (case keys ''X-Request-ID'' of
        Some (CtxString s) \<Rightarrow> if s \<noteq> '''' then s else ''-''
      | _ \<Rightarrow> ''-'')"

definition AccessLogFormatter :: "fmt_lib \<Rightarrow> LogFormatterParams \<Rightarrow> string" where
  "AccessLogFormatter F p =
     ''[LOGGING HTTP] ['' @ time_Format F (lp_TimeStamp p) @ ''] req='' @ accessLogRequestID (lp_Keys p) @ '' '' @
     [CHR 0x1B] @ ''['' @ accessLogColor (lp_StatusCode p) @ ''m '' @ Itoa (lp_StatusCode p) @ '' '' @
     [CHR 0x1B] @ ''[0m '' @ lp_Method p @ '' '' @ lp_Path p @ '' '' @ duration_String F (lp_Latency p) @ '' '' @
     lp_ClientIP p @ '' '' @ lp_ErrorMessage p @ '' '' @ lp_UserAgent p @ [CHR 0x0A]"

section \<open>The deciding middlewares in the chain\<close>

text \<open>Both call \<^verbatim>\<open>Next\<close> last, so the rest of the chain runs after them unless they aborted.\<close>

definition rate_limit_mw :: "'l rate_lib \<Rightarrow> 'e goenv \<Rightarrow> ('l, 'u, 'r, 'm, 'e) mw" where
  "rate_limit_mw L E =
     then_Next (\<lambda>c s.
       case rl_Middleware L E (\<lambda>c rl e. (c, rl, e)) c (as_limiter s) (w_env (as_world s)) of
         (c, rl, e) \<Rightarrow> Some (c, s\<lparr>as_limiter := rl, as_world := (as_world s)\<lparr>w_env := e\<rparr>\<rparr>))"

definition auth_mw :: "'e JWTService \<Rightarrow> 'r RedisCache \<Rightarrow> bool \<Rightarrow> ('l, 'u, 'r, 'm, 'e) mw" where
  "auth_mw jwtService redisCache isAdmin =
     then_Next (of_world (NewAuthMiddleware jwtService redisCache isAdmin (\<lambda>c w. (c, w))))"


section \<open>The access log line\<close>

abbreviation newlines :: "string \<Rightarrow> nat" where
  "newlines s \<equiv> count_list s (CHR 0x0A)"

lemma newlines_Itoa [simp]: "newlines (Itoa n) = 0"
proof -
  have "CHR 0x0A \<notin> set (nat_to_dec k)" for k
    using nat_to_dec_digits [of k] by (auto simp: list_all_iff is_digit_def byte_val_def)
  then show ?thesis by (auto simp: Itoa_def count_list_0_iff)
qed

lemma newlines_color [simp]: "newlines (accessLogColor code) = 0"
  by (simp add: accessLogColor_def)

text \<open>The access log line of a request is one line exactly when none of the texts that it prints as they
  are contains a line break. Among those are the identifier and the path, which come from the client.\<close>

theorem access_log_one_line:
  "newlines (AccessLogFormatter F p) = 1 \<longleftrightarrow>
     list_all (\<lambda>s. CHR 0x0A \<notin> set s)
       [time_Format F (lp_TimeStamp p), accessLogRequestID (lp_Keys p), lp_Method p, lp_Path p,
        duration_String F (lp_Latency p), lp_ClientIP p, lp_ErrorMessage p, lp_UserAgent p]"
  by (simp add: AccessLogFormatter_def count_list_0_iff)

end
