(* ===== verification/Routes.thy ===== *)
theory Routes
  imports Http_Chain
begin

text \<open>
  The routes and the composition of the server: \<^verbatim>\<open>internal/http/routes\<close>,
  \<^verbatim>\<open>internal/http/handlers/v1/handler.health.go\<close>, and the functions \<^verbatim>\<open>setupRouter\<close> and
  \<^verbatim>\<open>NewApp\<close> of \<^verbatim>\<open>cmd/api/server/server.go\<close>. The router of gin (joining paths, matching a request
  against the registered patterns, the answer when nothing matches) and the middlewares and handlers
  of other packages are a parameter; \<open>app_serve\<close> is one request through the assembled server.
\<close>

section \<open>handler.health.go\<close>

record 'e HealthHandler =
  hh_db_Ping :: "'e \<Rightarrow> goerr option \<times> 'e"
  hh_redis_Ping :: "('e \<Rightarrow> goerr option \<times> 'e) option"

definition Health :: "gin_ctx \<Rightarrow> gin_ctx" where
  "Health c = gin_JSON_H c 200 [''status'' \<mapsto> HBool True, ''message'' \<mapsto> HString ''service is healthy'']"

text \<open>One check of \<^verbatim>\<open>Ready\<close>: the entry of the report and the verdict.\<close>

definition ready_check ::
  "string \<Rightarrow> goerr option \<Rightarrow> (string \<rightharpoonup> string) \<Rightarrow> bool \<Rightarrow> (string \<rightharpoonup> string) \<times> bool" where
  "ready_check name r checks healthy =
     (case r of
        Some err \<Rightarrow> (checks(name \<mapsto> ''unreachable: '' @ Error err), False)
      | None \<Rightarrow> (checks(name \<mapsto> ''ok''), healthy))"

definition Ready :: "'e HealthHandler \<Rightarrow> gin_ctx \<Rightarrow> 'e \<Rightarrow> gin_ctx \<times> 'e" where
  "Ready h c e =
     (case hh_db_Ping h e of
        (r, e) \<Rightarrow>
          (case ready_check ''database'' r Map.empty True of
             (checks, healthy) \<Rightarrow>
               (case (case hh_redis_Ping h of
                        None \<Rightarrow> (checks, healthy, e)
                      | Some ping \<Rightarrow>
                          (case ping e of
                             (r, e) \<Rightarrow>
                               (case ready_check ''redis'' r checks healthy of (checks, healthy) \<Rightarrow> (checks, healthy, e)))) of
                  (checks, healthy, e) \<Rightarrow>
                    (let status = (if \<not> healthy then 503 else 200)
                     in (gin_JSON_H c status [''status'' \<mapsto> HBool healthy, ''checks'' \<mapsto> HMap checks], e)))))"

section \<open>Gin's router\<close>

record 'e gin_lib =
  otelgin_Middleware :: "string \<Rightarrow> 'e gin_mw"
  cors_New :: "CorsConfig \<Rightarrow> 'e gin_mw option"
  gin_LoggerWithFormatter :: "(LogFormatterParams \<Rightarrow> string) \<Rightarrow> 'e gin_mw"
  gin_Recovery :: "'e gin_mw"
  promhttp_Handler :: "gin_ctx \<Rightarrow> 'e \<Rightarrow> gin_ctx \<times> 'e"
  ginSwagger_Handler :: "gin_ctx \<Rightarrow> 'e \<Rightarrow> gin_ctx \<times> 'e"
  gin_joinPaths :: "string \<Rightarrow> string \<Rightarrow> string"
  gin_find :: "(string \<times> string) list \<Rightarrow> string \<Rightarrow> string \<Rightarrow> string option"
  gin_serveError :: "gin_ctx \<Rightarrow> 'e \<Rightarrow> gin_ctx \<times> 'e"

text \<open>A group of routes: the prefix and the handlers that its routes start with. The engine keeps the
  routes under method and pattern.\<close>

record ('l, 'u, 'r, 'm, 'e) RouterGroup =
  rg_basePath :: string
  rg_handlers :: "('l, 'u, 'r, 'm, 'e) mw list"

type_synonym ('l, 'u, 'r, 'm, 'e) route_table = "((string \<times> string) \<times> ('l, 'u, 'r, 'm, 'e) mw list) list"

definition gin_Group ::
  "'e gin_lib \<Rightarrow> ('l, 'u, 'r, 'm, 'e) RouterGroup \<Rightarrow> string \<Rightarrow> ('l, 'u, 'r, 'm, 'e) RouterGroup" where
  "gin_Group G g relativePath = g\<lparr>rg_basePath := gin_joinPaths G (rg_basePath g) relativePath\<rparr>"

definition gin_Use ::
  "('l, 'u, 'r, 'm, 'e) mw \<Rightarrow> ('l, 'u, 'r, 'm, 'e) RouterGroup \<Rightarrow> ('l, 'u, 'r, 'm, 'e) RouterGroup" where
  "gin_Use m g = g\<lparr>rg_handlers := rg_handlers g @ [m]\<rparr>"

definition gin_Handle ::
  "'e gin_lib \<Rightarrow> ('l, 'u, 'r, 'm, 'e) RouterGroup \<Rightarrow> string \<Rightarrow> string \<Rightarrow> ('l, 'u, 'r, 'm, 'e) mw list \<Rightarrow>
   ('l, 'u, 'r, 'm, 'e) route_table \<Rightarrow> ('l, 'u, 'r, 'm, 'e) route_table" where
  "gin_Handle G g httpMethod relativePath handlers table =
     table @ [((httpMethod, gin_joinPaths G (rg_basePath g) relativePath), rg_handlers g @ handlers)]"

section \<open>internal/http/routes\<close>

definition RootHandler :: "gin_ctx \<Rightarrow> gin_ctx" where
  "RootHandler c = gin_JSON_H c 200 [''status'' \<mapsto> HBool True, ''message'' \<mapsto> HString ''welcome to an amazing api'']"

record ('l, 'u, 'r, 'm, 'e) authRoute =
  ar_handler :: "('u, 'r, 'm, 'e) world AuthUsecase"
  ar_router :: "('l, 'u, 'r, 'm, 'e) RouterGroup"
  ar_rateLimiter :: "('l, 'u, 'r, 'm, 'e) mw"
  ar_authMiddleware :: "('l, 'u, 'r, 'm, 'e) mw"

definition authRoute_Routes ::
  "'e gin_lib \<Rightarrow> 'e handler_env \<Rightarrow> ('l, 'u, 'r, 'm, 'e) authRoute \<Rightarrow>
   ('l, 'u, 'r, 'm, 'e) route_table \<Rightarrow> ('l, 'u, 'r, 'm, 'e) route_table" where
  "authRoute_Routes G H r table =
     (let v1 = gin_Group G (ar_router r) ''/v1'';
          authGrp = gin_Group G v1 ''/auth'';
          authGrp = gin_Use (ar_rateLimiter r) authGrp;
          authGrp = gin_Use (BodySizeLimitMiddleware AuthBodyMaxBytes) authGrp;
          uc = ar_handler r;
          table = gin_Handle G authGrp ''POST'' ''/register'' [then_Next (of_world (Handler_Register H uc))] table;
          table = gin_Handle G authGrp ''POST'' ''/login'' [then_Next (of_world (Handler_Login H uc))] table;
          table = gin_Handle G authGrp ''POST'' ''/send-otp'' [then_Next (of_partial (Handler_SendOTP H uc))] table;
          table = gin_Handle G authGrp ''POST'' ''/verify-otp'' [then_Next (of_world (Handler_VerifyOTP H uc))] table;
          table = gin_Handle G authGrp ''POST'' ''/refresh'' [then_Next (of_world (Handler_Refresh H uc))] table;
          table = gin_Handle G authGrp ''POST'' ''/logout'' [then_Next (of_world (Handler_Logout H uc))] table;
          table = gin_Handle G authGrp ''POST'' ''/password/forgot''
                    [then_Next (of_world (Handler_ForgotPassword H uc))] table;
          table = gin_Handle G authGrp ''POST'' ''/password/reset''
                    [then_Next (of_world (Handler_ResetPassword H uc))] table
      in gin_Handle G authGrp ''PUT'' ''/password/change''
           [ar_authMiddleware r, then_Next (of_world (Handler_ChangePassword H uc))] table)"

record ('l, 'u, 'r, 'm, 'e) usersRoute =
  ur_handler :: "('u, 'e) UsersUsecase"
  ur_router :: "('l, 'u, 'r, 'm, 'e) RouterGroup"
  ur_authMiddleware :: "('l, 'u, 'r, 'm, 'e) mw"

definition usersRoute_Routes ::
  "'e gin_lib \<Rightarrow> ('l, 'u, 'r, 'm, 'e) usersRoute \<Rightarrow>
   ('l, 'u, 'r, 'm, 'e) route_table \<Rightarrow> ('l, 'u, 'r, 'm, 'e) route_table" where
  "usersRoute_Routes G r table =
     (let v1 = gin_Group G (ur_router r) ''/v1'';
          usersGrp = gin_Group G v1 ''/users'';
          usersGrp = gin_Use (ur_authMiddleware r) usersGrp
      in gin_Handle G usersGrp ''GET'' ''/me'' [then_Next (of_world (GetUserData (ur_handler r)))] table)"

section \<open>cmd/api/server/server.go\<close>

text \<open>What \<^verbatim>\<open>NewApp\<close> composes. \<open>None\<close>: the cross-origin middleware refuses its settings with a panic.\<close>

record ('l, 'u, 'r, 'm, 'e) app_parts =
  ap_cfg :: AppConfig
  ap_H :: "'e handler_env"
  ap_users :: "('u, 'e) UsersUsecase"
  ap_jwt :: "'e JWTService"
  ap_mailer :: "'m OTPMailer"
  ap_redis :: "'r RedisCache"
  ap_health :: "'e HealthHandler"
  ap_rate :: "'l rate_lib"
  ap_fmt :: fmt_lib

definition setupRouter ::
  "'e gin_lib \<Rightarrow> ('l, 'u, 'r, 'm, 'e) app_parts \<Rightarrow> ('l, 'u, 'r, 'm, 'e) RouterGroup option" where
  "setupRouter G A =
     (let E = h_env (ap_H A);
          router = \<lparr>rg_basePath = ''/'', rg_handlers = []\<rparr>;
          router = gin_Use (third_party (otelgin_Middleware G ''go-rest-boilerplate'')) router;
          router = gin_Use (RequestIDMiddleware E) router;
          router = gin_Use (MetricsMiddleware E) router;
          router = gin_Use (SecurityHeadersMiddleware (ap_cfg A)) router
      in case cors_New G (cors_settings (ap_cfg A)) of
           None \<Rightarrow> None
         | Some cors \<Rightarrow>
             (let router = gin_Use (third_party cors) router;
                  router = gin_Use (BodySizeLimitMiddleware DefaultBodyMaxBytes) router;
                  router = gin_Use (third_party (gin_LoggerWithFormatter G (AccessLogFormatter (ap_fmt A)))) router
              in Some (gin_Use (third_party (gin_Recovery G)) router)))"

definition app_auth :: "('l, 'u, 'r, 'm, 'e) app_parts \<Rightarrow> ('u, 'r, 'm, 'e) auth_usecase" where
  "app_auth A =
     \<lparr>au_users = ap_users A, au_jwt = ap_jwt A, au_mailer = ap_mailer A, au_redis = ap_redis A,
      au_cfg = server_auth_config (ap_cfg A)\<rparr>"

definition app_limiter :: "'l RateLimiter" where
  "app_limiter = NewRateLimiter (5 / 60) 5"

definition app_routes ::
  "'e gin_lib \<Rightarrow> ('l, 'u, 'r, 'm, 'e) app_parts \<Rightarrow> ('l, 'u, 'r, 'm, 'e) RouterGroup \<Rightarrow>
   ('l, 'u, 'r, 'm, 'e) route_table" where
  "app_routes G A router =
     (let E = h_env (ap_H A);
          authMiddleware = auth_mw (ap_jwt A) (ap_redis A) False;
          table = gin_Handle G router ''GET'' ''/health'' [then_Next (of_ctx Health)] [];
          table = gin_Handle G router ''GET'' ''/ready'' [then_Next (of_env (Ready (ap_health A)))] table;
          table = gin_Handle G router ''GET'' ''/metrics'' [then_Next (of_env (promhttp_Handler G))] table;
          table = gin_Handle G router ''GET'' ''/swagger/*any'' [then_Next (of_env (ginSwagger_Handler G))] table;
          authUC = auth_NewUsecase E (app_auth A);
          api = gin_Group G router ''api'';
          table = gin_Handle G api ''GET'' ''/'' [then_Next (of_ctx RootHandler)] table;
          table = authRoute_Routes G (ap_H A)
                    \<lparr>ar_handler = authUC, ar_router = api, ar_rateLimiter = rate_limit_mw (ap_rate A) E,
                     ar_authMiddleware = authMiddleware\<rparr> table
      in usersRoute_Routes G
           \<lparr>ur_handler = ap_users A, ur_router = api, ur_authMiddleware = authMiddleware\<rparr> table)"

text \<open>One request: the chain of the pattern that matches, or the engine's own chain and its answer to
  an unknown path.\<close>

definition engine_serve ::
  "'e gin_lib \<Rightarrow> ('l, 'u, 'r, 'm, 'e) RouterGroup \<Rightarrow> ('l, 'u, 'r, 'm, 'e) route_table \<Rightarrow>
   ('l, 'u, 'r, 'm, 'e) hfun" where
  "engine_serve G router table c s =
     (case gin_find G (map fst table) (g_method c) (g_path c) of
        None \<Rightarrow> chain (rg_handlers router @ [then_Next (of_env (gin_serveError G))]) (c\<lparr>g_fullPath := ''''\<rparr>) s
      | Some pattern \<Rightarrow>
          (case map_of table (g_method c, pattern) of
             None \<Rightarrow> None
           | Some handlers \<Rightarrow> chain handlers (c\<lparr>g_fullPath := pattern\<rparr>) s))"

definition app_serve ::
  "'e gin_lib \<Rightarrow> ('l, 'u, 'r, 'm, 'e) app_parts \<Rightarrow> ('l, 'u, 'r, 'm, 'e) hfun" where
  "app_serve G A c s =
     (case setupRouter G A of
        None \<Rightarrow> None
      | Some router \<Rightarrow> engine_serve G router (app_routes G A router) c s)"

end
