(* ===== verification/Tracing.thy ===== *)
theory Tracing
  imports App_Config
begin

text \<open>
  \<^verbatim>\<open>pkg/observability/tracing.go\<close>: the setup of the tracer provider. The OpenTelemetry SDK is a
  parameter (exporters and resources can fail to be built); its global registrations are the two
  fields of \<open>otel_globals\<close>. Ratios are rationals: the not-a-number of \<^verbatim>\<open>float64\<close> is left out.
\<close>

definition TracerName :: string where
  "TracerName = ''github.com/snykk/go-rest-boilerplate''"

record TracingConfig =
  tc_ServiceName :: string
  tc_Environment :: string
  tc_Exporter :: string
  tc_SampleRatio :: rat

datatype sampler = TraceIDRatioBased rat | ParentBased sampler

datatype propagator = TraceContext | Baggage

record ('x, 'res) TracerProvider =
  tp_batcher :: 'x
  tp_resource :: 'res
  tp_sampler :: sampler

text \<open>The provider is the SDK's no-op until one is set.\<close>

record ('x, 'res) otel_globals =
  og_provider :: "('x, 'res) TracerProvider option"
  og_propagators :: "propagator list"

record ('x, 'res) otel_lib =
  stdouttrace_New :: "goerr + 'x"
  otlptracegrpc_New :: "goerr + 'x"
  resource_New :: "(string \<times> string) list \<Rightarrow> goerr + 'res"

text \<open>What \<^verbatim>\<open>SetupTracing\<close> returns: a function that does nothing, or the shutdown of a provider.\<close>

datatype ('x, 'res) Shutdown = NoShutdown | ProviderShutdown "('x, 'res) TracerProvider"

definition buildExporter :: "(string \<Rightarrow> string) \<Rightarrow> ('x, 'res) otel_lib \<Rightarrow> string \<Rightarrow> goerr + 'x" where
  "buildExporter quote SDK kind =
     (if kind = ''stdout'' then stdouttrace_New SDK
      else if kind = ''otlp'' then otlptracegrpc_New SDK
      else Inl (ErrorString (''unknown exporter '' @ quote kind @ '' (expected stdout|otlp)'')))"

definition clampRatio :: "rat \<Rightarrow> rat" where
  "clampRatio r = (if r \<le> 0 then 0 else if r \<ge> 1 then 1 else r)"

definition orDefault :: "string \<Rightarrow> string \<Rightarrow> string" where
  "orDefault s fallback = (if s = '''' then fallback else s)"

definition SetupTracing ::
  "(string \<Rightarrow> string) \<Rightarrow> ('x, 'res) otel_lib \<Rightarrow> TracingConfig \<Rightarrow> ('x, 'res) otel_globals \<Rightarrow>
   (goerr + ('x, 'res) Shutdown) \<times> ('x, 'res) otel_globals" where
  "SetupTracing quote SDK cfg g =
     (if tc_Exporter cfg = '''' then (Inr NoShutdown, g\<lparr>og_propagators := [TraceContext, Baggage]\<rparr>)
      else
        (case buildExporter quote SDK (tc_Exporter cfg) of
           Inl err \<Rightarrow> (Inl (errorf_w ''build trace exporter'' err), g)
         | Inr exporter \<Rightarrow>
             (case resource_New SDK
                     [(''service.name'', orDefault (tc_ServiceName cfg) ''go-rest-boilerplate''),
                      (''deployment.environment'', orDefault (tc_Environment cfg) ''development'')] of
                Inl err \<Rightarrow> (Inl (errorf_w ''build resource'' err), g)
              | Inr res \<Rightarrow>
                  (let sampler = ParentBased (TraceIDRatioBased (clampRatio (tc_SampleRatio cfg)));
                       tp = \<lparr>tp_batcher = exporter, tp_resource = res, tp_sampler = sampler\<rparr>;
                       g = g\<lparr>og_provider := Some tp\<rparr>;
                       g = g\<lparr>og_propagators := [TraceContext, Baggage]\<rparr>
                   in (Inr (ProviderShutdown tp), g)))))"

text \<open>The settings that \<^verbatim>\<open>NewApp\<close> passes.\<close>

definition server_tracing :: "AppConfig \<Rightarrow> TracingConfig" where
  "server_tracing c =
     \<lparr>tc_ServiceName = ''go-rest-boilerplate'', tc_Environment = ac_Environment c, tc_Exporter = ac_OTelExporter c,
      tc_SampleRatio = ac_OTelSampleRatio c\<rparr>"

section \<open>Lemmas\<close>

lemma clampRatio_bounds: "0 \<le> clampRatio r \<and> clampRatio r \<le> 1"
  by (simp add: clampRatio_def)

lemma clampRatio_id: "0 \<le> r \<Longrightarrow> r \<le> 1 \<Longrightarrow> clampRatio r = r"
  by (simp add: clampRatio_def)

lemma SetupTracing_cases:
  assumes "SetupTracing quote SDK cfg g = (r, g')"
  obtains (disabled) "tc_Exporter cfg = ''''" "r = Inr NoShutdown" "g' = g\<lparr>og_propagators := [TraceContext, Baggage]\<rparr>"
  | (failed) err where "tc_Exporter cfg \<noteq> ''''" "r = Inl err" "g' = g"
  | (installed) tp where "tc_Exporter cfg \<in> {''stdout'', ''otlp''}" "r = Inr (ProviderShutdown tp)"
      "g' = \<lparr>og_provider = Some tp, og_propagators = [TraceContext, Baggage]\<rparr>"
      "tp_sampler tp = ParentBased (TraceIDRatioBased (clampRatio (tc_SampleRatio cfg)))"
  using assms by (cases g) (auto simp: SetupTracing_def buildExporter_def Let_def split: if_splits sum.splits)

text \<open>Tracing with an accepted configuration. Without an exporter nothing is registered but the
  propagators and the shutdown does nothing; with one, the provider that is registered is the one
  the shutdown flushes, spans start with a probability between 0 and 1 that is not 0 unless the
  setting is negative, and a setting of 0 records every trace. A failure registers nothing.\<close>

theorem tracing_as_configured:
  assumes "InitializeAppConfig X c0 = (None, c)" and "SetupTracing quote SDK (server_tracing c) g = (r, g')"
  shows "case r of
      Inl err \<Rightarrow> g' = g
    | Inr NoShutdown \<Rightarrow> ac_OTelExporter c = '''' \<and> og_provider g' = og_provider g
    | Inr (ProviderShutdown tp) \<Rightarrow> og_provider g' = Some tp \<and> ac_OTelExporter c \<in> {''stdout'', ''otlp''} \<and>
        (\<exists>p. tp_sampler tp = ParentBased (TraceIDRatioBased p) \<and> 0 \<le> p \<and> p \<le> 1 \<and>
           (0 \<le> ac_OTelSampleRatio c \<longrightarrow> 0 < p) \<and>
           (\<forall>u. viper_Unmarshal X c0 = (None, u) \<and> ac_OTelSampleRatio u = 0 \<longrightarrow> p = 1))"
  using assms(2)
proof (cases rule: SetupTracing_cases)
  case (installed tp)
  let ?r = "ac_OTelSampleRatio c"
  from assms(1) obtain u where u: "viper_Unmarshal X c0 = (None, u)" and c: "c = applyDefaults u"
    by (auto simp: InitializeAppConfig_def Let_def split: option.splits prod.splits)
  have ne: "ac_OTelExporter c \<noteq> ''''"
    using installed(1) by (auto simp: server_tracing_def)
  then have r0: "?r \<noteq> 0"
    using applyDefaults_nonzero(10) [of u] c by simp
  have one: "?r = 1" if "ac_OTelSampleRatio u = 0"
    using that ne unfolding c applyDefaults_def Let_def by (auto simp: when_zero_frames split: if_splits)
  have "0 < clampRatio ?r" if "0 \<le> ?r"
    using that r0 by (simp add: clampRatio_def)
  with installed u one clampRatio_bounds [of ?r] show ?thesis
    by (auto simp: server_tracing_def clampRatio_def)
qed (auto simp: server_tracing_def)

section \<open>An evaluated setup\<close>

definition ref_otel :: "(string, (string \<times> string) list) otel_lib" where
  "ref_otel =
     \<lparr>stdouttrace_New = Inr ''stdout'', otlptracegrpc_New = Inl (ErrorString ''context deadline exceeded''),
      resource_New = (\<lambda>attrs. Inr attrs)\<rparr>"

definition ref_traced_lib :: config_lib where
  "ref_traced_lib =
     \<lparr>viper_ReadInConfig = None, viper_Unmarshal = (\<lambda>c. (None, ref_settings\<lparr>ac_OTelExporter := ''stdout''\<rparr>)),
      url_Parse = (\<lambda>s. None), strconv_Quote = (\<lambda>s. [CHR 0x22] @ s @ [CHR 0x22])\<rparr>"

theorem tracing_as_configured_witness:
  "\<exists>c tp g'. InitializeAppConfig ref_traced_lib ref_settings = (None, c) \<and> ac_OTelSampleRatio ref_settings = 0 \<and>
     SetupTracing (\<lambda>s. s) ref_otel (server_tracing c) \<lparr>og_provider = None, og_propagators = []\<rparr> = (Inr (ProviderShutdown tp), g') \<and>
     og_provider g' = Some tp \<and> tp_sampler tp = ParentBased (TraceIDRatioBased 1)"
proof -
  let ?u = "ref_settings\<lparr>ac_OTelExporter := ''stdout''\<rparr>" and ?g = "\<lparr>og_provider = None, og_propagators = []\<rparr>"
  let ?c = "applyDefaults ?u"
  have ck: "config_check ref_traced_lib ?c = None"
    by code_simp
  have run: "InitializeAppConfig ref_traced_lib ref_settings = (None, ?c)"
    using ck by (simp add: InitializeAppConfig_def) (simp add: ref_traced_lib_def)
  have x: "ac_OTelExporter ?c = ''stdout''"
    by code_simp
  then obtain tp g' where set: "SetupTracing (\<lambda>s. s) ref_otel (server_tracing ?c) ?g = (Inr (ProviderShutdown tp), g')"
    by (auto simp: SetupTracing_def buildExporter_def server_tracing_def ref_otel_def Let_def)
  have z: "ac_OTelSampleRatio ?u = 0" "viper_Unmarshal ref_traced_lib ref_settings = (None, ?u)"
    by (simp_all add: ref_settings_def ref_traced_lib_def)
  from tracing_as_configured [OF run set] z have "og_provider g' = Some tp \<and> tp_sampler tp = ParentBased (TraceIDRatioBased 1)"
    by auto
  with run set z(1) show ?thesis
    by auto
qed

end
