(* ===== verification/Drivers.thy ===== *)
theory Drivers
  imports App_Config
begin

text \<open>
  The connection to PostgreSQL: \<^verbatim>\<open>internal/datasources/drivers\<close>, and the gauges of the pool in
  \<^verbatim>\<open>pkg/observability/metrics.go\<close>. The driver (sqlx with its instrumentation) is a parameter over a
  state \<open>'w\<close>; \<open>'h\<close> are the handles. The log lines are left out.
\<close>

record dbStats =
  st_OpenConnections :: int
  st_InUse :: int
  st_WaitCount :: int

record ('h, 'w) sqlx_driver =
  otelsqlx_Open :: "string \<Rightarrow> string \<Rightarrow> string \<Rightarrow> 'w \<Rightarrow> (goerr + 'h) \<times> 'w"
  db_SetMaxOpenConns :: "'h \<Rightarrow> int \<Rightarrow> 'w \<Rightarrow> 'w"
  db_SetMaxIdleConns :: "'h \<Rightarrow> int \<Rightarrow> 'w \<Rightarrow> 'w"
  db_SetConnMaxLifetime :: "'h \<Rightarrow> duration \<Rightarrow> 'w \<Rightarrow> 'w"
  db_SetConnMaxIdleTime :: "'h \<Rightarrow> duration \<Rightarrow> 'w \<Rightarrow> 'w"
  db_Ping :: "'h \<Rightarrow> 'w \<Rightarrow> goerr option \<times> 'w"
  db_Close :: "'h \<Rightarrow> 'w \<Rightarrow> goerr option \<times> 'w"
  db_Stats :: "'h \<Rightarrow> 'w \<Rightarrow> dbStats"

section \<open>driver.sqlx.go\<close>

record SQLXConfig =
  sx_DriverName :: string
  sx_DataSourceName :: string
  sx_MaxOpenConns :: int
  sx_MaxIdleConns :: int
  sx_MaxLifetime :: duration

definition InitializeSQLXDatabase ::
  "('h, 'w) sqlx_driver \<Rightarrow> SQLXConfig \<Rightarrow> 'w \<Rightarrow> (goerr + 'h) \<times> 'w" where
  "InitializeSQLXDatabase D config w =
     (case otelsqlx_Open D (sx_DriverName config) (sx_DataSourceName config) (sx_DriverName config) w of
        (Inl err, w) \<Rightarrow> (Inl (ErrorString (''error opening database: '' @ Error err)), w)
      | (Inr db, w) \<Rightarrow>
          (let w = db_SetMaxOpenConns D db (sx_MaxOpenConns config) w;
               w = db_SetMaxIdleConns D db (sx_MaxIdleConns config) w;
               w = db_SetConnMaxLifetime D db (sx_MaxLifetime config) w;
               w = db_SetConnMaxIdleTime D db (5 * Minute) w
           in case db_Ping D db w of
                (Some err, w) \<Rightarrow> (Inl (ErrorString (''error pinging database: '' @ Error err)), w)
              | (None, w) \<Rightarrow> (Inr db, w)))"

section \<open>driver.sqlx\_setup.go\<close>

definition postgres_dsn :: "AppConfig \<Rightarrow> string" where
  "postgres_dsn c =
     (if ac_Environment c = EnvironmentDevelopment then ac_DBPostgreDsn c
      else if ac_Environment c = EnvironmentProduction then ac_DBPostgreURL c
      else '''')"

definition SetupSQLXPostgres :: "('h, 'w) sqlx_driver \<Rightarrow> AppConfig \<Rightarrow> 'w \<Rightarrow> (goerr + 'h) \<times> 'w" where
  "SetupSQLXPostgres D c w =
     (let cfg = \<lparr>sx_DriverName = ac_DBPostgreDriver c, sx_DataSourceName = postgres_dsn c,
                 sx_MaxOpenConns = ac_DBMaxOpenConns c, sx_MaxIdleConns = ac_DBMaxIdleConns c,
                 sx_MaxLifetime = wrap64 (ac_DBConnMaxLifeMins c * Minute)\<rparr>
      in InitializeSQLXDatabase D cfg w)"

section \<open>metrics.go: the pool\<close>

text \<open>The provider is nil until it is registered; it may return a nil handle.\<close>

type_synonym 'h db_provider = "'h option option"

definition currentDBStats :: "('h, 'w) sqlx_driver \<Rightarrow> 'h db_provider \<Rightarrow> 'w \<Rightarrow> dbStats" where
  "currentDBStats D provider w =
     (case provider of
        None \<Rightarrow> \<lparr>st_OpenConnections = 0, st_InUse = 0, st_WaitCount = 0\<rparr>
      | Some None \<Rightarrow> \<lparr>st_OpenConnections = 0, st_InUse = 0, st_WaitCount = 0\<rparr>
      | Some (Some db) \<Rightarrow>
          (let s = db_Stats D db w
           in \<lparr>st_OpenConnections = st_OpenConnections s, st_InUse = st_InUse s, st_WaitCount = st_WaitCount s\<rparr>))"

definition RegisterDBStatsProvider :: "'h option \<Rightarrow> 'h db_provider \<Rightarrow> 'h db_provider" where
  "RegisterDBStatsProvider db provider = Some db"

definition db_gauges :: "('h, 'w) sqlx_driver \<Rightarrow> 'h db_provider \<Rightarrow> 'w \<Rightarrow> (string \<times> int) list" where
  "db_gauges D provider w =
     [(''db_pool_open_connections'', st_OpenConnections (currentDBStats D provider w)),
      (''db_pool_in_use_connections'', st_InUse (currentDBStats D provider w)),
      (''db_pool_wait_count_total'', st_WaitCount (currentDBStats D provider w))]"

section \<open>The pool after the setup\<close>

text \<open>What is documented of the setters: each sets its limit and leaves the others, and so do the
  other calls. \<open>pool\<close> reads the settings of a handle; \<open>closed\<close> are the handles closed so far.\<close>

record pool_settings =
  ps_driver :: string
  ps_dsn :: string
  ps_maxOpen :: int
  ps_maxIdle :: int
  ps_lifetime :: duration
  ps_idleTime :: duration

locale sqlx_pool =
  fixes D :: "('h, 'w) sqlx_driver" and pool :: "'h \<Rightarrow> 'w \<Rightarrow> pool_settings"
  assumes open_pool: "otelsqlx_Open D driver dsn name w = (Inr h, w') \<Longrightarrow>
      ps_driver (pool h w') = driver \<and> ps_dsn (pool h w') = dsn"
    and set_open: "pool h (db_SetMaxOpenConns D h n w) = (pool h w)\<lparr>ps_maxOpen := n\<rparr>"
    and set_idle: "0 \<le> n \<Longrightarrow> n \<le> ps_maxOpen (pool h w) \<Longrightarrow>
      pool h (db_SetMaxIdleConns D h n w) = (pool h w)\<lparr>ps_maxIdle := n\<rparr>"
    and set_life: "pool h (db_SetConnMaxLifetime D h d w) = (pool h w)\<lparr>ps_lifetime := d\<rparr>"
    and set_idle_time: "pool h (db_SetConnMaxIdleTime D h d w) = (pool h w)\<lparr>ps_idleTime := d\<rparr>"
    and ping_pool: "db_Ping D h w = (r, w') \<Longrightarrow> pool h w' = pool h w"
begin

lemma setup_pool:
  assumes "SetupSQLXPostgres D c w = (Inr h, w')" and "0 \<le> ac_DBMaxIdleConns c" and "ac_DBMaxIdleConns c \<le> ac_DBMaxOpenConns c"
  shows "pool h w' =
    \<lparr>ps_driver = ac_DBPostgreDriver c, ps_dsn = postgres_dsn c, ps_maxOpen = ac_DBMaxOpenConns c,
     ps_maxIdle = ac_DBMaxIdleConns c, ps_lifetime = wrap64 (ac_DBConnMaxLifeMins c * Minute), ps_idleTime = 5 * Minute\<rparr>"
proof -
  let ?limits = "\<lambda>w. db_SetConnMaxIdleTime D h (5 * Minute) (db_SetConnMaxLifetime D h (wrap64 (ac_DBConnMaxLifeMins c * Minute))
      (db_SetMaxIdleConns D h (ac_DBMaxIdleConns c) (db_SetMaxOpenConns D h (ac_DBMaxOpenConns c) w)))"
  obtain w1 where "otelsqlx_Open D (ac_DBPostgreDriver c) (postgres_dsn c) (ac_DBPostgreDriver c) w = (Inr h, w1)"
    and "db_Ping D h (?limits w1) = (None, w')"
    using assms(1)
    by (auto simp: SetupSQLXPostgres_def InitializeSQLXDatabase_def Let_def split: prod.splits sum.splits option.splits)
  then show ?thesis
    using open_pool ping_pool [of h "?limits w1"] assms(2,3) by (auto simp: set_open set_idle set_life set_idle_time)
qed

end

text \<open>With an accepted configuration, a database handle that the setup returns points at the data
  source of the environment, which is not empty, and its pool has the configured limits: at least one
  connection, no more idle ones than open ones, and five minutes of idle time.\<close>

theorem database_pool_configured:
  assumes "sqlx_pool D pool" and "InitializeAppConfig X c0 = (None, c)" and "SetupSQLXPostgres D c w = (Inr h, w')"
  shows "ps_dsn (pool h w') = (if ac_Environment c = EnvironmentProduction then ac_DBPostgreURL c else ac_DBPostgreDsn c) \<and>
    ps_dsn (pool h w') \<noteq> '''' \<and> 1 \<le> ps_maxOpen (pool h w') \<and> 0 \<le> ps_maxIdle (pool h w') \<and>
    ps_maxIdle (pool h w') \<le> ps_maxOpen (pool h w') \<and> ps_idleTime (pool h w') = 5 * Minute \<and>
    (ac_DBConnMaxLifeMins c \<in> {1..1000000} \<longrightarrow> ps_lifetime (pool h w') = ac_DBConnMaxLifeMins c * Minute)"
proof -
  have ck: "config_check X c = None"
    using Initialize_None [OF assms(2)] by simp
  have "ac_DBMaxOpenConns c \<ge> 1" and dsn: "postgres_dsn c \<noteq> ''''"
    using ck by (auto simp: config_check_def postgres_dsn_def EnvironmentDevelopment_def EnvironmentProduction_def
        split: if_splits option.splits)
  moreover have "wrap64 (ac_DBConnMaxLifeMins c * Minute) = ac_DBConnMaxLifeMins c * Minute" if "ac_DBConnMaxLifeMins c \<in> {1..1000000}"
    using that by (simp add: wrap64_id in_int64_def duration_defs)
  ultimately show ?thesis
    using sqlx_pool.setup_pool [OF assms(1,3)] config_check_None(6,9) [OF ck]
    by (auto simp: postgres_dsn_def EnvironmentDevelopment_def EnvironmentProduction_def)
qed

section \<open>A reference driver\<close>

text \<open>A handle is the driver and the data source it was opened with; the state maps the handles to their
  settings. A data source that starts with an \<^verbatim>\<open>x\<close> does not answer the ping.\<close>

type_synonym ref_handle = "string \<times> string"

definition no_pool :: "ref_handle \<Rightarrow> pool_settings" where
  "no_pool h = \<lparr>ps_driver = fst h, ps_dsn = snd h, ps_maxOpen = 0, ps_maxIdle = 2, ps_lifetime = 0, ps_idleTime = 0\<rparr>"

definition ref_driver :: "(ref_handle, ref_handle \<Rightarrow> pool_settings) sqlx_driver" where
  "ref_driver =
     \<lparr>otelsqlx_Open = (\<lambda>driver dsn name w. (Inr (driver, dsn), w((driver, dsn) := no_pool (driver, dsn)))),
      db_SetMaxOpenConns = (\<lambda>h n w. w(h := (w h)\<lparr>ps_maxOpen := n\<rparr>)),
      db_SetMaxIdleConns = (\<lambda>h n w. w(h := (w h)\<lparr>ps_maxIdle := n\<rparr>)),
      db_SetConnMaxLifetime = (\<lambda>h d w. w(h := (w h)\<lparr>ps_lifetime := d\<rparr>)),
      db_SetConnMaxIdleTime = (\<lambda>h d w. w(h := (w h)\<lparr>ps_idleTime := d\<rparr>)),
      db_Ping = (\<lambda>h w. (if take 1 (snd h) = ''x'' then Some (ErrorString ''connection refused'') else None, w)),
      db_Close = (\<lambda>h w. (None, w)), db_Stats = (\<lambda>h w. \<lparr>st_OpenConnections = 1, st_InUse = 0, st_WaitCount = 0\<rparr>)\<rparr>"

interpretation ref_pool: sqlx_pool ref_driver "\<lambda>h w. w h"
  by unfold_locales (auto simp: ref_driver_def no_pool_def)

lemma ref_accepted: "InitializeAppConfig ref_config_lib ref_settings = (None, applyDefaults ref_settings)"
proof -
  have "config_check ref_config_lib (applyDefaults ref_settings) = None"
    by code_simp
  then show ?thesis
    by (simp add: InitializeAppConfig_def) (simp add: ref_config_lib_def)
qed

lemma database_ref: "\<exists>h w'. SetupSQLXPostgres ref_driver (applyDefaults ref_settings) no_pool = (Inr h, w')"
proof -
  have "ac_DBPostgreURL (applyDefaults ref_settings) = ''postgres://db/app''"
    "ac_Environment (applyDefaults ref_settings) = EnvironmentProduction"
    by code_simp+
  then show ?thesis
    by (simp add: SetupSQLXPostgres_def InitializeSQLXDatabase_def ref_driver_def postgres_dsn_def
        EnvironmentProduction_def EnvironmentDevelopment_def)
qed

theorem database_pool_configured_witness:
  "\<exists>h w'. SetupSQLXPostgres ref_driver (applyDefaults ref_settings) no_pool = (Inr h, w') \<and>
     ps_dsn (w' h) = ''postgres://db/app'' \<and> ps_maxIdle (w' h) \<le> ps_maxOpen (w' h)"
proof -
  have c: "ac_DBPostgreURL (applyDefaults ref_settings) = ''postgres://db/app''"
    "ac_Environment (applyDefaults ref_settings) = EnvironmentProduction"
    by code_simp+
  obtain h w' where run: "SetupSQLXPostgres ref_driver (applyDefaults ref_settings) no_pool = (Inr h, w')"
    using database_ref by blast
  from database_pool_configured [OF ref_pool.sqlx_pool_axioms ref_accepted run] c run show ?thesis
    by auto
qed

end
