(* ===== verification/Logger.thy ===== *)
theory Logger
  imports App_Error "HOL-Library.Char_ord" "HOL-Library.List_Lexorder"
begin

text \<open>
  The package \<^verbatim>\<open>pkg/logger\<close>: levels and settings (\<^verbatim>\<open>logger.go\<close>), the implementation over zap
  (\<^verbatim>\<open>zap.go\<close>), the helpers on fields and contexts (\<^verbatim>\<open>helper.go\<close>) and the default logger of the
  process. The library zap is a parameter: a \<^verbatim>\<open>zap.Logger\<close> is described by the options it was built
  with, and \<open>zap_Log\<close> is the call of its method of a level. The frames of the Go stack are kept,
  because zap reports the one that its option \<^verbatim>\<open>AddCallerSkip\<close> selects. The order in which a map
  is ranged over is an argument of each call (\<open>ord\<close>). The interface \<^verbatim>\<open>Logger\<close> has one
  implementation, \<open>zapLogger\<close>. The six methods of a kind differ in the level alone, which is an
  argument here.
\<close>

section \<open>Values, contexts, levels\<close>

text \<open>An \<^verbatim>\<open>interface{}\<close>: a string, or a value of another type. A context is nil or a lookup.\<close>

datatype 'v goany = GoString string | GoOther 'v

datatype ctxKey = ctxKey string

type_synonym 'v go_context = "(ctxKey \<Rightarrow> 'v goany option) option"

type_synonym 'v Fields = "string \<rightharpoonup> 'v goany"

type_synonym 'v map_range = "'v Fields \<Rightarrow> (string \<times> 'v goany) list"

definition TraceIDKey :: ctxKey where
  "TraceIDKey = ctxKey ''traceId''"

definition RequestIDKey :: ctxKey where
  "RequestIDKey = ctxKey ''request_id''"

datatype zapLevel = DebugLevel | InfoLevel | WarnLevel | ErrorLevel | PanicLevel | FatalLevel

text \<open>The order of \<^verbatim>\<open>zapcore.Level\<close>: debug is -1, error 2, \<^verbatim>\<open>DPanicLevel\<close> (3) is not used, panic 4, fatal 5.\<close>

fun zap_number :: "zapLevel \<Rightarrow> int" where
  "zap_number DebugLevel = -1"
| "zap_number InfoLevel = 0"
| "zap_number WarnLevel = 1"
| "zap_number ErrorLevel = 2"
| "zap_number PanicLevel = 4"
| "zap_number FatalLevel = 5"

instantiation zapLevel :: linorder
begin

definition less_eq_zapLevel :: "zapLevel \<Rightarrow> zapLevel \<Rightarrow> bool" where
  "a \<le> b \<longleftrightarrow> zap_number a \<le> zap_number b"

definition less_zapLevel :: "zapLevel \<Rightarrow> zapLevel \<Rightarrow> bool" where
  "a < b \<longleftrightarrow> zap_number a < zap_number b"

instance
proof
  fix a b :: zapLevel
  show "a \<le> b \<Longrightarrow> b \<le> a \<Longrightarrow> a = b"
    by (cases a; cases b) (simp_all add: less_eq_zapLevel_def)
qed (auto simp: less_eq_zapLevel_def less_zapLevel_def)

end

definition parseZapLevel :: "string \<Rightarrow> zapLevel" where
  "parseZapLevel level =
     (if level = ''debug'' then DebugLevel
      else if level = ''info'' then InfoLevel
      else if level = ''warn'' then WarnLevel
      else if level = ''error'' then ErrorLevel
      else if level = ''fatal'' then FatalLevel
      else if level = ''panic'' then PanicLevel
      else InfoLevel)"

section \<open>helper.go\<close>

definition ctx_string :: "'v go_context \<Rightarrow> ctxKey \<Rightarrow> string" where
  "ctx_string ctx k =
     (case ctx of
        None \<Rightarrow> ''''
      | Some values \<Rightarrow>
          (case values k of
             Some (GoString s) \<Rightarrow> if s \<noteq> '''' then s else ''''
           | _ \<Rightarrow> ''''))"

definition GetTraceIDFromContext :: "'v go_context \<Rightarrow> string" where
  "GetTraceIDFromContext ctx = ctx_string ctx TraceIDKey"

definition GetRequestIDFromContext :: "'v go_context \<Rightarrow> string" where
  "GetRequestIDFromContext ctx = ctx_string ctx RequestIDKey"

definition put_all :: "(string \<times> 'v goany) list \<Rightarrow> 'v Fields \<Rightarrow> 'v Fields" where
  "put_all kvs m = fold (\<lambda>(k, v) m. m(k \<mapsto> v)) kvs m"

definition ConvertMapToFields :: "'v map_range \<Rightarrow> 'v Fields \<Rightarrow> 'v Fields" where
  "ConvertMapToFields ord data = put_all (ord data) Map.empty"

definition MergeFields :: "'v map_range \<Rightarrow> 'v Fields list \<Rightarrow> 'v Fields" where
  "MergeFields ord fieldMaps = fold (\<lambda>f result. put_all (ord f) result) fieldMaps Map.empty"

section \<open>zap\<close>

datatype 'v zap_Field = zap_Any string "'v goany" | zap_String string string

text \<open>The settings of the encoder; the four encoding functions are named.\<close>

record EncoderConfig =
  ec_TimeKey :: string
  ec_LevelKey :: string
  ec_NameKey :: string
  ec_CallerKey :: string
  ec_FunctionKey :: string
  ec_MessageKey :: string
  ec_StacktraceKey :: string
  ec_LineEnding :: string
  ec_EncodeLevel :: string
  ec_EncodeTime :: string
  ec_EncodeDuration :: string
  ec_EncodeCaller :: string

datatype zap_encoder = JSONEncoder EncoderConfig | ConsoleEncoder EncoderConfig

datatype 'f zap_writer = LockedStdout | SyncedFile 'f

record 'f zap_core =
  zc_encoder :: zap_encoder
  zc_writer :: "'f zap_writer"
  zc_level :: zapLevel

record ('f, 'v) zap_Logger =
  zl_cores :: "'f zap_core list"
  zl_callerSkip :: nat
  zl_with :: "'v zap_Field list"

text \<open>The frames of the stack: the program's own, by place; a function of the package \<^verbatim>\<open>logger\<close>; a
  method of \<open>zapLogger\<close>. A logging call returns, ends the process, or panics.\<close>

datatype frame = At string | PackageFunction | LoggerMethod

datatype 'w log_end = Returns 'w | Exits 'w | Panics string 'w

record ('f, 'v, 'w) zap_lib =
  zap_Log :: "('f, 'v) zap_Logger \<Rightarrow> zapLevel \<Rightarrow> string \<Rightarrow> 'v zap_Field list \<Rightarrow> frame list \<Rightarrow> 'w \<Rightarrow> 'w log_end"
  os_OpenFile :: "string \<Rightarrow> 'w \<Rightarrow> (goerr + 'f) \<times> 'w"
  log_Sprintf :: "string \<Rightarrow> 'v goany list \<Rightarrow> string"

section \<open>zap.go\<close>

record logger_Config =
  lc_Level :: string
  lc_EnableConsole :: bool
  lc_ConsoleJSONFormat :: bool
  lc_EnableFile :: bool
  lc_FileJSONFormat :: bool
  lc_FileLocation :: string
  lc_AppName :: string
  lc_SamplingEnabled :: bool

record ('f, 'v) zapLogger =
  zg_base :: "('f, 'v) zap_Logger"
  zg_contextLogger :: "('f, 'v) zap_Logger"
  zg_chainedLogger :: "('f, 'v) zap_Logger"
  zg_fields :: "'v zap_Field list"
  zg_isChained :: bool

definition encoderConfig :: EncoderConfig where
  "encoderConfig =
     \<lparr>ec_TimeKey = ''time'', ec_LevelKey = ''level'', ec_NameKey = ''logger'', ec_CallerKey = ''caller'',
      ec_FunctionKey = ''function'', ec_MessageKey = ''message'', ec_StacktraceKey = ''stacktrace'',
      ec_LineEnding = [CHR 0x0A], ec_EncodeLevel = ''LowercaseLevelEncoder'',
      ec_EncodeTime = ''ISO8601TimeEncoder'', ec_EncodeDuration = ''SecondsDurationEncoder'',
      ec_EncodeCaller = ''ShortCallerEncoder''\<rparr>"

definition encoder_for :: "bool \<Rightarrow> zap_encoder" where
  "encoder_for json = (if json then JSONEncoder encoderConfig else ConsoleEncoder encoderConfig)"

definition zap_with :: "'v zap_Field \<Rightarrow> ('f, 'v) zap_Logger \<Rightarrow> ('f, 'v) zap_Logger" where
  "zap_with f z = z\<lparr>zl_with := zl_with z @ [f]\<rparr>"

definition zap_loggers :: "logger_Config \<Rightarrow> 'f zap_core list \<Rightarrow> goerr + ('f, 'v) zapLogger" where
  "zap_loggers config cores =
     (if cores = [] then Inl (ErrorString ''no output configured (console or file must be enabled)'')
      else
        (let new = (\<lambda>skip. \<lparr>zl_cores = cores, zl_callerSkip = skip, zl_with = []\<rparr>);
             name = (\<lambda>z. if lc_AppName config \<noteq> '''' then zap_with (zap_String ''service'' (lc_AppName config)) z else z)
         in Inr \<lparr>zg_base = name (new 2), zg_contextLogger = name (new 2), zg_chainedLogger = name (new 1),
                 zg_fields = [], zg_isChained = False\<rparr>))"

definition newZapLogger ::
  "('f, 'v, 'w) zap_lib \<Rightarrow> logger_Config \<Rightarrow> 'w \<Rightarrow> (goerr + ('f, 'v) zapLogger) \<times> 'w" where
  "newZapLogger Z config w =
     (let encoder = encoder_for (lc_ConsoleJSONFormat config);
          level = parseZapLevel (lc_Level config);
          cores = (if lc_EnableConsole config
                   then [\<lparr>zc_encoder = encoder, zc_writer = LockedStdout, zc_level = level\<rparr>] else [])
      in if lc_EnableFile config \<and> lc_FileLocation config \<noteq> '''' then
           (case os_OpenFile Z (lc_FileLocation config) w of
              (Inl err, w) \<Rightarrow> (Inl (errorf_w ''failed to open log file'' err), w)
            | (Inr file, w) \<Rightarrow>
                (zap_loggers config
                   (cores @ [\<lparr>zc_encoder = encoder_for (lc_FileJSONFormat config), zc_writer = SyncedFile file,
                              zc_level = level\<rparr>]), w))
         else (zap_loggers config cores, w))"

definition mergeFields :: "'v map_range \<Rightarrow> ('f, 'v) zapLogger \<Rightarrow> 'v Fields list \<Rightarrow> 'v zap_Field list" where
  "mergeFields ord l additional =
     zg_fields l @ concat (map (\<lambda>m. map (\<lambda>(k, v). zap_Any k v) (ord m)) additional)"

definition appendCorrelation :: "'v go_context \<Rightarrow> 'v zap_Field list \<Rightarrow> 'v zap_Field list" where
  "appendCorrelation ctx flds =
     (let traceID = GetTraceIDFromContext ctx;
          flds = (if traceID \<noteq> '''' \<and> traceID \<noteq> ''unknown'' then flds @ [zap_String ''traceId'' traceID] else flds);
          requestID = GetRequestIDFromContext ctx
      in if requestID \<noteq> '''' then flds @ [zap_String ''request_id'' requestID] else flds)"

definition zapLogger_log ::
  "('f, 'v, 'w) zap_lib \<Rightarrow> 'v map_range \<Rightarrow> zapLevel \<Rightarrow> ('f, 'v) zapLogger \<Rightarrow> string \<Rightarrow> 'v Fields list \<Rightarrow>
   frame list \<Rightarrow> 'w \<Rightarrow> 'w log_end" where
  "zapLogger_log Z ord lvl l msg flds st w =
     (let allFields = mergeFields ord l flds
      in if zg_isChained l then zap_Log Z (zg_chainedLogger l) lvl msg allFields (LoggerMethod # st) w
         else zap_Log Z (zg_base l) lvl msg allFields (LoggerMethod # st) w)"

definition zapLogger_logf ::
  "('f, 'v, 'w) zap_lib \<Rightarrow> zapLevel \<Rightarrow> ('f, 'v) zapLogger \<Rightarrow> string \<Rightarrow> 'v goany list \<Rightarrow>
   frame list \<Rightarrow> 'w \<Rightarrow> 'w log_end" where
  "zapLogger_logf Z lvl l format args st w =
     (if zg_isChained l then zap_Log Z (zg_chainedLogger l) lvl (log_Sprintf Z format args) (zg_fields l) (LoggerMethod # st) w
      else zap_Log Z (zg_base l) lvl (log_Sprintf Z format args) (zg_fields l) (LoggerMethod # st) w)"

definition zapLogger_logWithContext ::
  "('f, 'v, 'w) zap_lib \<Rightarrow> 'v map_range \<Rightarrow> zapLevel \<Rightarrow> ('f, 'v) zapLogger \<Rightarrow> 'v go_context \<Rightarrow> string \<Rightarrow>
   'v Fields list \<Rightarrow> frame list \<Rightarrow> 'w \<Rightarrow> 'w log_end" where
  "zapLogger_logWithContext Z ord lvl l ctx msg flds st w =
     (let allFields = mergeFields ord l flds;
          allFields = appendCorrelation ctx allFields
      in zap_Log Z (zg_contextLogger l) lvl msg allFields (LoggerMethod # st) w)"

definition zapLogger_logfWithContext ::
  "('f, 'v, 'w) zap_lib \<Rightarrow> zapLevel \<Rightarrow> ('f, 'v) zapLogger \<Rightarrow> 'v go_context \<Rightarrow> string \<Rightarrow> 'v goany list \<Rightarrow>
   frame list \<Rightarrow> 'w \<Rightarrow> 'w log_end" where
  "zapLogger_logfWithContext Z lvl l ctx format args st w =
     (let flds = appendCorrelation ctx (zg_fields l)
      in zap_Log Z (zg_contextLogger l) lvl (log_Sprintf Z format args) flds (LoggerMethod # st) w)"

definition zapLogger_WithFields :: "'v map_range \<Rightarrow> ('f, 'v) zapLogger \<Rightarrow> 'v Fields \<Rightarrow> ('f, 'v) zapLogger" where
  "zapLogger_WithFields ord l flds =
     (let newFields = zg_fields l @ map (\<lambda>(k, v). zap_Any k v) (ord flds)
      in \<lparr>zg_base = zg_base l, zg_contextLogger = zg_contextLogger l, zg_chainedLogger = zg_chainedLogger l,
          zg_fields = newFields, zg_isChained = True\<rparr>)"

definition zapLogger_WithContext :: "('f, 'v) zapLogger \<Rightarrow> 'v go_context \<Rightarrow> ('f, 'v) zapLogger" where
  "zapLogger_WithContext l ctx =
     (let newFields = appendCorrelation ctx (zg_fields l)
      in \<lparr>zg_base = zg_base l, zg_contextLogger = zg_contextLogger l, zg_chainedLogger = zg_chainedLogger l,
          zg_fields = newFields, zg_isChained = True\<rparr>)"

section \<open>logger.go and init.go\<close>

text \<open>The process: the default logger (nil or set) and the world of files and output.\<close>

record ('f, 'v, 'w) log_state =
  ls_defaultLogger :: "('f, 'v) zapLogger option"
  ls_out :: 'w

definition ErrInvalidLoggerInstance :: goerr where
  "ErrInvalidLoggerInstance = ErrorString ''invalid logger instance''"

definition InstanceZap :: int where
  "InstanceZap = 0"

definition NewLogger ::
  "('f, 'v, 'w) zap_lib \<Rightarrow> logger_Config \<Rightarrow> int \<Rightarrow> 'w \<Rightarrow> (goerr + ('f, 'v) zapLogger) \<times> 'w" where
  "NewLogger Z config instanceType w =
     (if instanceType = InstanceZap then newZapLogger Z config w else (Inl ErrInvalidLoggerInstance, w))"

definition SetDefault :: "('f, 'v) zapLogger \<Rightarrow> ('f, 'v, 'w) log_state \<Rightarrow> ('f, 'v, 'w) log_state" where
  "SetDefault l s = s\<lparr>ls_defaultLogger := Some l\<rparr>"

definition InitDefault ::
  "('f, 'v, 'w) zap_lib \<Rightarrow> logger_Config \<Rightarrow> int \<Rightarrow> ('f, 'v, 'w) log_state \<Rightarrow> goerr option \<times> ('f, 'v, 'w) log_state" where
  "InitDefault Z config instanceType s =
     (case NewLogger Z config instanceType (ls_out s) of
        (Inl err, w) \<Rightarrow> (Some err, s\<lparr>ls_out := w\<rparr>)
      | (Inr l, w) \<Rightarrow> (None, SetDefault l (s\<lparr>ls_out := w\<rparr>)))"

definition bootstrap_Config :: logger_Config where
  "bootstrap_Config =
     \<lparr>lc_Level = ''info'', lc_EnableConsole = True, lc_ConsoleJSONFormat = False, lc_EnableFile = False,
      lc_FileJSONFormat = False, lc_FileLocation = '''', lc_AppName = '''', lc_SamplingEnabled = False\<rparr>"

definition logger_init :: "('f, 'v, 'w) zap_lib \<Rightarrow> ('f, 'v, 'w) log_state \<Rightarrow> ('f, 'v, 'w) log_state" where
  "logger_init Z s = snd (InitDefault Z bootstrap_Config InstanceZap s)"

text \<open>The functions of the package call the method of the default logger, if there is one.\<close>

fun log_keeps :: "('f, 'v, 'w) log_state \<Rightarrow> 'w log_end \<Rightarrow> ('f, 'v, 'w) log_state log_end" where
  "log_keeps s (Returns w) = Returns (s\<lparr>ls_out := w\<rparr>)"
| "log_keeps s (Exits w) = Exits (s\<lparr>ls_out := w\<rparr>)"
| "log_keeps s (Panics msg w) = Panics msg (s\<lparr>ls_out := w\<rparr>)"

definition on_default ::
  "(('f, 'v) zapLogger \<Rightarrow> frame list \<Rightarrow> 'w \<Rightarrow> 'w log_end) \<Rightarrow> frame list \<Rightarrow> ('f, 'v, 'w) log_state \<Rightarrow>
   ('f, 'v, 'w) log_state log_end" where
  "on_default call st s =
     (case ls_defaultLogger s of
        None \<Rightarrow> Returns s
      | Some l \<Rightarrow> log_keeps s (call l (PackageFunction # st) (ls_out s)))"

definition logger_log ::
  "('f, 'v, 'w) zap_lib \<Rightarrow> 'v map_range \<Rightarrow> zapLevel \<Rightarrow> string \<Rightarrow> 'v Fields list \<Rightarrow> frame list \<Rightarrow>
   ('f, 'v, 'w) log_state \<Rightarrow> ('f, 'v, 'w) log_state log_end" where
  "logger_log Z ord lvl msg flds = on_default (\<lambda>l. zapLogger_log Z ord lvl l msg flds)"

definition logger_logf ::
  "('f, 'v, 'w) zap_lib \<Rightarrow> zapLevel \<Rightarrow> string \<Rightarrow> 'v goany list \<Rightarrow> frame list \<Rightarrow>
   ('f, 'v, 'w) log_state \<Rightarrow> ('f, 'v, 'w) log_state log_end" where
  "logger_logf Z lvl format args = on_default (\<lambda>l. zapLogger_logf Z lvl l format args)"

definition logger_logWithContext ::
  "('f, 'v, 'w) zap_lib \<Rightarrow> 'v map_range \<Rightarrow> zapLevel \<Rightarrow> 'v go_context \<Rightarrow> string \<Rightarrow> 'v Fields list \<Rightarrow> frame list \<Rightarrow>
   ('f, 'v, 'w) log_state \<Rightarrow> ('f, 'v, 'w) log_state log_end" where
  "logger_logWithContext Z ord lvl ctx msg flds = on_default (\<lambda>l. zapLogger_logWithContext Z ord lvl l ctx msg flds)"

definition logger_logfWithContext ::
  "('f, 'v, 'w) zap_lib \<Rightarrow> zapLevel \<Rightarrow> 'v go_context \<Rightarrow> string \<Rightarrow> 'v goany list \<Rightarrow> frame list \<Rightarrow>
   ('f, 'v, 'w) log_state \<Rightarrow> ('f, 'v, 'w) log_state log_end" where
  "logger_logfWithContext Z lvl ctx format args = on_default (\<lambda>l. zapLogger_logfWithContext Z lvl l ctx format args)"

definition logger_WithFields ::
  "'v map_range \<Rightarrow> 'v Fields \<Rightarrow> ('f, 'v, 'w) log_state \<Rightarrow> ('f, 'v) zapLogger option" where
  "logger_WithFields ord flds s = map_option (\<lambda>l. zapLogger_WithFields ord l flds) (ls_defaultLogger s)"

definition logger_WithContext ::
  "'v go_context \<Rightarrow> ('f, 'v, 'w) log_state \<Rightarrow> ('f, 'v) zapLogger option" where
  "logger_WithContext ctx s = map_option (\<lambda>l. zapLogger_WithContext l ctx) (ls_defaultLogger s)"

section \<open>What zap documents\<close>

text \<open>A logger hands an entry to the cores whose level is at most the entry's; each core may write it or
  fail. A fatal entry then ends the process and a panic entry panics, written or not.\<close>

record 'v log_entry =
  le_level :: zapLevel
  le_message :: string
  le_fields :: "'v zap_Field list"
  le_caller :: "frame option"

definition zap_entry :: "('f, 'v) zap_Logger \<Rightarrow> zapLevel \<Rightarrow> string \<Rightarrow> 'v zap_Field list \<Rightarrow> frame list \<Rightarrow> 'v log_entry" where
  "zap_entry z lvl msg flds st =
     \<lparr>le_level = lvl, le_message = msg, le_fields = zl_with z @ flds,
      le_caller = (if zl_callerSkip z < length st then Some (st ! zl_callerSkip z) else None)\<rparr>"

definition core_lines :: "('f, 'v) zap_Logger \<Rightarrow> 'v log_entry \<Rightarrow> ('f zap_writer \<times> 'v log_entry) list" where
  "core_lines z e = map (\<lambda>c. (zc_writer c, e)) (filter (\<lambda>c. zc_level c \<le> le_level e) (zl_cores z))"

fun log_world :: "'w log_end \<Rightarrow> 'w" where
  "log_world (Returns w) = w"
| "log_world (Exits w) = w"
| "log_world (Panics msg w) = w"

fun ends_like :: "zapLevel \<Rightarrow> string \<Rightarrow> 'w log_end \<Rightarrow> bool" where
  "ends_like lvl msg (Returns w) \<longleftrightarrow> lvl \<noteq> FatalLevel \<and> lvl \<noteq> PanicLevel"
| "ends_like lvl msg (Exits w) \<longleftrightarrow> lvl = FatalLevel"
| "ends_like lvl msg (Panics m w) \<longleftrightarrow> lvl = PanicLevel \<and> m = msg"

locale zap_logging =
  fixes Z :: "('f, 'v, 'w) zap_lib"
    and lines :: "'w \<Rightarrow> ('f zap_writer \<times> 'v log_entry) list"
  assumes zap_writes:
    "\<exists>new. lines (log_world (zap_Log Z z lvl msg flds st w)) = lines w @ new \<and>
           set new \<subseteq> set (core_lines z (zap_entry z lvl msg flds st))"
    and zap_ends: "ends_like lvl msg (zap_Log Z z lvl msg flds st w)"

section \<open>Loggers that the package builds\<close>

definition well_built :: "zapLevel \<Rightarrow> ('f, 'v) zapLogger \<Rightarrow> bool" where
  "well_built lv l \<longleftrightarrow>
     zl_callerSkip (zg_base l) = 2 \<and> zl_callerSkip (zg_contextLogger l) = 2 \<and> zl_callerSkip (zg_chainedLogger l) = 1 \<and>
     (\<forall>z \<in> {zg_base l, zg_contextLogger l, zg_chainedLogger l}. \<forall>c \<in> set (zl_cores z). zc_level c = lv)"

lemma newZapLogger_built:
  assumes "newZapLogger Z config w = (Inr l, w')"
  shows "well_built (parseZapLevel (lc_Level config)) l" and "\<not> zg_isChained l" and "zg_fields l = []"
  using assms
  by (auto simp: newZapLogger_def zap_loggers_def well_built_def zap_with_def Let_def
      split: if_splits sum.splits prod.splits)

lemma chained_built [simp]:
  "well_built lv (zapLogger_WithFields ord l fs) \<longleftrightarrow> well_built lv l"
  "well_built lv (zapLogger_WithContext l ctx) \<longleftrightarrow> well_built lv l"
  "zg_isChained (zapLogger_WithFields ord l fs)"
  "zg_isChained (zapLogger_WithContext l ctx)"
  by (simp_all add: well_built_def zapLogger_WithFields_def zapLogger_WithContext_def Let_def)

lemma console_logger:
  assumes "lc_EnableConsole config" and "\<not> lc_EnableFile config"
  shows "\<exists>l. newZapLogger Z config w = (Inr l, w)"
  using assms by (simp add: newZapLogger_def zap_loggers_def Let_def)

lemma set_appendCorrelation:
  "GetRequestIDFromContext ctx \<noteq> '''' \<Longrightarrow>
   zap_String ''request_id'' (GetRequestIDFromContext ctx) \<in> set (appendCorrelation ctx flds)"
  "GetTraceIDFromContext ctx \<noteq> '''' \<Longrightarrow> GetTraceIDFromContext ctx \<noteq> ''unknown'' \<Longrightarrow>
   zap_String ''traceId'' (GetTraceIDFromContext ctx) \<in> set (appendCorrelation ctx flds)"
  by (simp_all add: appendCorrelation_def Let_def)

lemma set_appendCorrelation_keeps: "set flds \<subseteq> set (appendCorrelation ctx flds)"
  by (auto simp: appendCorrelation_def Let_def)

text \<open>Every line that one call adds satisfies a predicate.\<close>

definition adds :: "('w \<Rightarrow> ('f zap_writer \<times> 'v log_entry) list) \<Rightarrow> 'w \<Rightarrow> 'w \<Rightarrow> ('v log_entry \<Rightarrow> bool) \<Rightarrow> bool" where
  "adds lines w w' P \<longleftrightarrow> (\<exists>new. lines w' = lines w @ new \<and> (\<forall>(out, e) \<in> set new. P e))"

lemma addsI:
  assumes "lines w' = lines w @ new" and "\<And>out e. (out, e) \<in> set new \<Longrightarrow> P e"
  shows "adds lines w w' P"
  using assms unfolding adds_def by blast

lemma adds_mono: "adds lines w w' P \<Longrightarrow> (\<And>e. P e \<Longrightarrow> Q e) \<Longrightarrow> adds lines w w' Q"
  unfolding adds_def by blast

lemma adds_trans: "adds lines w w' P \<Longrightarrow> adds lines w' w'' P \<Longrightarrow> adds lines w w'' P"
  unfolding adds_def by fastforce

lemma log_world_keeps [simp]:
  "ls_out (log_world (log_keeps s r)) = log_world r"
  "ls_defaultLogger (log_world (log_keeps s r)) = ls_defaultLogger s"
  by (cases r; simp)+

lemma ends_like_keeps [simp]: "ends_like lvl msg (log_keeps s r) \<longleftrightarrow> ends_like lvl msg r"
  by (cases r) simp_all

text \<open>What one line says: it is at or above the level of the logger, has the level, the message and at
  least the fields of the call, and names the frame \<open>k\<close> of the stack as its origin.\<close>

definition entry_says ::
  "zapLevel \<Rightarrow> zapLevel \<Rightarrow> string \<Rightarrow> 'v zap_Field list \<Rightarrow> nat \<Rightarrow> frame list \<Rightarrow> 'v log_entry \<Rightarrow> bool" where
  "entry_says lv lvl msg flds k st e \<longleftrightarrow>
     lv \<le> lvl \<and> le_level e = lvl \<and> le_message e = msg \<and> set flds \<subseteq> set (le_fields e) \<and>
     le_caller e = (if k < length st then Some (st ! k) else None)"

lemma entry_says_frame: "entry_says lv lvl msg flds (Suc k) (f # st) = entry_says lv lvl msg flds k st"
  by (rule ext) (simp add: entry_says_def)

context zap_logging
begin

lemma zap_adds:
  "adds lines w (log_world (zap_Log Z z lvl msg flds st w))
     (\<lambda>e. e = zap_entry z lvl msg flds st \<and> (\<exists>c \<in> set (zl_cores z). zc_level c \<le> lvl))"
proof -
  obtain new where "lines (log_world (zap_Log Z z lvl msg flds st w)) = lines w @ new"
    and "set new \<subseteq> set (core_lines z (zap_entry z lvl msg flds st))"
    using zap_writes by blast
  then show ?thesis
    by (intro addsI) (auto simp: core_lines_def zap_entry_def)
qed

lemma zap_says:
  assumes "zl_callerSkip z = Suc k" and "\<forall>c \<in> set (zl_cores z). zc_level c = lv"
  shows "adds lines w (log_world (zap_Log Z z lvl msg flds (LoggerMethod # st) w)) (entry_says lv lvl msg flds k st)"
  by (rule adds_mono [OF zap_adds]) (use assms in \<open>auto simp: entry_says_def zap_entry_def\<close>)

text \<open>What a line of a logger with the settings of the package says, by the kind of call.\<close>

lemma method_says:
  assumes "well_built lv l"
  shows "adds lines w (log_world (zapLogger_log Z ord lvl l msg fs st w))
           (entry_says lv lvl msg (mergeFields ord l fs) (if zg_isChained l then 0 else 1) st)"
    and "adds lines w (log_world (zapLogger_logf Z lvl l format args st w))
           (entry_says lv lvl (log_Sprintf Z format args) (zg_fields l) (if zg_isChained l then 0 else 1) st)"
    and "adds lines w (log_world (zapLogger_logWithContext Z ord lvl l ctx msg fs st w))
           (entry_says lv lvl msg (appendCorrelation ctx (mergeFields ord l fs)) 1 st)"
    and "adds lines w (log_world (zapLogger_logfWithContext Z lvl l ctx format args st w))
           (entry_says lv lvl (log_Sprintf Z format args) (appendCorrelation ctx (zg_fields l)) 1 st)"
  using assms
  by (simp_all add: well_built_def zapLogger_log_def zapLogger_logf_def zapLogger_logWithContext_def
      zapLogger_logfWithContext_def Let_def zap_says)

lemma package_says:
  assumes "ls_defaultLogger s = Some l" and "well_built lv l" and "\<not> zg_isChained l"
  shows "adds lines (ls_out s) (ls_out (log_world (logger_log Z ord lvl msg fs st s)))
           (entry_says lv lvl msg (mergeFields ord l fs) 0 st)"
    and "adds lines (ls_out s) (ls_out (log_world (logger_logf Z lvl format args st s)))
           (entry_says lv lvl (log_Sprintf Z format args) (zg_fields l) 0 st)"
    and "adds lines (ls_out s) (ls_out (log_world (logger_logWithContext Z ord lvl ctx msg fs st s)))
           (entry_says lv lvl msg (appendCorrelation ctx (mergeFields ord l fs)) 0 st)"
    and "adds lines (ls_out s) (ls_out (log_world (logger_logfWithContext Z lvl ctx format args st s)))
           (entry_says lv lvl (log_Sprintf Z format args) (appendCorrelation ctx (zg_fields l)) 0 st)"
  using assms method_says [OF assms(2), where w = "ls_out s" and st = "PackageFunction # st"]
  by (simp_all add: on_default_def logger_log_def logger_logf_def logger_logWithContext_def
      logger_logfWithContext_def entry_says_frame)

lemma package_ends:
  assumes "ls_defaultLogger s = Some l"
  shows "ends_like lvl msg (logger_log Z ord lvl msg fs st s)"
  using assms by (simp add: logger_log_def on_default_def zapLogger_log_def Let_def zap_ends)

end

section \<open>Fields\<close>

text \<open>Ranging over a finite map visits every entry once, in some order.\<close>

locale map_ranging =
  fixes ord :: "'v map_range"
  assumes range_entries: "finite (dom m) \<Longrightarrow> map_of (ord m) = m"
    and range_once: "finite (dom m) \<Longrightarrow> distinct (map fst (ord m))"

lemma put_all_distinct: "distinct (map fst kvs) \<Longrightarrow> put_all kvs m = m ++ map_of kvs"
proof (induction kvs arbitrary: m)
  case (Cons kv kvs)
  obtain k v where kv: "kv = (k, v)"
    by (cases kv)
  have "map_of kvs k = None"
    using Cons.prems kv by (simp add: map_of_eq_None_iff)
  then have "m(k \<mapsto> v) ++ map_of kvs = m ++ map_of ((k, v) # kvs)"
    by (intro ext) (auto simp: map_add_def split: option.splits)
  moreover have "put_all (kv # kvs) m = put_all kvs (m(k \<mapsto> v))"
    by (simp add: put_all_def kv)
  moreover have "put_all kvs (m(k \<mapsto> v)) = m(k \<mapsto> v) ++ map_of kvs"
    by (rule Cons.IH) (use Cons.prems in simp)
  ultimately show ?case
    by (simp only: kv)
qed (simp add: put_all_def)

context map_ranging
begin

lemma put_range [simp]: "finite (dom f) \<Longrightarrow> put_all (ord f) m = m ++ f"
  by (simp add: put_all_distinct range_once range_entries)

lemma convert_same: "finite (dom data) \<Longrightarrow> ConvertMapToFields ord data = data"
  by (simp add: ConvertMapToFields_def)

lemma merge_fold: "\<forall>f \<in> set fs. finite (dom f) \<Longrightarrow> fold (\<lambda>f r. put_all (ord f) r) fs m = foldl (++) m fs"
  by (induction fs arbitrary: m) simp_all

lemma merge_last_wins: "\<forall>f \<in> set fs. finite (dom f) \<Longrightarrow> MergeFields ord fs = foldl (++) Map.empty fs"
  by (simp add: MergeFields_def merge_fold)

lemma merged_field:
  assumes "finite (dom m)" and "m \<in> set additional" and "m k = Some v"
  shows "zap_Any k v \<in> set (mergeFields ord l additional)"
proof -
  have "(k, v) \<in> set (ord m)"
    using assms range_entries [of m] by (metis map_of_SomeD)
  with \<open>m \<in> set additional\<close> show ?thesis
    by (force simp: mergeFields_def)
qed

end

definition ref_range :: "'v map_range" where
  "ref_range m = map (\<lambda>k. (k, the (m k))) (sorted_list_of_set (dom m))"

interpretation ref_ranging: map_ranging ref_range
proof
  fix m :: "'v Fields"
  assume "finite (dom m)"
  then show "map_of (ref_range m) = m"
    by (intro ext) (auto simp: ref_range_def map_of_map_restrict restrict_map_def domIff)
  show "distinct (map fst (ref_range m))"
    by (simp add: ref_range_def comp_def)
qed

section \<open>A reference zap\<close>

text \<open>Every core writes; a file is its name; a format is its own text. The world is the list of lines.\<close>

type_synonym 'v ref_lines = "(string zap_writer \<times> 'v log_entry) list"

definition ref_zap_log ::
  "(string, 'v) zap_Logger \<Rightarrow> zapLevel \<Rightarrow> string \<Rightarrow> 'v zap_Field list \<Rightarrow> frame list \<Rightarrow> 'v ref_lines \<Rightarrow> 'v ref_lines log_end" where
  "ref_zap_log z lvl msg flds st w =
     (let w = w @ core_lines z (zap_entry z lvl msg flds st)
      in if lvl = FatalLevel then Exits w else if lvl = PanicLevel then Panics msg w else Returns w)"

definition ref_zap :: "(string, 'v, 'v ref_lines) zap_lib" where
  "ref_zap = \<lparr>zap_Log = ref_zap_log, os_OpenFile = (\<lambda>name w. (Inr name, w)), log_Sprintf = (\<lambda>format args. format)\<rparr>"

interpretation ref_logging: zap_logging ref_zap "\<lambda>w. w"
  by unfold_locales (auto simp: ref_zap_def ref_zap_log_def Let_def)

section \<open>The default logger\<close>

text \<open>The invariant of the process: the default logger is set, not chained, and built by the package
  with the level of one of the configurations given.\<close>

definition default_ready :: "('f, 'v, 'w) log_state \<Rightarrow> bool" where
  "default_ready s \<longleftrightarrow> (\<exists>l lv. ls_defaultLogger s = Some l \<and> well_built lv l \<and> \<not> zg_isChained l \<and> zg_fields l = [])"

lemma logger_init_ready: "default_ready (logger_init Z s)"
  by (simp add: logger_init_def bootstrap_Config_def InitDefault_def NewLogger_def newZapLogger_def zap_loggers_def SetDefault_def
      default_ready_def well_built_def Let_def)

lemma InitDefault_ready: "default_ready s \<Longrightarrow> default_ready (snd (InitDefault Z config t s))"
  by (auto simp: InitDefault_def NewLogger_def SetDefault_def default_ready_def
      dest: newZapLogger_built split: if_splits sum.splits prod.splits)

lemma InitDefaults_ready:
  "default_ready s \<Longrightarrow> default_ready (fold (\<lambda>(config, t) s. snd (InitDefault Z config t s)) inits s)"
  by (induction inits arbitrary: s) (auto simp: InitDefault_ready split: prod.splits)

end
