(* ===== verification/Mailer_Async.thy ===== *)
theory Mailer_Async
  imports Usecase_Auth "HOL-Library.Multiset"
begin

text \<open>
  \<^verbatim>\<open>pkg/mailer/mailer.async.go\<close>: the queue and the workers that deliver mail outside the request.
  The goroutines are a machine of atomic events: a request enqueues, a worker receives a job, makes
  an attempt, wakes from its backoff by the timer or by the stop channel, or leaves the closed queue;
  \<^verbatim>\<open>Shutdown\<close> closes the stop channel and then the queue. The state keeps, beside the code's
  variables, the jobs that were accepted and how each ended. Spans and log lines are left out.
  The invariant: no job is lost or duplicated; a job ends without success or exhausted attempts
  only after the stop; and after the queue is closed the workers come to an end, whatever the
  scheduler and the mail server do.
\<close>

datatype jobKind = jobOTP | jobPasswordReset

record otpJob =
  jKind :: jobKind
  jPayload :: string
  jReceiver :: string

record 'm AsyncOTPMailer =
  ao_inner :: "'m OTPMailer"
  ao_queueSize :: int
  ao_workers :: int
  ao_retries :: int
  ao_backoff :: duration

text \<open>Where a worker stands: at the receive of \<^verbatim>\<open>for job := range a.queue\<close>, before an attempt, in the
  select of the backoff, or returned.\<close>

datatype worker = Receiving | Trying otpJob int | Waiting otpJob int duration | Exited

record ('m, 'e) mailer_state =
  ms_queue :: "otpJob list"
  ms_stop :: bool
  ms_closed :: bool
  ms_workers :: "worker list"
  ms_inner :: 'm
  ms_env :: 'e
  ms_accepted :: "otpJob list"
  ms_sent :: "otpJob list"
  ms_failed :: "otpJob list"
  ms_dropped :: "otpJob list"

definition ErrQueueFull :: goerr where
  "ErrQueueFull = ErrorString ''otp mailer queue is full''"

definition NewAsyncOTPMailer ::
  "'m OTPMailer \<Rightarrow> int \<Rightarrow> int \<Rightarrow> int \<Rightarrow> duration \<Rightarrow> 'm \<Rightarrow> 'e \<Rightarrow> 'm AsyncOTPMailer \<times> ('m, 'e) mailer_state" where
  "NewAsyncOTPMailer inner workers queueSize retries backoff m e =
     (let workers = (if workers \<le> 0 then 2 else workers);
          queueSize = (if queueSize \<le> 0 then 64 else queueSize);
          retries = (if retries \<le> 0 then 3 else retries);
          backoff = (if backoff \<le> 0 then Second else backoff)
      in (\<lparr>ao_inner = inner, ao_queueSize = queueSize, ao_workers = workers, ao_retries = retries,
           ao_backoff = backoff\<rparr>,
          \<lparr>ms_queue = [], ms_stop = False, ms_closed = False,
           ms_workers = replicate (nat workers) Receiving, ms_inner = m, ms_env = e,
           ms_accepted = [], ms_sent = [], ms_failed = [], ms_dropped = []\<rparr>))"

text \<open>The non-blocking send; on a closed channel it panics.\<close>

datatype enqueue_result = Enqueued | QueueFull | PanicClosed

definition async_enqueue ::
  "'m AsyncOTPMailer \<Rightarrow> otpJob \<Rightarrow> ('m, 'e) mailer_state \<Rightarrow> enqueue_result \<times> ('m, 'e) mailer_state" where
  "async_enqueue a j st =
     (if ms_closed st then (PanicClosed, st)
      else if int (length (ms_queue st)) < ao_queueSize a
      then (Enqueued, st\<lparr>ms_queue := ms_queue st @ [j], ms_accepted := ms_accepted st @ [j]\<rparr>)
      else (QueueFull, st))"

text \<open>The methods of the interface. A panic unwinds the request; it is reported here as an error.\<close>

definition enqueue_error :: "enqueue_result \<Rightarrow> goerr option" where
  "enqueue_error r =
     (case r of Enqueued \<Rightarrow> None | QueueFull \<Rightarrow> Some ErrQueueFull
      | PanicClosed \<Rightarrow> Some (ErrorString ''send on closed channel''))"

definition async_SendOTP ::
  "'m AsyncOTPMailer \<Rightarrow> string \<Rightarrow> string \<Rightarrow> ('m, 'e) mailer_state \<Rightarrow> goerr option \<times> ('m, 'e) mailer_state" where
  "async_SendOTP a otpCode receiver st =
     (case async_enqueue a \<lparr>jKind = jobOTP, jPayload = otpCode, jReceiver = receiver\<rparr> st of
        (r, st) \<Rightarrow> (enqueue_error r, st))"

definition async_SendPasswordReset ::
  "'m AsyncOTPMailer \<Rightarrow> string \<Rightarrow> string \<Rightarrow> ('m, 'e) mailer_state \<Rightarrow> goerr option \<times> ('m, 'e) mailer_state" where
  "async_SendPasswordReset a token receiver st =
     (case async_enqueue a \<lparr>jKind = jobPasswordReset, jPayload = token, jReceiver = receiver\<rparr> st of
        (r, st) \<Rightarrow> (enqueue_error r, st))"

definition async_OTPMailer :: "'m AsyncOTPMailer \<Rightarrow> ('m, 'e) mailer_state OTPMailer" where
  "async_OTPMailer a = \<lparr>mail_SendOTP = async_SendOTP a, mail_SendPasswordReset = async_SendPasswordReset a\<rparr>"

text \<open>The pause after a failed attempt: \<^verbatim>\<open>a.backoff * time.Duration(1<<uint(attempt-1))\<close>, in 64-bit
  arithmetic, capped at 30 seconds.\<close>

definition backoff_wait :: "'m AsyncOTPMailer \<Rightarrow> int \<Rightarrow> duration" where
  "backoff_wait a attempt =
     (let wait = wrap64 (ao_backoff a * wrap64 (2 ^ nat (attempt - 1)))
      in if wait > 30 * Second then 30 * Second else wait)"

text \<open>One turn of the loop of \<^verbatim>\<open>deliver\<close> by worker \<open>i\<close>.\<close>

definition deliver_attempt ::
  "'e goenv \<Rightarrow> 'm AsyncOTPMailer \<Rightarrow> nat \<Rightarrow> otpJob \<Rightarrow> int \<Rightarrow> ('m, 'e) mailer_state \<Rightarrow> ('m, 'e) mailer_state" where
  "deliver_attempt E a i job attempt st =
     (case (case jKind job of
              jobPasswordReset \<Rightarrow> mail_SendPasswordReset (ao_inner a) (jPayload job) (jReceiver job) (ms_inner st)
            | jobOTP \<Rightarrow> mail_SendOTP (ao_inner a) (jPayload job) (jReceiver job) (ms_inner st)) of
        (None, m) \<Rightarrow>
          st\<lparr>ms_inner := m, ms_env := ObserveMailerOp E ''sent'' (ms_env st),
             ms_workers := (ms_workers st)[i := Receiving], ms_sent := ms_sent st @ [job]\<rparr>
      | (Some lastErr, m) \<Rightarrow>
          if attempt = ao_retries a
          then st\<lparr>ms_inner := m, ms_env := ObserveMailerOp E ''failed'' (ms_env st),
                  ms_workers := (ms_workers st)[i := Receiving], ms_failed := ms_failed st @ [job]\<rparr>
          else st\<lparr>ms_inner := m,
                  ms_workers := (ms_workers st)[i := Waiting job attempt (backoff_wait a attempt)]\<rparr>)"

datatype mail_event =
    MEnqueue otpJob
  | MReceive nat
  | MAttempt nat
  | MTimer nat
  | MStopSeen nat
  | MLeave nat
  | MStop
  | MClose

fun async_step ::
  "'e goenv \<Rightarrow> 'm AsyncOTPMailer \<Rightarrow> mail_event \<Rightarrow> ('m, 'e) mailer_state \<Rightarrow> ('m, 'e) mailer_state option" where
  "async_step E a (MEnqueue j) st =
     (case async_enqueue a j st of (Enqueued, st) \<Rightarrow> Some st | _ \<Rightarrow> None)"
| "async_step E a (MReceive i) st =
     (if i < length (ms_workers st) \<and> ms_workers st ! i = Receiving
      then (case ms_queue st of
              job # rest \<Rightarrow>
                Some (st\<lparr>ms_queue := rest, ms_workers := (ms_workers st)[i := Trying job 1]\<rparr>)
            | [] \<Rightarrow> None)
      else None)"
| "async_step E a (MAttempt i) st =
     (if i < length (ms_workers st)
      then (case ms_workers st ! i of
              Trying job attempt \<Rightarrow> Some (deliver_attempt E a i job attempt st) | _ \<Rightarrow> None)
      else None)"
| "async_step E a (MTimer i) st =
     (if i < length (ms_workers st)
      then (case ms_workers st ! i of
              Waiting job attempt wait \<Rightarrow>
                Some (st\<lparr>ms_workers := (ms_workers st)[i := Trying job (attempt + 1)]\<rparr>)
            | _ \<Rightarrow> None)
      else None)"
| "async_step E a (MStopSeen i) st =
     (if i < length (ms_workers st) \<and> ms_stop st
      then (case ms_workers st ! i of
              Waiting job attempt wait \<Rightarrow>
                Some (st\<lparr>ms_workers := (ms_workers st)[i := Receiving], ms_dropped := ms_dropped st @ [job]\<rparr>)
            | _ \<Rightarrow> None)
      else None)"
| "async_step E a (MLeave i) st =
     (if i < length (ms_workers st) \<and> ms_workers st ! i = Receiving \<and> ms_closed st \<and> ms_queue st = []
      then Some (st\<lparr>ms_workers := (ms_workers st)[i := Exited]\<rparr>)
      else None)"
| "async_step E a MStop st = (if ms_stop st then None else Some (st\<lparr>ms_stop := True\<rparr>))"
| "async_step E a MClose st =
     (if ms_stop st \<and> \<not> ms_closed st then Some (st\<lparr>ms_closed := True\<rparr>) else None)"

text \<open>\<^verbatim>\<open>Shutdown\<close> returns nil once the wait group is at zero.\<close>

definition shutdown_done :: "('m, 'e) mailer_state \<Rightarrow> bool" where
  "shutdown_done st = list_all (\<lambda>w. w = Exited) (ms_workers st)"

fun async_run ::
  "'e goenv \<Rightarrow> 'm AsyncOTPMailer \<Rightarrow> mail_event list \<Rightarrow> ('m, 'e) mailer_state \<Rightarrow> ('m, 'e) mailer_state option" where
  "async_run E a [] st = Some st"
| "async_run E a (ev # evs) st =
     (case async_step E a ev st of None \<Rightarrow> None | Some st \<Rightarrow> async_run E a evs st)"

inductive async_reach ::
  "'e goenv \<Rightarrow> 'm AsyncOTPMailer \<Rightarrow> ('m, 'e) mailer_state \<Rightarrow> ('m, 'e) mailer_state \<Rightarrow> bool"
  for E a st0 where
  start: "async_reach E a st0 st0"
| event: "async_reach E a st0 st \<Longrightarrow> async_step E a ev st = Some st' \<Longrightarrow> async_reach E a st0 st'"

section \<open>The invariant\<close>

primrec held :: "worker \<Rightarrow> otpJob list" where
  "held Receiving = []"
| "held (Trying j n) = [j]"
| "held (Waiting j n d) = [j]"
| "held Exited = []"

definition in_flight :: "worker list \<Rightarrow> otpJob multiset" where
  "in_flight ws = (\<Sum>w\<in>#mset ws. mset (held w))"

definition worker_ok :: "'m AsyncOTPMailer \<Rightarrow> worker \<Rightarrow> bool" where
  "worker_ok a w =
     (case w of
        Trying j n \<Rightarrow> 1 \<le> n \<and> n \<le> ao_retries a
      | Waiting j n d \<Rightarrow> 1 \<le> n \<and> n < ao_retries a \<and> d = backoff_wait a n
      | _ \<Rightarrow> True)"

definition mailer_ok :: "'m AsyncOTPMailer \<Rightarrow> bool" where
  "mailer_ok a \<longleftrightarrow> 0 < ao_workers a \<and> 0 < ao_queueSize a \<and> 0 < ao_retries a \<and> 0 < ao_backoff a"

definition jobs_kept :: "('m, 'e) mailer_state \<Rightarrow> bool" where
  "jobs_kept st \<longleftrightarrow>
     mset (ms_accepted st) = mset (ms_queue st) + in_flight (ms_workers st) + mset (ms_sent st) +
       mset (ms_failed st) + mset (ms_dropped st)"

definition mailer_inv :: "'m AsyncOTPMailer \<Rightarrow> ('m, 'e) mailer_state \<Rightarrow> bool" where
  "mailer_inv a st \<longleftrightarrow> jobs_kept st \<and> int (length (ms_queue st)) \<le> ao_queueSize a \<and>
     int (length (ms_workers st)) = ao_workers a \<and> list_all (worker_ok a) (ms_workers st) \<and>
     (ms_dropped st \<noteq> [] \<longrightarrow> ms_stop st) \<and> (ms_closed st \<longrightarrow> ms_stop st) \<and>
     (Exited \<in> set (ms_workers st) \<longrightarrow> ms_closed st \<and> ms_queue st = [])"

lemma update_split:
  assumes "i < length xs"
  obtains M where "mset xs = add_mset (xs ! i) M" "\<And>x. mset (xs[i := x]) = add_mset x M"
  using assms by (metis add_mset_remove_trivial mset_update nth_mem_mset insert_DiffM)

lemma flight_update:
  "i < length ws \<Longrightarrow> mset (held w) + in_flight ws = mset (held (ws ! i)) + in_flight (ws[i := w])"
  by (erule update_split) (simp add: in_flight_def ac_simps)

lemma new_mailer_ok: "NewAsyncOTPMailer inner w q r b m e = (a, st) \<Longrightarrow> mailer_ok a \<and> mailer_inv a st"
  by (auto simp: NewAsyncOTPMailer_def mailer_ok_def mailer_inv_def jobs_kept_def in_flight_def worker_ok_def
      Second_def list_all_iff Let_def)

text \<open>The effect of a worker's move on the jobs in flight.\<close>

lemma flight_take:
  "i < length ws \<Longrightarrow> held (ws ! i) = [] \<Longrightarrow> held w = [j] \<Longrightarrow> in_flight (ws[i := w]) = add_mset j (in_flight ws)"
  using flight_update [of i ws w] by simp

lemma flight_release:
  "i < length ws \<Longrightarrow> held (ws ! i) = [j] \<Longrightarrow> held w = [] \<Longrightarrow> in_flight ws = add_mset j (in_flight (ws[i := w]))"
  using flight_update [of i ws w] by simp

lemma flight_same:
  "i < length ws \<Longrightarrow> held (ws ! i) = held w \<Longrightarrow> in_flight (ws[i := w]) = in_flight ws"
  using flight_update [of i ws w] by simp

lemma list_all_update: "list_all P xs \<Longrightarrow> P x \<Longrightarrow> list_all P (xs[i := x])"
  by (auto simp: list_all_iff dest!: set_update_subset_insert [THEN subsetD])

lemma mem_update: "y \<in> set (xs[i := x]) \<Longrightarrow> y \<noteq> x \<Longrightarrow> y \<in> set xs"
  by (auto dest!: set_update_subset_insert [THEN subsetD])

text \<open>The events by their effect: a worker's move, with the job it takes, finishes or keeps.\<close>

lemma async_step_elim:
  assumes "async_step E a ev st = Some st'"
  obtains (enqueue) j where "\<not> ms_closed st" "int (length (ms_queue st)) < ao_queueSize a"
    "st' = st\<lparr>ms_queue := ms_queue st @ [j], ms_accepted := ms_accepted st @ [j]\<rparr>" "ev = MEnqueue j"
  | (receive) i j rest where "i < length (ms_workers st)" "ms_workers st ! i = Receiving" "ms_queue st = j # rest"
    "st' = st\<lparr>ms_queue := rest, ms_workers := (ms_workers st)[i := Trying j 1]\<rparr>"
  | (sent) i j n m e where "i < length (ms_workers st)" "ms_workers st ! i = Trying j n"
    "st' = st\<lparr>ms_inner := m, ms_env := e, ms_workers := (ms_workers st)[i := Receiving], ms_sent := ms_sent st @ [j]\<rparr>"
  | (failed) i j m e where "i < length (ms_workers st)" "ms_workers st ! i = Trying j (ao_retries a)"
    "st' = st\<lparr>ms_inner := m, ms_env := e, ms_workers := (ms_workers st)[i := Receiving], ms_failed := ms_failed st @ [j]\<rparr>"
  | (backoff) i j n m where "i < length (ms_workers st)" "ms_workers st ! i = Trying j n" "n \<noteq> ao_retries a"
    "st' = st\<lparr>ms_inner := m, ms_workers := (ms_workers st)[i := Waiting j n (backoff_wait a n)]\<rparr>"
  | (timer) i j n d where "i < length (ms_workers st)" "ms_workers st ! i = Waiting j n d"
    "st' = st\<lparr>ms_workers := (ms_workers st)[i := Trying j (n + 1)]\<rparr>"
  | (stopped) i j n d where "i < length (ms_workers st)" "ms_workers st ! i = Waiting j n d" "ms_stop st"
    "st' = st\<lparr>ms_workers := (ms_workers st)[i := Receiving], ms_dropped := ms_dropped st @ [j]\<rparr>"
  | (leave) i where "i < length (ms_workers st)" "ms_workers st ! i = Receiving" "ms_closed st" "ms_queue st = []"
    "st' = st\<lparr>ms_workers := (ms_workers st)[i := Exited]\<rparr>"
  | (stop) "\<not> ms_stop st" "st' = st\<lparr>ms_stop := True\<rparr>" "ev = MStop"
  | (close) "ms_stop st" "\<not> ms_closed st" "st' = st\<lparr>ms_closed := True\<rparr>" "ev = MClose"
proof (cases ev)
  case (MAttempt i)
  with assms obtain j n where w: "i < length (ms_workers st)" "ms_workers st ! i = Trying j n"
    and st': "st' = deliver_attempt E a i j n st"
    by (auto split: if_splits worker.splits)
  obtain err m where r: "(case jKind j of
        jobPasswordReset \<Rightarrow> mail_SendPasswordReset (ao_inner a) (jPayload j) (jReceiver j) (ms_inner st)
      | jobOTP \<Rightarrow> mail_SendOTP (ao_inner a) (jPayload j) (jReceiver j) (ms_inner st)) = (err, m)"
    by fastforce
  then show thesis
    using sent [where i = i and j = j] failed [where i = i and j = j] backoff [where i = i and j = j] w st'
    by (cases err) (auto simp: deliver_attempt_def split: if_splits)
next
  case (MEnqueue j)
  with assms enqueue [of j] show thesis by (auto simp: async_enqueue_def split: if_splits)
next
  case (MReceive i)
  with assms receive [of i] show thesis by (auto split: if_splits list.splits)
next
  case (MTimer i)
  with assms timer [of i] show thesis by (auto split: if_splits worker.splits)
next
  case (MStopSeen i)
  with assms stopped [of i] show thesis by (auto split: if_splits worker.splits)
next
  case (MLeave i)
  with assms leave [of i] show thesis by (auto split: if_splits)
next
  case MStop
  with assms stop show thesis by (auto split: if_splits)
next
  case MClose
  with assms close show thesis by (auto split: if_splits)
qed

lemma step_inv:
  assumes ok: "mailer_ok a" and inv: "mailer_inv a st" and step: "async_step E a ev st = Some st'"
  shows "mailer_inv a st'"
proof -
  have all: "list_all (worker_ok a) (ms_workers st)" using inv by (simp add: mailer_inv_def)
  then have nth: "i < length (ms_workers st) \<Longrightarrow> worker_ok a (ms_workers st ! i)" for i
    by (simp add: list_all_length)
  have gone: "w \<noteq> Exited \<Longrightarrow> Exited \<in> set ((ms_workers st)[i := w]) \<Longrightarrow> ms_closed st \<and> ms_queue st = []" for i w
    using inv mem_update by (metis mailer_inv_def)
  show ?thesis
    using step
  proof (cases rule: async_step_elim)
    case (enqueue j)
    then show ?thesis using inv by (auto simp: mailer_inv_def jobs_kept_def)
  next
    case (receive i j rest)
    with inv ok gone [of "Trying j 1" i] show ?thesis
      by (auto simp: mailer_inv_def jobs_kept_def flight_take [of i _ _ j] worker_ok_def mailer_ok_def intro!: list_all_update)
  next
    case (sent i j n m e)
    with inv gone [of Receiving i] flight_release [of i "ms_workers st" j Receiving] show ?thesis
      by (auto simp: mailer_inv_def jobs_kept_def worker_ok_def intro!: list_all_update)
  next
    case (failed i j m e)
    with inv gone [of Receiving i] flight_release [of i "ms_workers st" j Receiving] show ?thesis
      by (auto simp: mailer_inv_def jobs_kept_def worker_ok_def intro!: list_all_update)
  next
    case (backoff i j n m)
    with inv nth [of i] gone [of "Waiting j n (backoff_wait a n)" i] show ?thesis
      by (auto simp: mailer_inv_def jobs_kept_def flight_same worker_ok_def intro!: list_all_update)
  next
    case (timer i j n d)
    with inv nth [of i] gone [of "Trying j (n + 1)" i] show ?thesis
      by (auto simp: mailer_inv_def jobs_kept_def flight_same worker_ok_def intro!: list_all_update)
  next
    case (stopped i j n d)
    with inv gone [of Receiving i] flight_release [of i "ms_workers st" j Receiving] show ?thesis
      by (auto simp: mailer_inv_def jobs_kept_def worker_ok_def intro!: list_all_update)
  next
    case (leave i)
    with inv show ?thesis
      by (auto simp: mailer_inv_def jobs_kept_def flight_same worker_ok_def intro!: list_all_update)
  qed (use inv in \<open>auto simp: mailer_inv_def jobs_kept_def\<close>)
qed

lemma reach_inv: "async_reach E a st0 st \<Longrightarrow> mailer_ok a \<Longrightarrow> mailer_inv a st0 \<Longrightarrow> mailer_inv a st"
  by (induction rule: async_reach.induct) (auto intro: step_inv)

section \<open>Draining\<close>

text \<open>The number of moves the workers can still make once nothing is enqueued any more.\<close>

definition worker_cost :: "nat \<Rightarrow> worker \<Rightarrow> nat" where
  "worker_cost R w =
     (case w of
        Receiving \<Rightarrow> 1
      | Trying j n \<Rightarrow> 2 * (R - nat n) + 2
      | Waiting j n d \<Rightarrow> 2 * (R - nat n) + 1
      | Exited \<Rightarrow> 0)"

definition moves_left :: "'m AsyncOTPMailer \<Rightarrow> ('m, 'e) mailer_state \<Rightarrow> nat" where
  "moves_left a st =
     2 * nat (ao_retries a) * length (ms_queue st) +
     (\<Sum>w\<in>#mset (ms_workers st). worker_cost (nat (ao_retries a)) w)"

lemma cost_update:
  "i < length ws \<Longrightarrow> (\<Sum>w\<in>#mset (ws[i := x]). worker_cost R w) + worker_cost R (ws ! i) =
     (\<Sum>w\<in>#mset ws. worker_cost R w) + worker_cost R x"
  by (erule update_split) (simp add: ac_simps)

lemma closed_step:
  assumes "mailer_ok a" and inv: "mailer_inv a st" and closed: "ms_closed st" and step: "async_step E a ev st = Some st'"
  shows "ms_closed st' \<and> moves_left a st' < moves_left a st"
proof -
  have nth: "i < length (ms_workers st) \<Longrightarrow> worker_ok a (ms_workers st ! i)" for i
    using inv by (simp add: mailer_inv_def list_all_length)
  have stop: "ms_stop st" using inv closed by (simp add: mailer_inv_def)
  show ?thesis
    using step
  proof (cases rule: async_step_elim)
    case (receive i j rest)
    with assms(1) closed cost_update [of i "ms_workers st" "nat (ao_retries a)" "Trying j 1"] show ?thesis
      by (auto simp: moves_left_def worker_cost_def mailer_ok_def)
  next
    case (sent i j n m e)
    with closed nth [of i] cost_update [of i "ms_workers st" "nat (ao_retries a)" Receiving] show ?thesis
      by (auto simp: moves_left_def worker_cost_def worker_ok_def)
  next
    case (failed i j m e)
    with closed nth [of i] cost_update [of i "ms_workers st" "nat (ao_retries a)" Receiving] show ?thesis
      by (auto simp: moves_left_def worker_cost_def worker_ok_def)
  next
    case (backoff i j n m)
    with closed nth [of i] cost_update [of i "ms_workers st" "nat (ao_retries a)" "Waiting j n (backoff_wait a n)"]
    show ?thesis by (auto simp: moves_left_def worker_cost_def worker_ok_def)
  next
    case (timer i j n d)
    moreover have "nat (ao_retries a) - nat n = Suc (nat (ao_retries a) - nat (n + 1))"
      using timer nth [of i] by (auto simp: worker_ok_def)
    ultimately show ?thesis
      using closed nth [of i] cost_update [of i "ms_workers st" "nat (ao_retries a)" "Trying j (n + 1)"]
      by (auto simp: moves_left_def worker_cost_def worker_ok_def)
  next
    case (stopped i j n d)
    moreover obtain k where "nat (ao_retries a) - nat n = Suc k"
      using stopped nth [of i] by (cases "nat (ao_retries a) - nat n") (auto simp: worker_ok_def)
    ultimately show ?thesis
      using closed nth [of i] cost_update [of i "ms_workers st" "nat (ao_retries a)" Receiving]
      by (auto simp: moves_left_def worker_cost_def worker_ok_def)
  next
    case (leave i)
    with closed cost_update [of i "ms_workers st" "nat (ao_retries a)" Exited] show ?thesis
      by (auto simp: moves_left_def worker_cost_def)
  qed (use closed stop in simp_all)
qed

lemma closed_run:
  assumes "mailer_ok a"
  shows "mailer_inv a st \<Longrightarrow> ms_closed st \<Longrightarrow> async_run E a evs st = Some st' \<Longrightarrow>
    mailer_inv a st' \<and> ms_closed st' \<and> moves_left a st' + length evs \<le> moves_left a st"
proof (induction evs arbitrary: st)
  case (Cons ev evs)
  then obtain st1 where s: "async_step E a ev st = Some st1" "async_run E a evs st1 = Some st'"
    by (auto split: option.splits)
  note c = closed_step [OF assms Cons.prems(1,2) s(1)]
  with Cons.IH [OF step_inv [OF assms Cons.prems(1) s(1)] _ s(2)] show ?case by auto
qed simp

text \<open>While a worker has not returned, an event is possible.\<close>

lemma closed_progress:
  assumes "ms_closed st" and "\<not> shutdown_done st"
  shows "\<exists>ev st'. async_step E a ev st = Some st'"
proof -
  obtain i where i: "i < length (ms_workers st)" "ms_workers st ! i \<noteq> Exited"
    using assms(2) by (auto simp: shutdown_done_def list_all_length)
  show ?thesis
  proof (cases "ms_workers st ! i")
    case Receiving
    show ?thesis
    proof (cases "ms_queue st")
      case Nil
      with Receiving i assms(1) have "async_step E a (MLeave i) st \<noteq> None" by simp
      then show ?thesis by blast
    next
      case (Cons j rest)
      with Receiving i have "async_step E a (MReceive i) st \<noteq> None" by simp
      then show ?thesis by blast
    qed
  next
    case (Trying j n)
    with i have "async_step E a (MAttempt i) st \<noteq> None" by simp
    then show ?thesis by blast
  next
    case (Waiting j n d)
    with i have "async_step E a (MTimer i) st \<noteq> None" by simp
    then show ?thesis by blast
  qed (use i in simp)
qed

lemma done_all_ended:
  assumes inv: "mailer_inv a st" and d: "shutdown_done st" and ok: "mailer_ok a"
  shows "ms_queue st = [] \<and> mset (ms_accepted st) = mset (ms_sent st) + mset (ms_failed st) + mset (ms_dropped st)"
proof -
  have "ms_workers st \<noteq> []" using inv ok by (auto simp: mailer_inv_def mailer_ok_def)
  with d have "Exited \<in> set (ms_workers st)" by (cases "ms_workers st") (auto simp: shutdown_done_def)
  moreover have "in_flight (ms_workers st) = {#}"
    using d unfolding in_flight_def shutdown_done_def by (induction "ms_workers st") (auto simp: list_all_iff)
  ultimately show ?thesis using inv by (auto simp: mailer_inv_def jobs_kept_def)
qed

section \<open>The pause between attempts\<close>

lemma backoff_exact:
  assumes "mailer_ok a" and "1 \<le> n" and "ao_backoff a * 2 ^ nat (n - 1) < 2 ^ 63"
  shows "backoff_wait a n = min (30 * Second) (ao_backoff a * 2 ^ nat (n - 1))"
proof -
  have pos: "0 < ao_backoff a" using assms(1) by (simp add: mailer_ok_def)
  then have "(2::int) ^ nat (n - 1) \<le> ao_backoff a * 2 ^ nat (n - 1)" by (simp add: mult_le_cancel_right)
  from this assms(3) have "(2::int) ^ nat (n - 1) < 2 ^ 63" by (rule order_le_less_trans)
  then have "wrap64 (2 ^ nat (n - 1)) = 2 ^ nat (n - 1)"
    by (intro wrap64_id) (auto simp: in_int64_def intro: order_trans [of _ 0])
  moreover have "wrap64 (ao_backoff a * 2 ^ nat (n - 1)) = ao_backoff a * 2 ^ nat (n - 1)"
    by (rule wrap64_id) (use pos assms(3) in \<open>auto simp: in_int64_def intro: order_trans [of _ 0]\<close>)
  ultimately show ?thesis by (simp add: backoff_wait_def Let_def min_def)
qed

lemma backoff_wrapped:
  assumes "ao_backoff a = Second" and "56 \<le> n"
  shows "backoff_wait a n = 0"
proof -
  let ?k = "nat (n - 1)"
  have k: "?k = nat (n - 56) + 55" using assms(2) by simp
  have zero: "wrap64 (x * 2 ^ 64) = 0" for x
  proof -
    have "take_bit (Suc 63) (x * 2 ^ 64) = take_bit (Suc 63) 0" by (simp add: take_bit_eq_mod)
    then have "signed_take_bit 63 (x * 2 ^ 64) = signed_take_bit 63 0"
      by (simp only: signed_take_bit_eq_iff_take_bit_eq)
    then show ?thesis by (simp add: wrap64_def)
  qed
  have "wrap64 (Second * wrap64 (2 ^ ?k)) = wrap64 (wrap64 Second * wrap64 (2 ^ ?k))"
    by (simp add: wrap64_id in_int64_def Second_def)
  also have "\<dots> = wrap64 (Second * 2 ^ ?k)"
    by (simp only: wrap64_def signed_take_bit_mult)
  also have "Second * 2 ^ ?k = 1953125 * 2 ^ nat (n - 56) * 2 ^ 64"
    by (simp add: k power_add Second_def)
  also have "wrap64 \<dots> = 0" by (rule zero)
  finally show ?thesis by (simp add: backoff_wait_def assms(1) Second_def)
qed

text \<open>Between the first overflow and the attempts whose factor is a multiple of \<open>2 ^ 64\<close>.\<close>

lemma backoff_wrapping:
  assumes "ao_backoff a = Second" and "35 \<le> n" and "n \<le> 55"
  shows "backoff_wait a n < 0 \<or> backoff_wait a n = 30 * Second"
proof -
  have "n \<in> {35, 36, 37, 38, 39, 40, 41, 42, 43, 44, 45, 46, 47, 48, 49, 50, 51, 52, 53, 54, 55}"
    using assms(2,3) by (simp; presburger)
  then show ?thesis
    by (elim insertE emptyE) (simp_all add: backoff_wait_def assms(1) Second_def wrap64_def)
qed

section \<open>Properties\<close>

text \<open>C29: in every state the mailer can reach, each accepted job is in the queue, in the hands of exactly
  one worker, or has ended, and counts once: none is lost or duplicated. The queue never exceeds
  its capacity, no job is attempted more often than configured, and a job ends without success or
  exhausted attempts only after \<^verbatim>\<open>Shutdown\<close> was called.\<close>

theorem mailer_conserves_jobs:
  assumes "NewAsyncOTPMailer inner workers queueSize retries backoff m e = (a, st0)"
    and "async_reach E a st0 st"
  shows "mset (ms_accepted st) = mset (ms_queue st) + (\<Sum>w\<in>#mset (ms_workers st). mset (held w)) +
      mset (ms_sent st) + mset (ms_failed st) + mset (ms_dropped st) \<and>
    int (length (ms_queue st)) \<le> ao_queueSize a \<and>
    (\<forall>j n. Trying j n \<in> set (ms_workers st) \<longrightarrow> 1 \<le> n \<and> n \<le> ao_retries a) \<and>
    (\<not> ms_stop st \<longrightarrow> ms_dropped st = [])"
  using reach_inv [OF assms(2)] new_mailer_ok [OF assms(1)]
  by (fastforce simp: mailer_inv_def jobs_kept_def in_flight_def worker_ok_def list_all_iff)

text \<open>C30: once the queue is closed the workers return: no execution has more events than \<open>moves_left\<close>
  says, whatever the scheduler does and however often the mail server fails; in a state where no
  event is possible every worker has returned, so \<^verbatim>\<open>Shutdown\<close> is done, the queue is empty and
  every accepted job was sent, has failed, or was given up because of the stop.\<close>

theorem shutdown_drains:
  assumes "NewAsyncOTPMailer inner workers queueSize retries backoff m e = (a, st0)"
    and "async_reach E a st0 st" and "ms_closed st" and "async_run E a evs st = Some st'"
  shows "length evs \<le> moves_left a st \<and>
    ((\<forall>ev. async_step E a ev st' = None) \<longrightarrow> shutdown_done st') \<and>
    (shutdown_done st' \<longrightarrow> ms_queue st' = [] \<and>
       mset (ms_accepted st') = mset (ms_sent st') + mset (ms_failed st') + mset (ms_dropped st'))"
proof -
  have ok: "mailer_ok a" and inv: "mailer_inv a st"
    using new_mailer_ok [OF assms(1)] reach_inv [OF assms(2)] by auto
  note run = closed_run [OF ok inv assms(3,4)]
  then have closed: "ms_closed st'" and inv': "mailer_inv a st'" by blast+
  show ?thesis
    using run closed_progress [OF closed, of E a] done_all_ended [OF inv' _ ok]
    by (metis add_leD2 not_None_eq option.distinct(1))
qed

text \<open>C32: the pause after attempt \<open>n\<close> is the configured one doubled \<open>n - 1\<close> times and at most 30
  seconds, as long as the product fits 64 bits. Beyond, the product wraps, which is never longer than
  30 seconds but no longer a pause: with the second that the server configures the pause is right up to
  attempt 34, from attempt 35 on it is not positive unless it is the cap (a timer that is not positive
  fires at once), it is negative after attempt 35, and it is zero from attempt 56 on.\<close>

theorem backoff_bounded_until_overflow:
  assumes "mailer_ok a" and "1 \<le> n"
  shows "(ao_backoff a * 2 ^ nat (n - 1) < 2 ^ 63 \<longrightarrow>
      backoff_wait a n = min (30 * Second) (ao_backoff a * 2 ^ nat (n - 1)) \<and> 0 < backoff_wait a n) \<and>
    backoff_wait a n \<le> 30 * Second \<and>
    (ao_backoff a = Second \<longrightarrow>
      (n \<le> 34 \<longrightarrow> backoff_wait a n = min (30 * Second) (Second * 2 ^ nat (n - 1))) \<and>
      (35 \<le> n \<longrightarrow> backoff_wait a n \<le> 0 \<or> backoff_wait a n = 30 * Second) \<and>
      backoff_wait a 35 < 0 \<and> (56 \<le> n \<longrightarrow> backoff_wait a n = 0))"
proof (intro conjI impI)
  show "backoff_wait a n \<le> 30 * Second" by (simp add: backoff_wait_def Let_def)
next
  assume small: "ao_backoff a * 2 ^ nat (n - 1) < 2 ^ 63"
  show "backoff_wait a n = min (30 * Second) (ao_backoff a * 2 ^ nat (n - 1))" by (rule backoff_exact [OF assms small])
  then show "0 < backoff_wait a n" using assms(1) by (simp add: mailer_ok_def Second_def)
next
  assume sec: "ao_backoff a = Second"
  show "backoff_wait a n = min (30 * Second) (Second * 2 ^ nat (n - 1))" if "n \<le> 34"
  proof -
    have "(2::int) ^ nat (n - 1) \<le> 2 ^ 33" using that by (intro power_increasing) auto
    then have "ao_backoff a * 2 ^ nat (n - 1) < 2 ^ 63" by (simp add: sec Second_def)
    from backoff_exact [OF assms this] show ?thesis by (simp add: sec)
  qed
  show late: "backoff_wait a n = 0" if "56 \<le> n" using backoff_wrapped [OF sec that] .
  show "backoff_wait a n \<le> 0 \<or> backoff_wait a n = 30 * Second" if "35 \<le> n"
    using backoff_wrapping [OF sec that] late by linarith
  show "backoff_wait a 35 < 0" by (simp add: backoff_wait_def sec Second_def wrap64_def)
qed

section \<open>Evaluated runs\<close>

lemma run_reach: "async_reach E a st0 st \<Longrightarrow> async_run E a evs st = Some st' \<Longrightarrow> async_reach E a st0 st'"
  by (induction evs arbitrary: st) (auto split: option.splits intro: async_reach.event)

text \<open>A mail server that fails as scripted, one worker, two attempts.\<close>

definition script_send :: "string \<Rightarrow> string \<Rightarrow> bool list \<Rightarrow> goerr option \<times> bool list" where
  "script_send x r fs = ((if fs \<noteq> [] \<and> hd fs then Some (ErrorString ''dial tcp: timeout'') else None), tl fs)"

definition ref_mailer :: "bool list \<Rightarrow> bool list AsyncOTPMailer \<times> (bool list, ref_world) mailer_state" where
  "ref_mailer fs = NewAsyncOTPMailer \<lparr>mail_SendOTP = script_send, mail_SendPasswordReset = script_send\<rparr> 1 2 2 Second fs ref_e0"

definition ref_job :: "string \<Rightarrow> otpJob" where
  "ref_job x = \<lparr>jKind = jobOTP, jPayload = x, jReceiver = ''ann@x.io''\<rparr>"

definition ref_stopped_run :: "mail_event list" where
  "ref_stopped_run =
     [MEnqueue (ref_job ''1''), MEnqueue (ref_job ''2''), MReceive 0, MAttempt 0, MReceive 0, MAttempt 0, MStop, MClose]"

lemmas ref_mail_defs =
  ref_mailer_def NewAsyncOTPMailer_def ref_stopped_run_def ref_job_def async_enqueue_def deliver_attempt_def
  script_send_def Let_def

lemma ref_first_sent:
  "\<exists>st. async_run ref_env (fst (ref_mailer [False, True])) ref_stopped_run (snd (ref_mailer [False, True])) = Some st \<and>
     ms_closed st \<and> ms_sent st = [ref_job ''1''] \<and> ms_accepted st = [ref_job ''1'', ref_job ''2''] \<and>
     ms_workers st = [Waiting (ref_job ''2'') 1 (backoff_wait (fst (ref_mailer [False, True])) 1)] \<and>
     ms_queue st = [] \<and> ms_stop st \<and> ms_failed st = [] \<and> ms_dropped st = []"
  by (simp add: ref_mail_defs)

theorem mailer_conserves_jobs_witness:
  "\<exists>st. async_reach ref_env (fst (ref_mailer [False, True])) (snd (ref_mailer [False, True])) st \<and>
     mset (ms_accepted st) = (\<Sum>w\<in>#mset (ms_workers st). mset (held w)) + mset (ms_sent st) \<and>
     length (ms_accepted st) = 2"
proof -
  let ?a = "fst (ref_mailer [False, True])" and ?s = "snd (ref_mailer [False, True])"
  obtain st where st: "async_run ref_env ?a ref_stopped_run ?s = Some st" "ms_accepted st = [ref_job ''1'', ref_job ''2'']"
    "ms_queue st = []" "ms_failed st = []" "ms_dropped st = []"
    using ref_first_sent by blast
  note reach = run_reach [OF async_reach.start st(1)]
  from mailer_conserves_jobs [OF _ reach] st reach show ?thesis
    by (metis ref_mailer_def add.right_neutral add_0 length_Cons list.size(3) mset.simps(1) numeral_2_eq_2 prod.collapse)
qed

theorem shutdown_drains_witness:
  "\<exists>st st'. async_reach ref_env (fst (ref_mailer [False, True])) (snd (ref_mailer [False, True])) st \<and> ms_closed st \<and>
     async_run ref_env (fst (ref_mailer [False, True])) [MStopSeen 0, MLeave 0] st = Some st' \<and>
     shutdown_done st' \<and> mset (ms_accepted st') = mset (ms_sent st') + mset (ms_failed st') + mset (ms_dropped st') \<and>
     ms_dropped st' = [ref_job ''2'']"
proof -
  let ?a = "fst (ref_mailer [False, True])" and ?s = "snd (ref_mailer [False, True])"
  obtain st where st: "async_run ref_env ?a ref_stopped_run ?s = Some st" "ms_closed st" "ms_stop st" "ms_queue st = []"
    "ms_workers st = [Waiting (ref_job ''2'') 1 (backoff_wait ?a 1)]" "ms_dropped st = []"
    using ref_first_sent by blast
  note reach = run_reach [OF async_reach.start st(1)]
  obtain st' where st': "async_run ref_env ?a [MStopSeen 0, MLeave 0] st = Some st'" "ms_workers st' = [Exited]"
    "ms_dropped st' = [ref_job ''2'']"
    using st by simp
  have "NewAsyncOTPMailer \<lparr>mail_SendOTP = script_send, mail_SendPasswordReset = script_send\<rparr> 1 2 2 Second [False, True] ref_e0 = (?a, ?s)"
    by (simp add: ref_mailer_def)
  from shutdown_drains [OF this reach st(2) st'(1)] st' have
    "mset (ms_accepted st') = mset (ms_sent st') + mset (ms_failed st') + mset (ms_dropped st')"
    by (simp add: shutdown_done_def)
  moreover have "shutdown_done st'" using st'(2) by (simp add: shutdown_done_def)
  ultimately show ?thesis using reach st(2) st'(1,3) by blast
qed

theorem backoff_bounded_until_overflow_witness:
  "backoff_wait (fst (ref_mailer [])) 3 = 4 * Second \<and> backoff_wait (fst (ref_mailer [])) 35 < 0 \<and>
     backoff_wait (fst (ref_mailer [])) 60 = 0"
proof -
  have a: "mailer_ok (fst (ref_mailer []))" "ao_backoff (fst (ref_mailer [])) = Second"
    by (simp_all add: ref_mailer_def NewAsyncOTPMailer_def mailer_ok_def Second_def)
  show ?thesis
    using backoff_bounded_until_overflow [OF a(1), of 3] backoff_bounded_until_overflow [OF a(1), of 60] a(2)
    by (simp add: Second_def)
qed

end
