(* ===== verification/Mailer_Smtp.thy ===== *)
theory Mailer_Smtp
  imports Usecase_Auth Auth_Password
begin

text \<open>
  \<^verbatim>\<open>pkg/mailer/mailer.otp.go\<close> and \<^verbatim>\<open>templates/otp.html\<close>: the messages the workers send. The dialer of
  the mail package and the calendar year of an instant in the zone of the server are parameters.
  The template is the list of its texts and actions; \<^verbatim>\<open>html/template\<close> escapes what an action
  prints into element content.
\<close>

record otpTemplateData =
  td_AppName :: string
  td_Region :: string
  td_Code :: string
  td_Year :: int
  td_ValidMinutes :: int

definition defaultAppName :: string where
  "defaultAppName = ''Go Rest boilerplate''"

definition defaultRegion :: string where
  "defaultRegion = ''East Java, Indonesia''"

definition defaultValidMinutes :: int where
  "defaultValidMinutes = 5"

section \<open>Escaping\<close>

text \<open>\<^verbatim>\<open>template.HTMLEscapeString\<close>, and the escaper of actions, which also escapes the plus sign.\<close>

definition html_char :: "char \<Rightarrow> string" where
  "html_char c =
     (if c = CHR 0x22 then ''&#34;'' else if c = CHR 0x27 then ''&#39;'' else if c = CHR ''&'' then ''&amp;''
      else if c = CHR ''<'' then ''&lt;'' else if c = CHR ''>'' then ''&gt;''
      else if c = CHR 0x00 then [CHR 0xEF, CHR 0xBF, CHR 0xBD] else [c])"

definition HTMLEscapeString :: "string \<Rightarrow> string" where
  "HTMLEscapeString s = concat (map html_char s)"

definition html_action :: "string \<Rightarrow> string" where
  "html_action s = concat (map (\<lambda>c. if c = CHR ''+'' then ''&#43;'' else html_char c) s)"

section \<open>The template\<close>

datatype tpl_node = TplText string | TplAction "otpTemplateData \<Rightarrow> string"

abbreviation nl :: string where
  "nl \<equiv> [CHR 0x0A]"

definition otpTpl :: "tpl_node list" where
  \<open>otpTpl =
     [TplText (''<div style="font-family: Helvetica,Arial,sans-serif;min-width:1000px;overflow:auto;line-height:2">'' @ nl @
        ''    <div style="margin:50px auto;width:70%;padding:20px 0">'' @ nl @
        ''        <div style="border-bottom:1px solid #eee">'' @ nl @
        ''            <a href="" style="font-size:1.4em;color: #00466a;text-decoration:none;font-weight:600">''),
      TplAction td_AppName,
      TplText (''</a>'' @ nl @ ''        </div>'' @ nl @ ''        <p style="font-size:1.1em">Hi,</p>'' @ nl @
        ''        <p>Thank you for choosing Our Services. Use the following OTP to complete your Sign Up procedures. OTP is valid for ''),
      TplAction (\<lambda>d. Itoa (td_ValidMinutes d)),
      TplText ('' minutes.</p>'' @ nl @
        ''        <h2 style="background: #00466a;margin: 0 auto;width: max-content;padding: 0 10px;color: #fff;border-radius: 4px;">''),
      TplAction td_Code,
      TplText (''</h2>'' @ nl @ ''        <p style="font-size:0.9em;">Regards,<br />''),
      TplAction td_AppName,
      TplText (''</p>'' @ nl @ ''        <hr style="border:none;border-top:1px solid #eee" />'' @ nl @
        ''        <div style="float:right;padding:8px 0;color:#aaa;font-size:0.8em;line-height:1;font-weight:300">'' @ nl @
        ''            <p>Copyright &copy; ''),
      TplAction td_AppName,
      TplText '' '',
      TplAction (\<lambda>d. Itoa (td_Year d)),
      TplText (''</p>'' @ nl @ ''            <p>''),
      TplAction td_Region,
      TplText (''</p>'' @ nl @ ''        </div>'' @ nl @ ''    </div>'' @ nl @ ''</div>'' @ nl)]\<close>

primrec tpl_node_text :: "otpTemplateData \<Rightarrow> tpl_node \<Rightarrow> string" where
  "tpl_node_text d (TplText s) = s"
| "tpl_node_text d (TplAction f) = html_action (f d)"

text \<open>Execution into a buffer: no field of this template can be missing and the buffer takes all
  writes, so it does not fail.\<close>

definition tpl_Execute :: "tpl_node list \<Rightarrow> otpTemplateData \<Rightarrow> goerr + string" where
  "tpl_Execute tpl d = Inr (concat (map (tpl_node_text d) tpl))"

definition renderOTPBody ::
  "'e goenv \<Rightarrow> (time \<Rightarrow> int) \<Rightarrow> string \<Rightarrow> 'e \<Rightarrow> (goerr + string) \<times> 'e" where
  "renderOTPBody E year code e =
     (case time_Now E e of
        (now, e) \<Rightarrow>
          (tpl_Execute otpTpl
             \<lparr>td_AppName = defaultAppName, td_Region = defaultRegion, td_Code = code, td_Year = year now,
              td_ValidMinutes = defaultValidMinutes\<rparr>, e))"

section \<open>The mailer\<close>

record mail_message =
  mg_From :: string
  mg_To :: string
  mg_Subject :: string
  mg_ContentType :: string
  mg_Body :: string

record mail_dialer =
  dl_host :: string
  dl_port :: int
  dl_username :: string
  dl_password :: string
  dl_Timeout :: duration

record otpMailer =
  om_email :: string
  om_password :: string

type_synonym 's DialAndSend = "mail_dialer \<Rightarrow> mail_message \<Rightarrow> 's \<Rightarrow> goerr option \<times> 's"

definition smtp_dialer :: "otpMailer \<Rightarrow> mail_dialer" where
  "smtp_dialer mailer =
     \<lparr>dl_host = ''smtp.gmail.com'', dl_port = 587, dl_username = om_email mailer,
      dl_password = om_password mailer, dl_Timeout = 10 * Second\<rparr>"

definition otp_message :: "otpMailer \<Rightarrow> string \<Rightarrow> string \<Rightarrow> string \<Rightarrow> mail_message" where
  "otp_message mailer receiver subject body =
     \<lparr>mg_From = om_email mailer, mg_To = receiver, mg_Subject = subject, mg_ContentType = ''text/html'', mg_Body = body\<rparr>"

definition smtp_SendOTP ::
  "'e goenv \<Rightarrow> (time \<Rightarrow> int) \<Rightarrow> 's DialAndSend \<Rightarrow> otpMailer \<Rightarrow> string \<Rightarrow> string \<Rightarrow> 's \<times> 'e \<Rightarrow>
   goerr option \<times> ('s \<times> 'e)" where
  "smtp_SendOTP E year dial mailer otpCode receiver se =
     (case renderOTPBody E year otpCode (snd se) of
        (Inl err, e) \<Rightarrow> (Some (errorf_w ''render otp template'' err), (fst se, e))
      | (Inr body, e) \<Rightarrow>
          (case dial (smtp_dialer mailer) (otp_message mailer receiver ''Verification Email'' body) (fst se) of
             (r, s) \<Rightarrow> (r, (s, e))))"

definition reset_body :: "string \<Rightarrow> string" where
  "reset_body token =
     ''<p>Use the following token to reset your password. The token expires in '' @ Itoa defaultValidMinutes @
     '' minutes.</p><p><b>'' @ HTMLEscapeString token @ ''</b></p>''"

definition smtp_SendPasswordReset ::
  "'s DialAndSend \<Rightarrow> otpMailer \<Rightarrow> string \<Rightarrow> string \<Rightarrow> 's \<times> 'e \<Rightarrow> goerr option \<times> ('s \<times> 'e)" where
  "smtp_SendPasswordReset dial mailer token receiver se =
     (case dial (smtp_dialer mailer) (otp_message mailer receiver ''Password Reset'' (reset_body token)) (fst se) of
        (r, s) \<Rightarrow> (r, (s, snd se)))"

definition NewOTPMailer ::
  "'e goenv \<Rightarrow> (time \<Rightarrow> int) \<Rightarrow> 's DialAndSend \<Rightarrow> string \<Rightarrow> string \<Rightarrow> ('s \<times> 'e) OTPMailer" where
  "NewOTPMailer E year dial email password =
     (let mailer = \<lparr>om_email = email, om_password = password\<rparr>
      in \<lparr>mail_SendOTP = smtp_SendOTP E year dial mailer, mail_SendPasswordReset = smtp_SendPasswordReset dial mailer\<rparr>)"

section \<open>What the messages show\<close>

lemma html_char_inert: "x \<in> set (html_char c) \<Longrightarrow> x \<notin> {CHR 0x22, CHR 0x27, CHR ''<'', CHR ''>'', CHR 0x00}"
  by (auto simp: html_char_def split: if_splits)

lemma escape_inert:
  "x \<in> set (HTMLEscapeString s) \<union> set (html_action s) \<Longrightarrow> x \<notin> {CHR 0x22, CHR 0x27, CHR ''<'', CHR ''>'', CHR 0x00}"
  using html_char_inert by (fastforce simp: HTMLEscapeString_def html_action_def split: if_splits)

lemma inert_sets:
  "set (HTMLEscapeString s) \<inter> {CHR 0x22, CHR 0x27, CHR ''<'', CHR ''>'', CHR 0x00} = {}"
  "set (html_action s) \<inter> {CHR 0x22, CHR 0x27, CHR ''<'', CHR ''>'', CHR 0x00} = {}"
  using escape_inert [of _ s] by auto

lemma html_char_plain: "c \<in> set base64url \<Longrightarrow> html_char c = [c] \<and> c \<noteq> CHR ''+''"
  by (auto simp: base64url_def html_char_def)

lemma escape_plain: "set s \<subseteq> set base64url \<Longrightarrow> HTMLEscapeString s = s \<and> html_action s = s"
  by (induction s) (auto simp: HTMLEscapeString_def html_action_def html_char_plain)

text \<open>The rendered body around the code.\<close>

lemma render_split:
  "\<exists>pre post. \<forall>code. renderOTPBody E year code e =
     (Inr (pre @ html_action code @ post), snd (time_Now E e))"
proof -
  define d where "d code = \<lparr>td_AppName = defaultAppName, td_Region = defaultRegion, td_Code = code,
    td_Year = year (fst (time_Now E e)), td_ValidMinutes = defaultValidMinutes\<rparr>" for code
  let ?pre = "concat (map (tpl_node_text (d [])) (take 5 otpTpl))"
  let ?post = "concat (map (tpl_node_text (d [])) (drop 6 otpTpl))"
  have "renderOTPBody E year code e = (Inr (?pre @ html_action code @ ?post), snd (time_Now E e))" for code
    by (cases "time_Now E e") (simp add: renderOTPBody_def tpl_Execute_def otpTpl_def d_def)
  then show ?thesis by blast
qed

lemma RawURLEncoding_alphabet: "\<forall>b\<in>set bs. b < 256 \<Longrightarrow> set (RawURLEncoding bs) \<subseteq> set base64url"
proof -
  have nth: "k < 64 \<Longrightarrow> base64url ! k \<in> set base64url" for k
    by (rule nth_mem) (simp add: base64url_length)
  show "\<forall>b\<in>set bs. b < 256 \<Longrightarrow> set (RawURLEncoding bs) \<subseteq> set base64url"
    by (induction bs rule: RawURLEncoding.induct) (auto intro!: nth simp: sextets_bound)
qed

lemma reset_token_alphabet:
  assumes "generateResetToken E e = (Inr token, e')"
  shows "set token \<subseteq> set base64url"
proof -
  obtain buf :: "8 word list" where "token = RawURLEncoding (map unat buf)"
    using assms by (auto simp: generateResetToken_def split: prod.splits sum.splits)
  moreover have "unat b < 256" for b :: "8 word" using unsigned_less [of b] by simp
  ultimately show ?thesis using RawURLEncoding_alphabet [of "map unat buf"] by simp
qed

lemma digit_alphabet: "is_digit c \<Longrightarrow> c \<in> set base64url"
proof -
  assume "is_digit c"
  then have "byte_val c \<in> set [48..<58]" by (auto simp: is_digit_def simp del: upt_rec_numeral)
  then have "char_of (byte_val c) \<in> set (map char_of [48..<58::nat])" unfolding set_map by (rule imageI)
  moreover have "list_all (\<lambda>c. c \<in> set base64url) (map char_of [48..<58::nat])" by code_simp
  ultimately show "c \<in> set base64url" by (simp only: list_all_iff char_of_byte_val)
qed

lemma digits_alphabet: "list_all is_digit s \<Longrightarrow> set s \<subseteq> set base64url"
  by (auto simp: list_all_iff digit_alphabet)

section \<open>Properties\<close>

text \<open>The mails carry what the flows need: the message with a one-time code goes to the receiver with
  a body that differs between codes only in the escaped code, a code of digits stands in it as it
  is, and so does a generated token in the mail for a reset; and whatever is passed as code or
  token adds no quote, angle bracket or zero byte to the markup.\<close>

lemma mails_show_the_secret:
  "(\<exists>pre post. \<forall>code. \<exists>shown. mail_SendOTP (NewOTPMailer E year dial from pw) code receiver (s, e) =
      (case dial (smtp_dialer \<lparr>om_email = from, om_password = pw\<rparr>)
         \<lparr>mg_From = from, mg_To = receiver, mg_Subject = ''Verification Email'', mg_ContentType = ''text/html'',
          mg_Body = pre @ shown @ post\<rparr> s of (r, s') \<Rightarrow> (r, (s', snd (time_Now E e)))) \<and>
      (list_all is_digit code \<longrightarrow> shown = code) \<and>
      set shown \<inter> {CHR 0x22, CHR 0x27, CHR ''<'', CHR ''>'', CHR 0x00} = {}) \<and>
   (\<exists>pre post. \<forall>token. \<exists>shown. mail_SendPasswordReset (NewOTPMailer E year dial from pw) token receiver (s, e) =
      (case dial (smtp_dialer \<lparr>om_email = from, om_password = pw\<rparr>)
         \<lparr>mg_From = from, mg_To = receiver, mg_Subject = ''Password Reset'', mg_ContentType = ''text/html'',
          mg_Body = pre @ shown @ post\<rparr> s of (r, s') \<Rightarrow> (r, (s', e))) \<and>
      ((\<exists>e1 e2. generateResetToken E e1 = (Inr token, e2)) \<longrightarrow> shown = token) \<and>
      set shown \<inter> {CHR 0x22, CHR 0x27, CHR ''<'', CHR ''>'', CHR 0x00} = {})"
proof (intro conjI)
  let ?bad = "{CHR 0x22, CHR 0x27, CHR ''<'', CHR ''>'', CHR 0x00}" and ?d = "smtp_dialer \<lparr>om_email = from, om_password = pw\<rparr>"
  obtain pre post where r: "\<And>code. renderOTPBody E year code e = (Inr (pre @ html_action code @ post), snd (time_Now E e))"
    using render_split [of E year e] by blast
  have otp: "mail_SendOTP (NewOTPMailer E year dial from pw) code receiver (s, e) =
      (case dial ?d \<lparr>mg_From = from, mg_To = receiver, mg_Subject = ''Verification Email'', mg_ContentType = ''text/html'',
          mg_Body = pre @ html_action code @ post\<rparr> s of (r, s') \<Rightarrow> (r, (s', snd (time_Now E e)))) \<and>
      (list_all is_digit code \<longrightarrow> html_action code = code) \<and> set (html_action code) \<inter> ?bad = {}" for code
    using r [of code] digits_alphabet escape_plain inert_sets(2)
    by (simp add: NewOTPMailer_def smtp_SendOTP_def otp_message_def Let_def)
  show "\<exists>pre post. \<forall>code. \<exists>shown. mail_SendOTP (NewOTPMailer E year dial from pw) code receiver (s, e) =
      (case dial ?d \<lparr>mg_From = from, mg_To = receiver, mg_Subject = ''Verification Email'', mg_ContentType = ''text/html'',
          mg_Body = pre @ shown @ post\<rparr> s of (r, s') \<Rightarrow> (r, (s', snd (time_Now E e)))) \<and>
      (list_all is_digit code \<longrightarrow> shown = code) \<and> set shown \<inter> ?bad = {}"
    by (rule exI [of _ pre], rule exI [of _ post], rule allI, rule exI, rule otp)
  let ?pre = "''<p>Use the following token to reset your password. The token expires in '' @ Itoa defaultValidMinutes @
     '' minutes.</p><p><b>''"
  have same: "generateResetToken E e1 = (Inr token, e2) \<Longrightarrow> HTMLEscapeString token = token" for token e1 e2
    by (rule escape_plain [OF reset_token_alphabet, THEN conjunct1])
  have reset: "mail_SendPasswordReset (NewOTPMailer E year dial from pw) token receiver (s, e) =
      (case dial ?d \<lparr>mg_From = from, mg_To = receiver, mg_Subject = ''Password Reset'', mg_ContentType = ''text/html'',
          mg_Body = ?pre @ HTMLEscapeString token @ ''</b></p>''\<rparr> s of (r, s') \<Rightarrow> (r, (s', e))) \<and>
      ((\<exists>e1 e2. generateResetToken E e1 = (Inr token, e2)) \<longrightarrow> HTMLEscapeString token = token) \<and>
      set (HTMLEscapeString token) \<inter> ?bad = {}" for token
    using same inert_sets(1)
    by (auto simp: NewOTPMailer_def smtp_SendPasswordReset_def otp_message_def reset_body_def Let_def)
  show "\<exists>pre post. \<forall>token. \<exists>shown. mail_SendPasswordReset (NewOTPMailer E year dial from pw) token receiver (s, e) =
      (case dial ?d \<lparr>mg_From = from, mg_To = receiver, mg_Subject = ''Password Reset'', mg_ContentType = ''text/html'',
          mg_Body = pre @ shown @ post\<rparr> s of (r, s') \<Rightarrow> (r, (s', e))) \<and>
      ((\<exists>e1 e2. generateResetToken E e1 = (Inr token, e2)) \<longrightarrow> shown = token) \<and> set shown \<inter> ?bad = {}"
    by (rule exI [of _ ?pre], rule exI [of _ "''</b></p>''"], rule allI, rule exI, rule reset)
qed

end
