(* ===== verification/Startup.thy ===== *)
theory Startup
  imports Routes Tracing Drivers Logger Mailer_Async Mailer_Smtp
begin

text \<open>
  The life of the process \<^verbatim>\<open>cmd/api\<close>: \<^verbatim>\<open>NewApp\<close> and \<^verbatim>\<open>Run\<close> of \<^verbatim>\<open>server/server.go\<close> and the functions of
  \<^verbatim>\<open>main.go\<close>. What \<^verbatim>\<open>NewApp\<close> calls of other packages is a record of functions; \<open>server_parts\<close> is its
  composition of the program's own components, the same record the routes are built from. \<^verbatim>\<open>Run\<close> is
  modelled from the end of the listening on: a failure of the listener or the signal. Calls of the
  logger that end the process are modelled, other log lines of these functions only where they decide
  how the process goes on.
\<close>

section \<open>NewApp\<close>

record http_Server =
  hs_Addr :: string
  hs_ReadHeaderTimeout :: duration
  hs_ReadTimeout :: duration
  hs_WriteTimeout :: duration
  hs_IdleTimeout :: duration
  hs_MaxHeaderBytes :: int

definition server_settings :: "AppConfig \<Rightarrow> http_Server" where
  "server_settings cfg =
     \<lparr>hs_Addr = '':'' @ Itoa (ac_Port cfg), hs_ReadHeaderTimeout = 5 * Second, hs_ReadTimeout = 10 * Second,
      hs_WriteTimeout = 10 * Second, hs_IdleTimeout = 60 * Second, hs_MaxHeaderBytes = push_bit 20 1\<rparr>"

record ('x, 'res, 'h, 'w, 'd, 'k, 'r, 's, 'l, 'e) server_lib =
  sv_quote :: "string \<Rightarrow> string"
  sv_otel :: "('x, 'res) otel_lib"
  sv_driver :: "('h, 'w) sqlx_driver"
  sv_sqlx :: "'h \<Rightarrow> 'd sqlx_DB"
  sv_dbPing :: "'h \<Rightarrow> 'e \<Rightarrow> goerr option \<times> 'e"
  sv_redisClient :: "string \<Rightarrow> string \<Rightarrow> int \<Rightarrow> 'r redis_client"
  sv_redisPing :: "string \<Rightarrow> string \<Rightarrow> int \<Rightarrow> 'e \<Rightarrow> goerr option \<times> 'e"
  sv_ristrNewCache :: "int \<Rightarrow> int \<Rightarrow> int \<Rightarrow> goerr + 'k ristr_Cache"
  sv_golangJWT :: "'e golangJWT"
  sv_year :: "time \<Rightarrow> int"
  sv_DialAndSend :: "'s DialAndSend"
  sv_H :: "'e handler_env"
  sv_rate :: "'l rate_lib"
  sv_fmt :: fmt_lib
  sv_gin :: "'e gin_lib"

text \<open>The global state that the setup changes, and what it returns: an error, a panic (the cross-origin
  middleware refuses its settings in \<^verbatim>\<open>setupRouter\<close>), or the application.\<close>

record ('x, 'res, 'h, 'w) boot_state =
  bs_otel :: "('x, 'res) otel_globals"
  bs_db :: 'w
  bs_provider :: "'h db_provider"

record ('x, 'res, 'h, 'd, 'k, 'r, 's, 'l, 'e) App =
  app_HttpServer :: http_Server
  app_parts :: "('l, ('d, 'k) users_state, 'r, ('s \<times> 'e, 'e) mailer_state, 'e) app_parts"
  app_db :: 'h
  app_asyncMailer :: "('s \<times> 'e) AsyncOTPMailer"
  app_mailerState :: "('s \<times> 'e, 'e) mailer_state"
  app_tracerShutdown :: "('x, 'res) Shutdown"

datatype 'a boot = BootError goerr | BootPanic | Booted 'a

definition server_mailer ::
  "('x, 'res, 'h, 'w, 'd, 'k, 'r, 's, 'l, 'e) server_lib \<Rightarrow> AppConfig \<Rightarrow> 's \<Rightarrow> 'e \<Rightarrow>
   ('s \<times> 'e) AsyncOTPMailer \<times> ('s \<times> 'e, 'e) mailer_state" where
  "server_mailer L cfg s e =
     (let syncMailer = NewOTPMailer (h_env (sv_H L)) (sv_year L) (sv_DialAndSend L) (ac_OTPEmail cfg) (ac_OTPPassword cfg)
      in NewAsyncOTPMailer syncMailer (ac_MailerWorkers cfg) (ac_MailerQueueSize cfg) (ac_MailerRetries cfg) Second (s, e) e)"

definition server_parts ::
  "('x, 'res, 'h, 'w, 'd, 'k, 'r, 's, 'l, 'e) server_lib \<Rightarrow> AppConfig \<Rightarrow> 'h \<Rightarrow> 'k ristr_Cache \<Rightarrow>
   ('s \<times> 'e) AsyncOTPMailer \<Rightarrow> ('l, ('d, 'k) users_state, 'r, ('s \<times> 'e, 'e) mailer_state, 'e) app_parts" where
  "server_parts L cfg conn ristr asyncMailer =
     (let E = h_env (sv_H L);
          jwtService = server_jwt cfg;
          redisCache = NewRedisCache (sv_redisClient L (ac_REDISHost cfg) (ac_REDISPassword cfg) 0) (ac_REDISExpired cfg);
          userRepo = NewUserRepository (sv_sqlx L conn);
          usersUC = users_NewUsecase E userRepo (NewRistrettoCache ristr) (ac_BcryptCost cfg)
      in \<lparr>ap_cfg = cfg, ap_H = sv_H L, ap_users = usersUC, ap_jwt = jwt_dict E (sv_golangJWT L) jwtService,
          ap_mailer = async_OTPMailer asyncMailer, ap_redis = redisCache,
          ap_health = \<lparr>hh_db_Ping = sv_dbPing L conn,
                       hh_redis_Ping = Some (sv_redisPing L (ac_REDISHost cfg) (ac_REDISPassword cfg) 0)\<rparr>,
          ap_rate = sv_rate L, ap_fmt = sv_fmt L\<rparr>)"

definition NewApp ::
  "('x, 'res, 'h, 'w, 'd, 'k, 'r, 's, 'l, 'e) server_lib \<Rightarrow> AppConfig \<Rightarrow> 's \<Rightarrow> 'e \<Rightarrow> ('x, 'res, 'h, 'w) boot_state \<Rightarrow>
   ('x, 'res, 'h, 'd, 'k, 'r, 's, 'l, 'e) App boot \<times> ('x, 'res, 'h, 'w) boot_state" where
  "NewApp L cfg s e b =
     (case SetupTracing (sv_quote L) (sv_otel L) (server_tracing cfg) (bs_otel b) of
        (Inl err, g) \<Rightarrow> (BootError (errorf_w ''setup tracing'' err), b\<lparr>bs_otel := g\<rparr>)
      | (Inr shutdownTracer, g) \<Rightarrow>
          (let b = b\<lparr>bs_otel := g\<rparr> in
           case SetupSQLXPostgres (sv_driver L) cfg (bs_db b) of
             (Inl err, w) \<Rightarrow> (BootError err, b\<lparr>bs_db := w\<rparr>)
           | (Inr conn, w) \<Rightarrow>
               (let b = b\<lparr>bs_db := w\<rparr>;
                    b = b\<lparr>bs_provider := RegisterDBStatsProvider (Some conn) (bs_provider b)\<rparr>
                in case cors_New (sv_gin L) (cors_settings cfg) of
                     None \<Rightarrow> (BootPanic, b)
                   | Some cors \<Rightarrow>
                       (case sv_ristrNewCache L 64 (push_bit 30 1) 10000000 of
                          Inl err \<Rightarrow> (BootError (errorf_w ''failed to create ristretto cache'' err), b)
                        | Inr ristr \<Rightarrow>
                            (case server_mailer L cfg s e of
                               (asyncMailer, st) \<Rightarrow>
                                 (Booted \<lparr>app_HttpServer = server_settings cfg,
                                          app_parts = server_parts L cfg conn ristr asyncMailer, app_db = conn,
                                          app_asyncMailer = asyncMailer, app_mailerState = st,
                                          app_tracerShutdown = shutdownTracer\<rparr>, b))))))"

section \<open>Run\<close>

text \<open>What ends the serving, and the parts that are closed; the limiter, the mailer and the tracer may be
  nil. All the calls get the one context with five seconds, which is among the reasons for which each
  may fail.\<close>

datatype run_event = ListenFailed goerr | SignalReceived

record 'z closers =
  cl_HttpShutdown :: "'z \<Rightarrow> goerr option \<times> 'z"
  cl_limiterStop :: "('z \<Rightarrow> 'z) option"
  cl_mailerShutdown :: "('z \<Rightarrow> goerr option \<times> 'z) option"
  cl_dbClose :: "'z \<Rightarrow> goerr option \<times> 'z"
  cl_redisClose :: "'z \<Rightarrow> goerr option \<times> 'z"
  cl_tracerShutdown :: "('z \<Rightarrow> goerr option \<times> 'z) option"

datatype 'z run_end = RunFatal string 'z | RunReturns "goerr option" "string list" 'z

text \<open>One step whose error is only logged.\<close>

definition close_logged ::
  "string \<Rightarrow> ('z \<Rightarrow> goerr option \<times> 'z) \<Rightarrow> string list \<times> 'z \<Rightarrow> string list \<times> 'z" where
  "close_logged text close lz =
     (case close (snd lz) of
        (Some err, z) \<Rightarrow> (fst lz @ [text @ Error err], z)
      | (None, z) \<Rightarrow> (fst lz, z))"

definition App_Run :: "'z closers \<Rightarrow> run_event \<Rightarrow> 'z \<Rightarrow> 'z run_end" where
  "App_Run a ev z =
     (case ev of
        ListenFailed err \<Rightarrow> RunFatal (''Failed to listen and serve: '' @ Error err) z
      | SignalReceived \<Rightarrow>
          (case cl_HttpShutdown a z of
             (Some err, z) \<Rightarrow> RunReturns (Some (ErrorString (''error when shutdown server: '' @ Error err))) [] z
           | (None, z) \<Rightarrow>
               (let z = (case cl_limiterStop a of None \<Rightarrow> z | Some stop \<Rightarrow> stop z);
                    lz = (case cl_mailerShutdown a of
                            None \<Rightarrow> ([], z)
                          | Some close \<Rightarrow> close_logged ''mailer shutdown incomplete: '' close ([], z));
                    lz = close_logged ''error closing database: '' (cl_dbClose a) lz;
                    lz = close_logged ''error closing redis: '' (cl_redisClose a) lz;
                    lz = (case cl_tracerShutdown a of
                            None \<Rightarrow> lz
                          | Some close \<Rightarrow> close_logged ''tracer shutdown incomplete: '' close lz)
                in RunReturns None (fst lz) (snd lz))))"

text \<open>\<^verbatim>\<open>AsyncOTPMailer.Shutdown\<close> of \<^verbatim>\<open>mailer.async.go\<close>: the two channels are closed once; then the workers
  go on as the schedule says until the last one has left or the context is done.\<close>

definition async_Shutdown ::
  "'e goenv \<Rightarrow> 'm AsyncOTPMailer \<Rightarrow> mail_event list \<Rightarrow> ('m, 'e) mailer_state \<Rightarrow> goerr option \<times> ('m, 'e) mailer_state" where
  "async_Shutdown E a schedule st =
     (let st = (if ms_stop st then st else st\<lparr>ms_stop := True, ms_closed := True\<rparr>)
      in case async_run E a schedule st of
           None \<Rightarrow> (Some (ErrorString ''context deadline exceeded''), st)
         | Some st \<Rightarrow>
             (if shutdown_done st then None else Some (ErrorString ''context deadline exceeded''), st))"

section \<open>main.go\<close>

definition loggerConfig :: "AppConfig \<Rightarrow> logger_Config" where
  "loggerConfig c =
     (let cfg = \<lparr>lc_Level = ''info'', lc_EnableConsole = True, lc_ConsoleJSONFormat = False, lc_EnableFile = False,
                 lc_FileJSONFormat = False, lc_FileLocation = '''', lc_AppName = ''go-rest-boilerplate'',
                 lc_SamplingEnabled = False\<rparr>
      in if ac_Environment c = EnvironmentProduction then cfg\<lparr>lc_ConsoleJSONFormat := True\<rparr>
         else if ac_Debug c then cfg\<lparr>lc_Level := ''debug''\<rparr>
         else cfg)"

text \<open>The process: the logger, \<^verbatim>\<open>config.AppConfig\<close>, the number of threads, and the rest.\<close>

record ('f, 'v, 'w, 'b) process =
  pr_log :: "('f, 'v, 'w) log_state"
  pr_cfg :: AppConfig
  pr_maxprocs :: int
  pr_rest :: 'b

fun log_bind :: "'a log_end \<Rightarrow> ('a \<Rightarrow> 'a log_end) \<Rightarrow> 'a log_end" where
  "log_bind (Returns p) k = k p"
| "log_bind (Exits p) k = Exits p"
| "log_bind (Panics msg p) k = Panics msg p"

fun in_process :: "('f, 'v, 'w, 'b) process \<Rightarrow> ('f, 'v, 'w) log_state log_end \<Rightarrow> ('f, 'v, 'w, 'b) process log_end" where
  "in_process p (Returns s) = Returns (p\<lparr>pr_log := s\<rparr>)"
| "in_process p (Exits s) = Exits (p\<lparr>pr_log := s\<rparr>)"
| "in_process p (Panics msg s) = Panics msg (p\<lparr>pr_log := s\<rparr>)"

definition category :: "string \<Rightarrow> 'v Fields" where
  "category c = [''category'' \<mapsto> GoString c]"

text \<open>A call of the package \<^verbatim>\<open>logger\<close> from a file of the program.\<close>

definition process_log ::
  "string \<Rightarrow> ('f, 'v, 'w) zap_lib \<Rightarrow> 'v map_range \<Rightarrow> zapLevel \<Rightarrow> string \<Rightarrow> string \<Rightarrow> ('f, 'v, 'w, 'b) process \<Rightarrow>
   ('f, 'v, 'w, 'b) process log_end" where
  "process_log place Z ord lvl msg cat p =
     in_process p (logger_log Z ord lvl msg [category cat] [At place] (pr_log p))"

abbreviation main_log ::
  "('f, 'v, 'w) zap_lib \<Rightarrow> 'v map_range \<Rightarrow> zapLevel \<Rightarrow> string \<Rightarrow> string \<Rightarrow> ('f, 'v, 'w, 'b) process \<Rightarrow>
   ('f, 'v, 'w, 'b) process log_end" where
  "main_log \<equiv> process_log ''cmd/api/main.go''"

definition api_init ::
  "config_lib \<Rightarrow> ('f, 'v, 'w) zap_lib \<Rightarrow> 'v map_range \<Rightarrow> ('f, 'v, 'w, 'b) process \<Rightarrow> ('f, 'v, 'w, 'b) process log_end" where
  "api_init X Z ord p =
     (case InitializeAppConfig X (pr_cfg p) of
        (r, c) \<Rightarrow>
          (let p = p\<lparr>pr_cfg := c\<rparr>
           in log_bind
                (case r of
                   Some err \<Rightarrow> main_log Z ord FatalLevel (Error err) ''config'' p
                 | None \<Rightarrow> Returns p)
                (\<lambda>p. let p = p\<lparr>pr_log := snd (InitDefault Z (loggerConfig (pr_cfg p)) InstanceZap (pr_log p))\<rparr>
                     in main_log Z ord InfoLevel ''configuration loaded'' ''config'' p)))"

definition nil_deref :: string where
  "nil_deref = ''invalid memory address or nil pointer dereference''"

text \<open>The end of \<^verbatim>\<open>main\<close>, from the call of \<^verbatim>\<open>server.NewApp\<close> on.\<close>

definition api_serve ::
  "('f, 'v, 'w) zap_lib \<Rightarrow> 'v map_range \<Rightarrow> (AppConfig \<Rightarrow> 'b \<Rightarrow> 'app boot \<times> 'b) \<Rightarrow>
   ('app \<Rightarrow> 'b \<Rightarrow> 'b run_end) \<Rightarrow> ('f, 'v, 'w, 'b) process \<Rightarrow> ('f, 'v, 'w, 'b) process log_end" where
  "api_serve Z ord newApp run p =
     (case newApp (pr_cfg p) (pr_rest p) of
        (BootPanic, b) \<Rightarrow> Panics ''cors'' (p\<lparr>pr_rest := b\<rparr>)
      | (BootError err, b) \<Rightarrow>
          log_bind (main_log Z ord PanicLevel (Error err) ''server'' (p\<lparr>pr_rest := b\<rparr>)) (\<lambda>p. Panics nil_deref p)
      | (Booted app, b) \<Rightarrow>
          (case run app b of
             RunFatal text b \<Rightarrow> Exits (p\<lparr>pr_rest := b\<rparr>)
           | RunReturns None logged b \<Rightarrow> Returns (p\<lparr>pr_rest := b\<rparr>)
           | RunReturns (Some err) logged b \<Rightarrow>
               main_log Z ord FatalLevel (Error err) ''server'' (p\<lparr>pr_rest := b\<rparr>)))"

definition api_main ::
  "('f, 'v, 'w) zap_lib \<Rightarrow> 'v map_range \<Rightarrow> (int \<Rightarrow> 'v) \<Rightarrow> int \<Rightarrow> (AppConfig \<Rightarrow> 'b \<Rightarrow> 'app boot \<times> 'b) \<Rightarrow>
   ('app \<Rightarrow> 'b \<Rightarrow> 'b run_end) \<Rightarrow> ('f, 'v, 'w, 'b) process \<Rightarrow> ('f, 'v, 'w, 'b) process log_end" where
  "api_main Z ord any_int numCPU newApp run p =
     log_bind
       (case logger_WithFields ord (category ''config'') (pr_log p) of
          None \<Rightarrow> Panics nil_deref p
        | Some l \<Rightarrow>
            in_process p (log_keeps (pr_log p)
              (zapLogger_logf Z InfoLevel l ''The project is running on %d CPU(s)'' [GoOther (any_int numCPU)]
                 [At ''cmd/api/main.go''] (ls_out (pr_log p)))))
       (\<lambda>p. let p = (if numCPU > 2 then p\<lparr>pr_maxprocs := numCPU div 2\<rparr> else p)
            in api_serve Z ord newApp run p)"

text \<open>The process: the initialisers of the packages, then \<^verbatim>\<open>main\<close>.\<close>

definition api_process ::
  "config_lib \<Rightarrow> ('f, 'v, 'w) zap_lib \<Rightarrow> 'v map_range \<Rightarrow> (int \<Rightarrow> 'v) \<Rightarrow> int \<Rightarrow>
   (AppConfig \<Rightarrow> 'b \<Rightarrow> 'app boot \<times> 'b) \<Rightarrow> ('app \<Rightarrow> 'b \<Rightarrow> 'b run_end) \<Rightarrow>
   ('f, 'v, 'w, 'b) process \<Rightarrow> ('f, 'v, 'w, 'b) process log_end" where
  "api_process X Z ord any_int numCPU newApp run p =
     (let p = p\<lparr>pr_log := logger_init Z (pr_log p)\<rparr>
      in log_bind (api_init X Z ord p) (api_main Z ord any_int numCPU newApp run))"

section \<open>Log lines that end the process\<close>

lemma in_process_world [simp]: "pr_log (log_world (in_process p r)) = log_world r"
  by (cases r) simp_all

lemma process_log_ends:
  assumes "zap_logging Z lines" and "default_ready (pr_log p)"
  shows "case process_log place Z ord lvl msg cat p of
      Returns p' \<Rightarrow> lvl \<noteq> FatalLevel \<and> lvl \<noteq> PanicLevel \<and> pr_cfg p' = pr_cfg p \<and> pr_rest p' = pr_rest p \<and>
        pr_maxprocs p' = pr_maxprocs p \<and> default_ready (pr_log p')
    | Exits p' \<Rightarrow> lvl = FatalLevel \<and> pr_rest p' = pr_rest p
    | Panics m p' \<Rightarrow> lvl = PanicLevel \<and> m = msg \<and> pr_rest p' = pr_rest p"
proof -
  from assms(2) obtain l where l: "ls_defaultLogger (pr_log p) = Some l"
    by (auto simp: default_ready_def)
  let ?r = "logger_log Z ord lvl msg [category cat] [At place] (pr_log p)"
  have e: "ends_like lvl msg ?r"
    by (rule zap_logging.package_ends [OF assms(1) l])
  have k: "ls_defaultLogger (log_world ?r) = ls_defaultLogger (pr_log p)"
    using l by (simp add: logger_log_def on_default_def)
  show ?thesis
    using e k assms(2) by (cases ?r) (simp_all add: process_log_def default_ready_def)
qed

end
