(* ===== verification/Mailer_Props.thy ===== *)
theory Mailer_Props
  imports Mailer_Async Otp_Props Session_Props
begin

text \<open>
  The one-time code from the request to the mail server: the use case over the asynchronous mailer.
\<close>

lemma reach_trans: "async_reach E a s1 s2 \<Longrightarrow> async_reach E a s0 s1 \<Longrightarrow> async_reach E a s0 s2"
  by (induction rule: async_reach.induct) (auto intro: async_reach.event)

lemma reach_accepted: "async_reach E a st0 st \<Longrightarrow> mset (ms_accepted st0) \<subseteq># mset (ms_accepted st)"
proof (induction rule: async_reach.induct)
  case (event st ev st')
  from event.hyps(2) have "mset (ms_accepted st) \<subseteq># mset (ms_accepted st')" by (cases rule: async_step_elim) auto
  with event.IH show ?case by (rule subset_mset.order_trans)
qed simp

lemma async_send_None:
  assumes "async_SendOTP a code receiver st = (None, st')"
  shows "async_step E a (MEnqueue \<lparr>jKind = jobOTP, jPayload = code, jReceiver = receiver\<rparr>) st = Some st' \<and>
    ms_accepted st' = ms_accepted st @ [\<lparr>jKind = jobOTP, jPayload = code, jReceiver = receiver\<rparr>]"
  using assms by (auto simp: async_SendOTP_def async_enqueue_def enqueue_error_def split: if_splits)

text \<open>C31: when \<^verbatim>\<open>SendOTP\<close> reports success over the asynchronous mailer, it has added one job to the accepted
  ones, with the six-digit code it generated and the normalised address, and when \<^verbatim>\<open>Shutdown\<close> has
  completed, at any later time and after any schedule, every job accepted up to then, that one counted
  beside earlier equal ones, was sent, has failed in all its attempts, or was given up because of
  the stop: none is forgotten in the queue.\<close>

theorem otp_mail_reaches_an_end:
  assumes "auth_flows UC rv dttl E used uv coh ts uid" and "au_mailer UC = async_OTPMailer a"
    and "NewAsyncOTPMailer inner workers queueSize retries backoff m e = (a, st0)"
    and "async_reach E' a st0 (w_mail w)" and "SendOTP E UC em w = Some (None, w')"
    and "async_reach E' a (w_mail w') st" and "shutdown_done st"
  shows "\<exists>user u1 e1 code e2.
    uc_GetByEmail (au_users UC) (NormalizeEmail E em) (w_users w) (w_env w) = (Inr user, u1, e1) \<and>
    GenerateOTPCode E 6 e1 = Some (Inr code, e2) \<and> length code = 6 \<and> list_all is_digit code \<and>
    ms_accepted (w_mail w') = ms_accepted (w_mail w) @ [\<lparr>jKind = jobOTP, jPayload = code, jReceiver = NormalizeEmail E em\<rparr>] \<and>
    mset (ms_accepted (w_mail w')) \<subseteq># mset (ms_sent st) + mset (ms_failed st) + mset (ms_dropped st)"
proof (rule auth_flows.SendOTP_None [OF assms(1,5)])
  fix user u1 e1 code e2 m'
  assume l: "uc_GetByEmail (au_users UC) (NormalizeEmail E em) (w_users w) (w_env w) = (Inr user, u1, e1)"
    and code: "GenerateOTPCode E 6 e1 = Some (Inr code, e2)"
    and m: "mail_SendOTP (au_mailer UC) code (NormalizeEmail E em) (w_mail w) = (None, m')" "w_mail w' = m'"
  let ?j = "\<lparr>jKind = jobOTP, jPayload = code, jReceiver = NormalizeEmail E em\<rparr>"
  have enq: "async_step E' a (MEnqueue ?j) (w_mail w) = Some (w_mail w')" "ms_accepted (w_mail w') = ms_accepted (w_mail w) @ [?j]"
    using async_send_None [of a code "NormalizeEmail E em" "w_mail w" "w_mail w'" E'] m
    by (simp_all add: assms(2) async_OTPMailer_def)
  have "async_reach E' a st0 st"
    using reach_trans [OF assms(6) async_reach.event [OF assms(4) enq(1)]] .
  then have "mailer_inv a st" "mailer_ok a" using new_mailer_ok [OF assms(3)] reach_inv by blast+
  from done_all_ended [OF this(1) assms(7) this(2)] reach_accepted [OF assms(6)]
  have "mset (ms_accepted (w_mail w')) \<subseteq># mset (ms_sent st) + mset (ms_failed st) + mset (ms_dropped st)" by simp
  moreover have "length code = 6 \<and> list_all is_digit code"
    using otp_loop_digits [of E 6 "''''" e1 "(Inr code, e2)"] code by (simp add: GenerateOTPCode_def)
  ultimately show ?thesis using l code enq(2) by blast
qed

section \<open>An evaluated delivery\<close>

definition ref_uc_async ::
  "bool list AsyncOTPMailer \<Rightarrow> (ref_uc_state, ref_redis, (bool list, ref_world) mailer_state, ref_world) auth_usecase" where
  "ref_uc_async a =
     \<lparr>au_users = users_dict ref_env ref_users_uc, au_jwt = jwt_dict ref_env ref_jwtlib ref_jwt,
      au_mailer = async_OTPMailer a, au_redis = NewRedisCache ref_client 5, au_cfg = ref_cfg\<rparr>"

lemma ref_uc_async_sel [simp]:
  "au_users (ref_uc_async a) = users_dict ref_env ref_users_uc" "au_jwt (ref_uc_async a) = jwt_dict ref_env ref_jwtlib ref_jwt"
  "au_mailer (ref_uc_async a) = async_OTPMailer a" "au_redis (ref_uc_async a) = NewRedisCache ref_client 5"
  "au_cfg (ref_uc_async a) = ref_cfg"
  by (simp_all add: ref_uc_async_def)

interpretation ref_async: auth_flows "ref_uc_async a" rr_keys ref_dttl ref_env ref_used ref_uv ref_coh pg_ts "\<lambda>i. i"
  using ref_redis.cache.redis_cache_axioms ref_users.service.users_service_axioms ref_jwt.svc.jwt_service_axioms
    ref_uuid.uuid_lib_axioms
  by (simp add: auth_flows_def)

theorem otp_mail_reaches_an_end_witness:
  "\<exists>w w' st code. SendOTP ref_env (ref_uc_async (fst (ref_mailer []))) ''ann@x.io'' w = Some (None, w') \<and>
     async_reach ref_env (fst (ref_mailer [])) (w_mail w') st \<and> shutdown_done st \<and> length code = 6 \<and>
     \<lparr>jKind = jobOTP, jPayload = code, jReceiver = ''ann@x.io''\<rparr> \<in> set (ms_sent st)"
proof -
  let ?base = "ref_world0 False []" and ?a = "fst (ref_mailer [])" and ?s = "snd (ref_mailer [])"
  let ?w = "\<lparr>w_users = w_users ?base, w_redis = w_redis ?base, w_mail = ?s, w_env = ref_e0\<rparr>"
  obtain u1 e1 code e3 where l: "users_GetByEmail ref_env ref_users_uc ''ann@x.io'' (w_users ?base) ref_e0 =
      (Inr (ref_user False), u1, e1)" and code: "GenerateOTPCode ref_env 6 e1 = Some (Inr code, e3)"
    using ref_otp_code by blast
  let ?j = "\<lparr>jKind = jobOTP, jPayload = code, jReceiver = ''ann@x.io''\<rparr>"
  let ?m = "?s\<lparr>ms_queue := [?j], ms_accepted := [?j]\<rparr>"
  have send: "async_SendOTP ?a code ''ann@x.io'' ?s = (None, ?m)"
    by (simp add: async_SendOTP_def enqueue_error_def ref_mail_defs)
  have "\<exists>w'. SendOTP ref_env (ref_uc_async ?a) ''ann@x.io'' ?w = Some (None, w') \<and> w_mail w' = ?m"
    using l code send
    by (simp add: SendOTP_def on_users_def on_mail_def on_redis_def observe_def Let_def async_OTPMailer_def ref_world0_def)
  then obtain w' where run: "SendOTP ref_env (ref_uc_async ?a) ''ann@x.io'' ?w = Some (None, w')" and m: "w_mail w' = ?m"
    by blast
  have "\<exists>st. async_run ref_env ?a [MReceive 0, MAttempt 0, MStop, MClose, MLeave 0] ?m = Some st \<and>
      shutdown_done st \<and> ms_failed st = [] \<and> ms_dropped st = []"
    by (simp add: ref_mail_defs shutdown_done_def)
  then obtain st where st: "async_run ref_env ?a [MReceive 0, MAttempt 0, MStop, MClose, MLeave 0] ?m = Some st"
    "shutdown_done st" "ms_failed st = []" "ms_dropped st = []" by blast
  have new: "NewAsyncOTPMailer \<lparr>mail_SendOTP = script_send, mail_SendPasswordReset = script_send\<rparr> 1 2 2 Second [] ref_e0 = (?a, ?s)"
    by (simp add: ref_mailer_def)
  have r0: "async_reach ref_env ?a ?s (w_mail ?w)" by (simp add: async_reach.start)
  have r1: "async_reach ref_env ?a (w_mail w') st" using run_reach [OF async_reach.start st(1)] by (simp only: m)
  from otp_mail_reaches_an_end [OF ref_async.auth_flows_axioms ref_uc_async_sel(3) new r0 run r1 st(2)] st(3,4)
  obtain code where "length code = 6"
    and acc: "ms_accepted (w_mail w') = ms_accepted ?s @ [\<lparr>jKind = jobOTP, jPayload = code, jReceiver = ''ann@x.io''\<rparr>]"
    and sub: "mset (ms_accepted (w_mail w')) \<subseteq># mset (ms_sent st)" by auto
  moreover have "\<lparr>jKind = jobOTP, jPayload = code, jReceiver = ''ann@x.io''\<rparr> \<in> set (ms_sent st)"
    using mset_subset_eqD [OF sub] acc by simp
  ultimately have "\<exists>code. length code = 6 \<and> \<lparr>jKind = jobOTP, jPayload = code, jReceiver = ''ann@x.io''\<rparr> \<in> set (ms_sent st)"
    by blast
  with run r1 st(2) show ?thesis by blast
qed

end
