(* ===== verification/Route_Props.thy ===== *)
theory Route_Props
  imports Routes
begin

text \<open>
  The properties of the assembled server: what every response carries, what stands in front of the
  authentication endpoints and of the endpoints that need a caller. The middlewares of other packages
  are held to a contract (\<open>polite\<close>: they leave the request, the answer, the security log and the
  headers already set as they are), and the router of gin to its documented behaviour (\<open>gin_routing\<close>).
\<close>

section \<open>Contracts\<close>

text \<open>The request seen through a middleware, up to a function of its body; the answer; the parts of the
  state that the program's own code changes.\<close>

definition req_upto :: "(body_reader option \<Rightarrow> body_reader option) \<Rightarrow> gin_ctx \<Rightarrow> gin_ctx \<Rightarrow> bool" where
  "req_upto f c c1 \<longleftrightarrow>
     g_method c1 = g_method c \<and> g_path c1 = g_path c \<and> g_fullPath c1 = g_fullPath c \<and>
     g_authorization c1 = g_authorization c \<and> g_body c1 = f (g_body c) \<and> g_clientIP c1 = g_clientIP c \<and>
     g_userAgent c1 = g_userAgent c \<and> g_xRequestID c1 = g_xRequestID c \<and> g_out c1 = g_out c \<and>
     g_audit c1 = g_audit c"

definition same_ans :: "gin_ctx \<Rightarrow> gin_ctx \<Rightarrow> bool" where
  "same_ans c c' \<longleftrightarrow> g_out c' = g_out c \<and> g_audit c' = g_audit c"

definition same_app :: "('l, 'u, 'r, 'm, 'e) app_state \<Rightarrow> ('l, 'u, 'r, 'm, 'e) app_state \<Rightarrow> bool" where
  "same_app s s' \<longleftrightarrow> as_limiter s' = as_limiter s \<and> w_users (as_world s') = w_users (as_world s) \<and>
     w_redis (as_world s') = w_redis (as_world s) \<and> w_mail (as_world s') = w_mail (as_world s)"

definition adds_headers :: "gin_ctx \<Rightarrow> gin_ctx \<Rightarrow> bool" where
  "adds_headers c c' \<longleftrightarrow> g_headers c \<subseteq>\<^sub>m g_headers c' \<and> requestID c' = requestID c"

definition polite :: "'e gin_mw \<Rightarrow> bool" where
  "polite m \<longleftrightarrow>
     (\<forall>c e c' e'. mw_before m c e = (c', e') \<longrightarrow> req_upto (\<lambda>b. b) c c' \<and> adds_headers c c') \<and>
     (\<forall>c e c' e'. mw_after m c e = (c', e') \<longrightarrow> same_ans c c' \<and> adds_headers c c')"

lemma polite_before: "polite m \<Longrightarrow> mw_before m c e = (c', e') \<Longrightarrow> req_upto (\<lambda>b. b) c c' \<and> adds_headers c c'"
  and polite_after: "polite m \<Longrightarrow> mw_after m c e = (c', e') \<Longrightarrow> same_ans c c' \<and> adds_headers c c'"
  unfolding polite_def by blast+

lemmas frame_defs = req_upto_def same_ans_def same_app_def

lemma same_ans_refl [simp]: "same_ans c c" and same_app_refl [simp]: "same_app s s"
  by (simp_all add: frame_defs)

lemma same_ans_trans [trans]: "same_ans a b \<Longrightarrow> same_ans b c \<Longrightarrow> same_ans a c"
  by (simp add: frame_defs)

lemma same_app_trans [trans]: "same_app a b \<Longrightarrow> same_app b c \<Longrightarrow> same_app a c"
  by (simp add: frame_defs)

lemma req_same_ans: "req_upto f c c1 \<Longrightarrow> same_ans c c1"
  by (simp add: frame_defs)

lemma req_comp: "req_upto f a b \<Longrightarrow> req_upto g b c \<Longrightarrow> req_upto (\<lambda>x. g (f x)) a c"
  by (simp add: frame_defs)

section \<open>Middlewares that let a request pass\<close>

text \<open>\<open>passes f m\<close>: \<open>m\<close> stops the request and changes nothing, or enters the rest of the chain with the
  same request, its body seen through \<open>f\<close>, and hands back what the rest answered.\<close>

definition lets ::
  "(body_reader option \<Rightarrow> body_reader option) \<Rightarrow> ('l, 'u, 'r, 'm, 'e) hfun \<Rightarrow>
   gin_ctx \<Rightarrow> ('l, 'u, 'r, 'm, 'e) app_state \<Rightarrow> gin_ctx \<Rightarrow> ('l, 'u, 'r, 'm, 'e) app_state \<Rightarrow> bool" where
  "lets f next c s c' s' \<longleftrightarrow>
     (same_ans c c' \<and> same_app s s') \<or>
     (\<exists>c1 s1 c2 s2. req_upto f c c1 \<and> \<not> g_aborted c1 \<and> same_app s s1 \<and> next c1 s1 = Some (c2, s2) \<and>
        same_ans c2 c' \<and> same_app s2 s')"

definition passes ::
  "(body_reader option \<Rightarrow> body_reader option) \<Rightarrow> ('l, 'u, 'r, 'm, 'e) mw \<Rightarrow> bool" where
  "passes f m \<longleftrightarrow> (\<forall>next c s c' s'. m next c s = Some (c', s') \<longrightarrow> lets f next c s c' s')"

lemma lets_stop: "same_ans c c' \<Longrightarrow> same_app s s' \<Longrightarrow> lets f next c s c' s'"
  by (simp add: lets_def)

lemma lets_enter:
  "req_upto f c c1 \<Longrightarrow> \<not> g_aborted c1 \<Longrightarrow> same_app s s1 \<Longrightarrow> next c1 s1 = Some (c2, s2) \<Longrightarrow> same_ans c2 c' \<Longrightarrow> same_app s2 s' \<Longrightarrow>
   lets f next c s c' s'"
  unfolding lets_def by blast

lemma lets_cases:
  assumes "lets f next c s c' s'"
  obtains (stopped) "same_ans c c'" "same_app s s'"
  | (entered) c1 s1 c2 s2 where "req_upto f c c1" "\<not> g_aborted c1" "same_app s s1" "next c1 s1 = Some (c2, s2)"
    "same_ans c2 c'" "same_app s2 s'"
  using assms unfolding lets_def by blast

lemma passesI: "(\<And>next c s c' s'. m next c s = Some (c', s') \<Longrightarrow> lets f next c s c' s') \<Longrightarrow> passes f m"
  and passesD: "passes f m \<Longrightarrow> m next c s = Some (c', s') \<Longrightarrow> lets f next c s c' s'"
  unfolding passes_def by blast+

text \<open>Around \<^verbatim>\<open>Next\<close>: a context and state that continue the request, and an end that hands back the answer.\<close>

lemma lets_Next:
  assumes "gin_Next next c1 s1 = Some (c2, s2)" and "req_upto f c c1" and "same_app s s1"
    and "same_ans c2 c'" and "same_app s2 s'"
  shows "lets f next c s c' s'"
proof (cases "g_aborted c1")
  case True
  with assms have "c2 = c1" "s2 = s1" by (simp_all add: gin_Next_def)
  with assms show ?thesis
    by (intro lets_stop) (auto intro: same_ans_trans same_app_trans req_same_ans)
next
  case False
  with assms show ?thesis by (intro lets_enter [of f c c1 s s1]) (simp_all add: gin_Next_def)
qed

lemma passes_comp:
  assumes m: "passes f m" and n: "passes g n"
  shows "passes (\<lambda>b. g (f b)) (\<lambda>next. m (n next))"
proof (rule passesI)
  fix "next" c s c' s' assume "m (n next) c s = Some (c', s')"
  from passesD [OF m this] show "lets (\<lambda>b. g (f b)) next c s c' s'"
  proof (cases rule: lets_cases)
    case out: (entered c1 s1 c2 s2)
    from passesD [OF n out(4)] show ?thesis
    proof (cases rule: lets_cases)
      case stopped
      with out show ?thesis by (intro lets_stop) (auto intro: same_ans_trans same_app_trans req_same_ans)
    next
      case (entered c3 s3 c4 s4)
      with out show ?thesis
        by (intro lets_enter [of _ c c3 s s3 "next" c4 s4]) (auto intro: same_ans_trans same_app_trans req_comp)
    qed
  qed (rule lets_stop)
qed

lemma passes_then_Next:
  assumes "\<And>c s. \<exists>c1 s1. h c s = Some (c1, s1) \<and> req_upto f c c1 \<and> same_app s s1"
  shows "passes f (then_Next h)"
proof (rule passesI)
  fix "next" c s c' s' assume run: "then_Next h next c s = Some (c', s')"
  obtain c1 s1 where h: "h c s = Some (c1, s1)" "req_upto f c c1" "same_app s s1" using assms by blast
  with run have "gin_Next next c1 s1 = Some (c', s')" by (simp add: then_Next_def)
  then show "lets f next c s c' s'" using h(2,3) by (rule lets_Next) simp_all
qed

lemma third_party_passes:
  assumes "polite m"
  shows "passes (\<lambda>b. b) (third_party m)"
proof (rule passesI)
  fix "next" c s c' s' assume run: "third_party m next c s = Some (c', s')"
  obtain c1 e1 where b: "mw_before m c (w_env (as_world s)) = (c1, e1)" by fastforce
  let ?s1 = "s\<lparr>as_world := (as_world s)\<lparr>w_env := e1\<rparr>\<rparr>"
  obtain c2 s2 e2 where n: "gin_Next next c1 ?s1 = Some (c2, s2)"
    and a: "mw_after m c2 (w_env (as_world s2)) = (c', e2)" "s' = s2\<lparr>as_world := (as_world s2)\<lparr>w_env := e2\<rparr>\<rparr>"
    using run b by (auto simp: third_party_def of_env_def split: option.splits prod.splits)
  have "req_upto (\<lambda>b. b) c c1" "same_ans c2 c'" using assms b a(1) unfolding polite_def by blast+
  then show "lets (\<lambda>b. b) next c s c' s'" by (intro lets_Next [OF n]) (simp_all add: same_app_def a(2))
qed

lemma RequestID_passes: "passes (\<lambda>b. b) (RequestIDMiddleware E)"
  unfolding RequestIDMiddleware_def
  by (rule passes_then_Next)
     (simp add: of_env_def RequestID_pick_def gin_Set_def gin_SetHeader_def Let_def frame_defs split: prod.splits option.splits)

lemma Security_passes: "passes (\<lambda>b. b) (SecurityHeadersMiddleware cfg)"
  unfolding SecurityHeadersMiddleware_def Let_def
  by (rule passes_then_Next)
     (simp add: of_ctx_def security_headers_def gin_SetHeader_def Let_def frame_defs)

lemma BodySize_passes:
  "passes (map_option (\<lambda>r. http_MaxBytesReader r n)) (BodySizeLimitMiddleware n)"
  unfolding BodySizeLimitMiddleware_def
  by (rule passes_then_Next) (simp add: of_ctx_def limit_body_def frame_defs split: option.splits)

lemma Metrics_passes: "passes (\<lambda>b. b) (MetricsMiddleware E)"
proof (rule passesI)
  fix "next" c s c' s' assume run: "MetricsMiddleware E next c s = Some (c', s')"
  obtain t e where t: "time_Now E (w_env (as_world s)) = (t, e)" by fastforce
  let ?s1 = "s\<lparr>as_world := (as_world s)\<lparr>w_env := e\<rparr>\<rparr>"
  from run t obtain s2 where "gin_Next next c ?s1 = Some (c', s2)" "same_app s2 s'"
    by (auto simp: MetricsMiddleware_def Let_def same_app_def split: option.splits prod.splits)
  then show "lets (\<lambda>b. b) next c s c' s'" by (intro lets_Next [of "next" c ?s1 c' s2]) (simp_all add: frame_defs)
qed


section \<open>The routes\<close>

text \<open>Gin's router: a plain path is joined by concatenation, a match is one of the registered patterns of
  the method, and a pattern without wildcards matches itself.\<close>

fun plain_path :: "string \<Rightarrow> bool" where
  "plain_path [] = True"
| "plain_path (c # cs) = (c \<noteq> CHR ''.'' \<and> \<not> (c = CHR ''/'' \<and> cs \<noteq> [] \<and> hd cs = CHR ''/'') \<and> plain_path cs)"

locale gin_routing =
  fixes G :: "'e gin_lib"
  assumes join_root: "plain_path r \<Longrightarrow> gin_joinPaths G ''/'' (CHR ''/'' # r) = CHR ''/'' # r"
    and join_bare: "plain_path r \<Longrightarrow> r \<noteq> '''' \<Longrightarrow> hd r \<noteq> CHR ''/'' \<Longrightarrow> gin_joinPaths G ''/'' r = CHR ''/'' # r"
    and join_append: "plain_path (b @ CHR ''/'' # r) \<Longrightarrow> b \<noteq> '''' \<Longrightarrow> hd b = CHR ''/'' \<Longrightarrow>
      last b \<noteq> CHR ''/'' \<Longrightarrow> gin_joinPaths G b (CHR ''/'' # r) = b @ CHR ''/'' # r"
    and find_registered: "gin_find G rs m p = Some q \<Longrightarrow> (m, q) \<in> set rs"
    and find_static: "(m, p) \<in> set rs \<Longrightarrow> CHR ''*'' \<notin> set p \<Longrightarrow> CHR '':'' \<notin> set p \<Longrightarrow> gin_find G rs m p = Some p"

lemma chain_Cons: "chain (m # ms) = m (chain ms)"
  by (intro ext) simp

lemma setupRouter_shape:
  assumes "setupRouter G A = Some router"
  obtains cors where "cors_New G (cors_settings (ap_cfg A)) = Some cors"
    "router = \<lparr>rg_basePath = ''/'', rg_handlers =
       [third_party (otelgin_Middleware G ''go-rest-boilerplate''), RequestIDMiddleware (h_env (ap_H A)),
        MetricsMiddleware (h_env (ap_H A)), SecurityHeadersMiddleware (ap_cfg A), third_party cors,
        BodySizeLimitMiddleware DefaultBodyMaxBytes,
        third_party (gin_LoggerWithFormatter G (AccessLogFormatter (ap_fmt A))), third_party (gin_Recovery G)]\<rparr>"
  using assms by (auto simp: setupRouter_def gin_Use_def Let_def split: option.splits)

text \<open>All the middlewares of other packages that the server uses are polite.\<close>

definition polite_stack :: "'e gin_lib \<Rightarrow> AppConfig \<Rightarrow> bool" where
  "polite_stack G cfg \<longleftrightarrow> (\<forall>name. polite (otelgin_Middleware G name)) \<and>
     (\<forall>cors. cors_New G (cors_settings cfg) = Some cors \<longrightarrow> polite cors) \<and>
     (\<forall>f. polite (gin_LoggerWithFormatter G f)) \<and> polite (gin_Recovery G)"

text \<open>The handlers of other packages keep the headers and write no response of this program; the tracer
  does not stop a request.\<close>

definition polite_handlers :: "'e gin_lib \<Rightarrow> bool" where
  "polite_handlers G \<longleftrightarrow>
     (\<forall>h\<in>{promhttp_Handler G, ginSwagger_Handler G, gin_serveError G}. \<forall>c e c' e'. h c e = (c', e') \<longrightarrow>
        adds_headers c c' \<and> g_out c' = g_out c) \<and>
     (\<forall>name c e c' e'. mw_before (otelgin_Middleware G name) c e = (c', e') \<longrightarrow> g_aborted c' = g_aborted c)"

abbreviation first_limit :: "body_reader option \<Rightarrow> body_reader option" where
  "first_limit \<equiv> map_option (\<lambda>r. http_MaxBytesReader r DefaultBodyMaxBytes)"

lemma router_lets:
  assumes set: "setupRouter G A = Some router" and pol: "polite_stack G (ap_cfg A)"
    and run: "chain (rg_handlers router @ hs) c s = Some (c', s')"
  shows "lets first_limit (chain hs) c s c' s'"
proof -
  obtain cors where cors: "cors_New G (cors_settings (ap_cfg A)) = Some cors"
    and r: "rg_handlers router =
       [third_party (otelgin_Middleware G ''go-rest-boilerplate''), RequestIDMiddleware (h_env (ap_H A)),
        MetricsMiddleware (h_env (ap_H A)), SecurityHeadersMiddleware (ap_cfg A), third_party cors,
        BodySizeLimitMiddleware DefaultBodyMaxBytes,
        third_party (gin_LoggerWithFormatter G (AccessLogFormatter (ap_fmt A))), third_party (gin_Recovery G)]"
    using setupRouter_shape [OF set] by (metis RouterGroup.select_convs(2))
  have tp: "polite (otelgin_Middleware G ''go-rest-boilerplate'')" "polite cors" "polite (gin_Recovery G)"
    "polite (gin_LoggerWithFormatter G (AccessLogFormatter (ap_fmt A)))"
    using pol cors by (auto simp: polite_stack_def)
  note inner = passes_comp [OF BodySize_passes passes_comp [OF third_party_passes [OF tp(4)] third_party_passes [OF tp(3)]]]
  note mid = passes_comp [OF Metrics_passes passes_comp [OF Security_passes passes_comp [OF third_party_passes [OF tp(2)] inner]]]
  note all = passes_comp [OF third_party_passes [OF tp(1)] passes_comp [OF RequestID_passes mid]]
  from passesD [OF all] show ?thesis using run unfolding r by (simp add: chain_Cons)
qed

lemma then_last: "chain [then_Next h] c s = h c s"
  by (auto simp: then_Next_def gin_Next_def split: option.splits)


text \<open>What stands behind the limiter and the body limit at each authentication route.\<close>

definition auth_endpoints ::
  "('l, 'u, 'r, 'm, 'e) app_parts \<Rightarrow> ('l, 'u, 'r, 'm, 'e) route_table" where
  "auth_endpoints A =
     (let H = ap_H A; uc = auth_NewUsecase (h_env (ap_H A)) (app_auth A) in
      [((''POST'', ''/api/v1/auth/register''), [then_Next (of_world (Handler_Register H uc))]),
       ((''POST'', ''/api/v1/auth/login''), [then_Next (of_world (Handler_Login H uc))]),
       ((''POST'', ''/api/v1/auth/send-otp''), [then_Next (of_partial (Handler_SendOTP H uc))]),
       ((''POST'', ''/api/v1/auth/verify-otp''), [then_Next (of_world (Handler_VerifyOTP H uc))]),
       ((''POST'', ''/api/v1/auth/refresh''), [then_Next (of_world (Handler_Refresh H uc))]),
       ((''POST'', ''/api/v1/auth/logout''), [then_Next (of_world (Handler_Logout H uc))]),
       ((''POST'', ''/api/v1/auth/password/forgot''), [then_Next (of_world (Handler_ForgotPassword H uc))]),
       ((''POST'', ''/api/v1/auth/password/reset''), [then_Next (of_world (Handler_ResetPassword H uc))]),
       ((''PUT'', ''/api/v1/auth/password/change''),
        [auth_mw (ap_jwt A) (ap_redis A) False, then_Next (of_world (Handler_ChangePassword H uc))])])"

definition auth_guards :: "('l, 'u, 'r, 'm, 'e) app_parts \<Rightarrow> ('l, 'u, 'r, 'm, 'e) mw list" where
  "auth_guards A = [rate_limit_mw (ap_rate A) (h_env (ap_H A)), BodySizeLimitMiddleware AuthBodyMaxBytes]"

context gin_routing
begin

lemma app_routes_eq:
  assumes "setupRouter G A = Some router"
  shows "app_routes G A router =
    [((''GET'', ''/health''), rg_handlers router @ [then_Next (of_ctx Health)]),
     ((''GET'', ''/ready''), rg_handlers router @ [then_Next (of_env (Ready (ap_health A)))]),
     ((''GET'', ''/metrics''), rg_handlers router @ [then_Next (of_env (promhttp_Handler G))]),
     ((''GET'', ''/swagger/*any''), rg_handlers router @ [then_Next (of_env (ginSwagger_Handler G))]),
     ((''GET'', ''/api/''), rg_handlers router @ [then_Next (of_ctx RootHandler)])] @
    map (\<lambda>(k, hs). (k, rg_handlers router @ auth_guards A @ hs)) (auth_endpoints A) @
    [((''GET'', ''/api/v1/users/me''), rg_handlers router @ [auth_mw (ap_jwt A) (ap_redis A) False,
        then_Next (of_world (GetUserData (ap_users A)))])]"
proof -
  have base: "rg_basePath router = ''/''" using setupRouter_shape [OF assms] by (metis RouterGroup.select_convs(1))
  show ?thesis
    by (simp add: app_routes_def authRoute_Routes_def usersRoute_Routes_def gin_Handle_def gin_Group_def gin_Use_def
        base join_root join_bare join_append auth_endpoints_def auth_guards_def Let_def)
qed

lemma routes_distinct: "setupRouter G A = Some router \<Longrightarrow> distinct (map fst (app_routes G A router))"
  by (simp add: app_routes_eq auth_endpoints_def Let_def)

end

section \<open>The limiter at the authentication routes\<close>

lemma admit_shape:
  assumes "rl_admit L E c rl e = (ok, c', rl', e')"
  shows "g_audit c' = g_audit c \<and> (if ok then req_upto (\<lambda>b. b) c c' \<and> g_aborted c' = g_aborted c
    else g_aborted c' \<and> (\<exists>body. g_out c' = g_out c @ [(429, body)] \<and> \<not> rStatus body))"
  using assms
  by (auto simp: rl_admit_def writeRateLimitHeaders_def gin_SetHeader_def gin_AbortWithStatusJSON_def gin_JSON_def
      rateLimitedResponse_def frame_defs Let_def split: prod.splits if_splits)

lemma guards_cases:
  assumes run: "chain (auth_guards A @ es) c s = Some (c', s')" and live: "\<not> g_aborted c"
  obtains (limited) rl e2 where
    "rl_admit (ap_rate A) (h_env (ap_H A)) c (as_limiter s) (w_env (as_world s)) = (False, c', rl, e2)"
    "s' = s\<lparr>as_limiter := rl, as_world := (as_world s)\<lparr>w_env := e2\<rparr>\<rparr>"
  | (admitted) c2 rl e2 where
    "rl_admit (ap_rate A) (h_env (ap_H A)) c (as_limiter s) (w_env (as_world s)) = (True, c2, rl, e2)"
    "chain es (limit_body AuthBodyMaxBytes c2) (s\<lparr>as_limiter := rl, as_world := (as_world s)\<lparr>w_env := e2\<rparr>\<rparr>) =
       Some (c', s')"
proof -
  obtain ok c2 rl e2 where
    a: "rl_admit (ap_rate A) (h_env (ap_H A)) c (as_limiter s) (w_env (as_world s)) = (ok, c2, rl, e2)"
    by (metis prod_cases4)
  let ?s = "s\<lparr>as_limiter := rl, as_world := (as_world s)\<lparr>w_env := e2\<rparr>\<rparr>"
  have b: "g_aborted c2 = (\<not> ok)" using admit_shape [OF a] live by (auto split: if_splits)
  have n: "gin_Next (chain (BodySizeLimitMiddleware AuthBodyMaxBytes # es)) c2 ?s = Some (c', s')"
    using run a by (simp add: auth_guards_def rate_limit_mw_def then_Next_def rl_Middleware_def split: bool.splits)
  show thesis
  proof (cases ok)
    case True
    moreover have "g_aborted (limit_body AuthBodyMaxBytes c2) = g_aborted c2"
      by (simp add: limit_body_def split: option.splits)
    ultimately show thesis
      using admitted [of c2 rl e2] a b n
      by (simp add: gin_Next_def BodySizeLimitMiddleware_def then_Next_def of_ctx_def)
  next
    case False
    with limited a b n show thesis by (simp add: gin_Next_def)
  qed
qed


lemma MaxBytes_twice:
  "0 \<le> m \<Longrightarrow> m \<le> n \<Longrightarrow> http_MaxBytesReader (http_MaxBytesReader r n) m = http_MaxBytesReader r m"
  by (auto simp: http_MaxBytesReader_def min_def)

abbreviation auth_limit :: "body_reader option \<Rightarrow> body_reader option" where
  "auth_limit \<equiv> map_option (\<lambda>r. http_MaxBytesReader r AuthBodyMaxBytes)"

lemma limits_narrow: "auth_limit (first_limit b) = auth_limit b"
  by (cases b) (simp_all add: MaxBytes_twice AuthBodyMaxBytes_def DefaultBodyMaxBytes_def)

lemma limit_body_req: "req_upto (\<lambda>b. b) c c1 \<Longrightarrow> req_upto auth_limit c (limit_body AuthBodyMaxBytes c1)"
  by (auto simp: req_upto_def limit_body_def split: option.splits)

text \<open>The gate and a handler at the end of a chain are the gate around the handler.\<close>

lemma Handle_uniform:
  "(\<exists>msg w1. \<forall>next. AuthMiddleware_Handle m next c w = (NewAbortResponse c msg, w1)) \<or>
   (\<exists>v w1. \<forall>next. AuthMiddleware_Handle m next c w = next (gin_Set c CtxAuthenticatedUserKey v) w1)"
proof (cases "\<exists>tok. g_authorization c \<noteq> '''' \<and> strings_Split (g_authorization c) (CHR '' '') = [''Bearer'', tok]")
  case True
  then obtain tok where h: "g_authorization c \<noteq> ''''" "strings_Split (g_authorization c) (CHR '' '') = [''Bearer'', tok]"
    by blast
  obtain q w1 where p: "on_env (svc_ParseToken (am_jwtService m) tok) w = (q, w1)" by fastforce
  show ?thesis
  proof (cases q)
    case (Inl err)
    with h p show ?thesis by (auto simp: AuthMiddleware_Handle_def)
  next
    case (Inr user)
    obtain b w2 where "cutoff_revokes m user w1 = (b, w2)" by fastforce
    with h p Inr have "AuthMiddleware_Handle m next c w =
        (if b then (NewAbortResponse c ''token has been revoked'', w2)
         else if cIsAdmin user \<noteq> am_isAdmin m \<and> \<not> cIsAdmin user
         then (NewAbortResponse c ''you don't have access for this action'', w2)
         else next (gin_Set c CtxAuthenticatedUserKey (CtxClaims user)) w2)" for "next"
      by (simp add: AuthMiddleware_Handle_def)
    then show ?thesis
      by (cases b; cases "cIsAdmin user \<noteq> am_isAdmin m \<and> \<not> cIsAdmin user") (simp_all, blast+)
  qed
next
  case False
  have bad: "AuthMiddleware_Handle m next c w = (NewAbortResponse c ''invalid header format'', w)"
    if "g_authorization c \<noteq> ''''" "\<nexists>a b. strings_Split (g_authorization c) (CHR '' '') = [a, b]" for "next"
    using that by (auto simp: AuthMiddleware_Handle_def split: list.split)
  show ?thesis
  proof (cases "g_authorization c = '''' \<or> (\<nexists>a b. strings_Split (g_authorization c) (CHR '' '') = [a, b])")
    case True
    with bad show ?thesis by (cases "g_authorization c = ''''") (simp add: AuthMiddleware_Handle_def, blast+)
  next
    case two: False
    with False show ?thesis by (auto simp: AuthMiddleware_Handle_def)
  qed
qed

lemma gated_chain:
  assumes "\<not> g_aborted c"
  shows "chain [auth_mw J R adm, then_Next (of_world h)] c s =
    (case NewAuthMiddleware J R adm h c (as_world s) of (c', w') \<Rightarrow> Some (c', s\<lparr>as_world := w'\<rparr>))"
proof -
  have ab: "g_aborted (NewAbortResponse c m)" for m
    by (simp add: NewAbortResponse_def gin_AbortWithStatusJSON_def)
  have pass: "g_aborted (gin_Set c k v) = False" for k v using assms by (simp add: gin_Set_def)
  show ?thesis
    using Handle_uniform [of "\<lparr>am_jwtService = J, am_redisCache = Some R, am_isAdmin = adm\<rparr>" c "as_world s"]
    by (auto simp: auth_mw_def then_Next_def of_world_def gin_Next_def NewAuthMiddleware_def ab pass split: prod.splits)
qed

lemma endpoint_limiter:
  assumes "(k, es) \<in> set (auth_endpoints A)" and "chain es c s = Some (c', s')" and "\<not> g_aborted c"
  shows "as_limiter s' = as_limiter s"
proof -
  have w: "as_limiter s' = as_limiter s" if "of_world h c s = Some (c', s')" for h
    using that by (auto simp: of_world_def split: prod.splits)
  have p: "as_limiter s' = as_limiter s" if "of_partial h c s = Some (c', s')" for h
    using that by (auto simp: of_partial_def split: option.splits)
  have a: "as_limiter s' = as_limiter s" if "chain [auth_mw J R adm, then_Next (of_world h)] c s = Some (c', s')" for J R adm h
    using that unfolding gated_chain [OF assms(3)] by (auto split: prod.splits)
  show ?thesis
    using assms(1,2) a w p unfolding auth_endpoints_def Let_def by (auto simp only: then_last list.set insert_iff prod.inject empty_iff)
qed

context gin_routing
begin

lemma auth_lookup:
  assumes "setupRouter G A = Some router" and "gin_find G (map fst (app_routes G A router)) m p = Some pat"
    and "starts_with ''/api/v1/auth/'' pat"
  shows "\<exists>es. ((m, pat), es) \<in> set (auth_endpoints A) \<and>
    map_of (app_routes G A router) (m, pat) = Some (rg_handlers router @ auth_guards A @ es)"
proof -
  have "(m, pat) \<in> fst ` set (app_routes G A router)" using find_registered [OF assms(2)] by simp
  then obtain es where es: "((m, pat), es) \<in> set (auth_endpoints A)"
    using assms(3) unfolding app_routes_eq [OF assms(1)] by (auto simp: starts_with_iff)
  have "((m, pat), rg_handlers router @ auth_guards A @ es) \<in> set (app_routes G A router)"
    using imageI [OF es, of "\<lambda>(k, hs). (k, rg_handlers router @ auth_guards A @ hs)"]
    unfolding app_routes_eq [OF assms(1)] by simp
  with es routes_distinct [OF assms(1)] show ?thesis by auto
qed

lemma serve_auth:
  assumes pol: "polite_stack G (ap_cfg A)" and set: "setupRouter G A = Some router"
    and pat: "gin_find G (map fst (app_routes G A router)) (g_method c) (g_path c) = Some pat"
      "starts_with ''/api/v1/auth/'' pat"
    and run: "app_serve G A c s = Some (c', s')"
  shows "(same_ans c c' \<and> same_app s s') \<or>
    (\<exists>c1 e1 ok c2 rl e2. g_clientIP c1 = g_clientIP c \<and>
       rl_admit (ap_rate A) (h_env (ap_H A)) c1 (as_limiter s) e1 = (ok, c2, rl, e2) \<and> as_limiter s' = rl \<and>
       (if ok then \<exists>es c3 s3 c4 s4. ((g_method c, pat), es) \<in> set (auth_endpoints A) \<and>
            req_upto auth_limit (c\<lparr>g_fullPath := pat\<rparr>) c3 \<and> \<not> g_aborted c3 \<and> same_app (s\<lparr>as_limiter := rl\<rparr>) s3 \<and>
            chain es c3 s3 = Some (c4, s4) \<and> same_ans c4 c' \<and> same_app s4 s'
        else (\<exists>body. g_out c' = g_out c @ [(429, body)] \<and> \<not> rStatus body) \<and> g_audit c' = g_audit c \<and>
          same_app (s\<lparr>as_limiter := rl\<rparr>) s'))"
proof -
  obtain es where es: "((g_method c, pat), es) \<in> set (auth_endpoints A)"
    and hs: "map_of (app_routes G A router) (g_method c, pat) = Some (rg_handlers router @ auth_guards A @ es)"
    using auth_lookup [OF set pat] by blast
  let ?c = "c\<lparr>g_fullPath := pat\<rparr>"
  have "chain (rg_handlers router @ auth_guards A @ es) ?c s = Some (c', s')"
    using run pat(1) hs by (simp add: app_serve_def set engine_serve_def)
  from router_lets [OF set pol this] show ?thesis
  proof (cases rule: lets_cases)
    case stopped
    then show ?thesis by (simp add: same_ans_def)
  next
    case (entered c1 s1 c2 s2)
    let ?e = "w_env (as_world s1)"
    have lim: "as_limiter s1 = as_limiter s" and ip: "g_clientIP c1 = g_clientIP c"
      using entered by (simp_all add: frame_defs)
    from entered(4,2) show ?thesis
    proof (cases rule: guards_cases)
      case (limited rl e2)
      obtain body where "g_out c2 = g_out c1 @ [(429, body)]" "\<not> rStatus body" "g_audit c2 = g_audit c1"
        using admit_shape [OF limited(1)] by auto
      then have "(\<exists>body. g_out c' = g_out c @ [(429, body)] \<and> \<not> rStatus body) \<and> g_audit c' = g_audit c"
        using entered(1,5) by (auto simp: frame_defs)
      moreover have "same_app (s\<lparr>as_limiter := rl\<rparr>) s'" "as_limiter s' = rl"
        using limited(2) entered(3,6) by (simp_all add: frame_defs)
      ultimately show ?thesis
        using limited(1) lim ip by (intro disjI2 exI [of _ c1] exI [of _ ?e] exI [of _ False] exI [of _ c2]) auto
    next
      case (admitted c3 rl e2)
      let ?c3 = "limit_body AuthBodyMaxBytes c3" and ?s3 = "s1\<lparr>as_limiter := rl, as_world := (as_world s1)\<lparr>w_env := e2\<rparr>\<rparr>"
      have "req_upto (\<lambda>b. b) c1 c3" "\<not> g_aborted c3" using admit_shape [OF admitted(1)] entered(2) by simp_all
      then have c3: "req_upto auth_limit ?c ?c3" "\<not> g_aborted ?c3"
        using req_comp [OF entered(1) limit_body_req] by (simp_all add: limits_narrow limit_body_def split: option.splits)
      moreover have "as_limiter s' = rl" "same_app (s\<lparr>as_limiter := rl\<rparr>) ?s3"
        using endpoint_limiter [OF es admitted(2) c3(2)] entered(3,6) by (simp_all add: frame_defs)
      ultimately have "\<exists>es c3 s3 c4 s4. ((g_method c, pat), es) \<in> set (auth_endpoints A) \<and>
            req_upto auth_limit ?c c3 \<and> \<not> g_aborted c3 \<and> same_app (s\<lparr>as_limiter := rl\<rparr>) s3 \<and>
            chain es c3 s3 = Some (c4, s4) \<and> same_ans c4 c' \<and> same_app s4 s'" "as_limiter s' = rl"
        using es admitted(2) entered(5,6) by blast+
      then show ?thesis
        using admitted(1) lim ip by (intro disjI2 exI [of _ c1] exI [of _ ?e] exI [of _ True] exI [of _ c3]) auto
    qed
  qed
qed

end


section \<open>The endpoints that need a caller\<close>

context gin_routing
begin

lemma serve_me:
  assumes pol: "polite_stack G (ap_cfg A)" and set: "setupRouter G A = Some router"
    and req: "g_method c = ''GET''" "g_path c = ''/api/v1/users/me''"
    and run: "app_serve G A c s = Some (c', s')"
  obtains (stopped) "same_ans c c'" "same_app s s'"
  | (entered) c1 s1 c2 w2 where "req_upto first_limit (c\<lparr>g_fullPath := g_path c\<rparr>) c1" "same_app s s1"
    "NewAuthMiddleware (ap_jwt A) (ap_redis A) False (GetUserData (ap_users A)) c1 (as_world s1) = (c2, w2)"
    "same_ans c2 c'" "same_app (s1\<lparr>as_world := w2\<rparr>) s'"
proof -
  let ?hs = "[auth_mw (ap_jwt A) (ap_redis A) False, then_Next (of_world (GetUserData (ap_users A)))]"
  have mem: "((''GET'', g_path c), rg_handlers router @ ?hs) \<in> set (app_routes G A router)"
    unfolding app_routes_eq [OF set] req by simp
  have pat: "gin_find G (map fst (app_routes G A router)) (g_method c) (g_path c) = Some (g_path c)"
    using imageI [OF mem, of fst] req by (intro find_static) simp_all
  have look: "map_of (app_routes G A router) (g_method c, g_path c) = Some (rg_handlers router @ ?hs)"
    using mem routes_distinct [OF set] req by simp
  have "chain (rg_handlers router @ ?hs) (c\<lparr>g_fullPath := g_path c\<rparr>) s = Some (c', s')"
    using run pat look by (simp add: app_serve_def set engine_serve_def)
  from router_lets [OF set pol this] show thesis
  proof (cases rule: lets_cases)
    case stopped
    then show thesis using that(1) by (simp add: same_ans_def)
  next
    case (entered c1 s1 c2 s2)
    from entered(4) obtain w2 where
      "NewAuthMiddleware (ap_jwt A) (ap_redis A) False (GetUserData (ap_users A)) c1 (as_world s1) = (c2, w2)"
      "s2 = s1\<lparr>as_world := w2\<rparr>"
      unfolding gated_chain [OF entered(2)] by (auto split: prod.splits)
    then show thesis using that(2) entered by blast
  qed
qed

lemma serve_change:
  assumes pol: "polite_stack G (ap_cfg A)" and set: "setupRouter G A = Some router"
    and req: "g_method c = ''PUT''" "g_path c = ''/api/v1/auth/password/change''"
    and run: "app_serve G A c s = Some (c', s')" and new: "g_out c = []"
    and ok: "\<exists>x\<in>set (g_out c'). rStatus (snd x)"
  obtains c1 w1 c2 w2 where "g_authorization c1 = g_authorization c" "g_body c1 = auth_limit (g_body c)"
    "g_out c1 = []" "w_users w1 = w_users (as_world s)" "w_redis w1 = w_redis (as_world s)"
    "NewAuthMiddleware (ap_jwt A) (ap_redis A) False
       (Handler_ChangePassword (ap_H A) (auth_NewUsecase (h_env (ap_H A)) (app_auth A))) c1 w1 = (c2, w2)"
    "g_out c' = g_out c2" "w_users (as_world s') = w_users w2"
proof -
  let ?h = "Handler_ChangePassword (ap_H A) (auth_NewUsecase (h_env (ap_H A)) (app_auth A))"
  let ?p = "''/api/v1/auth/password/change''"
  have "(''PUT'', ?p) \<in> set (map fst (app_routes G A router))"
    unfolding app_routes_eq [OF set] by (simp add: auth_endpoints_def Let_def)
  then have pat: "gin_find G (map fst (app_routes G A router)) (g_method c) (g_path c) = Some ?p"
    unfolding req by (intro find_static) simp_all
  from serve_auth [OF pol set pat _ run] new ok obtain es c3 s3 c4 s4 rl where
    es: "((''PUT'', ?p), es) \<in> set (auth_endpoints A)" and
    r: "req_upto auth_limit (c\<lparr>g_fullPath := ?p\<rparr>) c3" "\<not> g_aborted c3" "same_app (s\<lparr>as_limiter := rl\<rparr>) s3"
      "chain es c3 s3 = Some (c4, s4)" "same_ans c4 c'" "same_app s4 s'"
    by (auto simp: same_ans_def req(1) split: if_splits)
  have "es = [auth_mw (ap_jwt A) (ap_redis A) False, then_Next (of_world ?h)]"
    using es by (simp add: auth_endpoints_def Let_def)
  with r(4) obtain w2 where
    "NewAuthMiddleware (ap_jwt A) (ap_redis A) False ?h c3 (as_world s3) = (c4, w2)" "s4 = s3\<lparr>as_world := w2\<rparr>"
    using gated_chain [OF r(2), of "ap_jwt A" "ap_redis A" False ?h s3] by (auto split: prod.splits)
  then show thesis using that [of c3 "as_world s3" c4 w2] r new by (simp add: frame_defs)
qed

end

lemma GetUserData_answered: "answered c (fst (GetUserData U c w))"
  using Respond_audited [of c] Error_audited [of 401 c]
  by (auto simp: GetUserData_def audited_def answered_def [of c "NewSuccessResponse c n m d" for n m d] split: prod.splits sum.splits)

lemma me_handler:
  assumes "GetUserData U c w = (c', w')" and "rStatus (snd (last (g_out c')))" and "CurrentUserFromContext c = Inr cu"
  shows "\<exists>u s' e'. uc_GetByEmail U (cuEmail cu) (w_users w) (w_env w) = (Inr u, s', e') \<and> w_users w' = s' \<and>
    g_out c' = g_out c @ [(200, \<lparr>rStatus = True, rMessage = ''user data fetched successfully'',
       rData = UserMap (FromV1Domain u), rRequestID = requestID c\<rparr>)]"
proof -
  have bad: "\<not> rStatus (snd (last (g_out (RespondWithError c err))))" for err
    using RespondWithError_one [of c err] by auto
  with assms show ?thesis
    by (auto simp: GetUserData_def on_users_def split: prod.splits sum.splits)
qed

section \<open>A reference router\<close>

text \<open>Paths joined by concatenation, exact matches, and middlewares of other packages that do nothing.\<close>

definition quiet_mw :: "'e gin_mw" where
  "quiet_mw = \<lparr>mw_before = (\<lambda>c e. (c, e)), mw_after = (\<lambda>c e. (c, e))\<rparr>"

definition ref_join :: "string \<Rightarrow> string \<Rightarrow> string" where
  "ref_join b r = (if b = ''/'' then if r \<noteq> '''' \<and> hd r = CHR ''/'' then r else CHR ''/'' # r else b @ r)"

definition ref_gin :: "ref_world gin_lib" where
  "ref_gin =
     \<lparr>otelgin_Middleware = (\<lambda>name. quiet_mw), cors_New = (\<lambda>cfg. if cors_AllowOrigins cfg = [] then None else Some quiet_mw),
      gin_LoggerWithFormatter = (\<lambda>f. quiet_mw), gin_Recovery = quiet_mw, promhttp_Handler = (\<lambda>c e. (c, e)),
      ginSwagger_Handler = (\<lambda>c e. (c, e)), gin_joinPaths = ref_join,
      gin_find = (\<lambda>rs m p. if (m, p) \<in> set rs then Some p else None),
      gin_serveError = (\<lambda>c e. (c\<lparr>g_status := 404\<rparr>, e))\<rparr>"

interpretation ref_routing: gin_routing ref_gin
  by unfold_locales (auto simp: ref_gin_def ref_join_def split: if_splits)

lemma quiet_mw_sel [simp]: "mw_before quiet_mw c e = (c, e)" "mw_after quiet_mw c e = (c, e)"
  by (simp_all add: quiet_mw_def)

lemma quiet_polite [simp]: "polite quiet_mw"
  by (simp add: polite_def adds_headers_def frame_defs)

lemma ref_polite: "polite_stack ref_gin cfg" "polite_handlers ref_gin"
  by (auto simp: polite_stack_def polite_handlers_def ref_gin_def adds_headers_def requestID_def gin_GetString_def
      split: if_splits)

end
