(* ===== verification/Response_Props.thy ===== *)
theory Response_Props
  imports Route_Props
begin

text \<open>
  What every response of the server carries, whatever the route and the outcome: the identifier of the
  request and the security headers. A relation between the context before and after is carried through
  the chain of handlers (\<open>ctx_order\<close>); \<open>tagged\<close> is the one used here.
\<close>

section \<open>What every response carries\<close>

text \<open>Relations between the context a handler gets and the one it leaves, carried through a chain.\<close>

definition ends :: "(gin_ctx \<Rightarrow> gin_ctx \<Rightarrow> bool) \<Rightarrow> ('l, 'u, 'r, 'm, 'e) hfun \<Rightarrow> bool" where
  "ends R h \<longleftrightarrow> (\<forall>c s c' s'. h c s = Some (c', s') \<longrightarrow> R c c')"

definition carries :: "(gin_ctx \<Rightarrow> gin_ctx \<Rightarrow> bool) \<Rightarrow> ('l, 'u, 'r, 'm, 'e) mw \<Rightarrow> bool" where
  "carries R m \<longleftrightarrow> (\<forall>next. ends R next \<longrightarrow> ends R (m next))"

lemma endsD: "ends R h \<Longrightarrow> h c s = Some (c', s') \<Longrightarrow> R c c'"
  by (auto simp: ends_def)

lemma carriesI:
  "(\<And>next c s c' s'. ends R next \<Longrightarrow> m next c s = Some (c', s') \<Longrightarrow> R c c') \<Longrightarrow> carries R m"
  by (auto simp: carries_def ends_def [of R "m next" for "next"])

locale ctx_order =
  fixes R :: "gin_ctx \<Rightarrow> gin_ctx \<Rightarrow> bool"
  assumes R_refl: "R c c" and R_trans: "R a b \<Longrightarrow> R b c \<Longrightarrow> R a c"
begin

lemma Next_ends: "ends R next \<Longrightarrow> gin_Next next c s = Some (c', s') \<Longrightarrow> R c c'"
  by (auto simp: gin_Next_def ends_def R_refl split: if_splits)

lemma then_Next_carries:
  assumes "ends R h"
  shows "carries R (then_Next h)"
proof (rule carriesI)
  fix "next" c s c' s' assume "ends R next" "then_Next h next c s = Some (c', s')"
  then show "R c c'"
    using assms by (auto simp: then_Next_def split: option.splits intro: R_trans [OF endsD Next_ends])
qed

lemma Metrics_carries: "carries R (MetricsMiddleware E)"
  by (rule carriesI) (auto simp: MetricsMiddleware_def Let_def split: option.splits prod.splits intro: Next_ends)

lemma third_party_carries:
  assumes "\<And>c e c' e'. mw_before m c e = (c', e') \<Longrightarrow> R c c'" and "\<And>c e c' e'. mw_after m c e = (c', e') \<Longrightarrow> R c c'"
  shows "carries R (third_party m)"
proof (rule carriesI)
  fix "next" c s c' s' assume n: "ends R next" and run: "third_party m next c s = Some (c', s')"
  obtain c1 e1 where b: "mw_before m c (w_env (as_world s)) = (c1, e1)" by fastforce
  with run obtain c2 s2 e2 where "gin_Next next c1 (s\<lparr>as_world := (as_world s)\<lparr>w_env := e1\<rparr>\<rparr>) = Some (c2, s2)"
    "mw_after m c2 (w_env (as_world s2)) = (c', e2)"
    by (auto simp: third_party_def of_env_def split: option.splits prod.splits)
  with b assms n Next_ends show "R c c'" by (metis R_trans)
qed

lemma chain_ends: "list_all (carries R) ms \<Longrightarrow> ends R (chain ms)"
proof (induction ms)
  case Nil
  then show ?case by (simp add: ends_def R_refl)
next
  case (Cons m ms)
  then show ?case by (simp add: chain_Cons carries_def)
qed

end

text \<open>\<open>tagged K\<close>: the headers named in \<open>K\<close> stay as they are, and so does the request's identifier, which every
  response written carries.\<close>

definition own_headers :: "string set" where
  "own_headers = {''X-Request-ID'', ''X-Content-Type-Options'', ''X-Frame-Options'', ''Referrer-Policy'',
     ''Content-Security-Policy'', ''Permissions-Policy'', ''Strict-Transport-Security''}"

definition tagged :: "string set \<Rightarrow> gin_ctx \<Rightarrow> gin_ctx \<Rightarrow> bool" where
  "tagged K c c' \<longleftrightarrow>
     (\<forall>k\<in>K. g_headers c k \<noteq> None \<longrightarrow> g_headers c' k = g_headers c k) \<and> requestID c' = requestID c \<and>
     (\<forall>x\<in>set (g_out c'). x \<in> set (g_out c) \<or> rRequestID (snd x) = requestID c)"

interpretation tg: ctx_order "tagged K" for K
  by unfold_locales (auto simp: tagged_def)


lemma tagged_answer [simp]:
  "tagged K c (NewSuccessResponse c code m d)" "tagged K c (NewErrorResponse c code m)"
  "tagged K c (NewAbortResponse c m)" "tagged K c (RespondWithError c err)" "tagged K c (gin_JSON_H c code h)"
  by (auto simp: tagged_def NewSuccessResponse_def NewErrorResponse_def NewAbortResponse_def RespondWithError_def
      gin_AbortWithStatusJSON_def gin_JSON_def gin_JSON_H_def requestID_def gin_GetString_def Let_def
      split: option.splits goerr.splits)

lemma tagged_event: "record_event H ev c w = (c1, w1) \<Longrightarrow> tagged K c c1"
  by (auto simp: record_event_def tagged_def requestID_def gin_GetString_def split: prod.splits)

lemma tagged_fail: "tagged K c (fst (fail_with H ev err c w))"
  and tagged_succeed: "tagged K c (fst (succeed_with H ev code m d c w))"
  by (auto simp: fail_with_def succeed_with_def split: prod.splits intro: tg.R_trans [OF tagged_event])

lemma tagged_body: "(\<And>req. tagged K c (fst (k req))) \<Longrightarrow> tagged K c (fst (with_body H bind flds k c w))"
  by (auto simp: with_body_def split: sum.splits option.splits)

lemmas tagged_intros = tagged_body tagged_fail tagged_succeed

lemma handlers_tagged:
  "tagged K c (fst (Handler_Register H uc c w))" "tagged K c (fst (Handler_Login H uc c w))"
  "tagged K c (fst (Handler_VerifyOTP H uc c w))" "tagged K c (fst (Handler_Refresh H uc c w))"
  "tagged K c (fst (Handler_Logout H uc c w))" "tagged K c (fst (Handler_ForgotPassword H uc c w))"
  "tagged K c (fst (Handler_ResetPassword H uc c w))" "tagged K c (fst (Handler_ChangePassword H uc c w))"
  "tagged K c (fst (GetUserData U c w))"
  unfolding Handler_Register_def Handler_Login_def Handler_VerifyOTP_def Handler_Refresh_def Handler_Logout_def
    Handler_ForgotPassword_def Handler_ResetPassword_def Handler_ChangePassword_def GetUserData_def Let_def
  by (auto intro!: tagged_intros split: prod.splits sum.splits option.splits)

lemma SendOTP_tagged: "Handler_SendOTP H uc c w = Some (c', w') \<Longrightarrow> tagged K c c'"
  using tagged_succeed [of K c H]
  by (fastforce simp: Handler_SendOTP_def split: sum.splits option.splits prod.splits dest: arg_cong [of _ _ fst])

lemma ends_world: "(\<And>c w. tagged K c (fst (h c w))) \<Longrightarrow> ends (tagged K) (of_world h)"
  unfolding ends_def of_world_def by (auto split: prod.splits) (metis fst_conv)

lemma ends_env: "(\<And>c e. tagged K c (fst (h c e))) \<Longrightarrow> ends (tagged K) (of_env h)"
  unfolding ends_def of_env_def by (auto split: prod.splits) (metis fst_conv)

lemma ends_ctx: "(\<And>c. tagged K c (f c)) \<Longrightarrow> ends (tagged K) (of_ctx f)"
  by (auto simp: ends_def of_ctx_def)

lemma adds_tagged: "adds_headers c c' \<Longrightarrow> g_out c' = g_out c \<Longrightarrow> tagged K c c'"
  by (auto simp: adds_headers_def tagged_def map_le_def) (metis domI)

lemma foreign_tagged:
  assumes "polite_handlers G" and "h \<in> {promhttp_Handler G, ginSwagger_Handler G, gin_serveError G}"
  shows "tagged K c (fst (h c e))"
proof -
  obtain c' e' where "h c e = (c', e')" by fastforce
  moreover from this have "adds_headers c c' \<and> g_out c' = g_out c" using assms unfolding polite_handlers_def by blast
  ultimately show ?thesis by (simp add: adds_tagged)
qed

lemma limit_tagged: "tagged K c (limit_body n c)"
  by (auto simp: tagged_def limit_body_def requestID_def gin_GetString_def split: option.splits)

lemma tagged_Set: "k \<noteq> ''X-Request-ID'' \<Longrightarrow> tagged K c (gin_Set c k v)"
  by (auto simp: tagged_def gin_Set_def requestID_def gin_GetString_def)

lemma tagged_SetHeader: "k \<notin> K \<Longrightarrow> tagged K c (gin_SetHeader c k v)"
  by (auto simp: tagged_def gin_SetHeader_def requestID_def gin_GetString_def)

lemma tagged_limited: "tagged K c (gin_AbortWithStatusJSON c code (rateLimitedResponse c))"
  by (auto simp: tagged_def gin_AbortWithStatusJSON_def gin_JSON_def rateLimitedResponse_def requestID_def gin_GetString_def)

lemma gate_tagged: "tagged K c (fst (NewAuthMiddleware J R adm (\<lambda>c w. (c, w)) c w))"
proof -
  have "CtxAuthenticatedUserKey \<noteq> ''X-Request-ID''" by (simp add: CtxAuthenticatedUserKey_def)
  then show ?thesis
    using Handle_uniform [of "\<lparr>am_jwtService = J, am_redisCache = Some R, am_isAdmin = adm\<rparr>" c w]
    by (auto simp: NewAuthMiddleware_def tagged_Set)
qed

lemma rate_headers_tagged:
  assumes "K \<subseteq> own_headers" and "writeRateLimitHeaders L E c n l e = (c', e')"
  shows "tagged K c c'"
proof -
  have "''X-RateLimit-Limit'' \<notin> K" "''X-RateLimit-Remaining'' \<notin> K" "''X-RateLimit-Reset'' \<notin> K"
    using assms(1) by (auto simp: own_headers_def)
  note k = this [THEN tagged_SetHeader]
  obtain x y z where "c' = gin_SetHeader (gin_SetHeader (gin_SetHeader c ''X-RateLimit-Limit'' x)
      ''X-RateLimit-Remaining'' y) ''X-RateLimit-Reset'' z"
    using assms(2) by (auto simp: writeRateLimitHeaders_def Let_def split: prod.splits)
  then show ?thesis by (simp only: tg.R_trans [OF tg.R_trans [OF k(1) k(2)] k(3)])
qed

lemma admit_tagged:
  assumes K: "K \<subseteq> own_headers" and run: "rl_admit L E c rl e = (ok, c', rl', e')"
  shows "tagged K c c'"
proof -
  obtain l rl1 e1 where g: "getLimiter L E rl (g_clientIP c) e = (l, rl1, e1)" by (metis prod_cases3)
  obtain c1 e2 where h: "writeRateLimitHeaders L E c (rl_burst rl1) l e1 = (c1, e2)" by fastforce
  have "''Retry-After'' \<notin> K" using K by (auto simp: own_headers_def)
  note t = tg.R_trans [OF tagged_SetHeader [OF this] tagged_limited]
  have "c' = c1 \<or> (\<exists>n. c' = gin_AbortWithStatusJSON (gin_SetHeader c1 ''Retry-After'' n) 429
      (rateLimitedResponse (gin_SetHeader c1 ''Retry-After'' n)))"
    using run g h by (auto simp: rl_admit_def Let_def split: prod.splits if_splits)
  then show ?thesis using rate_headers_tagged [OF K h] t tg.R_trans by blast
qed

text \<open>The endpoints and what stands directly in front of them.\<close>

lemma rate_limit_carries: "K \<subseteq> own_headers \<Longrightarrow> carries (tagged K) (rate_limit_mw L E)"
  unfolding rate_limit_mw_def
  by (rule tg.then_Next_carries)
     (auto simp: ends_def rl_Middleware_def split: prod.splits bool.splits intro: admit_tagged)

lemma auth_carries: "carries (tagged K) (auth_mw J R adm)"
  unfolding auth_mw_def by (intro tg.then_Next_carries ends_world gate_tagged)

lemma limit_carries: "carries (tagged K) (BodySizeLimitMiddleware n)"
  unfolding BodySizeLimitMiddleware_def by (intro tg.then_Next_carries ends_ctx limit_tagged)

lemma health_tagged: "tagged K c (Health c)" "tagged K c (RootHandler c)" "tagged K c (fst (Ready h c e))"
  by (auto simp: Health_def RootHandler_def Ready_def Let_def split: prod.splits option.splits)

lemma SendOTP_ends: "ends (tagged K) (of_partial (Handler_SendOTP H uc))"
  by (auto simp: ends_def of_partial_def split: option.splits intro: SendOTP_tagged)

lemma endpoints_carry:
  assumes "K \<subseteq> own_headers" and "(k, es) \<in> set (auth_endpoints A)"
  shows "list_all (carries (tagged K)) (auth_guards A @ es)"
  using assms
  by (auto simp: auth_endpoints_def auth_guards_def Let_def
      intro!: tg.then_Next_carries ends_world handlers_tagged SendOTP_ends auth_carries limit_carries rate_limit_carries)


context gin_routing
begin

lemma routes_carry:
  assumes "setupRouter G A = Some router" and "polite_handlers G" and "(k, hs) \<in> set (app_routes G A router)"
  shows "\<exists>es. hs = rg_handlers router @ es \<and> (\<forall>K. K \<subseteq> own_headers \<longrightarrow> list_all (carries (tagged K)) es)"
proof -
  consider (auth) k' es where "(k', es) \<in> set (auth_endpoints A)" "hs = rg_handlers router @ auth_guards A @ es"
    | (other) "hs \<in> (\<lambda>es. rg_handlers router @ es) ` {[then_Next (of_ctx Health)],
        [then_Next (of_env (Ready (ap_health A)))], [then_Next (of_env (promhttp_Handler G))],
        [then_Next (of_env (ginSwagger_Handler G))], [then_Next (of_ctx RootHandler)],
        [auth_mw (ap_jwt A) (ap_redis A) False, then_Next (of_world (GetUserData (ap_users A)))]}"
    using assms(3) unfolding app_routes_eq [OF assms(1)] by auto
  then show ?thesis
  proof cases
    case auth
    then show ?thesis using endpoints_carry by blast
  next
    case other
    then obtain es where "hs = rg_handlers router @ es" and es: "es \<in> {[then_Next (of_ctx Health)],
        [then_Next (of_env (Ready (ap_health A)))], [then_Next (of_env (promhttp_Handler G))],
        [then_Next (of_env (ginSwagger_Handler G))], [then_Next (of_ctx RootHandler)],
        [auth_mw (ap_jwt A) (ap_redis A) False, then_Next (of_world (GetUserData (ap_users A)))]}" by blast
    moreover have "list_all (carries (tagged K)) es" for K
      using es foreign_tagged [OF assms(2)]
      by (auto intro!: tg.then_Next_carries ends_world ends_ctx ends_env handlers_tagged health_tagged(1,2) health_tagged(3) auth_carries)
    ultimately show ?thesis by blast
  qed
qed

lemma served_chain:
  assumes set: "setupRouter G A = Some router" and pol: "polite_handlers G"
    and run: "app_serve G A c s = Some (c', s')"
  obtains es p where "chain (rg_handlers router @ es) (c\<lparr>g_fullPath := p\<rparr>) s = Some (c', s')"
    "\<And>K. K \<subseteq> own_headers \<Longrightarrow> list_all (carries (tagged K)) es"
proof (cases "gin_find G (map fst (app_routes G A router)) (g_method c) (g_path c)")
  case None
  have "tagged K c (fst (gin_serveError G c e))" for K c e using foreign_tagged [OF pol] by simp
  then show thesis
    using that [of "[then_Next (of_env (gin_serveError G))]" "''''"] run None
    by (simp add: app_serve_def set engine_serve_def tg.then_Next_carries ends_env)
next
  case (Some pat)
  then obtain hs where hs: "map_of (app_routes G A router) (g_method c, pat) = Some hs"
    and ch: "chain hs (c\<lparr>g_fullPath := pat\<rparr>) s = Some (c', s')"
    using run by (auto simp: app_serve_def set engine_serve_def split: option.splits)
  from routes_carry [OF set pol map_of_SomeD [OF hs]] ch that show thesis by blast
qed

end

lemma security_set:
  "g_headers (security_headers p c) ''X-Content-Type-Options'' = Some ''nosniff''"
  "g_headers (security_headers p c) ''X-Frame-Options'' = Some ''DENY''"
  "g_headers (security_headers p c) ''Referrer-Policy'' = Some ''strict-origin-when-cross-origin''"
  "g_headers (security_headers p c) ''Content-Security-Policy'' =
     Some (''default-src 'none'; frame-ancestors 'none'' @ [CHR 0x27])"
  "g_headers (security_headers p c) ''Permissions-Policy'' =
     Some ''accelerometer=(), camera=(), geolocation=(), gyroscope=(), magnetometer=(), microphone=(), payment=(), usb=()''"
  "p \<Longrightarrow> g_headers (security_headers p c) ''Strict-Transport-Security'' = Some ''max-age=31536000; includeSubDomains''"
  by (simp_all add: security_headers_def gin_SetHeader_def Let_def)

lemma security_frame:
  "g_aborted (security_headers p c) = g_aborted c" "tagged {''X-Request-ID''} c (security_headers p c)"
  by (auto simp: security_headers_def gin_SetHeader_def Let_def tagged_def requestID_def gin_GetString_def)

lemma security_carries: "carries (tagged {''X-Request-ID''}) (SecurityHeadersMiddleware cfg)"
  unfolding SecurityHeadersMiddleware_def Let_def by (intro tg.then_Next_carries ends_ctx security_frame(2))

lemma polite_carries:
  assumes "polite m"
  shows "carries (tagged K) (third_party m)"
  using polite_before [OF assms] polite_after [OF assms]
  by (intro tg.third_party_carries) (metis adds_tagged req_upto_def same_ans_def)+

text \<open>Once the security headers are set, the rest of the router's own chain keeps them.\<close>

lemma below_security:
  assumes "polite cors" "polite_stack G cfg" "list_all (carries (tagged K)) es"
  shows "list_all (carries (tagged K)) ([third_party cors, BodySizeLimitMiddleware n,
    third_party (gin_LoggerWithFormatter G f), third_party (gin_Recovery G)] @ es)"
  using assms by (simp add: polite_stack_def polite_carries limit_carries)


lemma RequestID_picked:
  assumes "RequestID_pick E c e = (c1, e1)"
  obtains rid where "g_headers c1 ''X-Request-ID'' = Some rid" "requestID c1 = rid" "g_out c1 = g_out c"
    "g_aborted c1 = g_aborted c"
    "if g_xRequestID c = '''' then uuid_NewString E e = (rid, e1) else rid = g_xRequestID c"
  using assms
  by (auto simp: RequestID_pick_def RequestIDHeader_def gin_Set_def gin_SetHeader_def requestID_def gin_GetString_def Let_def
      split: prod.splits option.splits if_splits)

lemma otel_live:
  "polite_handlers G \<Longrightarrow> mw_before (otelgin_Middleware G name) c e = (c', e') \<Longrightarrow> g_aborted c' = g_aborted c"
  unfolding polite_handlers_def by blast

lemma secured:
  assumes run: "chain (MetricsMiddleware E # SecurityHeadersMiddleware cfg # ms) c s = Some (c', s')"
    and ms: "list_all (carries (tagged own_headers)) ms" and live: "\<not> g_aborted c"
  shows "tagged own_headers (security_headers (ac_Environment cfg = EnvironmentProduction) c) c'"
proof -
  let ?p = "ac_Environment cfg = EnvironmentProduction"
  from run live obtain s1 s2 where
    "chain (then_Next (of_ctx (security_headers ?p)) # ms) c s1 = Some (c', s2)"
    by (auto simp: MetricsMiddleware_def SecurityHeadersMiddleware_def gin_Next_def Let_def split: option.splits prod.splits)
  then have "chain ms (security_headers ?p c) s1 = Some (c', s2)"
    using live security_frame(1) [of ?p c] by (simp add: then_Next_def of_ctx_def gin_Next_def)
  with tg.chain_ends [OF ms] show ?thesis by (rule endsD)
qed

context gin_routing
begin

lemma responses_carry:
  assumes pol: "polite_stack G (ap_cfg A)" "polite_handlers G" and set: "setupRouter G A = Some router"
    and run: "app_serve G A c s = Some (c', s')" and new: "g_out c = []" "\<not> g_aborted c"
  obtains rid e e1 c0 where
    "if g_xRequestID c = '''' then uuid_NewString (h_env (ap_H A)) e = (rid, e1) else rid = g_xRequestID c"
    "g_headers c' ''X-Request-ID'' = Some rid" "\<forall>x\<in>set (g_out c'). rRequestID (snd x) = rid"
    "tagged own_headers (security_headers (ac_Environment (ap_cfg A) = EnvironmentProduction) c0) c'"
proof -
  let ?E = "h_env (ap_H A)" and ?otel = "otelgin_Middleware G ''go-rest-boilerplate''"
  obtain es p where run: "chain (rg_handlers router @ es) (c\<lparr>g_fullPath := p\<rparr>) s = Some (c', s')"
    and es: "\<And>K. K \<subseteq> own_headers \<Longrightarrow> list_all (carries (tagged K)) es"
    using served_chain [OF set pol(2) run] by metis
  obtain cors where cors: "cors_New G (cors_settings (ap_cfg A)) = Some cors" and r: "rg_handlers router =
     [third_party ?otel, RequestIDMiddleware ?E, MetricsMiddleware ?E, SecurityHeadersMiddleware (ap_cfg A), third_party cors,
      BodySizeLimitMiddleware DefaultBodyMaxBytes,
      third_party (gin_LoggerWithFormatter G (AccessLogFormatter (ap_fmt A))), third_party (gin_Recovery G)]"
    using setupRouter_shape [OF set] by (metis RouterGroup.select_convs(2))
  define low where "low = [third_party cors, BodySizeLimitMiddleware DefaultBodyMaxBytes,
      third_party (gin_LoggerWithFormatter G (AccessLogFormatter (ap_fmt A))), third_party (gin_Recovery G)] @ es"
  have pc: "polite cors" and po: "polite ?otel" using cors pol(1) by (simp_all add: polite_stack_def)
  have low: "list_all (carries (tagged K)) low" if "K \<subseteq> own_headers" for K
    unfolding low_def by (rule below_security [OF pc pol(1) es [OF that]])
  obtain c1 e1 where b: "mw_before ?otel (c\<lparr>g_fullPath := p\<rparr>) (w_env (as_world s)) = (c1, e1)" by fastforce
  have c1: "g_xRequestID c1 = g_xRequestID c" "g_out c1 = []" "\<not> g_aborted c1"
    using polite_before [OF po b] otel_live [OF pol(2) b] new by (simp_all add: req_upto_def)
  obtain c3 e3 where pick: "RequestID_pick ?E c1 e1 = (c3, e3)" by fastforce
  then obtain rid where rid: "g_headers c3 ''X-Request-ID'' = Some rid" "requestID c3 = rid" "g_out c3 = []"
    "\<not> g_aborted c3" "if g_xRequestID c = '''' then uuid_NewString ?E e1 = (rid, e3) else rid = g_xRequestID c"
    using c1 by (auto elim!: RequestID_picked)
  obtain s3 c2 s2 e2 where
    mid: "chain (MetricsMiddleware ?E # SecurityHeadersMiddleware (ap_cfg A) # low) c3 s3 = Some (c2, s2)"
    and a: "mw_after ?otel c2 (w_env (as_world s2)) = (c', e2)"
    using run c1 rid(4) b pick unfolding r
    by (auto simp: third_party_def of_env_def gin_Next_def RequestIDMiddleware_def then_Next_def low_def
        split: option.splits prod.splits)
  have fin: "tagged K c2 c'" for K
    using polite_after [OF po a] by (intro adds_tagged) (auto simp: same_ans_def)
  have "tagged own_headers (security_headers (ac_Environment (ap_cfg A) = EnvironmentProduction) c3) c'"
    using secured [OF mid low rid(4)] fin tg.R_trans by blast
  note sec = this
  have "tagged {''X-Request-ID''} c3 c'"
  proof -
    have "list_all (carries (tagged {''X-Request-ID''})) (MetricsMiddleware ?E # SecurityHeadersMiddleware (ap_cfg A) # low)"
      using low [of "{''X-Request-ID''}"] by (simp add: tg.Metrics_carries security_carries own_headers_def)
    from endsD [OF tg.chain_ends [OF this] mid] show ?thesis using fin tg.R_trans by blast
  qed
  then have "g_headers c' ''X-Request-ID'' = Some rid" "\<forall>x\<in>set (g_out c'). rRequestID (snd x) = rid"
    using rid by (auto simp: tagged_def)
  with rid(5) show thesis using sec by (rule that)
qed

end

end
