(* ===== verification/Server_Props.thy ===== *)
theory Server_Props
  imports Response_Props
begin

text \<open>
  The properties of the assembled server (\<open>Routes.app_serve\<close>) that follow from the contracts of its
  middlewares and from the properties of the flows, and evaluated requests.
\<close>

section \<open>The flows behind the gate\<close>

context auth_flows
begin

lemma gated_me:
  assumes run: "NewAuthMiddleware (au_jwt UC) (au_redis UC) False (GetUserData (au_users UC)) c w = (c', w')"
    and new: "g_out c = []" and ok: "\<exists>x\<in>set (g_out c'). rStatus (snd x)" and coh: "coh (w_users w)"
  shows "\<exists>tok claims e1 u rid. g_authorization c = ''Bearer '' @ tok \<and>
    svc_ParseToken (au_jwt UC) tok (w_env w) = (Inr claims, e1) \<and> cKind claims \<noteq> KindRefresh \<and>
    uv (w_users w) (uID u) = Some u \<and> live u \<and> uEmail u = NormalizeEmail E (cEmail claims) \<and>
    g_out c' = [(200, \<lparr>rStatus = True, rMessage = ''user data fetched successfully'',
      rData = UserMap (FromV1Domain u), rRequestID = rid\<rparr>)] \<and> uv (w_users w') = uv (w_users w)"
proof -
  have nr: "\<not> refused c c'" using ok new by (auto simp: refused_def)
  let ?c = "\<lambda>claims. gin_Set c CtxAuthenticatedUserKey (CtxClaims claims)"
  obtain tok claims e1 w2 where
    t: "g_authorization c = ''Bearer '' @ tok" "svc_ParseToken (au_jwt UC) tok (w_env w) = (Inr claims, e1)"
      "cKind claims \<noteq> KindRefresh" "w_users w2 = w_users w" "GetUserData (au_users UC) (?c claims) w2 = (c', w')"
    using gate_sound [OF run [unfolded NewAuthMiddleware_def]] nr by auto
  note h = me_handler [OF t(5) _ CurrentUser_after_gate]
  have "answered (?c claims) c'" using GetUserData_answered [of "?c claims"] t(5) by (metis fst_conv)
  then have "rStatus (snd (last (g_out c')))"
    using ok new by (auto simp: answered_def gin_Set_def)
  from h [OF this] obtain u s' e' where
    u: "uc_GetByEmail (au_users UC) (cEmail claims) (w_users w2) (w_env w2) = (Inr u, s', e')" "w_users w' = s'"
      "g_out c' = g_out (?c claims) @ [(200, \<lparr>rStatus = True, rMessage = ''user data fetched successfully'',
         rData = UserMap (FromV1Domain u), rRequestID = requestID (?c claims)\<rparr>)]"
    by auto
  note frame = usr.ByEmail_frame [OF u(1)] and found = usr.ByEmail_ok [OF _ u(1)]
  show ?thesis
    by (rule exI [of _ tok], rule exI [of _ claims], rule exI [of _ e1], rule exI [of _ u], rule exI [of _ "requestID (?c claims)"])
       (use t u frame found coh new in \<open>auto simp: gin_Set_def\<close>)
qed

end

lemma gated_change_last:
  assumes "NewAuthMiddleware J R adm (Handler_ChangePassword H uc) c w = (c', w')"
  shows "\<exists>x. g_out c' = g_out c @ [x]"
proof -
  have h: "\<exists>x. g_out (fst (Handler_ChangePassword H uc d v)) = g_out d @ [x]" for d v
    using Change_audited [of d H uc v] by (auto simp: audited_def answered_def)
  show ?thesis
    using Handle_uniform [of "\<lparr>am_jwtService = J, am_redisCache = Some R, am_isAdmin = adm\<rparr>" c w]
      h [of "gin_Set c CtxAuthenticatedUserKey v" for v] assms
    by (auto simp: NewAuthMiddleware_def gin_Set_def) (metis fst_conv)
qed

section \<open>Properties\<close>


text \<open>C27: no request reaches an authentication endpoint past the limiter or with a large body. A request
  to a pattern below \<^verbatim>\<open>/api/v1/auth/\<close> is stopped by a middleware of another package and changes nothing,
  or costs one admission for the address of its client: a request that is not admitted is answered
  with one 429 and changes nothing but the limiter, and the endpoint of an admitted one gets the
  request with a body of at most 4096 bytes, the limit of the route, whatever the wider limit of the server.\<close>

theorem auth_routes_limited:
  assumes "gin_routing G" and "polite_stack G (ap_cfg A)" and "setupRouter G A = Some router"
    and "gin_find G (map fst (app_routes G A router)) (g_method c) (g_path c) = Some pat"
    and "starts_with ''/api/v1/auth/'' pat" and "app_serve G A c s = Some (c', s')"
  shows "(same_ans c c' \<and> same_app s s') \<or>
    (\<exists>c1 e1 ok c2 rl e2. g_clientIP c1 = g_clientIP c \<and>
       rl_admit (ap_rate A) (h_env (ap_H A)) c1 (as_limiter s) e1 = (ok, c2, rl, e2) \<and> as_limiter s' = rl \<and>
       (if ok then \<exists>es c3 s3 c4 s4. ((g_method c, pat), es) \<in> set (auth_endpoints A) \<and>
            req_upto auth_limit (c\<lparr>g_fullPath := pat\<rparr>) c3 \<and> \<not> g_aborted c3 \<and> same_app (s\<lparr>as_limiter := rl\<rparr>) s3 \<and>
            chain es c3 s3 = Some (c4, s4) \<and> same_ans c4 c' \<and> same_app s4 s'
        else (\<exists>body. g_out c' = g_out c @ [(429, body)] \<and> \<not> rStatus body) \<and> g_audit c' = g_audit c \<and>
          same_app (s\<lparr>as_limiter := rl\<rparr>) s'))"
  by (rule gin_routing.serve_auth [OF assms])

text \<open>C26: a success of the endpoint for the caller's own data, through the whole server: the request
  carried an access token that the token service accepts, the response is the only one and shows
  exactly the stored, live user with the address of that token, and the table of users is as before.\<close>

theorem me_served_sound:
  assumes "auth_flows (app_auth A) rv dttl (h_env (ap_H A)) used uv coh ts uid"
    and "gin_routing G" and "polite_stack G (ap_cfg A)" and "coh (w_users (as_world s))"
    and "g_method c = ''GET''" and "g_path c = ''/api/v1/users/me''" and "g_out c = []"
    and "app_serve G A c s = Some (c', s')" and "\<exists>x\<in>set (g_out c'). rStatus (snd x)"
  shows "\<exists>tok claims e e1 u rid. g_authorization c = ''Bearer '' @ tok \<and>
    svc_ParseToken (ap_jwt A) tok e = (Inr claims, e1) \<and> cKind claims \<noteq> KindRefresh \<and>
    uv (w_users (as_world s)) (uID u) = Some u \<and> live u \<and> uEmail u = NormalizeEmail (h_env (ap_H A)) (cEmail claims) \<and>
    g_out c' = [(200, \<lparr>rStatus = True, rMessage = ''user data fetched successfully'',
      rData = UserMap (FromV1Domain u), rRequestID = rid\<rparr>)] \<and>
    uv (w_users (as_world s')) = uv (w_users (as_world s))"
proof -
  obtain router where set: "setupRouter G A = Some router"
    using assms(8) by (auto simp: app_serve_def split: option.splits)
  show ?thesis
    using assms(8)
  proof (cases rule: gin_routing.serve_me [OF assms(2,3) set assms(5,6), consumes 1, case_names stopped entered])
    case stopped
    then show ?thesis using assms(7,9) by (simp add: same_ans_def)
  next
    case (entered c1 s1 c2 w2)
    have c1: "g_out c1 = []" "g_authorization c1 = g_authorization c" "w_users (as_world s1) = w_users (as_world s)"
      "g_out c' = g_out c2" "w_users (as_world s') = w_users w2"
      using entered assms(7) by (simp_all add: frame_defs)
    have "NewAuthMiddleware (au_jwt (app_auth A)) (au_redis (app_auth A)) False (GetUserData (au_users (app_auth A)))
        c1 (as_world s1) = (c2, w2)" using entered(3) by (simp add: app_auth_def)
    from auth_flows.gated_me [OF assms(1) this c1(1)] assms(4,9) c1 show ?thesis
      by (simp add: app_auth_def) metis
  qed
qed


text \<open>C25: the change of a password through the whole server, from the request to the table: a success means
  that the request carried an accepted access token and, in the first 4096 bytes of its body, the current
  password of the user of that token; the table changed only in the row of that user, whose new
  password is the submitted one.\<close>

theorem change_password_served_sound:
  assumes "auth_flows (app_auth A) rv dttl (h_env (ap_H A)) used uv coh ts uid" and "bcrypt_lib (h_env (ap_H A))"
    and "gin_routing G" and "polite_stack G (ap_cfg A)"
    and "g_method c = ''PUT''" and "g_path c = ''/api/v1/auth/password/change''" and "g_out c = []"
    and "app_serve G A c s = Some (c', s')" and "\<exists>x\<in>set (g_out c'). rStatus (snd x)"
  shows "\<exists>tok claims e e1 req user now v. g_authorization c = ''Bearer '' @ tok \<and>
    svc_ParseToken (ap_jwt A) tok e = (Inr claims, e1) \<and> cKind claims \<noteq> KindRefresh \<and>
    bind_ChangePassword (ap_H A) (map_option (\<lambda>r. http_MaxBytesReader r 4096) (g_body c)) = Inr req \<and>
    uv (w_users (as_world s)) (uid (cUserID claims)) = Some user \<and> live user \<and>
    VerifyPassword (h_env (ap_H A)) user (cpCurrentPassword req) \<and>
    uv (w_users (as_world s')) = (uv (w_users (as_world s)))(uid (cUserID claims) \<mapsto> v) \<and>
    VerifyPassword (h_env (ap_H A)) v (cpNewPassword req) \<and> uPasswordChangedAt v = Some (ts now)"
proof -
  obtain router where set: "setupRouter G A = Some router"
    using assms(8) by (auto simp: app_serve_def split: option.splits)
  obtain c1 w1 c2 w2 where r: "g_authorization c1 = g_authorization c" "g_body c1 = auth_limit (g_body c)"
    "g_out c1 = []" "w_users w1 = w_users (as_world s)"
    "NewAuthMiddleware (au_jwt (app_auth A)) (au_redis (app_auth A)) False
       (Handler_ChangePassword (ap_H A) (auth_NewUsecase (h_env (ap_H A)) (app_auth A))) c1 w1 = (c2, w2)"
    "g_out c' = g_out c2" "w_users (as_world s') = w_users w2"
    by (rule gin_routing.serve_change [OF assms(3,4) set assms(5,6,8,7,9)]) (simp add: app_auth_def)
  have "rStatus (snd (last (g_out c2)))"
    using gated_change_last [OF r(5)] r(3,6) assms(9) by auto
  from auth_flows.change_route [OF assms(1) r(5) this assms(2)] show ?thesis
    using r(1,2,4,7) by (simp add: app_auth_def AuthBodyMaxBytes_def) metis
qed


section \<open>Evaluated requests\<close>

text \<open>The server over the reference parts, in production.\<close>

definition ref_app :: "(ref_bucket, ref_uc_state, ref_redis, ref_mail, ref_world) app_parts" where
  "ref_app =
     \<lparr>ap_cfg = ref_settings\<lparr>ac_OTPMaxAttempts := 5, ac_BcryptCost := 10\<rparr>, ap_H = ref_H,
      ap_users = au_users ref_uc, ap_jwt = au_jwt ref_uc, ap_mailer = au_mailer ref_uc, ap_redis = au_redis ref_uc,
      ap_health = \<lparr>hh_db_Ping = (\<lambda>e. (None, e)), hh_redis_Ping = Some (\<lambda>e. (None, e))\<rparr>, ap_rate = ref_rate,
      ap_fmt = \<lparr>time_Format = (\<lambda>t. ''now''), duration_String = (\<lambda>d. ''1ms'')\<rparr>\<rparr>"

lemma ref_app_sel [simp]:
  "ap_H ref_app = ref_H" "ap_users ref_app = au_users ref_uc" "ap_jwt ref_app = au_jwt ref_uc"
  "ap_redis ref_app = au_redis ref_uc" "ap_rate ref_app = ref_rate"
  "ac_Environment (ap_cfg ref_app) = EnvironmentProduction"
  by (simp_all add: ref_app_def ref_settings_def EnvironmentProduction_def)

lemma ref_app_auth [simp]: "app_auth ref_app = ref_uc"
  by (simp add: app_auth_def server_auth_config_def ref_app_def ref_settings_def ref_uc_def ref_cfg_def wrap64_id in_int64_def
      duration_defs)

lemma ref_cors: "cors_New ref_gin (cors_settings (ap_cfg ref_app)) = Some quiet_mw"
proof -
  have "AllowedOriginsList (ap_cfg ref_app) = AllowedOriginsList ref_settings"
    by (simp add: AllowedOriginsList_def ref_app_def)
  moreover have "AllowedOriginsList ref_settings \<noteq> []" by code_simp
  ultimately show ?thesis by (simp add: ref_gin_def cors_settings_def Let_def)
qed

definition ref_state :: "(ref_bucket, ref_uc_state, ref_redis, ref_mail, ref_world) app_state" where
  "ref_state = \<lparr>as_limiter = app_limiter, as_world = ref_world0 True []\<rparr>"

text \<open>The router's own middlewares run, for a request with an identifier.\<close>

definition ref_handlers :: "(ref_bucket, ref_uc_state, ref_redis, ref_mail, ref_world) mw list" where
  "ref_handlers =
       [third_party quiet_mw, RequestIDMiddleware ref_env, MetricsMiddleware ref_env,
        SecurityHeadersMiddleware (ap_cfg ref_app), third_party quiet_mw, BodySizeLimitMiddleware DefaultBodyMaxBytes,
        third_party quiet_mw, third_party quiet_mw]"

lemma ref_router:
  obtains router where "setupRouter ref_gin ref_app = Some router"
    "rg_handlers router = ref_handlers"
proof -
  have "\<exists>router. setupRouter ref_gin ref_app = Some router"
    using ref_cors by (simp add: setupRouter_def Let_def)
  then obtain router where set: "setupRouter ref_gin ref_app = Some router" ..
  obtain cors where "cors_New ref_gin (cors_settings (ap_cfg ref_app)) = Some cors" and r: "router = \<lparr>rg_basePath = ''/'', rg_handlers =
       [third_party (otelgin_Middleware ref_gin ''go-rest-boilerplate''), RequestIDMiddleware (h_env (ap_H ref_app)),
        MetricsMiddleware (h_env (ap_H ref_app)), SecurityHeadersMiddleware (ap_cfg ref_app), third_party cors,
        BodySizeLimitMiddleware DefaultBodyMaxBytes,
        third_party (gin_LoggerWithFormatter ref_gin (AccessLogFormatter (ap_fmt ref_app))),
        third_party (gin_Recovery ref_gin)]\<rparr>"
    by (rule setupRouter_shape [OF set])
  with ref_cors have "cors = quiet_mw" by simp
  moreover have "otelgin_Middleware ref_gin n = quiet_mw" "gin_LoggerWithFormatter ref_gin f = quiet_mw"
    "gin_Recovery ref_gin = quiet_mw" for n f by (simp_all add: ref_gin_def)
  ultimately show thesis by (intro that [OF set]) (simp add: r ref_handlers_def)
qed

definition ref_entered :: "gin_ctx \<Rightarrow> gin_ctx" where
  "ref_entered c = limit_body DefaultBodyMaxBytes (security_headers True (fst (RequestID_pick ref_env c ref_e0)))"

lemma ref_entered_req:
  assumes "g_xRequestID c \<noteq> ''''"
  shows "req_upto first_limit c (ref_entered c)" "g_aborted (ref_entered c) = g_aborted c"
  using assms
  by (auto simp: ref_entered_def RequestID_pick_def security_headers_def limit_body_def gin_Set_def gin_SetHeader_def
      req_upto_def Let_def split: option.splits)

lemma ref_run:
  assumes "rg_handlers router = ref_handlers"
    and "g_xRequestID c \<noteq> ''''" and "\<not> g_aborted c" and "chain hs (ref_entered c) s = Some (c2, s2)"
  shows "\<exists>s'. chain (rg_handlers router @ hs) c s = Some (c2, s')"
proof -
  obtain c1 where p: "\<And>e. RequestID_pick ref_env c e = (c1, e)" "g_aborted c1 = g_aborted c"
    using assms(2) by (auto simp: RequestID_pick_def gin_Set_def gin_SetHeader_def Let_def split: option.splits)
  have ab: "g_aborted (security_headers True c1) = False" "g_aborted (limit_body n (security_headers True c1)) = False" for n
    using p(2) assms(3) by (simp_all add: security_frame limit_body_def split: option.splits)
  show ?thesis
    using assms p ab
    by (simp add: third_party_def of_env_def of_ctx_def then_Next_def gin_Next_def RequestIDMiddleware_def
        MetricsMiddleware_def SecurityHeadersMiddleware_def BodySizeLimitMiddleware_def ref_entered_def ref_handlers_def Let_def
        split: option.splits prod.splits)
qed

lemma ref_serve:
  assumes set: "setupRouter ref_gin ref_app = Some router"
    and r: "rg_handlers router = ref_handlers"
    and entry: "((g_method c, g_path c), rg_handlers router @ hs) \<in> set (app_routes ref_gin ref_app router)"
    and c: "g_xRequestID c \<noteq> ''''" "\<not> g_aborted c"
    and run: "chain hs (ref_entered (c\<lparr>g_fullPath := g_path c\<rparr>)) s = Some (c2, s2)"
  shows "\<exists>s'. app_serve ref_gin ref_app c s = Some (c2, s')"
proof -
  have "gin_find ref_gin (map fst (app_routes ref_gin ref_app router)) (g_method c) (g_path c) = Some (g_path c)"
    using imageI [OF entry, of fst] by (simp add: ref_gin_def)
  moreover have "map_of (app_routes ref_gin ref_app router) (g_method c, g_path c) = Some (rg_handlers router @ hs)"
    using entry ref_routing.routes_distinct [OF set] by simp
  moreover have "\<exists>s'. chain (rg_handlers router @ hs) (c\<lparr>g_fullPath := g_path c\<rparr>) s = Some (c2, s')"
    using ref_run [OF r, of "c\<lparr>g_fullPath := g_path c\<rparr>" hs s c2 s2] c run by simp
  ultimately show ?thesis by (simp add: app_serve_def set engine_serve_def)
qed

definition ref_request :: "string \<Rightarrow> string \<Rightarrow> gin_ctx" where
  "ref_request m p = ref_body\<lparr>g_method := m, g_path := p, g_xRequestID := ''req-7''\<rparr>"

lemma ref_request_sel [simp]:
  "g_method (ref_request m p) = m" "g_path (ref_request m p) = p" "g_xRequestID (ref_request m p) = ''req-7''"
  "g_aborted (ref_request m p) = False" "g_out (ref_request m p) = []"
  "g_authorization (ref_request m p) = ''Bearer '' @ ref_token"
  "g_body (ref_request m p) = Some \<lparr>br_data = ''{}'', br_tooLarge = False\<rparr>"
  by (simp_all add: ref_request_def ref_body_def ref_bearer_def ref_ctx_def)

lemma ref_entered_sel:
  "g_aborted (ref_entered (ref_request m p\<lparr>g_fullPath := q\<rparr>)) = False"
  "g_out (ref_entered (ref_request m p\<lparr>g_fullPath := q\<rparr>)) = []"
  "g_authorization (ref_entered (ref_request m p\<lparr>g_fullPath := q\<rparr>)) = ''Bearer '' @ ref_token"
  using ref_entered_req [of "ref_request m p\<lparr>g_fullPath := q\<rparr>"] by (simp_all add: req_upto_def)


theorem auth_routes_limited_witness:
  "\<exists>c' s' c1 e1 ok c2 e2. app_serve ref_gin ref_app (ref_request ''POST'' ''/api/v1/auth/register'') ref_state = Some (c', s') \<and>
     g_out c' \<noteq> [] \<and> rl_admit ref_rate ref_env c1 app_limiter e1 = (ok, c2, as_limiter s', e2)"
proof -
  let ?p = "''/api/v1/auth/register''" and ?uc = "auth_NewUsecase ref_env ref_uc"
  let ?c = "ref_request ''POST'' ?p" and ?h = "[then_Next (of_world (Handler_Register ref_H ?uc))]"
  let ?c1 = "ref_entered (?c\<lparr>g_fullPath := ?p\<rparr>)"
  obtain router where set: "setupRouter ref_gin ref_app = Some router" and r: "rg_handlers router = ref_handlers" by (rule ref_router)
  have entry: "((g_method ?c, g_path ?c), rg_handlers router @ auth_guards ref_app @ ?h) \<in>
      set (app_routes ref_gin ref_app router)"
    unfolding ref_routing.app_routes_eq [OF set] by (simp add: auth_endpoints_def Let_def)
  have "chain (auth_guards ref_app @ ?h) ?c1 ref_state \<noteq> None"
    by (simp add: auth_guards_def rate_limit_mw_def BodySizeLimitMiddleware_def then_Next_def gin_Next_def of_ctx_def of_world_def
        split: prod.splits)
  then obtain c2 s2 where ch: "chain (auth_guards ref_app @ ?h) ?c1 ref_state = Some (c2, s2)" by auto
  obtain s' where run: "app_serve ref_gin ref_app ?c ref_state = Some (c2, s')"
    using ref_serve [OF set r entry, of ref_state] ch by auto
  have out: "g_out c2 \<noteq> []"
    using ch
  proof (cases rule: guards_cases [consumes 1, case_names live limited admitted])
    case live
    then show ?case by (simp add: ref_entered_sel)
  next
    case (limited rl e2)
    then show ?thesis using admit_shape [OF limited(1)] by auto
  next
    case (admitted c3 rl e2)
    then obtain w where "c2 = fst (Handler_Register ref_H ?uc (limit_body AuthBodyMaxBytes c3) w)"
      unfolding then_last of_world_def by (auto split: prod.splits) (metis fst_conv)
    then show ?thesis
      using handlers_audited(1) [of "limit_body AuthBodyMaxBytes c3" ref_H ?uc w] by (auto simp: audited_def answered_def)
  qed
  have find: "gin_find ref_gin (map fst (app_routes ref_gin ref_app router)) (g_method ?c) (g_path ?c) = Some ?p"
    using imageI [OF entry, of fst] by (simp add: ref_gin_def)
  have "starts_with ''/api/v1/auth/'' ?p" by (simp add: starts_with_iff)
  from auth_routes_limited [OF ref_routing.gin_routing_axioms ref_polite(1) set find this run] out
  obtain c1 e1 ok c3 e2 where "rl_admit ref_rate ref_env c1 (as_limiter ref_state) e1 = (ok, c3, as_limiter s', e2)"
    by (auto simp: same_ans_def)
  moreover have "as_limiter ref_state = app_limiter" by (simp add: ref_state_def)
  ultimately show ?thesis using run out by metis
qed


theorem me_served_sound_witness:
  "\<exists>c' s' u. app_serve ref_gin ref_app (ref_request ''GET'' ''/api/v1/users/me'') ref_state = Some (c', s') \<and>
     map (rData \<circ> snd) (g_out c') = [UserMap (FromV1Domain u)] \<and> uEmail u = ''ann@x.io''"
proof -
  let ?p = "''/api/v1/users/me''" and ?U = "au_users ref_uc"
  let ?c = "ref_request ''GET'' ?p" and ?h = "[auth_mw (au_jwt ref_uc) (au_redis ref_uc) False, then_Next (of_world (GetUserData ?U))]"
  let ?c1 = "ref_entered (?c\<lparr>g_fullPath := ?p\<rparr>)"
  obtain router where set: "setupRouter ref_gin ref_app = Some router" and r: "rg_handlers router = ref_handlers" by (rule ref_router)
  have entry: "((g_method ?c, g_path ?c), rg_handlers router @ ?h) \<in> set (app_routes ref_gin ref_app router)"
    unfolding ref_routing.app_routes_eq [OF set] by simp
  let ?c2 = "gin_Set ?c1 CtxAuthenticatedUserKey (CtxClaims ref_claims)"
  obtain w2 where w2: "w_users w2 = w_users (ref_world0 True [])" "w_env w2 = ref_e0"
    "NewAuthMiddleware (au_jwt ref_uc) (au_redis ref_uc) False (GetUserData ?U) ?c1 (ref_world0 True []) = GetUserData ?U ?c2 w2"
    using ref_gate [OF ref_entered_sel(3)] by metis
  obtain u' e' where "uc_GetByEmail ?U ''ann@x.io'' (w_users w2) (w_env w2) = (Inr (ref_user True), u', e')"
    using ref_lookup_world [of w2 True] w2(1,2) by (auto simp: ref_e0_def)
  then obtain w3 where g: "GetUserData ?U ?c2 w2 =
      (NewSuccessResponse ?c2 200 ''user data fetched successfully'' (UserMap (FromV1Domain (ref_user True))), w3)"
    by (auto simp: GetUserData_def CurrentUser_after_gate on_users_def ref_claims_def)
  let ?c' = "NewSuccessResponse ?c2 200 ''user data fetched successfully'' (UserMap (FromV1Domain (ref_user True)))"
  have live: "\<not> g_aborted ?c1" by (simp add: ref_entered_sel)
  have ch: "chain ?h ?c1 ref_state = Some (?c', ref_state\<lparr>as_world := w3\<rparr>)"
    unfolding gated_chain [OF live] using w2(3) g by (simp add: ref_state_def)
  have ok: "\<exists>x\<in>set (g_out ?c'). rStatus (snd x)" by simp
  obtain s' where run: "app_serve ref_gin ref_app ?c ref_state = Some (?c', s')"
    using ref_serve [OF set r entry, of ref_state] ch by auto
  have flows: "auth_flows (app_auth ref_app) rr_keys ref_dttl (h_env (ap_H ref_app)) ref_used ref_uv ref_coh pg_ts (\<lambda>i. i)"
    using ref_auth.auth_flows_axioms by simp
  have "ref_coh (w_users (as_world ref_state))" using ref_coh0 by (simp add: ref_state_def)
  from me_served_sound [OF flows ref_routing.gin_routing_axioms ref_polite(1) this _ _ _ run ok]
  obtain u rid where u: "g_out ?c' = [(200, \<lparr>rStatus = True, rMessage = ''user data fetched successfully'',
      rData = UserMap (FromV1Domain u), rRequestID = rid\<rparr>)]" by auto
  then have "FromV1Domain u = FromV1Domain (ref_user True)" by simp
  then have "uEmail u = ''ann@x.io''" by (simp add: FromV1Domain_def)
  with u run show ?thesis by (intro exI [of _ ?c'] exI [of _ s'] exI [of _ u]) simp
qed

text \<open>A fresh limiter admits the request.\<close>

lemma ref_admits:
  "\<exists>c' rl. rl_admit ref_rate ref_env c app_limiter e = (True, c', rl, e)"
  by (auto simp: rl_admit_def getLimiter_def writeRateLimitHeaders_def app_limiter_def NewRateLimiter_def ref_rate_def
      rb_allow_def Let_def)

lemma ref_admitted:
  assumes "g_xRequestID c \<noteq> ''''" and "\<not> g_aborted c" and "as_limiter s = app_limiter"
  obtains c3 rl where "chain (auth_guards ref_app @ es) (ref_entered c) s = chain es c3 (s\<lparr>as_limiter := rl\<rparr>)"
    "req_upto auth_limit c c3" "\<not> g_aborted c3"
proof -
  let ?c1 = "ref_entered c"
  obtain c2 rl where a: "rl_admit ref_rate ref_env ?c1 app_limiter (w_env (as_world s)) = (True, c2, rl, w_env (as_world s))"
    using ref_admits by blast
  have live: "\<not> g_aborted ?c1" and req: "req_upto first_limit c ?c1" using ref_entered_req [OF assms(1)] assms(2) by simp_all
  let ?c3 = "limit_body AuthBodyMaxBytes c2"
  have c2: "req_upto (\<lambda>b. b) ?c1 c2" "\<not> g_aborted c2" using admit_shape [OF a] live by simp_all
  then have c3: "req_upto auth_limit c ?c3" "\<not> g_aborted ?c3"
    using req_comp [OF req limit_body_req, of c2] by (simp_all add: limits_narrow limit_body_def split: option.splits)
  have "chain (auth_guards ref_app @ es) ?c1 s = chain es ?c3 (s\<lparr>as_limiter := rl\<rparr>)"
    using a c2(2) c3(2) assms(3)
    by (simp add: auth_guards_def rate_limit_mw_def BodySizeLimitMiddleware_def then_Next_def gin_Next_def of_ctx_def
        rl_Middleware_def)
  then show thesis using c3 that by blast
qed

theorem change_password_served_sound_witness:
  "\<exists>c' s' i v. app_serve ref_gin ref_app (ref_request ''PUT'' ''/api/v1/auth/password/change'') ref_state = Some (c', s') \<and>
     ref_uv (w_users (as_world s')) i = Some v \<and> VerifyPassword ref_env v ''Long_enough_1''"
proof -
  let ?p = "''/api/v1/auth/password/change''" and ?uc = "auth_NewUsecase ref_env ref_uc"
  let ?c = "ref_request ''PUT'' ?p" and ?h = "[auth_mw (au_jwt ref_uc) (au_redis ref_uc) False,
    then_Next (of_world (Handler_ChangePassword ref_H ?uc))]"
  let ?c1 = "ref_entered (?c\<lparr>g_fullPath := ?p\<rparr>)"
  obtain router where set: "setupRouter ref_gin ref_app = Some router" and r: "rg_handlers router = ref_handlers" by (rule ref_router)
  have entry: "((g_method ?c, g_path ?c), rg_handlers router @ auth_guards ref_app @ ?h) \<in>
      set (app_routes ref_gin ref_app router)"
    unfolding ref_routing.app_routes_eq [OF set] by (simp add: auth_endpoints_def Let_def)
  obtain c3 rl where adm: "chain (auth_guards ref_app @ ?h) ?c1 ref_state = chain ?h c3 (ref_state\<lparr>as_limiter := rl\<rparr>)"
    and c3: "req_upto auth_limit (?c\<lparr>g_fullPath := ?p\<rparr>) c3" "\<not> g_aborted c3"
    by (rule ref_admitted [of "?c\<lparr>g_fullPath := ?p\<rparr>" ref_state ?h]) (simp_all add: ref_state_def)
  let ?s3 = "ref_state\<lparr>as_limiter := rl\<rparr>"
  from c3 have "g_authorization c3 = ''Bearer '' @ ref_token" "g_body c3 = Some \<lparr>br_data = ''{}'', br_tooLarge = False\<rparr>"
    "g_out c3 = []"
    by (simp_all add: req_upto_def http_MaxBytesReader_def AuthBodyMaxBytes_def)
  from ref_change_runs [OF this(1,2)] this(3) obtain c' w' where
    n: "NewAuthMiddleware (au_jwt ref_uc) (au_redis ref_uc) False (Handler_ChangePassword ref_H ?uc) c3 (ref_world0 True []) = (c', w')"
    and ok: "rStatus (snd (last (g_out c')))" by auto
  from gated_change_last [OF n] ok have ok': "\<exists>x\<in>set (g_out c'). rStatus (snd x)" by auto
  have "chain (auth_guards ref_app @ ?h) ?c1 ref_state = chain ?h c3 ?s3" by (rule adm)
  also have "\<dots> = Some (c', ?s3\<lparr>as_world := w'\<rparr>)"
    unfolding gated_chain [OF c3(2)] using n by (simp add: ref_state_def)
  finally obtain s' where run: "app_serve ref_gin ref_app ?c ref_state = Some (c', s')"
    using ref_serve [OF set r entry, of ref_state] by auto
  have flows: "auth_flows (app_auth ref_app) rr_keys ref_dttl (h_env (ap_H ref_app)) ref_used ref_uv ref_coh pg_ts (\<lambda>i. i)"
    using ref_auth.auth_flows_axioms by simp
  have bc: "bcrypt_lib (h_env (ap_H ref_app))" using ref_bcrypt.bcrypt_lib_axioms by simp
  have req: "g_method ?c = ''PUT''" "g_path ?c = ?p" "g_out ?c = []" by simp_all
  obtain i req v where
    "bind_ChangePassword (ap_H ref_app) (map_option (\<lambda>r. http_MaxBytesReader r 4096) (g_body ?c)) = Inr req"
    "ref_uv (w_users (as_world s')) = (ref_uv (w_users (as_world ref_state)))(i \<mapsto> v)"
    "VerifyPassword (h_env (ap_H ref_app)) v (cpNewPassword req)"
    using change_password_served_sound [OF flows bc ref_routing.gin_routing_axioms ref_polite(1) req run ok'] by blast
  then show ?thesis using run by (auto simp: ref_H_def ref_bind_def http_MaxBytesReader_def)
qed

end
