(* ===== verification/Startup_Props.thy ===== *)
theory Startup_Props
  imports Startup Mailer_Props Server_Props
begin

text \<open>
  The properties of the process: the application that \<^verbatim>\<open>NewApp\<close> builds is the one the properties of the
  flows, the gate and the routes are about; a configuration that is rejected and every failure of the
  start end the process; and what the graceful stop closes, in which order, and what becomes of the
  mails.
\<close>

section \<open>The contracts of the assembled application\<close>

context redis_server
begin

lemma cache_contract: "redis_cache (NewRedisCache rc n) rv (wrap64 (n * Minute))"
  by (rule cache.redis_cache_axioms)

end

context users_table
begin

lemma repository_contract: "user_repository (NewUserRepository db) (domain_view tbl) ts uid low"
  by (rule repo.user_repository_axioms)

end

context ristretto_lib
begin

lemma local_contract: "ristretto_cache (NewRistrettoCache lib) cv"
  by (rule local_cache.ristretto_cache_axioms)

end

context jwt_impl
begin

lemma token_contract: "jwt_service (jwt_dict E G j) used"
  by (rule svc.jwt_service_axioms)

end

text \<open>What is documented of the packages that \<^verbatim>\<open>NewApp\<close> calls: every connection is a users table, every
  client speaks to a Redis server, every cache and the token package keep their laws.\<close>

locale server_packages =
  fixes L :: "('x, 'res, 'h, 'w, 'd, 'k, 'r, 's, 'l, 'e) server_lib"
    and tbl :: "'d \<Rightarrow> (string \<rightharpoonup> Users)" and ts :: "time \<Rightarrow> time" and uid :: "string \<Rightarrow> string"
    and low :: "string \<Rightarrow> string" and rv :: "'r \<Rightarrow> keyspace" and cv :: "'k \<Rightarrow> (string \<rightharpoonup> anyval)"
    and used :: "'e \<Rightarrow> string set" and meth :: "string \<Rightarrow> jwt_method"
  assumes tables: "users_table (sv_sqlx L h) tbl ts uid low"
    and servers: "redis_server (sv_redisClient L host password db) rv"
    and caches: "sv_ristrNewCache L b m n = Inr c \<Longrightarrow> ristretto_lib c cv"
    and tokens: "jwt_lib (h_env (sv_H L)) used (sv_golangJWT L) meth"
begin

lemma uuids: "uuid_lib (h_env (sv_H L)) used"
  using tokens by (rule jwt_lib.axioms(1))

lemma parts_flows:
  assumes "sv_ristrNewCache L b m n = Inr ristr" and "utf8_valid (ac_JWTIssuer cfg)"
  shows "auth_flows (app_auth (server_parts L cfg conn ristr a)) rv (wrap64 (ac_REDISExpired cfg * Minute))
    (h_env (sv_H L)) used (\<lambda>s. domain_view tbl (us_db s)) (coherent (domain_view tbl) cv) ts uid"
proof -
  let ?E = "h_env (sv_H L)"
  let ?uc = "\<lparr>uu_repo = NewUserRepository (sv_sqlx L conn), uu_ristrettoCache = NewRistrettoCache ristr,
      uu_BcryptCost = ac_BcryptCost cfg\<rparr>"
  have "users_parts ?E used (NewUserRepository (sv_sqlx L conn)) (domain_view tbl) ts uid low (NewRistrettoCache ristr) cv ?uc"
    using uuids users_table.repository_contract [OF tables] ristretto_lib.local_contract [OF caches [OF assms(1)]]
    by (simp add: users_parts_def users_parts_axioms_def)
  then have "users_service (users_dict ?E ?uc) ?E used (\<lambda>s. domain_view tbl (us_db s)) (coherent (domain_view tbl) cv) ts uid"
    by (rule users_parts.users_contract)
  moreover have "jwt_impl ?E used (sv_golangJWT L) meth (server_jwt cfg)"
    using tokens assms(2) by (simp add: jwt_impl_def jwt_impl_axioms_def server_jwt_def NewJWTServiceWithRefresh_def)
  then have "jwt_service (jwt_dict ?E (sv_golangJWT L) (server_jwt cfg)) used"
    by (rule jwt_impl.token_contract)
  ultimately show ?thesis
    using uuids redis_server.cache_contract [OF servers]
    by (simp add: auth_flows_def app_auth_def server_parts_def users_NewUsecase_dict Let_def)
qed

end

lemma NewApp_Booted:
  assumes "NewApp L cfg s e b = (Booted A, b')"
  obtains ristr where "sv_ristrNewCache L 64 (push_bit 30 1) 10000000 = Inr ristr"
    and "server_mailer L cfg s e = (app_asyncMailer A, app_mailerState A)"
    and "app_parts A = server_parts L cfg (app_db A) ristr (app_asyncMailer A)"
    and "app_HttpServer A = server_settings cfg"
    and "SetupSQLXPostgres (sv_driver L) cfg (bs_db b) = (Inr (app_db A), bs_db b')"
    and "bs_provider b' = Some (Some (app_db A))"
    and "setupRouter (sv_gin L) (app_parts A) \<noteq> None"
proof -
  from assms obtain tr g conn w cors ristr m st where
    t: "SetupTracing (sv_quote L) (sv_otel L) (server_tracing cfg) (bs_otel b) = (Inr tr, g)"
    and d: "SetupSQLXPostgres (sv_driver L) cfg (bs_db b) = (Inr conn, w)"
    and c: "cors_New (sv_gin L) (cors_settings cfg) = Some cors"
    and r: "sv_ristrNewCache L 64 (push_bit 30 1) 10000000 = Inr ristr"
    and m: "server_mailer L cfg s e = (m, st)"
    by (auto simp: NewApp_def Let_def split: prod.splits sum.splits option.splits)
  with assms have A: "A = \<lparr>app_HttpServer = server_settings cfg, app_parts = server_parts L cfg conn ristr m, app_db = conn,
      app_asyncMailer = m, app_mailerState = st, app_tracerShutdown = tr\<rparr>"
    and b': "b' = b\<lparr>bs_otel := g, bs_db := w, bs_provider := Some (Some conn)\<rparr>"
    by (auto simp: NewApp_def Let_def RegisterDBStatsProvider_def)
  have "setupRouter (sv_gin L) (server_parts L cfg conn ristr m) \<noteq> None"
    using c by (simp add: setupRouter_def server_parts_def Let_def)
  with that [OF r] d m show thesis
    by (simp add: A b')
qed

text \<open>C35: the application that \<^verbatim>\<open>NewApp\<close> returns satisfies the hypotheses of the properties of the
  authentication flows, whatever the configuration, when the packages it calls behave as documented:
  the cache, the table, the tokens and the identifiers keep their contracts over the components it
  composed, with the configured lifetime of cache entries; its mailer is the asynchronous one in its
  initial state; its router is complete; and with an empty cache the state is coherent.\<close>

theorem new_app_meets_contracts:
  assumes "server_packages L tbl ts uid low rv cv used meth" and "NewApp L cfg s e b = (Booted A, b')"
    and "utf8_valid (ac_JWTIssuer cfg)"
  shows "auth_flows (app_auth (app_parts A)) rv (wrap64 (ac_REDISExpired cfg * Minute)) (h_env (sv_H L)) used
      (\<lambda>s. domain_view tbl (us_db s)) (coherent (domain_view tbl) cv) ts uid \<and>
    au_mailer (app_auth (app_parts A)) = async_OTPMailer (app_asyncMailer A) \<and>
    mailer_ok (app_asyncMailer A) \<and> mailer_inv (app_asyncMailer A) (app_mailerState A) \<and>
    (\<exists>router. setupRouter (sv_gin L) (app_parts A) = Some router) \<and>
    (\<forall>d k. cv k = Map.empty \<and> (\<forall>i u. domain_view tbl d i = Some u \<longrightarrow> uEmail u \<noteq> '''') \<longrightarrow>
       coherent (domain_view tbl) cv \<lparr>us_db = d, us_cache = k\<rparr>)"
  using assms(2)
proof (rule NewApp_Booted)
  fix ristr
  assume r: "sv_ristrNewCache L 64 (push_bit 30 1) 10000000 = Inr ristr"
    and m: "server_mailer L cfg s e = (app_asyncMailer A, app_mailerState A)"
    and A: "app_parts A = server_parts L cfg (app_db A) ristr (app_asyncMailer A)"
    and router: "setupRouter (sv_gin L) (app_parts A) \<noteq> None"
  have "mailer_ok (app_asyncMailer A) \<and> mailer_inv (app_asyncMailer A) (app_mailerState A)"
    using m by (auto simp: server_mailer_def Let_def dest: new_mailer_ok)
  moreover have "au_mailer (app_auth (app_parts A)) = async_OTPMailer (app_asyncMailer A)"
    by (simp add: A app_auth_def server_parts_def Let_def)
  moreover have "coherent (domain_view tbl) cv \<lparr>us_db = d, us_cache = k\<rparr>"
    if "cv k = Map.empty" "\<forall>i u. domain_view tbl d i = Some u \<longrightarrow> uEmail u \<noteq> ''''" for d k
    using that by (simp add: coherent_def)
  ultimately show ?thesis
    using server_packages.parts_flows [OF assms(1) r assms(3)] router A by auto
qed

section \<open>The start of the process\<close>

lemma api_init_ends:
  assumes "zap_logging Z lines" and "default_ready (pr_log p)"
  shows "case InitializeAppConfig X (pr_cfg p) of
      (Some err, c) \<Rightarrow> \<exists>p'. api_init X Z ord p = Exits p' \<and> pr_rest p' = pr_rest p
    | (None, c) \<Rightarrow> \<exists>p'. api_init X Z ord p = Returns p' \<and> pr_cfg p' = c \<and> pr_rest p' = pr_rest p \<and> default_ready (pr_log p')"
proof -
  obtain r c where c: "InitializeAppConfig X (pr_cfg p) = (r, c)"
    by fastforce
  show ?thesis
  proof (cases r)
    case None
    let ?p = "p\<lparr>pr_cfg := c, pr_log := snd (InitDefault Z (loggerConfig c) InstanceZap (pr_log p))\<rparr>"
    have "default_ready (pr_log ?p)"
      using InitDefault_ready assms(2) by simp
    from process_log_ends [OF assms(1) this, where place = "''cmd/api/main.go''" and ord = ord and lvl = InfoLevel and msg = "''configuration loaded''" and cat = "''config''"]
    show ?thesis
      using c None by (auto simp: api_init_def Let_def split: log_end.splits)
  next
    case (Some err)
    have "default_ready (pr_log (p\<lparr>pr_cfg := c\<rparr>))"
      using assms(2) by simp
    from process_log_ends [OF assms(1) this, where place = "''cmd/api/main.go''" and ord = ord and lvl = FatalLevel and msg = "Error err" and cat = "''config''"]
    show ?thesis
      using c Some by (auto simp: api_init_def Let_def split: log_end.splits)
  qed
qed

lemma api_announce:
  assumes "zap_logging Z lines" and "default_ready (pr_log p)"
  shows "\<exists>p'. api_main Z ord any_int numCPU newApp run p = api_serve Z ord newApp run p' \<and>
    default_ready (pr_log p') \<and> pr_cfg p' = pr_cfg p \<and> pr_rest p' = pr_rest p"
proof -
  from assms(2) obtain l where l: "ls_defaultLogger (pr_log p) = Some l"
    by (auto simp: default_ready_def)
  let ?k = "zapLogger_WithFields ord l (category ''config'')"
  let ?r = "zapLogger_logf Z InfoLevel ?k ''The project is running on %d CPU(s)'' [GoOther (any_int numCPU)]
      [At ''cmd/api/main.go''] (ls_out (pr_log p))"
  have "ends_like InfoLevel (log_Sprintf Z ''The project is running on %d CPU(s)'' [GoOther (any_int numCPU)]) ?r"
    by (simp add: zapLogger_logf_def zap_logging.zap_ends [OF assms(1)])
  then obtain w where w: "?r = Returns w"
    by (cases ?r) simp_all
  have k: "logger_WithFields ord (category ''config'') (pr_log p) = Some ?k"
    using l by (simp add: logger_WithFields_def)
  define p1 where "p1 = p\<lparr>pr_log := (pr_log p)\<lparr>ls_out := w\<rparr>\<rparr>"
  define p' where "p' = (if numCPU > 2 then p1\<lparr>pr_maxprocs := numCPU div 2\<rparr> else p1)"
  have "default_ready (pr_log p')"
    using assms(2) by (simp add: p'_def p1_def default_ready_def)
  moreover have "pr_cfg p' = pr_cfg p" "pr_rest p' = pr_rest p"
    by (simp_all add: p'_def p1_def)
  moreover have "in_process p (log_keeps (pr_log p) ?r) = Returns p1"
    by (simp add: w p1_def)
  ultimately show ?thesis
    unfolding api_main_def k by (intro exI [of _ p'] conjI) (simp_all only: option.case log_bind.simps Let_def p'_def [symmetric])
qed

lemma api_serve_ends:
  assumes "zap_logging Z lines" and "default_ready (pr_log p)"
  shows "case newApp (pr_cfg p) (pr_rest p) of
      (BootPanic, b) \<Rightarrow> \<exists>m p'. api_serve Z ord newApp run p = Panics m p' \<and> pr_rest p' = b
    | (BootError err, b) \<Rightarrow> \<exists>p'. api_serve Z ord newApp run p = Panics (Error err) p' \<and> pr_rest p' = b
    | (Booted app, b) \<Rightarrow>
        (case run app b of
           RunReturns None logged b' \<Rightarrow> \<exists>p'. api_serve Z ord newApp run p = Returns p' \<and> pr_rest p' = b'
         | RunReturns (Some err) logged b' \<Rightarrow> \<exists>p'. api_serve Z ord newApp run p = Exits p' \<and> pr_rest p' = b'
         | RunFatal text b' \<Rightarrow> \<exists>p'. api_serve Z ord newApp run p = Exits p' \<and> pr_rest p' = b')"
proof -
  note ends = process_log_ends [OF assms(1), where place = "''cmd/api/main.go''" and ord = ord]
  have fatal: "\<exists>p'. main_log Z ord FatalLevel msg cat (p\<lparr>pr_rest := b\<rparr>) = Exits p' \<and> pr_rest p' = b" for msg cat b
    using assms(2) ends [where p = "p\<lparr>pr_rest := b\<rparr>" and lvl = FatalLevel and msg = msg and cat = cat] by (auto split: log_end.splits)
  have panic: "\<exists>p'. main_log Z ord PanicLevel msg cat (p\<lparr>pr_rest := b\<rparr>) = Panics msg p' \<and> pr_rest p' = b" for msg cat b
    using assms(2) ends [where p = "p\<lparr>pr_rest := b\<rparr>" and lvl = PanicLevel and msg = msg and cat = cat] by (auto split: log_end.splits)
  obtain boot b where n: "newApp (pr_cfg p) (pr_rest p) = (boot, b)"
    by fastforce
  show ?thesis
  proof (cases boot)
    case (BootError err)
    from panic [of "Error err" "''server''" b] obtain p3 where
      "main_log Z ord PanicLevel (Error err) ''server'' (p\<lparr>pr_rest := b\<rparr>) = Panics (Error err) p3" "pr_rest p3 = b"
      by blast
    with n BootError show ?thesis
      by (simp add: api_serve_def)
  next
    case BootPanic
    with n show ?thesis
      by (auto simp: api_serve_def)
  next
    case (Booted app)
    with n show ?thesis
      by (auto simp: api_serve_def fatal split: run_end.splits option.splits)
  qed
qed

text \<open>C36: how the process ends. A configuration that is rejected ends it before anything is opened; a
  failure of \<^verbatim>\<open>NewApp\<close> panics with its error, and nothing is served; a failure of the listener or of the
  stop ends it with a failure; it returns normally only after \<^verbatim>\<open>Run\<close> did. This rests on the default logger:
  without one, \<^verbatim>\<open>logger.Fatal\<close> returns and the process would go on.\<close>

theorem api_process_ends:
  assumes zap: "zap_logging Z lines"
  shows "case InitializeAppConfig X (pr_cfg p) of
      (Some err, c) \<Rightarrow> \<exists>p'. api_process X Z ord any_int numCPU newApp run p = Exits p' \<and> pr_rest p' = pr_rest p
    | (None, c) \<Rightarrow>
        (case newApp c (pr_rest p) of
           (BootPanic, b) \<Rightarrow> \<exists>m p'. api_process X Z ord any_int numCPU newApp run p = Panics m p' \<and> pr_rest p' = b
         | (BootError err, b) \<Rightarrow>
             \<exists>p'. api_process X Z ord any_int numCPU newApp run p = Panics (Error err) p' \<and> pr_rest p' = b
         | (Booted app, b) \<Rightarrow>
             (case run app b of
                RunReturns None logged b' \<Rightarrow>
                  \<exists>p'. api_process X Z ord any_int numCPU newApp run p = Returns p' \<and> pr_rest p' = b'
              | RunReturns (Some err) logged b' \<Rightarrow>
                  \<exists>p'. api_process X Z ord any_int numCPU newApp run p = Exits p' \<and> pr_rest p' = b'
              | RunFatal text b' \<Rightarrow>
                  \<exists>p'. api_process X Z ord any_int numCPU newApp run p = Exits p' \<and> pr_rest p' = b'))"
proof -
  let ?p = "p\<lparr>pr_log := logger_init Z (pr_log p)\<rparr>"
  have ready: "default_ready (pr_log ?p)"
    using logger_init_ready by simp
  have eq: "api_process X Z ord any_int numCPU newApp run p =
      log_bind (api_init X Z ord ?p) (api_main Z ord any_int numCPU newApp run)"
    by (simp add: api_process_def Let_def)
  note init = api_init_ends [OF zap ready, where X = X and ord = ord]
  obtain r c where c: "InitializeAppConfig X (pr_cfg p) = (r, c)"
    by fastforce
  show ?thesis
  proof (cases r)
    case (Some err)
    then show ?thesis
      using init c by (auto simp: eq)
  next
    case None
    with init c obtain p1 where p1: "api_init X Z ord ?p = Returns p1" "pr_cfg p1 = c" "pr_rest p1 = pr_rest p"
      "default_ready (pr_log p1)"
      by auto
    obtain p2 where p2: "api_main Z ord any_int numCPU newApp run p1 = api_serve Z ord newApp run p2"
      "default_ready (pr_log p2)" "pr_cfg p2 = c" "pr_rest p2 = pr_rest p"
      using api_announce [OF zap p1(4), where ord = ord and any_int = any_int and numCPU = numCPU] p1(2,3) by metis
    from api_serve_ends [OF zap p2(2), where ord = ord and newApp = newApp and run = run] show ?thesis
      unfolding c None eq p1(1) log_bind.simps p2(1,3,4) by simp
  qed
qed

section \<open>The graceful stop\<close>

datatype closed_part = PHttp | PLimiter | PMailer | PDatabase | PRedis | PTracer

text \<open>The parts of the application while it stops: \<open>calls\<close> are the calls made so far, \<open>mail\<close> is the state of
  the mailer. Only the mailer's shutdown closes its queue; around and during the other calls its workers,
  and the requests that are still served while the listener closes, may go on.\<close>

locale shutdown_parts =
  fixes cl :: "'z closers" and E :: "'e goenv" and a :: "'m AsyncOTPMailer"
    and mail :: "'z \<Rightarrow> ('m, 'e) mailer_state" and calls :: "'z \<Rightarrow> closed_part list"
  assumes http: "cl_HttpShutdown cl z = (r, z') \<Longrightarrow>
      async_reach E a (mail z) (mail z') \<and> ms_stop (mail z') = ms_stop (mail z) \<and> calls z' = calls z @ [PHttp]"
    and limiter: "\<exists>stop. cl_limiterStop cl = Some stop \<and>
      (\<forall>z. async_reach E a (mail z) (mail (stop z)) \<and> calls (stop z) = calls z @ [PLimiter])"
    and mailer: "\<exists>close. cl_mailerShutdown cl = Some close \<and>
      (\<forall>z r z'. close z = (r, z') \<longrightarrow>
         (\<exists>schedule. async_Shutdown E a schedule (mail z) = (r, mail z')) \<and> calls z' = calls z @ [PMailer])"
    and database: "cl_dbClose cl z = (r, z') \<Longrightarrow> async_reach E a (mail z) (mail z') \<and> calls z' = calls z @ [PDatabase]"
    and redis: "cl_redisClose cl z = (r, z') \<Longrightarrow> async_reach E a (mail z) (mail z') \<and> calls z' = calls z @ [PRedis]"
    and tracer: "\<exists>close. cl_tracerShutdown cl = Some close \<and>
      (\<forall>z r z'. close z = (r, z') \<longrightarrow> async_reach E a (mail z) (mail z') \<and> calls z' = calls z @ [PTracer])"
begin

text \<open>The steps after the listener closed, in order; the errors are only logged.\<close>

lemma closes_all:
  assumes "App_Run cl SignalReceived z = RunReturns r logged z'" and "cl_HttpShutdown cl z = (None, z1)"
  shows "r = None \<and> calls z' = calls z1 @ [PLimiter, PMailer, PDatabase, PRedis, PTracer] \<and>
    (\<exists>s2 schedule m s3. async_reach E a (mail z1) s2 \<and> async_Shutdown E a schedule s2 = (m, s3) \<and>
       async_reach E a s3 (mail z') \<and> (m \<noteq> None \<longrightarrow> logged \<noteq> []))"
proof -
  obtain stop where stop: "cl_limiterStop cl = Some stop"
    "async_reach E a (mail z1) (mail (stop z1))" "calls (stop z1) = calls z1 @ [PLimiter]"
    using limiter by blast
  obtain close where close: "cl_mailerShutdown cl = Some close" using mailer by blast
  obtain m z3 where c: "close (stop z1) = (m, z3)" by fastforce
  with close mailer obtain schedule where
    m: "async_Shutdown E a schedule (mail (stop z1)) = (m, mail z3)" "calls z3 = calls (stop z1) @ [PMailer]"
    by fastforce
  obtain d z4 where d: "cl_dbClose cl z3 = (d, z4)" by fastforce
  obtain q z5 where q: "cl_redisClose cl z4 = (q, z5)" by fastforce
  obtain flush where flush: "cl_tracerShutdown cl = Some flush" using tracer by blast
  obtain t z6 where t: "flush z5 = (t, z6)" by fastforce
  with flush tracer have f: "async_reach E a (mail z5) (mail z6)" "calls z6 = calls z5 @ [PTracer]" by fastforce+
  have "z' = z6" "r = None" "m \<noteq> None \<longrightarrow> logged \<noteq> []"
    using assms stop(1) close c d q flush t
    by (auto simp: App_Run_def close_logged_def Let_def split: option.splits)
  moreover have "async_reach E a (mail z3) (mail z6)"
    using reach_trans [OF f(1)] reach_trans [of E a "mail z4" "mail z5" "mail z3"] database [OF d] redis [OF q] by blast
  moreover have "calls z6 = calls z1 @ [PLimiter, PMailer, PDatabase, PRedis, PTracer]"
    using stop(3) m(2) f(2) database [OF d] redis [OF q] by simp
  ultimately show ?thesis
    using stop(2) m(1) by blast
qed

end

lemma shutdown_done_step: "shutdown_done st \<Longrightarrow> async_step E a ev st = Some st' \<Longrightarrow> shutdown_done st'"
  by (cases ev) (auto simp: shutdown_done_def list_all_length async_enqueue_def split: if_splits list.splits worker.splits prod.splits)

lemma shutdown_done_reach: "async_reach E a st st' \<Longrightarrow> shutdown_done st \<Longrightarrow> shutdown_done st'"
  by (induction rule: async_reach.induct) (auto intro: shutdown_done_step)

lemma async_Shutdown_reach:
  assumes "async_Shutdown E a schedule st = (r, st')"
  shows "async_reach E a st st' \<and> (r = None \<longrightarrow> shutdown_done st')"
proof -
  let ?st = "if ms_stop st then st else st\<lparr>ms_stop := True, ms_closed := True\<rparr>"
  have "async_reach E a st ?st"
  proof (cases "ms_stop st")
    case False
    then have s1: "async_reach E a st (st\<lparr>ms_stop := True\<rparr>)"
      by (intro async_reach.event [OF async_reach.start, of E a MStop]) simp
    show ?thesis
    proof (cases "ms_closed st")
      case True
      then have "st\<lparr>ms_stop := True, ms_closed := True\<rparr> = st\<lparr>ms_stop := True\<rparr>"
        by (cases st) simp
      with s1 False show ?thesis by simp
    next
      case c: False
      have "async_reach E a st (st\<lparr>ms_stop := True, ms_closed := True\<rparr>)"
        by (rule async_reach.event [OF s1, of MClose]) (use c in simp)
      with False show ?thesis by simp
    qed
  qed (simp add: async_reach.start)
  with assms show ?thesis
    by (auto simp: async_Shutdown_def Let_def split: option.splits if_splits dest: run_reach)
qed

text \<open>C37: what a signal does. If the listener closes in time, every part is closed, in the order of the code,
  whatever fails on the way, and \<^verbatim>\<open>Run\<close> returns nil; if moreover nothing was logged, no mail is left in the
  queue: every accepted job was sent, has failed, or was given up. If the listener does not close in time,
  \<^verbatim>\<open>Run\<close> returns its error and closes nothing else: the mailer is not stopped and what it has queued is lost
  with the process.\<close>

theorem graceful_stop:
  assumes parts: "shutdown_parts cl E a mail calls" and inv: "mailer_ok a" "mailer_inv a (mail z)"
    and run: "App_Run cl SignalReceived z = RunReturns r logged z'"
  shows "case fst (cl_HttpShutdown cl z) of
      None \<Rightarrow> r = None \<and> calls z' = calls z @ [PHttp, PLimiter, PMailer, PDatabase, PRedis, PTracer] \<and>
        (logged = [] \<longrightarrow> ms_queue (mail z') = [] \<and>
           mset (ms_accepted (mail z')) = mset (ms_sent (mail z')) + mset (ms_failed (mail z')) + mset (ms_dropped (mail z')))
    | Some err \<Rightarrow> r = Some (ErrorString (''error when shutdown server: '' @ Error err)) \<and>
        calls z' = calls z @ [PHttp] \<and> ms_stop (mail z') = ms_stop (mail z) \<and> async_reach E a (mail z) (mail z')"
proof -
  obtain h z1 where h: "cl_HttpShutdown cl z = (h, z1)" by fastforce
  note http = shutdown_parts.http [OF parts h]
  show ?thesis
  proof (cases h)
    case None
    with shutdown_parts.closes_all [OF parts run] h obtain s2 schedule m s3 where
      c: "r = None" "calls z' = calls z1 @ [PLimiter, PMailer, PDatabase, PRedis, PTracer]"
        "async_reach E a (mail z1) s2" "async_Shutdown E a schedule s2 = (m, s3)" "async_reach E a s3 (mail z')"
        "m \<noteq> None \<longrightarrow> logged \<noteq> []"
      by auto
    have "async_reach E a (mail z) (mail z')"
      using c(5) async_Shutdown_reach [OF c(4)] c(3) http by (blast intro: reach_trans)
    then have "mailer_inv a (mail z')"
      using inv by (rule reach_inv)
    moreover have "shutdown_done (mail z')" if "logged = []"
      using that c(5,6) async_Shutdown_reach [OF c(4)] shutdown_done_reach by blast
    ultimately show ?thesis
      using done_all_ended [OF _ _ inv(1)] c(1,2) http h None by auto
  next
    case (Some err)
    with run h http show ?thesis by (simp add: App_Run_def)
  qed
qed

section \<open>Evaluated runs\<close>

definition ref_lib ::
  "(string, (string \<times> string) list, ref_handle, ref_handle \<Rightarrow> pool_settings, ref_db, ref_ristr, ref_redis, bool list,
    ref_bucket, ref_world) server_lib" where
  "ref_lib =
     \<lparr>sv_quote = (\<lambda>s. s), sv_otel = ref_otel, sv_driver = ref_driver, sv_sqlx = (\<lambda>h. ref_sqlx), sv_dbPing = (\<lambda>h e. (None, e)),
      sv_redisClient = (\<lambda>host password db. ref_client), sv_redisPing = (\<lambda>host password db e. (None, e)),
      sv_ristrNewCache = (\<lambda>b m n. Inr ref_ristr_lib), sv_golangJWT = ref_jwtlib, sv_year = (\<lambda>t. 2024),
      sv_DialAndSend = (\<lambda>d m fs. script_send (mg_Body m) (mg_To m) fs), sv_H = ref_H, sv_rate = ref_rate,
      sv_fmt = ap_fmt ref_app, sv_gin = ref_gin\<rparr>"

lemma ref_lib_sel [simp]:
  "sv_driver ref_lib = ref_driver" "sv_sqlx ref_lib h = ref_sqlx" "sv_redisClient ref_lib host password db = ref_client"
  "sv_ristrNewCache ref_lib b m n = Inr ref_ristr_lib" "sv_golangJWT ref_lib = ref_jwtlib" "sv_H ref_lib = ref_H"
  "sv_gin ref_lib = ref_gin" "sv_otel ref_lib = ref_otel"
  by (simp_all add: ref_lib_def)

lemma ref_H_env [simp]: "h_env ref_H = ref_env"
  by (simp add: ref_H_def)

interpretation ref_packages: server_packages ref_lib rd_tbl pg_ts "\<lambda>i. i" "map byte_to_lower" rr_keys rk_map ref_used ref_meth
proof (rule server_packages.intro)
  show "jwt_lib (h_env (sv_H ref_lib)) ref_used (sv_golangJWT ref_lib) ref_meth"
    using ref_jwt.jwt_impl_axioms unfolding ref_lib_sel ref_H_env by (rule jwt_impl.axioms(1))
  show "redis_server (sv_redisClient ref_lib host password db) rr_keys" for host password db
    unfolding ref_lib_sel by (rule ref_redis.redis_server_axioms)
  show "users_table (sv_sqlx ref_lib h) rd_tbl pg_ts (\<lambda>i. i) (map byte_to_lower)" for h
    unfolding ref_lib_sel by (rule ref_table.users_table_axioms)
  show "ristretto_lib c rk_map" if "sv_ristrNewCache ref_lib b m n = Inr c" for b m n c
    using that ref_ristr.ristretto_lib_axioms by simp
qed

lemma ref_boots:
  "\<exists>A b'. NewApp ref_lib (applyDefaults ref_settings) [] ref_e0
     \<lparr>bs_otel = \<lparr>og_provider = None, og_propagators = []\<rparr>, bs_db = no_pool, bs_provider = None\<rparr> = (Booted A, b')"
proof -
  have x: "ac_OTelExporter (applyDefaults ref_settings) = ''''"
    by code_simp
  have origins: "AllowedOriginsList (applyDefaults ref_settings) \<noteq> []"
    by code_simp
  have cors: "cors_New ref_gin (cors_settings (applyDefaults ref_settings)) = Some quiet_mw"
    using origins by (simp add: ref_gin_def cors_settings_def Let_def)
  obtain h w where db: "SetupSQLXPostgres ref_driver (applyDefaults ref_settings) no_pool = (Inr h, w)"
    using database_ref by blast
  show ?thesis
    using x cors db by (simp add: NewApp_def SetupTracing_def server_tracing_def Let_def split: prod.splits)
qed

theorem new_app_meets_contracts_witness:
  "\<exists>A b'. NewApp ref_lib (applyDefaults ref_settings) [] ref_e0
      \<lparr>bs_otel = \<lparr>og_provider = None, og_propagators = []\<rparr>, bs_db = no_pool, bs_provider = None\<rparr> = (Booted A, b') \<and>
     auth_flows (app_auth (app_parts A)) rr_keys (5 * Minute) ref_env ref_used ref_uv ref_coh pg_ts (\<lambda>i. i)"
proof -
  obtain A b' where run: "NewApp ref_lib (applyDefaults ref_settings) [] ref_e0
      \<lparr>bs_otel = \<lparr>og_provider = None, og_propagators = []\<rparr>, bs_db = no_pool, bs_provider = None\<rparr> = (Booted A, b')"
    using ref_boots by blast
  have c: "ac_REDISExpired (applyDefaults ref_settings) = 5" "ac_JWTIssuer (applyDefaults ref_settings) = ''go-rest''"
    by code_simp+
  have "utf8_valid ''go-rest''"
    by code_simp
  with new_app_meets_contracts [OF ref_packages.server_packages_axioms run] c run show ?thesis
    by (auto simp: wrap64_id in_int64_def duration_defs)
qed

theorem api_process_ends_witness:
  "\<exists>p'. api_process (ref_config_lib\<lparr>viper_ReadInConfig := Some (ErrorString ''no .env file'')\<rparr>) ref_zap ref_range (\<lambda>n. n) 4
     (\<lambda>c b. (Booted (), b + 1)) (\<lambda>app b. RunReturns None [] b)
     \<lparr>pr_log = \<lparr>ls_defaultLogger = None, ls_out = []\<rparr>, pr_cfg = ref_settings, pr_maxprocs = 4, pr_rest = 0 :: nat\<rparr> = Exits p' \<and>
     pr_rest p' = 0"
proof -
  let ?X = "ref_config_lib\<lparr>viper_ReadInConfig := Some (ErrorString ''no .env file'')\<rparr>"
  let ?p = "\<lparr>pr_log = \<lparr>ls_defaultLogger = None, ls_out = []\<rparr>, pr_cfg = ref_settings, pr_maxprocs = 4, pr_rest = 0 :: nat\<rparr>"
  have "InitializeAppConfig ?X (pr_cfg ?p) = (Some ErrLoadConfig, ref_settings)"
    by (simp add: InitializeAppConfig_def)
  with api_process_ends [OF ref_logging.zap_logging_axioms, where X = ?X and p = ?p and ord = ref_range and any_int = "\<lambda>n. n"
      and numCPU = 4 and newApp = "\<lambda>c b. (Booted (), b + 1)" and run = "\<lambda>app b. RunReturns None [] b"]
  show ?thesis
    by simp
qed

definition ref_closers ::
  "goerr option \<Rightarrow> mail_event list \<Rightarrow> ((bool list, ref_world) mailer_state \<times> closed_part list) closers" where
  "ref_closers h schedule =
     \<lparr>cl_HttpShutdown = (\<lambda>(m, c). (h, (m, c @ [PHttp]))), cl_limiterStop = Some (\<lambda>(m, c). (m, c @ [PLimiter])),
      cl_mailerShutdown = Some (\<lambda>(m, c). case async_Shutdown ref_env (fst (ref_mailer [])) schedule m of (r, m) \<Rightarrow> (r, (m, c @ [PMailer]))),
      cl_dbClose = (\<lambda>(m, c). (Some (ErrorString ''sql: database is closed''), (m, c @ [PDatabase]))),
      cl_redisClose = (\<lambda>(m, c). (None, (m, c @ [PRedis]))),
      cl_tracerShutdown = Some (\<lambda>(m, c). (None, (m, c @ [PTracer])))\<rparr>"

interpretation ref_shutdown: shutdown_parts "ref_closers h schedule" ref_env "fst (ref_mailer [])" fst snd for h schedule
  by unfold_locales (auto simp: ref_closers_def intro: async_reach.start split: prod.splits)

theorem graceful_stop_witness:
  "\<exists>m'. App_Run (ref_closers None [MLeave 0]) SignalReceived (snd (ref_mailer []), []) =
       RunReturns None [''error closing database: sql: database is closed'']
         (m', [PHttp, PLimiter, PMailer, PDatabase, PRedis, PTracer]) \<and> shutdown_done m'"
proof -
  let ?a = "fst (ref_mailer [])" and ?s = "snd (ref_mailer [])"
  obtain m' where run: "App_Run (ref_closers None [MLeave 0]) SignalReceived (?s, []) =
       RunReturns None [''error closing database: sql: database is closed'']
         (m', [PHttp, PLimiter, PMailer, PDatabase, PRedis, PTracer])" and d: "shutdown_done m'"
    by (simp add: App_Run_def ref_closers_def close_logged_def async_Shutdown_def ref_mail_defs shutdown_done_def Let_def)
  have ok: "mailer_ok ?a" "mailer_inv ?a ?s"
    using new_mailer_ok [of "\<lparr>mail_SendOTP = script_send, mail_SendPasswordReset = script_send\<rparr>" 1 2 2 Second "[]" ref_e0 ?a ?s]
    by (simp_all add: ref_mailer_def)
  from graceful_stop [OF ref_shutdown.shutdown_parts_axioms ok(1) _ run] ok(2) run d show ?thesis
    by auto
qed

text \<open>A production setting for the origins that holds separators only is accepted and gives an empty list; a
  cross-origin middleware that refuses such a list makes \<^verbatim>\<open>NewApp\<close> panic.\<close>

lemma blank_origins_panic:
  "InitializeAppConfig (ref_config_lib\<lparr>viper_Unmarshal := (\<lambda>c. (None, ref_settings\<lparr>ac_AllowedOrigins := '',''\<rparr>))\<rparr>) ref_settings =
     (None, applyDefaults (ref_settings\<lparr>ac_AllowedOrigins := '',''\<rparr>))"
  "\<exists>b'. NewApp ref_lib (applyDefaults (ref_settings\<lparr>ac_AllowedOrigins := '',''\<rparr>)) [] ref_e0
     \<lparr>bs_otel = \<lparr>og_provider = None, og_propagators = []\<rparr>, bs_db = no_pool, bs_provider = None\<rparr> = (BootPanic, b')"
proof -
  let ?c = "applyDefaults (ref_settings\<lparr>ac_AllowedOrigins := '',''\<rparr>)"
  let ?X = "ref_config_lib\<lparr>viper_Unmarshal := (\<lambda>c. (None, ref_settings\<lparr>ac_AllowedOrigins := '',''\<rparr>))\<rparr>"
  have "config_check ?X ?c = None"
    by code_simp
  then show "InitializeAppConfig ?X ref_settings = (None, ?c)"
    by (simp add: InitializeAppConfig_def) (simp add: ref_config_lib_def)
  have "ac_OTelExporter ?c = ''''" "AllowedOriginsList ?c = []" "ac_DBPostgreURL ?c = ''postgres://db/app''"
    "ac_Environment ?c = EnvironmentProduction"
    by code_simp+
  then show "\<exists>b'. NewApp ref_lib ?c [] ref_e0
     \<lparr>bs_otel = \<lparr>og_provider = None, og_propagators = []\<rparr>, bs_db = no_pool, bs_provider = None\<rparr> = (BootPanic, b')"
    by (simp add: NewApp_def SetupTracing_def server_tracing_def SetupSQLXPostgres_def InitializeSQLXDatabase_def ref_driver_def
        postgres_dsn_def EnvironmentProduction_def EnvironmentDevelopment_def cors_settings_def ref_gin_def)
qed

end
