(* ===== verification/Log_Props.thy ===== *)
theory Log_Props
  imports Logger Http_Chain
begin

text \<open>
  What the lines of the application log say: the place they name as their origin, for each way of calling
  the package, and the identifiers that join them with the response and the security log.
\<close>

text \<open>The context of a request after \<^verbatim>\<open>RequestIDMiddleware\<close>, as the logger looks it up.\<close>

definition request_context :: "gin_ctx \<Rightarrow> 'v go_context" where
  "request_context c =
     Some (\<lambda>k. if k = TraceIDKey \<and> g_traceID c \<noteq> '''' then Some (GoString (g_traceID c))
               else if k = RequestIDKey \<and> g_ctxRequestID c \<noteq> '''' then Some (GoString (g_ctxRequestID c))
               else None)"

lemma request_context_ids [simp]:
  "GetRequestIDFromContext (request_context c) = g_ctxRequestID c"
  "GetTraceIDFromContext (request_context c) = g_traceID c"
  by (simp_all add: GetRequestIDFromContext_def GetTraceIDFromContext_def ctx_string_def request_context_def
      TraceIDKey_def RequestIDKey_def)

lemma RequestID_pick_sets:
  assumes "RequestID_pick E c e = (c', e')" and "\<And>e. fst (uuid_NewString E e) \<noteq> ''''"
  obtains rid where "rid \<noteq> ''''" and "g_ctxRequestID c' = rid" and "g_headers c' ''X-Request-ID'' = Some rid"
    and "evRequestID (auditFromGin c') = rid" and "evTraceID (auditFromGin c') = g_traceID c'"
    and "g_xRequestID c \<noteq> '''' \<longrightarrow> rid = g_xRequestID c" and "\<And>t. g_span c = Some t \<Longrightarrow> g_traceID c' = t"
proof
  show "g_ctxRequestID c' \<noteq> ''''"
    using assms(1) assms(2) [of e]
    by (auto simp: RequestID_pick_def gin_Set_def gin_SetHeader_def Let_def split: if_splits prod.splits option.splits)
qed (use assms(1) in \<open>auto simp: RequestID_pick_def gin_Set_def gin_SetHeader_def auditFromGin_def RequestIDHeader_def Let_def
       split: if_splits prod.splits option.splits\<close>)

text \<open>C39: for a request that passed \<^verbatim>\<open>RequestIDMiddleware\<close>, the line that any context-aware call of the
  package writes carries the identifier that the response header and the audit event carry, and the trace
  identifier of the audit event when a span is active. Nothing below the level of the logger is written.\<close>

theorem log_lines_correlated:
  fixes lines :: "'w \<Rightarrow> ('f zap_writer \<times> 'v log_entry) list"
  assumes zap: "zap_logging Z lines" and ready: "default_ready s"
    and pick: "RequestID_pick E c e = (c', e')" and uuid: "\<And>e. fst (uuid_NewString E e) \<noteq> ''''"
  shows "\<exists>rid lv. g_headers c' ''X-Request-ID'' = Some rid \<and> evRequestID (auditFromGin c') = rid \<and>
    (g_xRequestID c \<noteq> '''' \<longrightarrow> rid = g_xRequestID c) \<and>
    (\<forall>r \<in> {logger_logWithContext Z ord lvl (request_context c') msg fs st s,
           logger_logfWithContext Z lvl (request_context c') msg args st s}.
      adds lines (ls_out s) (ls_out (log_world r))
        (\<lambda>e. lv \<le> le_level e \<and> le_level e = lvl \<and> zap_String ''request_id'' rid \<in> set (le_fields e) \<and>
             (\<forall>t. g_span c = Some t \<and> t \<noteq> '''' \<and> t \<noteq> ''unknown'' \<longrightarrow>
                zap_String ''traceId'' t \<in> set (le_fields e) \<and> evTraceID (auditFromGin c') = t)))"
proof -
  from RequestID_pick_sets [OF pick uuid] obtain rid where rid: "rid \<noteq> ''''" "g_ctxRequestID c' = rid"
      "g_headers c' ''X-Request-ID'' = Some rid" "evRequestID (auditFromGin c') = rid"
      "evTraceID (auditFromGin c') = g_traceID c'" "g_xRequestID c \<noteq> '''' \<longrightarrow> rid = g_xRequestID c"
      "\<And>t. g_span c = Some t \<Longrightarrow> g_traceID c' = t"
    by blast
  from ready obtain l lv where l: "ls_defaultLogger s = Some l" "well_built lv l" "\<not> zg_isChained l"
    by (auto simp: default_ready_def)
  have ids: "zap_String ''request_id'' rid \<in> set (appendCorrelation (request_context c') flds)"
    "g_span c = Some t \<Longrightarrow> t \<noteq> '''' \<Longrightarrow> t \<noteq> ''unknown'' \<Longrightarrow>
     zap_String ''traceId'' t \<in> set (appendCorrelation (request_context c') flds)"
    for flds :: "'v zap_Field list" and t
    using set_appendCorrelation [of "request_context c'" flds] rid by auto
  show ?thesis
    by (intro exI [of _ rid] exI [of _ lv])
       (use rid ids in \<open>fastforce simp: entry_says_def
          intro: adds_mono [OF zap_logging.package_says(3) [OF zap l]] adds_mono [OF zap_logging.package_says(4) [OF zap l]]\<close>)
qed

text \<open>The origin that a line names. A call through the package names the place of the call, for
  messages with and without a format and a context; so does a call of a message method on a logger
  that \<^verbatim>\<open>WithFields\<close> returned. The context methods of such a logger name the caller of that place.\<close>

theorem log_origin_reported:
  fixes lines :: "'w \<Rightarrow> ('f zap_writer \<times> 'v log_entry) list"
  assumes zap: "zap_logging Z lines" and new: "NewLogger Z config InstanceZap w0 = (Inr l, w1)"
    and default: "ls_defaultLogger s = Some l"
  shows "(\<forall>r \<in> {logger_log Z ord lvl msg fs (u # st) s, logger_logf Z lvl msg args (u # st) s,
               logger_logWithContext Z ord lvl ctx msg fs (u # st) s, logger_logfWithContext Z lvl ctx msg args (u # st) s}.
            adds lines (ls_out s) (ls_out (log_world r)) (\<lambda>e. le_caller e = Some u)) \<and>
         (\<forall>r \<in> {zapLogger_log Z ord lvl (zapLogger_WithFields ord l extra) msg fs (u # st) w,
               zapLogger_logf Z lvl (zapLogger_WithFields ord l extra) msg args (u # st) w}.
            adds lines w (log_world r) (\<lambda>e. le_caller e = Some u)) \<and>
         (\<forall>r \<in> {zapLogger_logWithContext Z ord lvl (zapLogger_WithFields ord l extra) ctx msg fs (u # v # st) w,
               zapLogger_logfWithContext Z lvl (zapLogger_WithFields ord l extra) ctx msg args (u # v # st) w}.
            adds lines w (log_world r) (\<lambda>e. le_caller e = Some v))"
proof -
  have l: "well_built (parseZapLevel (lc_Level config)) l" "\<not> zg_isChained l"
    using new newZapLogger_built [of Z config w0 l w1] by (simp_all add: NewLogger_def InstanceZap_def)
  let ?k = "zapLogger_WithFields ord l extra"
  have k: "well_built (parseZapLevel (lc_Level config)) ?k" "zg_isChained ?k"
    using l by simp_all
  note package = zap_logging.package_says [OF zap default l, THEN adds_mono]
    and calls = zap_logging.method_says [OF zap k(1), THEN adds_mono]
  show ?thesis
    using k(2) by (auto simp: entry_says_def intro!: package calls)
qed

section \<open>Evaluated runs\<close>

definition ref_log0 :: "(string, nat, nat ref_lines) log_state" where
  "ref_log0 = logger_init ref_zap \<lparr>ls_defaultLogger = None, ls_out = []\<rparr>"

lemma ref_log0_ready: "default_ready ref_log0"
  unfolding ref_log0_def by (rule logger_init_ready)

lemmas log_defs = ref_log0_def logger_init_def bootstrap_Config_def InitDefault_def NewLogger_def InstanceZap_def newZapLogger_def zap_loggers_def
  SetDefault_def parseZapLevel_def ref_zap_def ref_zap_log_def core_lines_def zap_entry_def less_eq_zapLevel_def
  on_default_def logger_logWithContext_def zapLogger_logWithContext_def Let_def

theorem log_lines_correlated_witness:
  "\<exists>c'. fst (RequestID_pick ref_env (ref_ctx\<lparr>g_xRequestID := ''abc'', g_span := Some ''t1''\<rparr>) ref_e0) = c' \<and>
     g_headers c' ''X-Request-ID'' = Some ''abc'' \<and>
     adds (\<lambda>w. w) (ls_out ref_log0)
       (ls_out (log_world (logger_logWithContext ref_zap ref_range InfoLevel (request_context c') ''hi'' [] [At ''main''] ref_log0)))
       (\<lambda>e. {zap_String ''request_id'' ''abc'', zap_String ''traceId'' ''t1''} \<subseteq> set (le_fields e)) \<and>
     ls_out (log_world (logger_logWithContext ref_zap ref_range InfoLevel (request_context c') ''hi'' [] [At ''main''] ref_log0)) \<noteq> []"
proof -
  let ?c = "ref_ctx\<lparr>g_xRequestID := ''abc'', g_span := Some ''t1''\<rparr>"
  obtain c' e' where pick: "RequestID_pick ref_env ?c ref_e0 = (c', e')"
    by fastforce
  have uuid: "fst (uuid_NewString ref_env e) \<noteq> ''''" for e
    by (simp add: ref_env_def)
  have out: "ls_out (log_world (logger_logWithContext ref_zap ref_range InfoLevel (request_context c') ''hi'' [] [At ''main'']
      ref_log0)) \<noteq> []"
    by (simp add: log_defs)
  from log_lines_correlated [OF ref_logging.zap_logging_axioms ref_log0_ready pick uuid,
      of ref_range InfoLevel "''hi''" "[]" "[At ''main'']" "[]"]
  have "g_headers c' ''X-Request-ID'' = Some ''abc'' \<and> adds (\<lambda>w. w) (ls_out ref_log0)
       (ls_out (log_world (logger_logWithContext ref_zap ref_range InfoLevel (request_context c') ''hi'' [] [At ''main''] ref_log0)))
       (\<lambda>e. {zap_String ''request_id'' ''abc'', zap_String ''traceId'' ''t1''} \<subseteq> set (le_fields e))"
    by (elim exE conjE) (simp, erule conjunct1 [THEN adds_mono], simp)
  with pick out show ?thesis
    by simp
qed

theorem log_origin_reported_witness:
  "\<exists>l. ls_defaultLogger ref_log0 = Some l \<and>
     adds (\<lambda>w. w) (ls_out ref_log0) (ls_out (log_world (logger_log ref_zap ref_range InfoLevel ''hi'' [] [At ''main.go''] ref_log0)))
       (\<lambda>e. le_caller e = Some (At ''main.go'')) \<and>
     ls_out (log_world (logger_log ref_zap ref_range InfoLevel ''hi'' [] [At ''main.go''] ref_log0)) \<noteq> []"
proof -
  obtain l where new: "NewLogger ref_zap bootstrap_Config InstanceZap [] = (Inr l, [])" and l: "ls_defaultLogger ref_log0 = Some l"
    by (auto simp: log_defs)
  have out: "ls_out (log_world (logger_log ref_zap ref_range InfoLevel ''hi'' [] [At ''main.go''] ref_log0)) \<noteq> []"
    by (simp add: log_defs logger_log_def zapLogger_log_def)
  from log_origin_reported [OF ref_logging.zap_logging_axioms new l] show ?thesis
    using l out by simp
qed

end
