(* ===== verification/Migration.thy ===== *)
theory Migration
  imports Repo_Users "HOL-Library.Char_ord" "HOL-Library.List_Lexorder"
begin

text \<open>
  \<^verbatim>\<open>internal/datasources/migration/migration.go\<close>: the runner of the SQL migrations. The database
  handle with its transactions and the file system are parameters. Shown: a run applies exactly the
  files that are not recorded yet, each as a whole, in the order of their names, and records them,
  also when it stops at an error; a second run does nothing; and a run down forgets the names derived
  from the files it executed, which for the files of this repository are not all the recorded ones.
\<close>

record 'd migration_db =
  md_Exec :: "string \<Rightarrow> sqlval list \<Rightarrow> 'd \<Rightarrow> goerr option \<times> 'd"
  md_QueryNames :: "string \<Rightarrow> 'd \<Rightarrow> (goerr + ((goerr + string) list \<times> goerr option)) \<times> 'd"
  md_BeginTx :: "'d \<Rightarrow> goerr option \<times> 'd"
  tx_Exec :: "string \<Rightarrow> sqlval list \<Rightarrow> 'd \<Rightarrow> goerr option \<times> 'd"
  tx_Commit :: "'d \<Rightarrow> goerr option \<times> 'd"
  tx_Rollback :: "'d \<Rightarrow> goerr option \<times> 'd"

record file_system =
  fs_Glob :: "string \<Rightarrow> goerr + string list"
  fs_ReadFile :: "string \<Rightarrow> goerr + string"

text \<open>A Runner: the handle, the files and the directory.\<close>

record 'd Runner =
  rn_db :: "'d migration_db"
  rn_fs :: file_system
  rn_dir :: string

definition AdvisoryLockID :: int where
  "AdvisoryLockID = 947328461230"


definition createMigrations :: string where
  "createMigrations =
     nl2 @ ''CREATE TABLE IF NOT EXISTS schema_migrations ('' @
     nl2 @ [CHR 0x09] @ ''name        TEXT PRIMARY KEY,'' @
     nl2 @ [CHR 0x09] @ ''applied_at  TIMESTAMPTZ NOT NULL DEFAULT NOW()'' @
     nl2 @ '');'' @ nl1"

definition advisoryLock :: string where
  "advisoryLock = ''SELECT pg_advisory_lock($1)''"

definition advisoryUnlock :: string where
  "advisoryUnlock = ''SELECT pg_advisory_unlock($1)''"

definition selectApplied :: string where
  "selectApplied = ''SELECT name FROM schema_migrations''"

definition insertApplied :: string where
  "insertApplied = ''INSERT INTO schema_migrations(name) VALUES ($1) ON CONFLICT DO NOTHING''"

definition deleteApplied :: string where
  "deleteApplied = ''DELETE FROM schema_migrations WHERE name = $1''"

text \<open>\<^verbatim>\<open>filepath.Base\<close>, and \<^verbatim>\<open>filepath.Join\<close> of a clean directory with a pattern.\<close>

definition filepath_Base :: "string \<Rightarrow> string" where
  "filepath_Base path =
     (if path = '''' then ''.''
      else let p = rev (dropWhile (\<lambda>c. c = CHR ''/'') (rev path))
        in if p = '''' then ''/'' else rev (takeWhile (\<lambda>c. c \<noteq> CHR ''/'') (rev p)))"

definition filepath_Join :: "string \<Rightarrow> string \<Rightarrow> string" where
  "filepath_Join dir pat = dir @ ''/'' @ pat"

section \<open>The runner\<close>

definition ensureMigrationsTable :: "'d Runner \<Rightarrow> 'd \<Rightarrow> goerr option \<times> 'd" where
  "ensureMigrationsTable r d = md_Exec (rn_db r) createMigrations [] d"

definition withAdvisoryLock ::
  "'d Runner \<Rightarrow> ('d \<Rightarrow> goerr option \<times> 'd) \<Rightarrow> 'd \<Rightarrow> goerr option \<times> 'd" where
  "withAdvisoryLock r fn d =
     (case md_Exec (rn_db r) advisoryLock [SqlInt AdvisoryLockID] d of
        (Some err, d) \<Rightarrow> (Some (errorf_w ''acquire advisory lock'' err), d)
      | (None, d) \<Rightarrow>
          (case fn d of
             (res, d) \<Rightarrow> (res, snd (md_Exec (rn_db r) advisoryUnlock [SqlInt AdvisoryLockID] d))))"

definition listFiles :: "'d Runner \<Rightarrow> string \<Rightarrow> goerr + string list" where
  "listFiles r action =
     (case fs_Glob (rn_fs r) (filepath_Join (rn_dir r) (''*.'' @ action @ ''.sql'')) of
        Inl err \<Rightarrow> Inl (ErrorString ''glob migration files'')
      | Inr files \<Rightarrow> Inr (sort files))"

fun scan_names :: "(string \<Rightarrow> bool) \<Rightarrow> (goerr + string) list \<Rightarrow> goerr + (string \<Rightarrow> bool)" where
  "scan_names applied [] = Inr applied"
| "scan_names applied (Inl err # rows) = Inl err"
| "scan_names applied (Inr name # rows) = scan_names (applied(name := True)) rows"

definition loadApplied :: "'d Runner \<Rightarrow> 'd \<Rightarrow> (goerr + (string \<Rightarrow> bool)) \<times> 'd" where
  "loadApplied r d =
     (case md_QueryNames (rn_db r) selectApplied d of
        (Inl err, d) \<Rightarrow> (Inl (errorf_w ''load applied migrations'' err), d)
      | (Inr (rows, rowsErr), d) \<Rightarrow>
          (case scan_names (\<lambda>name. False) rows of
             Inl err \<Rightarrow> (Inl err, d)
           | Inr applied \<Rightarrow> (case rowsErr of Some err \<Rightarrow> (Inl err, d) | None \<Rightarrow> (Inr applied, d))))"

definition applyFile :: "'d Runner \<Rightarrow> string \<Rightarrow> string \<Rightarrow> bool \<Rightarrow> 'd \<Rightarrow> goerr option \<times> 'd" where
  "applyFile r file upName isUp d =
     (case fs_ReadFile (rn_fs r) file of
        Inl err \<Rightarrow> (Some (errorf_w (''read '' @ file) err), d)
      | Inr data \<Rightarrow>
          (case md_BeginTx (rn_db r) d of
             (Some err, d) \<Rightarrow> (Some (errorf_w ''begin tx'' err), d)
           | (None, d) \<Rightarrow>
               (let finish = (\<lambda>res d. (res, snd (tx_Rollback (rn_db r) d))) in
                case tx_Exec (rn_db r) data [] d of
                  (Some err, d) \<Rightarrow> finish (Some (errorf_w (''exec '' @ filepath_Base file) err)) d
                | (None, d) \<Rightarrow>
                    (case tx_Exec (rn_db r) (if isUp then insertApplied else deleteApplied) [SqlString upName] d of
                       (Some err, d) \<Rightarrow>
                         finish (Some (errorf_w ((if isUp then ''record migration '' else ''forget migration '') @ upName) err)) d
                     | (None, d) \<Rightarrow>
                         (case tx_Commit (rn_db r) d of
                            (Some err, d) \<Rightarrow> finish (Some (errorf_w (''commit '' @ filepath_Base file) err)) d
                          | (None, d) \<Rightarrow> finish None d)))))"

fun up_loop :: "'d Runner \<Rightarrow> (string \<Rightarrow> bool) \<Rightarrow> string list \<Rightarrow> 'd \<Rightarrow> goerr option \<times> 'd" where
  "up_loop r applied [] d = (None, d)"
| "up_loop r applied (file # files) d =
     (let name = filepath_Base file in
      if applied name then up_loop r applied files d
      else case applyFile r file name True d of
          (Some err, d) \<Rightarrow> (Some err, d)
        | (None, d) \<Rightarrow> up_loop r applied files d)"

definition Runner_Up :: "'d Runner \<Rightarrow> 'd \<Rightarrow> goerr option \<times> 'd" where
  "Runner_Up r d =
     (case ensureMigrationsTable r d of
        (Some err, d) \<Rightarrow> (Some (errorf_w ''create schema_migrations'' err), d)
      | (None, d) \<Rightarrow>
          withAdvisoryLock r
            (\<lambda>d. case listFiles r ''up'' of
                   Inl err \<Rightarrow> (Some err, d)
                 | Inr files \<Rightarrow>
                     (case loadApplied r d of
                        (Inl err, d) \<Rightarrow> (Some err, d)
                      | (Inr applied, d) \<Rightarrow> up_loop r applied files d)) d)"

definition deriveUpName :: "string \<Rightarrow> string" where
  "deriveUpName downName =
     (let suffix = ''.down.sql'' in
      if length downName > length suffix \<and> drop (length downName - length suffix) downName = suffix
      then take (length downName - length suffix) downName @ ''.up.sql''
      else downName)"

fun down_loop :: "'d Runner \<Rightarrow> string list \<Rightarrow> 'd \<Rightarrow> goerr option \<times> 'd" where
  "down_loop r [] d = (None, d)"
| "down_loop r (file # files) d =
     (let name = filepath_Base file in
      case applyFile r file (deriveUpName name) False d of
        (Some err, d) \<Rightarrow> (Some err, d)
      | (None, d) \<Rightarrow> down_loop r files d)"

text \<open>\<^verbatim>\<open>sort.Sort(sort.Reverse(\<dots>))\<close> on the sorted list.\<close>

definition Runner_Down :: "'d Runner \<Rightarrow> 'd \<Rightarrow> goerr option \<times> 'd" where
  "Runner_Down r d =
     (case ensureMigrationsTable r d of
        (Some err, d) \<Rightarrow> (Some (errorf_w ''create schema_migrations'' err), d)
      | (None, d) \<Rightarrow>
          withAdvisoryLock r
            (\<lambda>d. case listFiles r ''down'' of
                   Inl err \<Rightarrow> (Some err, d)
                 | Inr files \<Rightarrow> down_loop r (rev (sort files)) d) d)"

section \<open>What the database promises\<close>

text \<open>\<open>view d\<close> is the committed state: the schema and the recorded names (none while the table does not
  exist); \<open>pend d\<close> the state inside an open transaction; \<open>eff sql\<close> the effect of a script on the
  schema. A commit that reports an error may or may not have taken place.\<close>

locale migration_store =
  fixes D :: "'d migration_db" and view :: "'d \<Rightarrow> 's \<times> string set" and pend :: "'d \<Rightarrow> ('s \<times> string set) option"
    and eff :: "string \<Rightarrow> 's \<Rightarrow> 's"
  assumes exec_keeps: "pend d = None \<Longrightarrow>
      (q, args) \<in> {(createMigrations, []), (advisoryLock, [SqlInt AdvisoryLockID]), (advisoryUnlock, [SqlInt AdvisoryLockID])} \<Longrightarrow>
      md_Exec D q args d = (res, d') \<Longrightarrow> view d' = view d \<and> pend d' = None"
    and query_keeps: "pend d = None \<Longrightarrow> md_QueryNames D selectApplied d = (rows, d') \<Longrightarrow> view d' = view d \<and> pend d' = None"
    and query_names: "pend d = None \<Longrightarrow> md_QueryNames D selectApplied d = (Inr (map Inr names, None), d') \<Longrightarrow>
      set names = snd (view d)"
    and begin_ok: "pend d = None \<Longrightarrow> md_BeginTx D d = (None, d') \<Longrightarrow> view d' = view d \<and> pend d' = Some (view d)"
    and begin_err: "pend d = None \<Longrightarrow> md_BeginTx D d = (Some x, d') \<Longrightarrow> view d' = view d \<and> pend d' = None"
    and script: "pend d = Some (s, ns) \<Longrightarrow> tx_Exec D sql [] d = (None, d') \<Longrightarrow>
      view d' = view d \<and> pend d' = Some (eff sql s, ns)"
    and record_name: "pend d = Some (s, ns) \<Longrightarrow> tx_Exec D insertApplied [SqlString n] d = (None, d') \<Longrightarrow>
      view d' = view d \<and> pend d' = Some (s, insert n ns)"
    and forget_name: "pend d = Some (s, ns) \<Longrightarrow> tx_Exec D deleteApplied [SqlString n] d = (None, d') \<Longrightarrow>
      view d' = view d \<and> pend d' = Some (s, ns - {n})"
    and exec_err: "tx_Exec D sql args d = (Some x, d') \<Longrightarrow> view d' = view d"
    and commit_ok: "pend d = Some p \<Longrightarrow> tx_Commit D d = (None, d') \<Longrightarrow> view d' = p"
    and commit_err: "pend d = Some p \<Longrightarrow> tx_Commit D d = (Some x, d') \<Longrightarrow> view d' = view d \<or> view d' = p"
    and rollback: "view (snd (tx_Rollback D d)) = view d \<and> pend (snd (tx_Rollback D d)) = None"

text \<open>One file applied as a whole, and the state after a list of files.\<close>

definition file_effect ::
  "(string \<Rightarrow> 's \<Rightarrow> 's) \<Rightarrow> file_system \<Rightarrow> bool \<Rightarrow> string \<Rightarrow> 's \<times> string set \<Rightarrow> 's \<times> string set" where
  "file_effect eff fs isUp file v =
     (case fs_ReadFile fs file of
        Inl err \<Rightarrow> v
      | Inr data \<Rightarrow>
          (eff data (fst v),
           if isUp then insert (filepath_Base file) (snd v) else snd v - {deriveUpName (filepath_Base file)}))"

definition files_effect ::
  "(string \<Rightarrow> 's \<Rightarrow> 's) \<Rightarrow> file_system \<Rightarrow> bool \<Rightarrow> string list \<Rightarrow> 's \<times> string set \<Rightarrow> 's \<times> string set" where
  "files_effect eff fs isUp files v = foldl (\<lambda>v f. file_effect eff fs isUp f v) v files"

lemma files_effect_simps [simp]:
  "files_effect eff fs b [] v = v"
  "files_effect eff fs b (f # fl) v = files_effect eff fs b fl (file_effect eff fs b f v)"
  by (simp_all add: files_effect_def)

lemma files_effect_names:
  assumes "\<forall>f\<in>set fl. is_Inr (fs_ReadFile fs f)"
  shows "snd (files_effect eff fs True fl v) = snd v \<union> filepath_Base ` set fl"
    "snd (files_effect eff fs False fl v) = snd v - (deriveUpName \<circ> filepath_Base) ` set fl"
  using assms by (induction fl arbitrary: v) (auto simp: file_effect_def is_Inr_def split: sum.splits)

context migration_store
begin

lemma apply_effect:
  assumes none: "pend d = None" and r: "rn_db r = D"
    and up: "up = (if isUp then filepath_Base file else deriveUpName (filepath_Base file))"
    and run: "applyFile r file up isUp d = (res, d')"
  shows "pend d' = None \<and> (view d' = view d \<or> view d' = file_effect eff (rn_fs r) isUp file (view d)) \<and>
    (res = None \<longrightarrow> view d' = file_effect eff (rn_fs r) isUp file (view d) \<and> is_Inr (fs_ReadFile (rn_fs r) file))"
proof (cases "fs_ReadFile (rn_fs r) file")
  case (Inl err)
  with run none show ?thesis by (auto simp: applyFile_def)
next
  case (Inr data)
  let ?goal = "file_effect eff (rn_fs r) isUp file (view d)"
  obtain x1 d1 where b: "md_BeginTx D d = (x1, d1)" by fastforce
  obtain x2 d2 where s: "tx_Exec D data [] d1 = (x2, d2)" by fastforce
  obtain x3 d3 where n: "tx_Exec D (if isUp then insertApplied else deleteApplied) [SqlString up] d2 = (x3, d3)" by fastforce
  obtain x4 d4 where c: "tx_Commit D d3 = (x4, d4)" by fastforce
  note defs = applyFile_def Inr r b Let_def
  show ?thesis
  proof (cases "x1 = None \<and> x2 = None \<and> x3 = None")
    case False
    have v1: "view d1 = view d" using begin_ok [OF none] begin_err [OF none] b by (cases x1) auto
    have v2: "view d2 = view d" if "x1 = None"
    proof -
      have "pend d1 = Some (view d)" using begin_ok [OF none] b that by simp
      then show ?thesis
        using script [of d1 "fst (view d)" "snd (view d)" data d2] exec_err [of data "[]" d1] s v1 by (cases x2) auto
    qed
    have v3: "view d3 = view d" if "x1 = None" "x3 = Some x" for x
      using exec_err [OF n [unfolded that(2)]] v2 [OF that(1)] by simp
    have "pend d' = None \<and> view d' = view d \<and> res \<noteq> None"
    proof (cases x1)
      case None
      then show ?thesis
      proof (cases x2)
        case (Some x)
        with None run s v2 rollback [of d2] show ?thesis by (auto simp: defs)
      next
        case no_script: None
        with None False obtain x where x3: "x3 = Some x" by auto
        with None no_script run s n v3 [OF None x3] rollback [of d3] show ?thesis by (auto simp: defs)
      qed
    next
      case (Some x)
      with run begin_err [OF none] b show ?thesis by (auto simp: defs)
    qed
    then show ?thesis by auto
  next
    case True
    have d1: "view d1 = view d" "pend d1 = Some (view d)" using begin_ok [OF none] b True by auto
    have d2: "view d2 = view d" "pend d2 = Some (eff data (fst (view d)), snd (view d))"
      using script [of d1 "fst (view d)" "snd (view d)" data d2] s True d1 by auto
    have d3: "view d3 = view d" "pend d3 = Some ?goal"
      using record_name [OF d2(2), of up d3] forget_name [OF d2(2), of up d3] n True d2(1)
      by (auto simp: file_effect_def Inr up split: if_splits)
    show ?thesis
    proof (cases x4)
      case None
      then have "view d4 = ?goal" using commit_ok [OF d3(2)] c by simp
      with None True run s n c rollback [of d4] show ?thesis by (auto simp: defs)
    next
      case (Some x)
      then have "view d4 = view d \<or> view d4 = ?goal" using commit_err [OF d3(2)] c d3(1) by simp
      with Some True run s n c rollback [of d4] show ?thesis by (auto simp: defs)
    qed
  qed
qed

text \<open>The loops apply a prefix of the files they go through, all of them on success.\<close>

lemma up_loop_effect:
  assumes "rn_db r = D"
  shows "pend d = None \<Longrightarrow> up_loop r applied files d = (res, d') \<Longrightarrow>
    \<exists>pre post. filter (\<lambda>f. \<not> applied (filepath_Base f)) files = pre @ post \<and> pend d' = None \<and>
      view d' = files_effect eff (rn_fs r) True pre (view d) \<and>
      (res = None \<longrightarrow> post = [] \<and> (\<forall>f\<in>set pre. is_Inr (fs_ReadFile (rn_fs r) f)))"
proof (induction files arbitrary: d)
  case Nil
  then show ?case by (auto intro!: exI [of _ "[]"])
next
  case (Cons f files)
  show ?case
  proof (cases "applied (filepath_Base f)")
    case True
    with Cons show ?thesis by simp
  next
    case False
    obtain x d1 where a: "applyFile r f (filepath_Base f) True d = (x, d1)" by fastforce
    have e: "pend d1 = None" "view d1 = view d \<or> view d1 = file_effect eff (rn_fs r) True f (view d)"
      "x = None \<longrightarrow> view d1 = file_effect eff (rn_fs r) True f (view d) \<and> is_Inr (fs_ReadFile (rn_fs r) f)"
      using apply_effect [OF Cons.prems(1) assms _ a] by simp_all
    let ?rest = "filter (\<lambda>f. \<not> applied (filepath_Base f)) files"
    show ?thesis
    proof (cases x)
      case (Some err)
      with Cons.prems a False have r: "res = Some err" "d' = d1" by auto
      consider "view d1 = view d" | "view d1 = file_effect eff (rn_fs r) True f (view d)" using e(2) by blast
      then show ?thesis
      proof cases
        case 1
        then show ?thesis using False r e(1) by (intro exI [of _ "[]"] exI [of _ "f # ?rest"]) simp
      next
        case 2
        then show ?thesis using False r e(1) by (intro exI [of _ "[f]"] exI [of _ ?rest]) simp
      qed
    next
      case None
      with Cons.prems a False have "up_loop r applied files d1 = (res, d')" by simp
      from Cons.IH [OF e(1) this] obtain pre post where
        "?rest = pre @ post" "pend d' = None" "view d' = files_effect eff (rn_fs r) True pre (view d1)"
        "res = None \<longrightarrow> post = [] \<and> (\<forall>f\<in>set pre. is_Inr (fs_ReadFile (rn_fs r) f))" by blast
      with None e(3) False show ?thesis by (intro exI [of _ "f # pre"] exI [of _ post]) simp
    qed
  qed
qed

lemma down_loop_effect:
  assumes "rn_db r = D"
  shows "pend d = None \<Longrightarrow> down_loop r files d = (None, d') \<Longrightarrow>
    pend d' = None \<and> view d' = files_effect eff (rn_fs r) False files (view d) \<and>
    (\<forall>f\<in>set files. is_Inr (fs_ReadFile (rn_fs r) f))"
proof (induction files arbitrary: d)
  case (Cons f files)
  then obtain d1 where a: "applyFile r f (deriveUpName (filepath_Base f)) False d = (None, d1)"
    and rest: "down_loop r files d1 = (None, d')"
    by (auto split: prod.splits option.splits)
  from apply_effect [OF Cons.prems(1) assms _ a] Cons.IH [OF _ rest] show ?case by simp
qed simp

lemma locked:
  assumes "rn_db r = D" and "pend d = None" and "withAdvisoryLock r fn d = (res, d')"
  shows "(\<exists>d1 d2. view d1 = view d \<and> pend d1 = None \<and> fn d1 = (res, d2) \<and>
      (pend d2 = None \<longrightarrow> view d' = view d2 \<and> pend d' = None)) \<or>
    (res \<noteq> None \<and> view d' = view d \<and> pend d' = None)"
proof -
  obtain x d1 where l: "md_Exec D advisoryLock [SqlInt AdvisoryLockID] d = (x, d1)" by fastforce
  have v1: "view d1 = view d \<and> pend d1 = None" using exec_keeps [OF assms(2) _ l] by simp
  obtain y d2 where f: "fn d1 = (y, d2)" by fastforce
  obtain z d3 where u: "md_Exec D advisoryUnlock [SqlInt AdvisoryLockID] d2 = (z, d3)" by fastforce
  have "pend d2 = None \<longrightarrow> view d3 = view d2 \<and> pend d3 = None" using exec_keeps [OF _ _ u] by simp
  then show ?thesis
    using assms(1,3) l v1 f u by (cases x) (auto simp: withAdvisoryLock_def)
qed

lemma scan_names_Inr: "scan_names ap rows = Inr ap' \<Longrightarrow> \<exists>names. rows = map Inr names \<and> ap' = (\<lambda>n. ap n \<or> n \<in> set names)"
proof (induction ap rows rule: scan_names.induct)
  case (3 ap name rows)
  then obtain names where "rows = map Inr names" "ap' = (\<lambda>n. (ap(name := True)) n \<or> n \<in> set names)"
    using "3.IH" by (metis scan_names.simps(3))
  then show ?case by (intro exI [of _ "name # names"]) auto
qed auto

lemma load_exact:
  assumes "rn_db r = D" and "pend d = None" and "loadApplied r d = (q, d')"
  shows "view d' = view d \<and> pend d' = None \<and> (\<forall>ap. q = Inr ap \<longrightarrow> ap = (\<lambda>n. n \<in> snd (view d)))"
proof -
  obtain x d1 where qn: "md_QueryNames D selectApplied d = (x, d1)" by fastforce
  have keep: "view d1 = view d \<and> pend d1 = None" using query_keeps [OF assms(2) qn] .
  have "q = Inr ap \<Longrightarrow> ap = (\<lambda>n. n \<in> snd (view d))" for ap
  proof -
    assume "q = Inr ap"
    then obtain rows where x: "x = Inr (rows, None)" and sc: "scan_names (\<lambda>name. False) rows = Inr ap"
      using assms(1,3) qn by (auto simp: loadApplied_def split: sum.splits prod.splits option.splits)
    obtain names where "rows = map Inr names" "ap = (\<lambda>n. n \<in> set names)" using scan_names_Inr [OF sc] by auto
    then show "ap = (\<lambda>n. n \<in> snd (view d))" using query_names [OF assms(2)] qn x by simp
  qed
  moreover have "d' = d1"
    using assms(1,3) qn by (auto simp: loadApplied_def split: sum.splits prod.splits option.splits)
  ultimately show ?thesis using keep by simp
qed

lemma up_effect:
  assumes r: "rn_db r = D" and none: "pend d = None" and run: "Runner_Up r d = (res, d')"
    and glob: "fs_Glob (rn_fs r) (filepath_Join (rn_dir r) ''*.up.sql'') = Inr files"
  shows "\<exists>pre post. filter (\<lambda>f. filepath_Base f \<notin> snd (view d)) (sort files) = pre @ post \<and> pend d' = None \<and>
    view d' = files_effect eff (rn_fs r) True pre (view d) \<and>
    (res = None \<longrightarrow> post = [] \<and> (\<forall>f\<in>set pre. is_Inr (fs_ReadFile (rn_fs r) f)))"
proof -
  let ?todo = "filter (\<lambda>f. filepath_Base f \<notin> snd (view d)) (sort files)"
  have stop: ?thesis if "res \<noteq> None" "view d' = view d" "pend d' = None"
    by (rule exI [of _ "[]"], rule exI [of _ ?todo]) (use that in auto)
  have lf: "listFiles r ''up'' = Inr (sort files)" using glob by (simp add: listFiles_def)
  obtain x d1 where c: "md_Exec D createMigrations [] d = (x, d1)" by fastforce
  have v1: "view d1 = view d" "pend d1 = None" using exec_keeps [OF none _ c] by simp_all
  show ?thesis
  proof (cases x)
    case (Some err)
    with run r c v1 have "res \<noteq> None" "view d' = view d" "pend d' = None"
      by (auto simp: Runner_Up_def ensureMigrationsTable_def)
    then show ?thesis by (rule stop)
  next
    case None
    let ?fn = "\<lambda>d. case loadApplied r d of (Inl err, d) \<Rightarrow> (Some err, d) | (Inr applied, d) \<Rightarrow> up_loop r applied (sort files) d"
    have "withAdvisoryLock r ?fn d1 = (res, d')"
      using run r c None lf by (simp add: Runner_Up_def ensureMigrationsTable_def)
    from locked [OF r v1(2) this] v1(1) consider (ran) d2 d3 where
      "view d2 = view d" "pend d2 = None" "?fn d2 = (res, d3)" "pend d3 = None \<longrightarrow> view d' = view d3 \<and> pend d' = None"
      | (not_locked) "res \<noteq> None" "view d' = view d" "pend d' = None" by auto
    then show ?thesis
    proof cases
      case not_locked
      then show ?thesis by (rule stop)
    next
      case (ran d2 d3)
      note 1 = ran
      obtain q d4 where q: "loadApplied r d2 = (q, d4)" by fastforce
      note load = load_exact [OF r 1(2) q]
      show ?thesis
      proof (cases q)
        case (Inl err)
        with 1 q load have "res \<noteq> None" "view d' = view d" "pend d' = None" by auto
        then show ?thesis by (rule stop)
      next
        case (Inr ap)
        have l: "pend d4 = None" "view d4 = view d" using load 1(1) by simp_all
        have "up_loop r (\<lambda>n. n \<in> snd (view d)) (sort files) d4 = (res, d3)" using 1(1,3) q load Inr by simp
        from up_loop_effect [OF r l(1) this, unfolded l(2)] obtain pre post where
          p: "filter (\<lambda>f. filepath_Base f \<notin> snd (view d)) (sort files) = pre @ post" "pend d3 = None"
          "view d3 = files_effect eff (rn_fs r) True pre (view d)"
          "res = None \<longrightarrow> post = [] \<and> (\<forall>f\<in>set pre. is_Inr (fs_ReadFile (rn_fs r) f))"
          by blast
        have "view d' = view d3" "pend d' = None" using 1(4) p(2) by simp_all
        with p show ?thesis by (intro exI conjI) (assumption | simp)+
      qed
    qed
  qed
qed

lemma down_effect:
  assumes r: "rn_db r = D" and none: "pend d = None" and run: "Runner_Down r d = (None, d')"
    and glob: "fs_Glob (rn_fs r) (filepath_Join (rn_dir r) ''*.down.sql'') = Inr files"
  shows "pend d' = None \<and> view d' = files_effect eff (rn_fs r) False (rev (sort files)) (view d) \<and>
    (\<forall>f\<in>set files. is_Inr (fs_ReadFile (rn_fs r) f))"
proof -
  have lf: "listFiles r ''down'' = Inr (sort files)" using glob by (simp add: listFiles_def)
  obtain x d1 where c: "md_Exec D createMigrations [] d = (x, d1)" by fastforce
  have v1: "view d1 = view d" "pend d1 = None" using exec_keeps [OF none _ c] by simp_all
  have "withAdvisoryLock r (down_loop r (rev (sort files))) d1 = (None, d')"
    using run r c lf by (cases x) (auto simp: Runner_Down_def ensureMigrationsTable_def sorted_sort_id)
  from locked [OF r v1(2) this] obtain d2 d3 where
    d2: "view d2 = view d" "pend d2 = None" "down_loop r (rev (sort files)) d2 = (None, d3)"
      "pend d3 = None \<longrightarrow> view d' = view d3 \<and> pend d' = None"
    using v1(1) by auto
  from down_loop_effect [OF r d2(2,3)] d2 show ?thesis by auto
qed

end

section \<open>Properties\<close>

text \<open>C34: a run up leaves the database as it would be after applying, one after the other in the order of
  their names, a first part of the files that were not recorded, each with its record; all of
  them when it reports success, and never a part of a file. After a success every file is
  recorded, and another run, successful or not, changes nothing.\<close>

theorem migration_up_exact:
  assumes "migration_store (rn_db r) view pend eff" and "pend d = None"
    and "fs_Glob (rn_fs r) (filepath_Join (rn_dir r) ''*.up.sql'') = Inr files"
    and "Runner_Up r d = (res, d')"
  shows "(\<exists>pre post. filter (\<lambda>f. filepath_Base f \<notin> snd (view d)) (sort files) = pre @ post \<and>
      view d' = files_effect eff (rn_fs r) True pre (view d) \<and> (res = None \<longrightarrow> post = [])) \<and>
    (res = None \<longrightarrow> snd (view d') = snd (view d) \<union> filepath_Base ` set files \<and>
      (\<forall>res2 d2. Runner_Up r d' = (res2, d2) \<longrightarrow> view d2 = view d'))"
proof -
  note up = migration_store.up_effect [OF assms(1) refl]
  obtain pre post where p: "filter (\<lambda>f. filepath_Base f \<notin> snd (view d)) (sort files) = pre @ post" "pend d' = None"
    "view d' = files_effect eff (rn_fs r) True pre (view d)"
    "res = None \<longrightarrow> post = [] \<and> (\<forall>f\<in>set pre. is_Inr (fs_ReadFile (rn_fs r) f))"
    using up [OF assms(2,4,3)] by blast
  have names: "snd (view d') = snd (view d) \<union> filepath_Base ` set files" if "res = None"
  proof -
    have "set pre = {f \<in> set files. filepath_Base f \<notin> snd (view d)}"
      using p(1,4) that by (metis append_Nil2 set_filter set_sort)
    then show ?thesis
      using files_effect_names(1) [of pre "rn_fs r" eff "view d"] p(3,4) that by auto
  qed
  have again: "view d2 = view d'" if "res = None" "Runner_Up r d' = (res2, d2)" for res2 d2
  proof -
    have "filter (\<lambda>f. filepath_Base f \<notin> snd (view d')) (sort files) = []"
      using names [OF that(1)] by (simp add: filter_empty_conv)
    then show ?thesis using up [OF p(2) that(2) assms(3)] by auto
  qed
  show ?thesis using p(1,3,4) names again by blast
qed

text \<open>The files of \<^verbatim>\<open>cmd/migration/migrations\<close>.\<close>

definition repo_up :: "string list" where
  "repo_up =
     [''1_create_tables_users.up.sql'', ''2_create_extensions_uuid.up.sql'', ''3_partial_unique_users.up.sql'',
      ''4_normalize_email_username.up.sql'', ''5_users_password_changed_at.up.sql'']"

definition repo_down :: "string list" where
  "repo_down =
     [''1_drop_tables_users.down.sql'', ''2_drop_extensions_uuid.down.sql'', ''3_partial_unique_users.down.sql'',
      ''4_normalize_email_username.down.sql'', ''5_users_password_changed_at.down.sql'']"

definition migrationsDir :: string where
  "migrationsDir = ''cmd/migration/migrations''"

definition repo_path :: "string \<Rightarrow> string" where
  "repo_path f = migrationsDir @ ''/'' @ f"

lemma repo_bases:
  "map (filepath_Base \<circ> repo_path) repo_up = repo_up" "map (filepath_Base \<circ> repo_path) repo_down = repo_down"
  "map deriveUpName repo_down =
     [''1_drop_tables_users.up.sql'', ''2_drop_extensions_uuid.up.sql'', ''3_partial_unique_users.up.sql'',
      ''4_normalize_email_username.up.sql'', ''5_users_password_changed_at.up.sql'']"
  by code_simp+

lemma repo_left:
  "set repo_up - set (map deriveUpName repo_down) = {''1_create_tables_users.up.sql'', ''2_create_extensions_uuid.up.sql''}"
  unfolding repo_bases repo_up_def by auto

text \<open>After a successful run down over the files of the repository, on a database where all five were
  applied, the first two are still recorded, because the names of their files down are not those of
  the files up; so the next run up, even a successful one, executes only the other three and does
  not create the table and the extension again.\<close>

theorem migration_down_forgets_not_all:
  assumes "migration_store (rn_db r) view pend eff" and "pend d = None" and "rn_dir r = migrationsDir"
    and "fs_Glob (rn_fs r) (filepath_Join migrationsDir ''*.down.sql'') = Inr (map repo_path repo_down)"
    and "fs_Glob (rn_fs r) (filepath_Join migrationsDir ''*.up.sql'') = Inr (map repo_path repo_up)"
    and "snd (view d) = set repo_up" and "Runner_Down r d = (None, d1)" and "Runner_Up r d1 = (None, d2)"
  shows "snd (view d1) = {''1_create_tables_users.up.sql'', ''2_create_extensions_uuid.up.sql''} \<and>
    view d1 = files_effect eff (rn_fs r) False (map repo_path (rev repo_down)) (view d) \<and>
    view d2 = files_effect eff (rn_fs r) True (map repo_path (drop 2 repo_up)) (view d1)"
proof -
  have sorted: "sort (map repo_path repo_down) = map repo_path repo_down" "sort (map repo_path repo_up) = map repo_path repo_up"
    by code_simp+
  have dn: "pend d1 = None" "view d1 = files_effect eff (rn_fs r) False (map repo_path (rev repo_down)) (view d)"
    "\<forall>f\<in>set (map repo_path repo_down). is_Inr (fs_ReadFile (rn_fs r) f)"
    using migration_store.down_effect [OF assms(1) refl assms(2,7), of "map repo_path repo_down"] assms(3,4)
    by (simp_all add: sorted rev_map)
  have set_down: "(deriveUpName \<circ> filepath_Base) ` set (map repo_path (rev repo_down)) = set (map deriveUpName repo_down)"
    using arg_cong [OF repo_bases(2), of "\<lambda>l. deriveUpName ` set l"] by (simp add: image_comp comp_def)
  have left: "snd (view d1) = {''1_create_tables_users.up.sql'', ''2_create_extensions_uuid.up.sql''}"
    using files_effect_names(2) [of "map repo_path (rev repo_down)" "rn_fs r" eff "view d"] dn(2,3) assms(6) set_down repo_left
    by simp
  have todo: "filter (\<lambda>f. filepath_Base f \<notin> {''1_create_tables_users.up.sql'', ''2_create_extensions_uuid.up.sql''})
      (map repo_path repo_up) = map repo_path (drop 2 repo_up)"
    by code_simp
  have glob: "fs_Glob (rn_fs r) (filepath_Join (rn_dir r) ''*.up.sql'') = Inr (map repo_path repo_up)"
    using assms(3,5) by simp
  obtain pre post where "filter (\<lambda>f. filepath_Base f \<notin> snd (view d1)) (sort (map repo_path repo_up)) = pre @ post"
    and v: "view d2 = files_effect eff (rn_fs r) True pre (view d1)" and "post = []"
    using migration_store.up_effect [OF assms(1) refl dn(1) assms(8) glob] by blast
  then have "pre = map repo_path (drop 2 repo_up)" by (simp only: left sorted todo append_Nil2)
  with v have "view d2 = files_effect eff (rn_fs r) True (map repo_path (drop 2 repo_up)) (view d1)" by (simp only:)
  with left dn(2) show ?thesis by blast
qed

section \<open>A reference database\<close>

text \<open>The schema is the list of the scripts that were executed.\<close>

record ref_mig =
  rg_state :: "string list \<times> string list"
  rg_open :: "(string list \<times> string list) option"

definition rg_exec :: "string \<Rightarrow> sqlval list \<Rightarrow> ref_mig \<Rightarrow> goerr option \<times> ref_mig" where
  "rg_exec sql args d =
     (case rg_open d of
        None \<Rightarrow> (Some (ErrorString ''sql: transaction has already been committed or rolled back''), d)
      | Some (s, ns) \<Rightarrow>
          (case args of
             [] \<Rightarrow> (None, d\<lparr>rg_open := Some (sql # s, ns)\<rparr>)
           | [SqlString n] \<Rightarrow>
               (None, d\<lparr>rg_open := Some (s, if sql = insertApplied then n # ns else removeAll n ns)\<rparr>)
           | _ \<Rightarrow> (Some (ErrorString ''pq: syntax error''), d)))"

definition rg_commit :: "ref_mig \<Rightarrow> goerr option \<times> ref_mig" where
  "rg_commit d =
     (case rg_open d of
        Some v \<Rightarrow> (None, d\<lparr>rg_state := v, rg_open := None\<rparr>)
      | None \<Rightarrow> (Some (ErrorString ''sql: transaction has already been committed or rolled back''), d))"

definition ref_migration :: "ref_mig migration_db" where
  "ref_migration =
     \<lparr>md_Exec = (\<lambda>q args d. (None, d)),
      md_QueryNames = (\<lambda>q d. (Inr (map Inr (snd (rg_state d)), None), d)),
      md_BeginTx = (\<lambda>d. (None, d\<lparr>rg_open := Some (rg_state d)\<rparr>)),
      tx_Exec = rg_exec, tx_Commit = rg_commit,
      tx_Rollback = (\<lambda>d. (None, d\<lparr>rg_open := None\<rparr>))\<rparr>"

definition rg_view :: "ref_mig \<Rightarrow> string list \<times> string set" where
  "rg_view d = (case rg_state d of (s, ns) \<Rightarrow> (s, set ns))"

definition rg_pend :: "ref_mig \<Rightarrow> (string list \<times> string set) option" where
  "rg_pend d = (case rg_open d of None \<Rightarrow> None | Some (s, ns) \<Rightarrow> Some (s, set ns))"

interpretation ref_mig: migration_store ref_migration rg_view rg_pend "\<lambda>sql s. sql # s"
  by unfold_locales
     (auto simp: ref_migration_def rg_view_def rg_pend_def rg_exec_def rg_commit_def insertApplied_def deleteApplied_def
       inj_map_eq_map [OF inj_Inr] split: option.splits prod.splits list.splits sqlval.splits)

definition ref_fs :: file_system where
  "ref_fs =
     \<lparr>fs_Glob = (\<lambda>p. if p = filepath_Join migrationsDir ''*.up.sql'' then Inr (map repo_path repo_up)
        else Inr (map repo_path repo_down)),
      fs_ReadFile = (\<lambda>f. Inr f)\<rparr>"

definition ref_runner :: "ref_mig Runner" where
  "ref_runner = \<lparr>rn_db = ref_migration, rn_fs = ref_fs, rn_dir = migrationsDir\<rparr>"

definition ref_mig0 :: "string list \<Rightarrow> ref_mig" where
  "ref_mig0 names = \<lparr>rg_state = ([], names), rg_open = None\<rparr>"

lemma ref_up_runs: "\<exists>d'. Runner_Up ref_runner (ref_mig0 []) = (None, d') \<and> fst (rg_state d') \<noteq> []"
proof -
  have "fst (Runner_Up ref_runner (ref_mig0 [])) = None \<and> fst (rg_state (snd (Runner_Up ref_runner (ref_mig0 [])))) \<noteq> []"
    by code_simp
  then show ?thesis by (cases "Runner_Up ref_runner (ref_mig0 [])") simp
qed

theorem migration_up_exact_witness:
  "\<exists>d'. Runner_Up ref_runner (ref_mig0 []) = (None, d') \<and> snd (rg_view d') = filepath_Base ` set (map repo_path repo_up)"
proof -
  obtain d' where run: "Runner_Up ref_runner (ref_mig0 []) = (None, d')" using ref_up_runs by blast
  have store: "migration_store (rn_db ref_runner) rg_view rg_pend (\<lambda>sql s. sql # s)"
    using ref_mig.migration_store_axioms by (simp add: ref_runner_def)
  have h: "rg_pend (ref_mig0 []) = None" "snd (rg_view (ref_mig0 [])) = {}"
    "fs_Glob (rn_fs ref_runner) (filepath_Join (rn_dir ref_runner) ''*.up.sql'') = Inr (map repo_path repo_up)"
    by (simp_all add: ref_mig0_def rg_pend_def rg_view_def ref_runner_def ref_fs_def)
  have "snd (rg_view d') = filepath_Base ` set (map repo_path repo_up)"
    using migration_up_exact [OF store h(1,3) run, THEN conjunct2, THEN mp, OF refl, THEN conjunct1]
    unfolding h(2) by (simp only: Un_empty_left)
  with run show ?thesis by blast
qed

theorem migration_down_forgets_not_all_witness:
  "\<exists>d1 d2. Runner_Down ref_runner (ref_mig0 repo_up) = (None, d1) \<and> Runner_Up ref_runner d1 = (None, d2) \<and>
     snd (rg_view d1) = {''1_create_tables_users.up.sql'', ''2_create_extensions_uuid.up.sql''}"
proof -
  have "fst (Runner_Down ref_runner (ref_mig0 repo_up)) = None"
    "fst (Runner_Up ref_runner (snd (Runner_Down ref_runner (ref_mig0 repo_up)))) = None"
    by code_simp+
  then obtain d1 d2 where run: "Runner_Down ref_runner (ref_mig0 repo_up) = (None, d1)" "Runner_Up ref_runner d1 = (None, d2)"
    by (metis prod.collapse)
  have store: "migration_store (rn_db ref_runner) rg_view rg_pend (\<lambda>sql s. sql # s)"
    using ref_mig.migration_store_axioms by (simp add: ref_runner_def)
  have "filepath_Join migrationsDir ''*.down.sql'' \<noteq> filepath_Join migrationsDir ''*.up.sql''"
    by (simp add: filepath_Join_def)
  then have h: "rg_pend (ref_mig0 repo_up) = None" "rn_dir ref_runner = migrationsDir"
    "fs_Glob (rn_fs ref_runner) (filepath_Join migrationsDir ''*.down.sql'') = Inr (map repo_path repo_down)"
    "fs_Glob (rn_fs ref_runner) (filepath_Join migrationsDir ''*.up.sql'') = Inr (map repo_path repo_up)"
    "snd (rg_view (ref_mig0 repo_up)) = set repo_up"
    by (simp_all add: ref_mig0_def rg_pend_def rg_view_def ref_runner_def ref_fs_def)
  from migration_down_forgets_not_all [OF store h run] run show ?thesis by blast
qed

end
