(* ===== verification/Commands.thy ===== *)
theory Commands
  imports Startup Migration
begin

text \<open>
  The two commands beside the server: \<^verbatim>\<open>cmd/seed\<close> with its package \<^verbatim>\<open>seeders\<close>, and \<^verbatim>\<open>cmd/migration\<close>. The
  transactions of the seeder are a parameter with the laws of the locale \<open>seed_store\<close>; the runner of the
  migrations is that of the theory \<open>Migration\<close>. A deferred call runs when a function returns or panics,
  not when the process exits.
\<close>

section \<open>seeder.go\<close>

record 'd seed_DB =
  sd_Beginx :: "'d \<Rightarrow> goerr option \<times> 'd"
  sd_NamedQuery :: "string \<Rightarrow> Users \<Rightarrow> 'd \<Rightarrow> goerr option \<times> 'd"
  sd_Commit :: "'d \<Rightarrow> goerr option \<times> 'd"
  sd_Rollback :: "'d \<Rightarrow> goerr option \<times> 'd"

definition insertSeed :: string where
  "insertSeed = ''INSERT INTO users(id, username, email, password, active, role_id, created_at) VALUES (uuid_generate_v4(), '' @
     '':username, :email, :password, :active, :role_id, :created_at)''"

fun seed_loop :: "'e goenv \<Rightarrow> 'd seed_DB \<Rightarrow> Users list \<Rightarrow> 'd \<Rightarrow> 'e \<Rightarrow> goerr option \<times> 'd \<times> 'e" where
  "seed_loop E s [] d e = (None, d, e)"
| "seed_loop E s (user # users) d e =
     (case time_Now E e of
        (now, e) \<Rightarrow>
          (case sd_NamedQuery s insertSeed (user\<lparr>rCreatedAt := now\<rparr>) d of
             (Some err, d) \<Rightarrow> (Some err, d, e)
           | (None, d) \<Rightarrow> seed_loop E s users d e))"

text \<open>The deferred rollback, whose own error is ignored.\<close>

definition rollback_on :: "'d seed_DB \<Rightarrow> goerr option \<Rightarrow> 'd \<Rightarrow> 'd" where
  "rollback_on s err d = (case err of None \<Rightarrow> d | Some _ \<Rightarrow> snd (sd_Rollback s d))"

definition UserSeeder :: "'e goenv \<Rightarrow> 'd seed_DB \<Rightarrow> Users list \<Rightarrow> 'd \<Rightarrow> 'e \<Rightarrow> goerr option \<times> 'd \<times> 'e" where
  "UserSeeder E s userData d e =
     (if userData = [] then (Some (ErrorString ''users data is empty''), d, e)
      else
        (case sd_Beginx s d of
           (Some err, d) \<Rightarrow> (Some err, d, e)
         | (None, d) \<Rightarrow>
             (case seed_loop E s userData d e of
                (Some err, d, e) \<Rightarrow> (Some err, rollback_on s (Some err) d, e)
              | (None, d, e) \<Rightarrow>
                  (case sd_Commit s d of
                     (err, d) \<Rightarrow> (err, rollback_on s err d, e)))))"

section \<open>seeder.users.go\<close>

definition seed_user :: "string \<Rightarrow> string \<Rightarrow> string \<Rightarrow> bool \<Rightarrow> int \<Rightarrow> Users" where
  "seed_user username email pass active roleId =
     \<lparr>rId = '''', rUsername = username, rEmail = email, rPassword = pass, rActive = active, rRoleId = roleId,
      rCreatedAt = zero_time, rUpdatedAt = None, rDeletedAt = None, rPasswordChangedAt = None\<rparr>"

definition UserData :: "string \<Rightarrow> Users list" where
  "UserData pass =
     [seed_user ''patrick star 7'' ''patrick@gmail.com'' pass True 1,
      seed_user ''john doe'' ''johndoe@gmail.com'' pass False 2]"

text \<open>The initialiser of the package runs before the configuration is loaded, so the cost it sees is zero and
  bcrypt gets the clamped one; an error is a panic.\<close>

definition seeders_init :: "'e goenv \<Rightarrow> AppConfig \<Rightarrow> 'e \<Rightarrow> (goerr + Users list) \<times> 'e" where
  "seeders_init E c e =
     (case GenerateHash E (ac_BcryptCost c) ''12345'' e of
        (Inl err, e) \<Rightarrow> (Inl err, e)
      | (Inr pass, e) \<Rightarrow> (Inr (UserData pass), e))"

section \<open>cmd/seed/main.go and cmd/migration/main.go\<close>

fun deferred :: "('p \<Rightarrow> 'p) \<Rightarrow> 'p log_end \<Rightarrow> 'p log_end" where
  "deferred f (Returns p) = Returns (f p)"
| "deferred f (Exits p) = Exits p"
| "deferred f (Panics msg p) = Panics msg (f p)"

text \<open>The rest of the process: the driver, the database, the environment.\<close>

record ('w, 'd, 'e) command_state =
  cs_driver :: 'w
  cs_db :: 'd
  cs_env :: 'e

abbreviation set_rest :: "(('w, 'd, 'e) command_state \<Rightarrow> ('w, 'd, 'e) command_state) \<Rightarrow>
    ('f, 'v, 'o, ('w, 'd, 'e) command_state) process \<Rightarrow> ('f, 'v, 'o, ('w, 'd, 'e) command_state) process" where
  "set_rest f p \<equiv> p\<lparr>pr_rest := f (pr_rest p)\<rparr>"

definition command_init ::
  "string \<Rightarrow> config_lib \<Rightarrow> ('f, 'v, 'o) zap_lib \<Rightarrow> 'v map_range \<Rightarrow> ('f, 'v, 'o, 'b) process \<Rightarrow> ('f, 'v, 'o, 'b) process log_end" where
  "command_init place X Z ord p =
     (case InitializeAppConfig X (pr_cfg p) of
        (r, c) \<Rightarrow>
          (let p = p\<lparr>pr_cfg := c\<rparr>
           in log_bind
                (case r of
                   Some err \<Rightarrow> process_log place Z ord FatalLevel (Error err) ''config'' p
                 | None \<Rightarrow> Returns p)
                (process_log place Z ord InfoLevel ''configuration loaded'' ''config'')))"

definition seed_main ::
  "('f, 'v, 'o) zap_lib \<Rightarrow> 'v map_range \<Rightarrow> 'e goenv \<Rightarrow> ('h, 'w) sqlx_driver \<Rightarrow> ('h \<Rightarrow> 'd seed_DB) \<Rightarrow> Users list \<Rightarrow>
   ('f, 'v, 'o, ('w, 'd, 'e) command_state) process \<Rightarrow> ('f, 'v, 'o, ('w, 'd, 'e) command_state) process log_end" where
  "seed_main Z ord E D sdb userData p =
     (let log = process_log ''cmd/seed/main.go'' Z ord in
      case SetupSQLXPostgres D (pr_cfg p) (cs_driver (pr_rest p)) of
        (Inl err, w) \<Rightarrow>
          log_bind (log PanicLevel (Error err) ''seeder'' (set_rest (\<lambda>s. s\<lparr>cs_driver := w\<rparr>) p)) (\<lambda>p. Panics nil_deref p)
      | (Inr db, w) \<Rightarrow>
          deferred (set_rest (\<lambda>s. s\<lparr>cs_driver := snd (db_Close D db (cs_driver s))\<rparr>))
            (log_bind (log InfoLevel ''seeding...'' ''seeder'' (set_rest (\<lambda>s. s\<lparr>cs_driver := w\<rparr>) p))
               (\<lambda>p. case UserSeeder E (sdb db) userData (cs_db (pr_rest p)) (cs_env (pr_rest p)) of
                      (err, d, e) \<Rightarrow>
                        (let p = set_rest (\<lambda>s. s\<lparr>cs_db := d, cs_env := e\<rparr>) p
                         in log_bind
                              (case err of
                                 Some err \<Rightarrow> log PanicLevel (Error err) ''seeder'' p
                               | None \<Rightarrow> Returns p)
                              (log InfoLevel ''seeding success!'' ''seeder'')))))"

definition migration_main ::
  "('f, 'v, 'o) zap_lib \<Rightarrow> 'v map_range \<Rightarrow> bool \<Rightarrow> bool \<Rightarrow> ('h, 'w) sqlx_driver \<Rightarrow> ('h \<Rightarrow> 'd Runner) \<Rightarrow>
   ('f, 'v, 'o, ('w, 'd, 'e) command_state) process \<Rightarrow> ('f, 'v, 'o, ('w, 'd, 'e) command_state) process log_end" where
  "migration_main Z ord up down D runner p =
     (let log = process_log ''cmd/migration/main.go'' Z ord;
          run = (\<lambda>flag step p.
                   if flag then
                     (case step (cs_db (pr_rest p)) of
                        (Some err, d) \<Rightarrow> log FatalLevel (Error err) ''migration'' (set_rest (\<lambda>s. s\<lparr>cs_db := d\<rparr>) p)
                      | (None, d) \<Rightarrow> Returns (set_rest (\<lambda>s. s\<lparr>cs_db := d\<rparr>) p))
                   else Returns p)
      in case SetupSQLXPostgres D (pr_cfg p) (cs_driver (pr_rest p)) of
           (Inl err, w) \<Rightarrow>
             log_bind (log PanicLevel (Error err) ''migration'' (set_rest (\<lambda>s. s\<lparr>cs_driver := w\<rparr>) p)) (\<lambda>p. Panics nil_deref p)
         | (Inr db, w) \<Rightarrow>
             deferred (set_rest (\<lambda>s. s\<lparr>cs_driver := snd (db_Close D db (cs_driver s))\<rparr>))
               (log_bind (run up (Runner_Up (runner db)) (set_rest (\<lambda>s. s\<lparr>cs_driver := w\<rparr>) p))
                  (run down (Runner_Down (runner db)))))"

section \<open>All or nothing\<close>

text \<open>What the database promises of a transaction: \<open>view\<close> is the committed table, \<open>pend\<close> the one inside the
  open transaction. A commit that reports an error may or may not have taken place.\<close>

definition seeded :: "(time \<Rightarrow> time) \<Rightarrow> Users \<Rightarrow> string \<Rightarrow> Users" where
  "seeded ts u i =
     u\<lparr>rId := i, rCreatedAt := ts (rCreatedAt u), rUpdatedAt := None, rDeletedAt := None, rPasswordChangedAt := None\<rparr>"

locale seed_store =
  fixes s :: "'d seed_DB" and view :: "'d \<Rightarrow> Users list" and pend :: "'d \<Rightarrow> Users list option" and ts :: "time \<Rightarrow> time"
  assumes begin_ok: "sd_Beginx s d = (None, d') \<Longrightarrow> view d' = view d \<and> pend d' = Some (view d)"
    and begin_err: "sd_Beginx s d = (Some err, d') \<Longrightarrow> view d' = view d"
    and insert_ok: "pend d = Some rs \<Longrightarrow> sd_NamedQuery s insertSeed u d = (None, d') \<Longrightarrow>
      view d' = view d \<and> (\<exists>i. pend d' = Some (rs @ [seeded ts u i]))"
    and insert_err: "pend d = Some rs \<Longrightarrow> sd_NamedQuery s insertSeed u d = (Some err, d') \<Longrightarrow> view d' = view d"
    and commit_ok: "pend d = Some rs \<Longrightarrow> sd_Commit s d = (None, d') \<Longrightarrow> view d' = rs"
    and commit_err: "pend d = Some rs \<Longrightarrow> sd_Commit s d = (Some err, d') \<Longrightarrow> view d' = view d \<or> view d' = rs"
    and rollback_keeps: "sd_Rollback s d = (r, d') \<Longrightarrow> view d' = view d"

text \<open>A row is the account of an entry of the seed data: the same name, address, hash, flag and role, and live.\<close>

definition account_of :: "Users \<Rightarrow> Users \<Rightarrow> bool" where
  "account_of u r \<longleftrightarrow> rUsername r = rUsername u \<and> rEmail r = rEmail u \<and> rPassword r = rPassword u \<and>
     rActive r = rActive u \<and> rRoleId r = rRoleId u \<and> live_row r"

lemma account_of_seeded: "account_of u (seeded ts (u\<lparr>rCreatedAt := t\<rparr>) i)"
  by (simp add: account_of_def seeded_def live_row_def)

context seed_store
begin

lemma loop_inserts:
  assumes "seed_loop E s users d e = (r, d', e')" and "pend d = Some rs"
  shows "view d' = view d \<and> (r = None \<longrightarrow> (\<exists>new. pend d' = Some (rs @ new) \<and> list_all2 account_of users new))"
  using assms
proof (induction users arbitrary: d e rs)
  case (Cons user users)
  obtain now e1 where t: "time_Now E e = (now, e1)" by fastforce
  let ?u = "user\<lparr>rCreatedAt := now\<rparr>"
  obtain q d1 where q: "sd_NamedQuery s insertSeed ?u d = (q, d1)" by fastforce
  show ?case
  proof (cases q)
    case None
    with q Cons.prems(2) insert_ok obtain i where i: "view d1 = view d" "pend d1 = Some (rs @ [seeded ts ?u i])"
      by blast
    have "seed_loop E s users d1 e1 = (r, d', e')"
      using Cons.prems(1) t q None by simp
    from Cons.IH [OF this i(2)] have "view d' = view d"
      and new: "r = None \<longrightarrow> (\<exists>new. pend d' = Some ((rs @ [seeded ts ?u i]) @ new) \<and> list_all2 account_of users new)"
      using i(1) by simp_all
    moreover have "list_all2 account_of (user # users) (seeded ts ?u i # new)" if "list_all2 account_of users new" for new
      using that account_of_seeded by simp
    ultimately show ?thesis by fastforce
  next
    case (Some err)
    with Cons.prems t q insert_err show ?thesis by auto
  qed
qed simp

lemma seeder_atomic:
  assumes "UserSeeder E s userData d e = (r, d', e')"
  shows "(r = None \<longrightarrow> userData \<noteq> [] \<and> (\<exists>new. view d' = view d @ new \<and> list_all2 account_of userData new)) \<and>
    (view d' = view d \<or> (\<exists>new. view d' = view d @ new \<and> list_all2 account_of userData new))"
proof (cases "userData = [] \<or> fst (sd_Beginx s d) \<noteq> None")
  case True
  then show ?thesis
    using assms begin_err by (cases "sd_Beginx s d") (auto simp: UserSeeder_def split: if_splits)
next
  case False
  then obtain d1 where b: "sd_Beginx s d = (None, d1)" by (cases "sd_Beginx s d") auto
  obtain q d2 e2 where l: "seed_loop E s userData d1 e = (q, d2, e2)" by (cases "seed_loop E s userData d1 e") auto
  note begun = begin_ok [OF b]
  have loop: "view d2 = view d" "q = None \<Longrightarrow> \<exists>new. pend d2 = Some (view d @ new) \<and> list_all2 account_of userData new"
    using loop_inserts [OF l] begun by auto
  have undo: "view (rollback_on s err dd) = view dd" for err dd
    using rollback_keeps by (cases "sd_Rollback s dd") (auto simp: rollback_on_def split: option.splits)
  show ?thesis
  proof (cases q)
    case (Some err)
    with False b l assms loop undo show ?thesis by (auto simp: UserSeeder_def)
  next
    case None
    obtain c d3 where c: "sd_Commit s d2 = (c, d3)" by fastforce
    have res: "r = c" "d' = rollback_on s c d3"
      using False b l None c assms by (auto simp: UserSeeder_def)
    obtain new where new: "pend d2 = Some (view d @ new)" "list_all2 account_of userData new" using loop(2) [OF None] by blast
    have "c = None \<longrightarrow> view d3 = view d @ new"
      using commit_ok [OF new(1)] c by blast
    moreover have "view d3 = view d \<or> view d3 = view d @ new"
      using commit_ok [OF new(1)] commit_err [OF new(1)] c unfolding loop(1) by (metis option.exhaust)
    moreover have "view d' = view d3"
      unfolding res by (rule undo)
    ultimately show ?thesis
      using False new(2) res(1) by metis
  qed
qed

end

section \<open>The command\<close>

lemma seed_main_result:
  assumes zap: "zap_logging Z lines" and ready: "default_ready (pr_log p)"
    and c: "SetupSQLXPostgres D (pr_cfg p) (cs_driver (pr_rest p)) = (c, w)"
  shows "case c of
      Inl err \<Rightarrow> \<exists>p'. seed_main Z ord E D sdb userData p = Panics (Error err) p' \<and> cs_db (pr_rest p') = cs_db (pr_rest p)
    | Inr db \<Rightarrow>
        (case UserSeeder E (sdb db) userData (cs_db (pr_rest p)) (cs_env (pr_rest p)) of
           (Some err, d, e) \<Rightarrow> \<exists>p'. seed_main Z ord E D sdb userData p = Panics (Error err) p' \<and> cs_db (pr_rest p') = d
         | (None, d, e) \<Rightarrow> \<exists>p'. seed_main Z ord E D sdb userData p = Returns p' \<and> cs_db (pr_rest p') = d)"
proof -
  let ?log = "process_log ''cmd/seed/main.go'' Z ord"
  note ends = process_log_ends [OF zap, where place = "''cmd/seed/main.go''" and ord = ord]
  have info: "\<exists>p'. ?log InfoLevel m k q = Returns p' \<and> pr_rest p' = pr_rest q \<and> default_ready (pr_log p')"
    if "default_ready (pr_log q)" for m k q
    using ends [OF that, where lvl = InfoLevel and msg = m and cat = k] by (auto split: log_end.splits)
  have panic: "\<exists>p'. ?log PanicLevel m k q = Panics m p' \<and> pr_rest p' = pr_rest q" if "default_ready (pr_log q)" for m k q
    using ends [OF that, where lvl = PanicLevel and msg = m and cat = k] by (auto split: log_end.splits)
  let ?p = "set_rest (\<lambda>s. s\<lparr>cs_driver := w\<rparr>) p"
  have rdy: "default_ready (pr_log ?p)" using ready by simp
  show ?thesis
  proof (cases c)
    case (Inl err)
    with panic [OF rdy, of "Error err" "''seeder''"] c show ?thesis by (auto simp: seed_main_def)
  next
    case (Inr db)
    obtain p1 where p1: "?log InfoLevel ''seeding...'' ''seeder'' ?p = Returns p1" "pr_rest p1 = pr_rest ?p" "default_ready (pr_log p1)"
      using info [OF rdy] by blast
    obtain r d e where s: "UserSeeder E (sdb db) userData (cs_db (pr_rest p)) (cs_env (pr_rest p)) = (r, d, e)"
      by (cases "UserSeeder E (sdb db) userData (cs_db (pr_rest p)) (cs_env (pr_rest p))") auto
    let ?q = "set_rest (\<lambda>s. s\<lparr>cs_db := d, cs_env := e\<rparr>) p1"
    have q: "default_ready (pr_log ?q)" using p1(3) by simp
    show ?thesis
    proof (cases r)
      case None
      obtain p2 where "?log InfoLevel ''seeding success!'' ''seeder'' ?q = Returns p2" "pr_rest p2 = pr_rest ?q"
        using info [OF q] by blast
      with None c Inr p1 s show ?thesis by (simp add: seed_main_def)
    next
      case (Some err)
      obtain p2 where "?log PanicLevel (Error err) ''seeder'' ?q = Panics (Error err) p2" "pr_rest p2 = pr_rest ?q"
        using panic [OF q] by blast
      with Some c Inr p1 s show ?thesis by (simp add: seed_main_def)
    qed
  qed
qed

text \<open>C38: the command \<^verbatim>\<open>seed\<close> is all or nothing: it returns normally only when every entry of the seed data has
  become a live row, in one transaction, after the rows that were there; when it panics the table is as it was,
  or, if the commit itself reported the error, has all the rows. It never exits silently.\<close>

theorem seed_command_atomic:
  assumes zap: "zap_logging Z lines" and ready: "default_ready (pr_log p)"
    and store: "\<And>h. seed_store (sdb h) view pend ts"
  shows "case seed_main Z ord E D sdb userData p of
      Returns p' \<Rightarrow> userData \<noteq> [] \<and>
        (\<exists>new. view (cs_db (pr_rest p')) = view (cs_db (pr_rest p)) @ new \<and> list_all2 account_of userData new)
    | Panics m p' \<Rightarrow> view (cs_db (pr_rest p')) = view (cs_db (pr_rest p)) \<or>
        (\<exists>new. view (cs_db (pr_rest p')) = view (cs_db (pr_rest p)) @ new \<and> list_all2 account_of userData new)
    | Exits p' \<Rightarrow> False"
proof -
  obtain c w where c: "SetupSQLXPostgres D (pr_cfg p) (cs_driver (pr_rest p)) = (c, w)" by fastforce
  note result = seed_main_result [OF zap ready c, where ord = ord and E = E and sdb = sdb and userData = userData]
  show ?thesis
  proof (cases c)
    case (Inl err)
    with result show ?thesis by auto
  next
    case (Inr db)
    obtain r d e where s: "UserSeeder E (sdb db) userData (cs_db (pr_rest p)) (cs_env (pr_rest p)) = (r, d, e)"
      by (cases "UserSeeder E (sdb db) userData (cs_db (pr_rest p)) (cs_env (pr_rest p))") auto
    from result Inr s seed_store.seeder_atomic [OF store s] show ?thesis
      by (auto split: option.splits)
  qed
qed

section \<open>A reference table\<close>

text \<open>The table is a list; an address that is already there is refused; identifiers are numbered. The flag
  says whether the commit fails, with or without effect.\<close>

record ref_seed =
  rs_rows :: "Users list"
  rs_tx :: "Users list option"
  rs_commit :: "bool option"

definition ref_seed_DB :: "ref_seed seed_DB" where
  "ref_seed_DB =
     \<lparr>sd_Beginx = (\<lambda>d. (None, d\<lparr>rs_tx := Some (rs_rows d)\<rparr>)),
      sd_NamedQuery = (\<lambda>q u d. case rs_tx d of
          None \<Rightarrow> (Some (ErrorString ''sql: transaction has already been committed or rolled back''), d)
        | Some rs \<Rightarrow> if rEmail u \<in> rEmail ` set rs then (Some (ErrorString ''duplicate key''), d)
                    else (None, d\<lparr>rs_tx := Some (rs @ [seeded (\<lambda>t. t) u (Itoa (int (length rs)))])\<rparr>)),
      sd_Commit = (\<lambda>d. case rs_tx d of
          None \<Rightarrow> (Some (ErrorString ''sql: transaction has already been committed or rolled back''), d)
        | Some rs \<Rightarrow> (case rs_commit d of
            None \<Rightarrow> (None, d\<lparr>rs_rows := rs, rs_tx := None\<rparr>)
          | Some done \<Rightarrow> (Some (ErrorString ''driver: bad connection''),
              if done then d\<lparr>rs_rows := rs, rs_tx := None\<rparr> else d\<lparr>rs_tx := None\<rparr>))),
      sd_Rollback = (\<lambda>d. (None, d\<lparr>rs_tx := None\<rparr>))\<rparr>"

interpretation ref_seeds: seed_store ref_seed_DB rs_rows rs_tx "\<lambda>t. t"
  by unfold_locales (auto simp: ref_seed_DB_def split: if_splits option.splits)

theorem seed_command_atomic_witness:
  "\<exists>p' rows. seed_main ref_zap ref_range ref_env ref_driver (\<lambda>h. ref_seed_DB) (UserData ''hash'')
     \<lparr>pr_log = logger_init ref_zap \<lparr>ls_defaultLogger = None, ls_out = [] :: nat ref_lines\<rparr>, pr_cfg = ref_settings, pr_maxprocs = 1,
      pr_rest = \<lparr>cs_driver = no_pool, cs_db = \<lparr>rs_rows = [], rs_tx = None, rs_commit = None\<rparr>, cs_env = ref_e0\<rparr>\<rparr> = Returns p' \<and>
     rs_rows (cs_db (pr_rest p')) = rows \<and> map rEmail rows = [''patrick@gmail.com'', ''johndoe@gmail.com'']"
proof -
  let ?p = "\<lparr>pr_log = logger_init ref_zap \<lparr>ls_defaultLogger = None, ls_out = [] :: nat ref_lines\<rparr>, pr_cfg = ref_settings, pr_maxprocs = 1,
      pr_rest = \<lparr>cs_driver = no_pool, cs_db = \<lparr>rs_rows = [], rs_tx = None, rs_commit = None\<rparr>, cs_env = ref_e0\<rparr>\<rparr>"
  have ready: "default_ready (pr_log ?p)" by (simp add: logger_init_ready)
  have db: "\<exists>h w. SetupSQLXPostgres ref_driver ref_settings no_pool = (Inr h, w)"
    by (simp add: SetupSQLXPostgres_def InitializeSQLXDatabase_def ref_driver_def postgres_dsn_def ref_settings_def
        EnvironmentProduction_def EnvironmentDevelopment_def)
  then obtain h w where h: "SetupSQLXPostgres ref_driver (pr_cfg ?p) (cs_driver (pr_rest ?p)) = (Inr h, w)" by auto
  have "fst (UserSeeder ref_env ref_seed_DB (UserData ''hash'') \<lparr>rs_rows = [], rs_tx = None, rs_commit = None\<rparr> ref_e0) = None"
    by (simp add: UserSeeder_def UserData_def seed_user_def ref_seed_DB_def rollback_on_def seeded_def split: prod.splits)
  with seed_main_result [OF ref_logging.zap_logging_axioms ready h, where ord = ref_range and E = ref_env and sdb = "\<lambda>h. ref_seed_DB"
      and userData = "UserData ''hash''"]
  obtain p' where run: "seed_main ref_zap ref_range ref_env ref_driver (\<lambda>h. ref_seed_DB) (UserData ''hash'') ?p = Returns p'"
    by (auto split: prod.splits)
  from seed_command_atomic [OF ref_logging.zap_logging_axioms ready ref_seeds.seed_store_axioms,
      where ord = ref_range and E = ref_env and D = ref_driver and userData = "UserData ''hash''"]
  obtain new where "rs_rows (cs_db (pr_rest p')) = new" "list_all2 account_of (UserData ''hash'') new"
    by (auto simp: run)
  then show ?thesis
    using run by (auto simp: UserData_def seed_user_def account_of_def list_all2_Cons1)
qed

end
