(* ===== verification/Clock.thy ===== *)
theory Clock
  imports Jwt_Service
begin

text \<open>
  The package \<^verbatim>\<open>pkg/clock\<close> and \<^verbatim>\<open>jwt.WithClock\<close>, which replaces the clock of the token service. A clock is a
  function of the environment that returns an instant; \<^verbatim>\<open>Stub\<close> is a state of its own, read by the clock that
  is given its place in the environment. The clock is used for minting alone: the parser of the tokens
  reads the system clock.
\<close>

type_synonym 'e Clock = "'e \<Rightarrow> time \<times> 'e"

definition RealClock_Now :: "'e goenv \<Rightarrow> 'e Clock" where
  "RealClock_Now E = time_Now E"

definition Frozen :: "time \<Rightarrow> 'e Clock" where
  "Frozen t e = (t, e)"

record Stub =
  stub_t :: time

definition Stub_Now :: "('e \<Rightarrow> Stub) \<Rightarrow> 'e Clock" where
  "Stub_Now stub e = (stub_t (stub e), e)"

definition Stub_Set :: "time \<Rightarrow> Stub \<Rightarrow> Stub" where
  "Stub_Set t s = s\<lparr>stub_t := t\<rparr>"

definition Stub_Advance :: "duration \<Rightarrow> Stub \<Rightarrow> Stub" where
  "Stub_Advance d s = s\<lparr>stub_t := stub_t s + d\<rparr>"

text \<open>The copy of the service that \<^verbatim>\<open>WithClock\<close> returns is the service over the environment with that clock.\<close>

definition WithClock :: "'e goenv \<Rightarrow> 'e golangJWT \<Rightarrow> jwtService \<Rightarrow> 'e Clock \<Rightarrow> 'e JWTService" where
  "WithClock E G j c = jwt_dict (E\<lparr>time_Now := c\<rparr>) G j"

lemma Stub_advances:
  "stub_t (fold Stub_Advance ds (Stub_Set t s)) = t + sum_list ds"
proof -
  have "stub_t (fold Stub_Advance ds s) = stub_t s + sum_list ds" for s
    by (induction ds arbitrary: s) (simp_all add: Stub_Advance_def)
  then show ?thesis by (simp add: Stub_Set_def)
qed

lemma WithClock_RealClock: "WithClock E G j (RealClock_Now E) = jwt_dict E G j"
  by (simp add: WithClock_def RealClock_Now_def)

text \<open>Tokens minted with a frozen clock have exact dates.\<close>

lemma frozen_dates:
  assumes "svc_GenerateTokenPair (WithClock E G j (Frozen t)) u a em e = (Inr p, e')"
  shows "AccessExpiresAt p = t + wrap64 (Hour * j_expired j) \<and> RefreshExpiresAt p = t + wrap64 (24 * Hour * j_refreshExpired j)"
  using assms
  by (auto simp: WithClock_def GenerateTokenPair_def signAccess_def signRefresh_def Frozen_def Let_def
      split: prod.splits sum.splits)

text \<open>The parser does not see the clock: advancing a stub does not make a token expire.\<close>

lemma parse_ignores_clock:
  "svc_ParseToken (WithClock E G j c) = svc_ParseToken (jwt_dict E G j)"
  "svc_ParseRefreshToken (WithClock E G j c) = svc_ParseRefreshToken (jwt_dict E G j)"
  by (simp_all add: WithClock_def)

end
