(* ===== verification/Server_Order.thy ===== *)
theory Server_Order
  imports Server_Props Auth_Order
begin

text \<open>
  Relations between the worlds before and after a request, carried through the whole server. For a preorder
  of the locale \<open>world_order\<close> there is one rule for each way the handlers are composed; \<open>server_order\<close> is a
  preorder that the authentication flows respect and that code of other packages leaves alone, and concludes
  for every request and every sequence of requests and sweeps of the limiter.
\<close>

section \<open>Handlers and middlewares that respect a relation\<close>

definition leaves ::
  "(('u, 'r, 'm, 'e) world \<Rightarrow> ('u, 'r, 'm, 'e) world \<Rightarrow> bool) \<Rightarrow> ('l, 'u, 'r, 'm, 'e) hfun \<Rightarrow> bool" where
  "leaves K h \<longleftrightarrow> (\<forall>c s c' s'. h c s = Some (c', s') \<longrightarrow> K (as_world s) (as_world s'))"

definition relays ::
  "(('u, 'r, 'm, 'e) world \<Rightarrow> ('u, 'r, 'm, 'e) world \<Rightarrow> bool) \<Rightarrow> ('l, 'u, 'r, 'm, 'e) mw \<Rightarrow> bool" where
  "relays K m \<longleftrightarrow> (\<forall>next. leaves K next \<longrightarrow> leaves K (m next))"

lemma leavesI: "(\<And>c s c' s'. h c s = Some (c', s') \<Longrightarrow> K (as_world s) (as_world s')) \<Longrightarrow> leaves K h"
  and leavesD: "leaves K h \<Longrightarrow> h c s = Some (c', s') \<Longrightarrow> K (as_world s) (as_world s')"
  by (auto simp: leaves_def)

lemma relaysI:
  "(\<And>next c s c' s'. leaves K next \<Longrightarrow> m next c s = Some (c', s') \<Longrightarrow> K (as_world s) (as_world s')) \<Longrightarrow> relays K m"
  by (auto simp: relays_def leaves_def [of K "m next" for "next"])

text \<open>What code of other packages does to the environment.\<close>

definition env_calm :: "('e \<Rightarrow> 'e \<Rightarrow> bool) \<Rightarrow> ('a \<Rightarrow> 'e \<Rightarrow> 'b \<times> 'e) \<Rightarrow> bool" where
  "env_calm ge f \<longleftrightarrow> (\<forall>c e c' e'. f c e = (c', e') \<longrightarrow> ge e e')"

definition mw_calm :: "('e \<Rightarrow> 'e \<Rightarrow> bool) \<Rightarrow> 'e gin_mw \<Rightarrow> bool" where
  "mw_calm ge m \<longleftrightarrow> env_calm ge (mw_before m) \<and> env_calm ge (mw_after m)"

definition calm_server :: "('e \<Rightarrow> 'e \<Rightarrow> bool) \<Rightarrow> 'e gin_lib \<Rightarrow> ('l, 'u, 'r, 'm, 'e) app_parts \<Rightarrow> bool" where
  "calm_server ge G A \<longleftrightarrow>
     (\<forall>name. mw_calm ge (otelgin_Middleware G name)) \<and> (\<forall>cfg cors. cors_New G cfg = Some cors \<longrightarrow> mw_calm ge cors) \<and>
     (\<forall>f. mw_calm ge (gin_LoggerWithFormatter G f)) \<and> mw_calm ge (gin_Recovery G) \<and>
     env_calm ge (promhttp_Handler G) \<and> env_calm ge (ginSwagger_Handler G) \<and> env_calm ge (gin_serveError G) \<and>
     env_calm ge (\<lambda>_::unit. hh_db_Ping (ap_health A)) \<and>
     (\<forall>ping. hh_redis_Ping (ap_health A) = Some ping \<longrightarrow> env_calm ge (\<lambda>_::unit. ping))"

lemma env_calmD: "env_calm ge f \<Longrightarrow> f c e = (c', e') \<Longrightarrow> ge e e'"
  by (simp add: env_calm_def)

context world_order
begin

lemma Next_leaves: "leaves K next \<Longrightarrow> gin_Next next c s = Some (c', s') \<Longrightarrow> K (as_world s) (as_world s')"
  by (auto simp: gin_Next_def K_refl dest: leavesD split: if_splits)

lemma ctx_leaves: "leaves K (of_ctx f)"
  by (auto simp: leaves_def of_ctx_def K_refl)

lemma env_leaves: "env_calm ge f \<Longrightarrow> leaves K (of_env f)"
  by (auto simp: leaves_def of_env_def intro: env_step env_calmD split: prod.splits)

lemma world_leaves:
  assumes "\<And>c w. flow K w (h c w)"
  shows "leaves K (of_world h)"
proof (rule leavesI)
  fix c s c' s' assume "of_world h c s = Some (c', s')"
  then show "K (as_world s) (as_world s')"
    using assms [of "as_world s" c] by (auto simp: of_world_def split: prod.splits)
qed

lemma then_Next_relays:
  assumes h: "leaves K h"
  shows "relays K (then_Next h)"
proof (rule relaysI)
  fix "next" c s c' s' assume n: "leaves K next" and run: "then_Next h next c s = Some (c', s')"
  then obtain c1 s1 where "h c s = Some (c1, s1)" "gin_Next next c1 s1 = Some (c', s')"
    by (auto simp: then_Next_def split: option.splits)
  with leavesD [OF h] Next_leaves [OF n] show "K (as_world s) (as_world s')" by (metis K_trans)
qed

lemma third_party_relays:
  assumes "mw_calm ge m"
  shows "relays K (third_party m)"
proof (rule relaysI)
  fix "next" c s c' s' assume n: "leaves K next" and run: "third_party m next c s = Some (c', s')"
  have h: "leaves K (of_env (mw_before m))" "leaves K (of_env (mw_after m))"
    using assms by (auto simp: mw_calm_def intro: env_leaves)
  from run obtain c1 s1 c2 s2 where r: "of_env (mw_before m) c s = Some (c1, s1)" "gin_Next next c1 s1 = Some (c2, s2)"
    "of_env (mw_after m) c2 s2 = Some (c', s')"
    by (auto simp: third_party_def split: option.splits)
  show "K (as_world s) (as_world s')"
    by (rule K_trans [OF K_trans [OF leavesD [OF h(1) r(1)] Next_leaves [OF n r(2)]] leavesD [OF h(2) r(3)]])
qed

lemma Metrics_relays: "relays K (MetricsMiddleware E)"
proof (rule relaysI)
  fix "next" c s c' s' assume n: "leaves K next" and run: "MetricsMiddleware E next c s = Some (c', s')"
  obtain t e where t: "time_Now E (w_env (as_world s)) = (t, e)" by fastforce
  let ?s1 = "s\<lparr>as_world := (as_world s)\<lparr>w_env := e\<rparr>\<rparr>"
  from run t obtain s2 u e2 l m d where nx: "gin_Next next c ?s1 = Some (c', s2)" and u: "time_Now E (w_env (as_world s2)) = (u, e2)"
    and s': "as_world s' = (as_world s2)\<lparr>w_env := histogram_Observe E ''http_request_duration_seconds'' m d
      (counter_Inc E ''http_requests_total'' l e2)\<rparr>"
    by (auto simp: MetricsMiddleware_def Let_def split: option.splits prod.splits)
  have "K (as_world s) (as_world s2)"
    using K_trans [OF env_step [OF now_ge [OF t]]] Next_leaves [OF n nx] by simp
  with s' show "K (as_world s) (as_world s')"
    by (simp add: env_steps [OF _ ge_trans [OF now_ge [OF u] ge_trans [OF counter_ge histogram_ge]]])
qed

lemma RequestID_relays: "relays K (RequestIDMiddleware E)"
  unfolding RequestIDMiddleware_def
  by (intro then_Next_relays env_leaves)
     (auto simp: env_calm_def RequestID_pick_def Let_def ge_refl dest: uuid_ge split: if_splits prod.splits)

lemma plain_relays: "relays K (SecurityHeadersMiddleware cfg)" "relays K (BodySizeLimitMiddleware n)"
  by (simp_all add: SecurityHeadersMiddleware_def BodySizeLimitMiddleware_def Let_def then_Next_relays ctx_leaves)

lemma getLimiter_ge: "getLimiter L E rl ip e = (l, rl', e') \<Longrightarrow> ge e e'"
  by (auto simp: getLimiter_def Let_def dest: now_ge split: option.splits prod.splits)

lemma headers_ge: "writeRateLimitHeaders L E c n l e = (c', e') \<Longrightarrow> ge e e'"
  by (auto simp: writeRateLimitHeaders_def Let_def dest!: now_ge intro: ge_trans split: prod.splits)

lemma retry_ge: "retryAfterSeconds L E l e = (n, e') \<Longrightarrow> ge e e'"
  by (auto simp: retryAfterSeconds_def Let_def ge_refl dest: now_ge split: if_splits prod.splits)

lemma admit_ge:
  assumes "rl_admit L E c rl e = (ok, c', rl', e')"
  shows "ge e e'"
proof -
  obtain l rl1 e1 where g: "getLimiter L E rl (g_clientIP c) e = (l, rl1, e1)" by (metis prod_cases3)
  obtain c1 e2 where h: "writeRateLimitHeaders L E c (rl_burst rl1) l e1 = (c1, e2)" by fastforce
  obtain t e3 where t: "time_Now E e2 = (t, e3)" by fastforce
  obtain b l2 where a: "rate_Allow L l t = (b, l2)" by fastforce
  obtain n e4 where r: "retryAfterSeconds L E l2 e3 = (n, e4)" by fastforce
  have "e' = e3 \<or> e' = e4"
    using assms g h t a r by (auto simp: rl_admit_def Let_def split: if_splits)
  then show ?thesis
    using getLimiter_ge [OF g] headers_ge [OF h] now_ge [OF t] retry_ge [OF r] ge_trans by blast
qed

lemma rate_limit_relays: "relays K (rate_limit_mw L E)"
  unfolding rate_limit_mw_def
  by (intro then_Next_relays leavesI)
     (auto simp: rl_Middleware_def dest!: admit_ge intro!: env_step split: prod.splits bool.splits)

lemma sweep_ge: "cleanup_sweep E ips rl e = (rl', e') \<Longrightarrow> ge e e'"
proof (induction ips arbitrary: rl e)
  case (Cons ip ips)
  then show ?case
    by (auto dest!: now_ge intro: ge_trans split: option.splits prod.splits if_splits)
qed (simp add: ge_refl)

lemma chain_leaves: "list_all (relays K) ms \<Longrightarrow> leaves K (chain ms)"
  by (induction ms) (simp_all add: leaves_def [of K "chain []"] K_refl chain_Cons relays_def)

text \<open>The steps that the handlers share.\<close>

lemma record_K:
  assumes "h_env H = E" and "K w w1"
  shows "flow K w (record_event H ev c w1)"
proof -
  obtain sink e where r: "audit_Record (h_env H) ev (g_audit c) (w_env w1) = (sink, e)" by fastforce
  then have "ge (w_env w1) e" using now_ge ge_refl assms(1) by (auto simp: audit_Record_def split: prod.splits if_splits)
  with assms(2) r show ?thesis by (simp add: record_event_def env_steps)
qed

lemma fail_K: "h_env H = E \<Longrightarrow> K w w1 \<Longrightarrow> flow K w (fail_with H ev err c w1)"
  using record_K [of H w w1 ev c] by (auto simp: fail_with_def split: prod.splits)

lemma succeed_K: "h_env H = E \<Longrightarrow> K w w1 \<Longrightarrow> flow K w (succeed_with H ev code m d c w1)"
  using record_K [of H w w1 ev c] by (auto simp: succeed_with_def split: prod.splits)

lemma body_K:
  "(\<And>req. flow K w (k req)) \<Longrightarrow> flow K w (with_body H bind flds k c w)"
  by (auto simp: with_body_def K_refl split: sum.splits option.splits)

lemmas handler_K = body_K flow_sum flow_option fail_K succeed_K

end

section \<open>The server\<close>

text \<open>The registration endpoint stores ordinary users only.\<close>

lemma app_auth_sel [simp]:
  "au_users (app_auth A) = ap_users A" "au_jwt (app_auth A) = ap_jwt A" "au_redis (app_auth A) = ap_redis A"
  "au_mailer (app_auth A) = ap_mailer A"
  by (simp_all add: app_auth_def)

locale server_order = auth_order K ge "h_env (ap_H A)" "app_auth A" good "\<lambda>_. True" + gin_routing G
  for K :: "('u, 'r, 'm, 'e) world \<Rightarrow> ('u, 'r, 'm, 'e) world \<Rightarrow> bool" and ge :: "'e \<Rightarrow> 'e \<Rightarrow> bool"
    and A :: "('l, 'u, 'r, 'm, 'e) app_parts" and good :: "User \<Rightarrow> bool" and G :: "'e gin_lib" +
  assumes calm: "calm_server ge G A" and ordinary: "uRoleID u = 2 \<Longrightarrow> good u"
begin

lemmas ByEmail_K = by_email1 [unfolded app_auth_sel]
lemmas Get_K = get1 [unfolded app_auth_sel]
lemmas Parse_ge = access_ge [unfolded app_auth_sel]

abbreviation uc :: "('u, 'r, 'm, 'e) world AuthUsecase" where
  "uc \<equiv> auth_NewUsecase (h_env (ap_H A)) (app_auth A)"

lemma handlers_K:
  "flow K w (Handler_Register (ap_H A) uc c w)" "flow K w (Handler_Login (ap_H A) uc c w)"
  "flow K w (Handler_VerifyOTP (ap_H A) uc c w)" "flow K w (Handler_Refresh (ap_H A) uc c w)"
  "flow K w (Handler_Logout (ap_H A) uc c w)" "flow K w (Handler_ForgotPassword (ap_H A) uc c w)"
  "flow K w (Handler_ResetPassword (ap_H A) uc c w)"
  unfolding Handler_Register_def Handler_Login_def Handler_VerifyOTP_def Handler_Refresh_def Handler_Logout_def
    Handler_ForgotPassword_def Handler_ResetPassword_def auth_NewUsecase_sel Let_def
  by (intro handler_K Register_K Login_K VerifyOTP_K Refresh_K Logout_K ForgotPassword_K ResetPassword_K;
      simp add: RegisterRequest_ToV1Domain_def ordinary)+

lemma Change_handler_K: "flow K w (Handler_ChangePassword (ap_H A) uc c w)"
proof (cases "CurrentUserFromContext c")
  case (Inr u)
  show ?thesis
    unfolding Handler_ChangePassword_def auth_NewUsecase_sel Inr sum.case by (intro handler_K ChangePassword_K) simp_all
qed (simp add: Handler_ChangePassword_def K_refl)

lemma SendOTP_leaves: "leaves K (of_partial (Handler_SendOTP (ap_H A) uc))"
proof (rule leavesI)
  fix c s c' s' assume run: "of_partial (Handler_SendOTP (ap_H A) uc) c s = Some (c', s')"
  have ok: "K w w2" if "SendOTP (h_env (ap_H A)) (app_auth A) em w = Some (ro, w1)" "succeed_with (ap_H A) ev n m d c w1 = (c1, w2)"
    for em w ro w1 ev n m d c1 w2
    using succeed_K [OF refl SendOTP_K [OF that(1)]] that(2) by (metis flow_pair)
  show "K (as_world s) (as_world s')"
    using run ok SendOTP_K K_refl
    by (auto simp: of_partial_def Handler_SendOTP_def split: option.splits sum.splits prod.splits)
qed

lemma GetUserData_K: "flow K w (GetUserData (ap_users A) c w)"
proof (cases "CurrentUserFromContext c")
  case (Inr u)
  show ?thesis unfolding GetUserData_def Inr sum.case by (intro flow_sum ByEmail_K) simp_all
qed (simp add: GetUserData_def K_refl)

lemma revokes_K:
  assumes "K w w1"
  shows "flow K w (cutoff_revokes \<lparr>am_jwtService = J, am_redisCache = Some (ap_redis A), am_isAdmin = adm\<rparr> user w1)"
proof (cases "cIssuedAt user")
  case (Some iat)
  have get: "flow K w (on_redis (cache_Get (ap_redis A) (TokenCutoffKey (cUserID user))) w1)"
    by (rule flow_step [OF assms Get_K])
  show ?thesis
    unfolding cutoff_revokes_def Some AuthMiddleware.select_convs prod.case option.case
    by (rule flow_sum [OF get]) (auto split: option.splits)
qed (simp add: cutoff_revokes_def assms)

lemma gate_K: "flow K w (NewAuthMiddleware (ap_jwt A) (ap_redis A) adm (\<lambda>c w. (c, w)) c w)"
proof -
  let ?m = "\<lparr>am_jwtService = ap_jwt A, am_redisCache = Some (ap_redis A), am_isAdmin = adm\<rparr>"
  have stop: "flow K w (NewAbortResponse c m, w)" for m by (simp add: K_refl)
  have parse: "flow K w (on_env (svc_ParseToken (ap_jwt A) tok) w)" for tok
    by (auto simp: on_env_def dest: Parse_ge intro: env_step split: prod.splits)
  have go: "flow K w (case on_env (svc_ParseToken (am_jwtService ?m) tok) w of
      (Inl err, w) \<Rightarrow> (NewAbortResponse c ''invalid token'', w)
    | (Inr user, w) \<Rightarrow> (case cutoff_revokes ?m user w of
        (True, w) \<Rightarrow> (NewAbortResponse c ''token has been revoked'', w)
      | (False, w) \<Rightarrow> if cIsAdmin user \<noteq> am_isAdmin ?m \<and> \<not> cIsAdmin user
          then (NewAbortResponse c ''you don't have access for this action'', w)
          else (gin_Set c CtxAuthenticatedUserKey (CtxClaims user), w)))" for tok
    unfolding AuthMiddleware.select_convs
  proof (rule flow_sum [OF parse])
    fix user w1 assume w1: "K w w1"
    obtain b w2 where c: "cutoff_revokes ?m user w1 = (b, w2)" by fastforce
    then have "K w w2" using revokes_K [OF w1, of "ap_jwt A" adm user] by simp
    with c show "flow K w (case cutoff_revokes ?m user w1 of
        (True, w) \<Rightarrow> (NewAbortResponse c ''token has been revoked'', w)
      | (False, w) \<Rightarrow> if cIsAdmin user \<noteq> adm \<and> \<not> cIsAdmin user
          then (NewAbortResponse c ''you don't have access for this action'', w)
          else (gin_Set c CtxAuthenticatedUserKey (CtxClaims user), w))"
      by (cases b) simp_all
  qed simp
  show ?thesis
    unfolding NewAuthMiddleware_def AuthMiddleware_Handle_def
    using stop go by (auto split: list.split simp del: AuthMiddleware.select_convs)
qed

lemma auth_relays: "relays K (auth_mw (ap_jwt A) (ap_redis A) adm)"
  unfolding auth_mw_def by (intro then_Next_relays world_leaves gate_K)

lemma endpoints_relay:
  assumes "(k, es) \<in> set (auth_endpoints A)"
  shows "list_all (relays K) (auth_guards A @ es)"
  using assms
  by (auto simp: auth_endpoints_def auth_guards_def Let_def
      intro!: then_Next_relays world_leaves handlers_K Change_handler_K SendOTP_leaves auth_relays plain_relays
        rate_limit_relays)

lemma Ready_calm: "env_calm ge (Ready (ap_health A))"
proof -
  have db: "ge e e'" if "hh_db_Ping (ap_health A) e = (r, e')" for e r e'
    using calm that env_calmD [of ge "\<lambda>_::unit. hh_db_Ping (ap_health A)" "()"] by (simp add: calm_server_def)
  have redis: "ge e e'" if "hh_redis_Ping (ap_health A) = Some ping" "ping e = (r, e')" for ping e r e'
    using calm that env_calmD [of ge "\<lambda>_::unit. ping" "()"] by (simp add: calm_server_def)
  have "ge e e'" if run: "Ready (ap_health A) c e = (c', e')" for c e c' e'
  proof -
    obtain r e1 where d: "hh_db_Ping (ap_health A) e = (r, e1)" by fastforce
    show ?thesis
    proof (cases "hh_redis_Ping (ap_health A)")
      case None
      with run d have "e' = e1" by (auto simp: Ready_def Let_def split: prod.splits)
      with db [OF d] show ?thesis by simp
    next
      case (Some ping)
      obtain q e2 where p: "ping e1 = (q, e2)" by fastforce
      with run d Some have "e' = e2" by (auto simp: Ready_def Let_def split: prod.splits)
      with ge_trans [OF db [OF d] redis [OF Some p]] show ?thesis by simp
    qed
  qed
  then show ?thesis by (simp add: env_calm_def)
qed

lemma router_relays:
  assumes "setupRouter G A = Some router"
  shows "list_all (relays K) (rg_handlers router)"
proof -
  have tp: "mw_calm ge (otelgin_Middleware G n)" "cors_New G cfg = Some cors \<Longrightarrow> mw_calm ge cors"
    "mw_calm ge (gin_LoggerWithFormatter G f)" "mw_calm ge (gin_Recovery G)" for n cfg cors f
    using calm by (auto simp: calm_server_def)
  show ?thesis
    by (rule setupRouter_shape [OF assms]) (simp add: tp third_party_relays Metrics_relays RequestID_relays plain_relays)
qed

lemma routes_relay:
  assumes "setupRouter G A = Some router" and "(k, hs) \<in> set (app_routes G A router)"
  shows "list_all (relays K) hs"
proof -
  have "env_calm ge (promhttp_Handler G)" "env_calm ge (ginSwagger_Handler G)"
    using calm by (auto simp: calm_server_def)
  note calls = this [THEN env_leaves, THEN then_Next_relays] Ready_calm [THEN env_leaves, THEN then_Next_relays]
    ctx_leaves [THEN then_Next_relays] auth_relays world_leaves [OF GetUserData_K, THEN then_Next_relays]
  show ?thesis
    using assms(2) router_relays [OF assms(1)] endpoints_relay unfolding app_routes_eq [OF assms(1)]
    by (auto simp: calls)
qed

lemma served_K:
  assumes "app_serve G A c s = Some (c', s')"
  shows "K (as_world s) (as_world s')"
proof -
  obtain router where set: "setupRouter G A = Some router"
    using assms by (auto simp: app_serve_def split: option.splits)
  have "env_calm ge (gin_serveError G)" using calm by (auto simp: calm_server_def)
  then have other: "leaves K (chain (rg_handlers router @ [then_Next (of_env (gin_serveError G))]))"
    using router_relays [OF set] by (intro chain_leaves) (simp add: env_leaves then_Next_relays)
  have "K (as_world s) (as_world s')"
    if "map_of (app_routes G A router) k = Some hs" "chain hs d s = Some (c', s')" for k hs d
    by (rule leavesD [OF chain_leaves [OF routes_relay [OF set map_of_SomeD [OF that(1)]]] that(2)])
  then show ?thesis
    using assms leavesD [OF other] by (auto simp: app_serve_def set engine_serve_def split: option.splits)
qed

end

section \<open>Histories\<close>

text \<open>The server between two moments: requests of any kind to any path, served one after the other, and the
  sweeps that the limiter's own goroutine makes in between.\<close>

inductive server_step ::
  "'e gin_lib \<Rightarrow> ('l, 'u, 'r, 'm, 'e) app_parts \<Rightarrow>
   ('l, 'u, 'r, 'm, 'e) app_state \<Rightarrow> ('l, 'u, 'r, 'm, 'e) app_state \<Rightarrow> bool"
  for G :: "'e gin_lib" and A :: "('l, 'u, 'r, 'm, 'e) app_parts" where
  step_request: "app_serve G A c s = Some (c', s') \<Longrightarrow> server_step G A s s'"
| step_sweep: "cleanup_sweep (h_env (ap_H A)) ips (as_limiter s) (w_env (as_world s)) = (rl, e) \<Longrightarrow>
    server_step G A s (s\<lparr>as_limiter := rl, as_world := (as_world s)\<lparr>w_env := e\<rparr>\<rparr>)"

inductive_cases server_stepE: "server_step G A s s'"

abbreviation server_history ::
  "'e gin_lib \<Rightarrow> ('l, 'u, 'r, 'm, 'e) app_parts \<Rightarrow>
   ('l, 'u, 'r, 'm, 'e) app_state \<Rightarrow> ('l, 'u, 'r, 'm, 'e) app_state \<Rightarrow> bool" where
  "server_history G A \<equiv> (server_step G A)\<^sup>*\<^sup>*"

context server_order
begin

lemma step_K: "server_step G A s s' \<Longrightarrow> K (as_world s) (as_world s')"
  by (erule server_stepE) (auto dest: served_K sweep_ge intro: env_step)

lemma history_K: "server_history G A s s' \<Longrightarrow> K (as_world s) (as_world s')"
  by (induction rule: rtranclp_induct) (blast intro: K_refl K_trans step_K)+

end

end
