(* ===== verification/Server_Histories.thy ===== *)
theory Server_Histories
  imports Server_Order Startup_Props
begin

text \<open>
  What holds along every sequence of requests to the assembled server. Two relations meet the laws of
  \<open>Server_Order.server_order\<close>: the entries of ended sessions stay away (\<open>Auth_Sessions.keeps\<close>), and the table
  of users only grows, by ordinary users, while the identity and the role of every row stay (\<open>grown\<close>).
\<close>

section \<open>The table of users\<close>

text \<open>What no request changes in a row; an account once active stays active.\<close>

definition settled :: "User \<Rightarrow> User \<Rightarrow> bool" where
  "settled u v \<longleftrightarrow>
     uID v = uID u \<and> uUsername v = uUsername u \<and> uEmail v = uEmail u \<and> uRoleID v = uRoleID u \<and>
     uCreatedAt v = uCreatedAt u \<and> uDeletedAt v = uDeletedAt u \<and> (uActive u \<longrightarrow> uActive v)"

definition grown :: "(string \<rightharpoonup> User) \<Rightarrow> (string \<rightharpoonup> User) \<Rightarrow> bool" where
  "grown m m' \<longleftrightarrow>
     (\<forall>i u. m i = Some u \<longrightarrow> (\<exists>v. m' i = Some v \<and> settled u v)) \<and>
     (\<forall>i v. m i = None \<longrightarrow> m' i = Some v \<longrightarrow> uRoleID v = 2 \<and> live v)"

lemma settled_refl [simp]: "settled u u"
  by (simp add: settled_def)

lemma settled_trans: "settled u v \<Longrightarrow> settled v w \<Longrightarrow> settled u w"
  by (simp add: settled_def)

lemma settled_changes [simp]: "settled u (activated now u)" "settled u (rotated ts x u)"
  by (simp_all add: settled_def activated_def rotated_def password_user_def)

lemma grown_refl [simp]: "grown m m"
  by (auto simp: grown_def)

lemma grown_old: "grown m m' \<Longrightarrow> m i = Some u \<Longrightarrow> \<exists>v. m' i = Some v \<and> settled u v"
  and grown_new: "grown m m' \<Longrightarrow> m i = None \<Longrightarrow> m' i = Some v \<Longrightarrow> uRoleID v = 2 \<and> live v"
  by (auto simp: grown_def)

lemma grown_trans:
  assumes "grown m m1" and "grown m1 m2"
  shows "grown m m2"
proof -
  have "\<exists>v. m2 i = Some v \<and> settled u v" if "m i = Some u" for i u
    using grown_old [OF assms(1) that] grown_old [OF assms(2)] settled_trans by blast
  moreover have "uRoleID v = 2 \<and> live v" if n: "m i = None" and v: "m2 i = Some v" for i v
  proof (cases "m1 i")
    case None
    then show ?thesis by (rule grown_new [OF assms(2) _ v])
  next
    case (Some u)
    with grown_new [OF assms(1) n] grown_old [OF assms(2)] v show ?thesis
      by (fastforce simp: settled_def live_def)
  qed
  ultimately show ?thesis by (simp add: grown_def)
qed

lemma grown_update: "(\<And>u. settled u (f u)) \<Longrightarrow> grown m (user_update i f m)"
  by (auto simp: grown_def user_update_def split: option.splits if_splits)

lemma grown_insert: "m (uID v) = None \<Longrightarrow> uRoleID v = 2 \<Longrightarrow> live v \<Longrightarrow> grown m (m(uID v \<mapsto> v))"
  by (auto simp: grown_def)

abbreviation rows_grown :: "('u \<Rightarrow> (string \<rightharpoonup> User)) \<Rightarrow> ('u, 'r, 'm, 'e) world \<Rightarrow> ('u, 'r, 'm, 'e) world \<Rightarrow> bool" where
  "rows_grown uv w w' \<equiv> grown (uv (w_users w)) (uv (w_users w'))"

lemma grown_users:
  assumes "\<And>x u e. f (w_users w) (w_env w) = (x, u, e) \<Longrightarrow> grown (uv (w_users w)) (uv u)"
  shows "flow (rows_grown uv) w (on_users f w)"
  using assms by (auto simp: on_users_def split: prod.splits)

lemma grown_redis: "flow (rows_grown uv) w (on_redis f w)"
  by (auto simp: on_redis_def split: prod.splits)

context auth_flows
begin

lemma grown_store: "uRoleID u = 2 \<Longrightarrow> uc_Store (au_users UC) u s e = (r, s', e') \<Longrightarrow> grown (uv s) (uv s')"
  using usr.Store_ok [of u s e _ s' e'] usr.Store_err [of u s e _ s' e']
  by (cases r) (metis grown_insert grown_refl)+

lemma grown_activate: "uc_Activate (au_users UC) i s e = (r, s', e') \<Longrightarrow> grown (uv s) (uv s')"
  using usr.Activate_ok [of i s e s' e'] usr.Activate_err [of i s e _ s' e']
  by (cases r) (metis grown_refl grown_update settled_changes(1))+

lemma grown_password: "uc_UpdatePassword (au_users UC) (Some u) s e = (r, s', e') \<Longrightarrow> grown (uv s) (uv s')"
  using usr.Update_ok [of u s e s' e'] usr.Update_err [of u s e _ s' e']
  by (cases r) (metis grown_refl grown_update settled_changes(2))+

end

sublocale auth_flows \<subseteq> g: auth_order "rows_grown uv" "\<lambda>_ _. True" E UC "\<lambda>u. uRoleID u = 2" "\<lambda>_. True"
proof
  fix w :: "('u, 'r, 'm, 'e) world" and u
  show "flow (rows_grown uv) w (mint_session E UC u w)"
  proof -
    obtain r w' where m: "mint_session E UC u w = (r, w')" by fastforce
    with mint_effect [OF m] show ?thesis by auto
  qed
qed (auto intro: grown_trans grown_users grown_redis grown_store grown_activate grown_password
    simp: on_mail_def usr.ByEmail_frame usr.ByID_frame split: prod.splits)

section \<open>The assembled server\<close>

locale server_routes =
  flows: auth_flows "app_auth A" rv dttl "h_env (ap_H A)" used uv coh ts uid + routes: gin_routing G
  for A :: "('l, 'u, 'r, 'm, 'e) app_parts" and G :: "'e gin_lib" and rv :: "'r \<Rightarrow> keyspace" and dttl :: duration
    and used :: "'e \<Rightarrow> string set" and uv :: "'u \<Rightarrow> (string \<rightharpoonup> User)" and coh :: "'u \<Rightarrow> bool"
    and ts :: "time \<Rightarrow> time" and uid :: "string \<Rightarrow> string"

sublocale server_routes \<subseteq> rows: server_order "rows_grown uv" "\<lambda>_ _. True" A "\<lambda>u. uRoleID u = 2" G
  by unfold_locales (simp_all add: calm_server_def mw_calm_def env_calm_def)

text \<open>Code of other packages does not take back identifiers.\<close>

locale server_flows = server_routes +
  assumes stack: "polite_stack G (ap_cfg A)" and quiet: "calm_server (grows used) G A"

sublocale server_flows \<subseteq> kept: server_order "keeps rv used" "grows used" A "\<lambda>_. True" G
  by unfold_locales (simp_all add: quiet)

text \<open>A request to an endpoint whose handler stands alone behind the limiter: it is stopped, over the limit, or handled
  with its body cut at the limit of the route.\<close>

context gin_routing
begin

lemma serve_endpoint:
  assumes pol: "polite_stack G (ap_cfg A)"
    and entry: "((m, p), [then_Next (of_world h)]) \<in> set (auth_endpoints A)"
    and req: "g_method c = m" "g_path c = p" "g_out c = []" and run: "app_serve G A c s = Some (c', s')"
  obtains (stopped) "g_out c' = []"
  | (limited) body where "g_out c' = [(429, body)]" "\<not> rStatus body"
  | (handled) c3 w3 c4 w4 where "g_body c3 = auth_limit (g_body c)" "g_out c3 = []"
    "w_users w3 = w_users (as_world s)" "w_redis w3 = w_redis (as_world s)" "h c3 w3 = (c4, w4)"
    "g_out c' = g_out c4" "w_users (as_world s') = w_users w4" "w_redis (as_world s') = w_redis w4"
proof -
  obtain router where set: "setupRouter G A = Some router"
    using run by (auto simp: app_serve_def split: option.splits)
  have plain: "CHR ''*'' \<notin> set p" "CHR '':'' \<notin> set p" "starts_with ''/api/v1/auth/'' p"
    and one: "es = [then_Next (of_world h)]" if "((m, p), es) \<in> set (auth_endpoints A)" for es
    using entry that by (auto simp: auth_endpoints_def Let_def starts_with_iff)
  have "(m, p) \<in> set (map fst (app_routes G A router))"
    using imageI [OF entry, of "fst \<circ> (\<lambda>(k, hs). (k, rg_handlers router @ auth_guards A @ hs))"]
    unfolding app_routes_eq [OF set] by (simp add: image_comp)
  then have pat: "gin_find G (map fst (app_routes G A router)) (g_method c) (g_path c) = Some p"
    unfolding req(1,2) using plain [OF entry] by (intro find_static)
  from serve_auth [OF pol set pat plain(3) [OF entry] run] show thesis
  proof (elim disjE exE conjE)
    assume "same_ans c c'"
    then show thesis using stopped req(3) by (simp add: same_ans_def)
  next
    fix c1 e1 ok c2 rl e2
    assume r: "if ok then \<exists>es c3 s3 c4 s4. ((g_method c, p), es) \<in> set (auth_endpoints A) \<and>
            req_upto auth_limit (c\<lparr>g_fullPath := p\<rparr>) c3 \<and> \<not> g_aborted c3 \<and> same_app (s\<lparr>as_limiter := rl\<rparr>) s3 \<and>
            chain es c3 s3 = Some (c4, s4) \<and> same_ans c4 c' \<and> same_app s4 s'
        else (\<exists>body. g_out c' = g_out c @ [(429, body)] \<and> \<not> rStatus body) \<and> g_audit c' = g_audit c \<and>
          same_app (s\<lparr>as_limiter := rl\<rparr>) s'"
    show thesis
    proof (cases ok)
      case True
      with r obtain es c3 s3 c4 s4 where e: "((g_method c, p), es) \<in> set (auth_endpoints A)"
        "req_upto auth_limit (c\<lparr>g_fullPath := p\<rparr>) c3" "same_app (s\<lparr>as_limiter := rl\<rparr>) s3"
        "chain es c3 s3 = Some (c4, s4)" "same_ans c4 c'" "same_app s4 s'"
        by auto
      have "es = [then_Next (of_world h)]" using one e(1) req(1) by blast
      then have "of_world h c3 s3 = Some (c4, s4)" using e(4) by (simp only: then_last)
      then obtain w4 where "h c3 (as_world s3) = (c4, w4)" "s4 = s3\<lparr>as_world := w4\<rparr>"
        by (auto simp: of_world_def split: prod.splits)
      then show thesis using handled [of c3 "as_world s3" c4 w4] e req(3) by (simp add: frame_defs)
    next
      case False
      with r limited req(3) show thesis by auto
    qed
  qed
qed

end

section \<open>Ended sessions\<close>

text \<open>A request that posts a refresh token to a path, in the part of the body that the route reads.\<close>

definition posts_token :: "('l, 'u, 'r, 'm, 'e) app_parts \<Rightarrow> string \<Rightarrow> string \<Rightarrow> gin_ctx \<Rightarrow> bool" where
  "posts_token A path t c \<longleftrightarrow> g_method c = ''POST'' \<and> g_path c = path \<and> g_out c = [] \<and>
     bind_Refresh (ap_H A) (map_option (\<lambda>r. http_MaxBytesReader r AuthBodyMaxBytes) (g_body c)) =
       Inr \<lparr>rqRefreshToken = t\<rparr>"

lemma record_sel: "record_event H ev c w = (c', w') \<Longrightarrow> g_out c' = g_out c \<and> w_redis w' = w_redis w"
  by (auto simp: record_event_def split: prod.splits)

lemma fail_out: "fail_with H ev err c w = (c', w') \<Longrightarrow> \<exists>x. g_out c' = g_out c @ [x] \<and> \<not> rStatus (snd x)"
  by (auto simp: fail_with_def split: prod.splits dest!: record_sel)
     (metis RespondWithError_one snd_conv)

lemma error_not_ok: "g_out c = [] \<Longrightarrow> x \<in> set (g_out (RespondWithError c err)) \<Longrightarrow> \<not> rStatus (snd x)"
  using RespondWithError_one [of c err] by auto

lemma body_ok:
  assumes "with_body H bind flds k c w = (c', w')" and "g_out c = []" and "\<exists>x\<in>set (g_out c'). rStatus (snd x)"
    and "bind (g_body c) = Inr req"
  shows "k req = (c', w') \<and> ValidatePayloads (h_env H) (h_unicode H) (h_Struct H) (flds req) = None"
  using assms error_not_ok [OF assms(2)]
  by (cases "ValidatePayloads (h_env H) (h_unicode H) (h_Struct H) (flds req)") (auto simp: with_body_def)

lemma logout_ok:
  assumes "Handler_Logout H (auth_NewUsecase E UC) c w = (c', w')" and "g_out c = []"
    and "\<exists>x\<in>set (g_out c'). rStatus (snd x)" and "bind_Refresh H (g_body c) = Inr req"
  shows "\<exists>w1. Logout UC (rqRefreshToken req) w = (None, w1) \<and> w_redis w' = w_redis w1 \<and>
    ValidatePayloads (h_env H) (h_unicode H) (h_Struct H) (RefreshRequest_fields req) = None"
proof -
  obtain r w1 where l: "Logout UC (rqRefreshToken req) w = (r, w1)" by fastforce
  note b = body_ok [OF assms(1) [unfolded Handler_Logout_def] assms(2-4), unfolded auth_NewUsecase_sel l]
  show ?thesis
  proof (cases r)
    case None
    with b l show ?thesis by (auto simp: succeed_with_def split: prod.splits dest: record_sel)
  next
    case (Some err)
    with b assms(3) error_not_ok [OF assms(2)] show ?thesis by auto
  qed
qed

lemma refresh_ok:
  assumes "Handler_Refresh H (auth_NewUsecase E UC) c w = (c', w')" and "g_out c = []"
    and "\<exists>x\<in>set (g_out c'). rStatus (snd x)" and "bind_Refresh H (g_body c) = Inr req"
  shows "\<exists>resp w1. Refresh E UC (rqRefreshToken req) w = (Inr resp, w1) \<and> w_redis w' = w_redis w1 \<and>
    ValidatePayloads (h_env H) (h_unicode H) (h_Struct H) (RefreshRequest_fields req) = None"
proof -
  obtain r w1 where l: "Refresh E UC (rqRefreshToken req) w = (r, w1)" by fastforce
  note b = body_ok [OF assms(1) [unfolded Handler_Refresh_def] assms(2-4), unfolded auth_NewUsecase_sel l]
  show ?thesis
  proof (cases r)
    case (Inr resp)
    with b l show ?thesis by (auto simp: succeed_with_def split: prod.splits dest: record_sel)
  next
    case (Inl err)
    with b assms(2,3) show ?thesis by (auto dest!: fail_out)
  qed
qed

lemma Unauthorized_401: "\<exists>body. g_out (RespondWithError c (Unauthorized m)) = g_out c @ [(401, body)] \<and> \<not> rStatus body"
  by (simp add: RespondWithError_def errors_As_ValidationErrors_def apperror_defs mapDomainErrorToHTTP_domain domain_type_def
      errors_As_DomainError_def)

lemma refresh_refused:
  assumes run: "Handler_Refresh H (auth_NewUsecase E UC) c w = (c', w')" and "bind_Refresh H (g_body c) = Inr req"
    and "ValidatePayloads (h_env H) (h_unicode H) (h_Struct H) (RefreshRequest_fields req) = None"
    and "fst (Refresh E UC (rqRefreshToken req) w) = Inl (Unauthorized m)"
  shows "\<exists>body. g_out c' = g_out c @ [(401, body)] \<and> \<not> rStatus body"
proof -
  obtain w1 where "Refresh E UC (rqRefreshToken req) w = (Inl (Unauthorized m), w1)"
    using assms(4) by (metis prod.collapse)
  with assms obtain ev where "fail_with H ev (Unauthorized m) c w1 = (c', w')"
    by (auto simp: Handler_Refresh_def with_body_def)
  then show ?thesis
    by (auto simp: fail_with_def split: prod.splits dest!: record_sel) (metis Unauthorized_401)
qed

context server_flows
begin

lemma entries:
  "((''POST'', ''/api/v1/auth/logout''), [then_Next (of_world (Handler_Logout (ap_H A) kept.uc))]) \<in> set (auth_endpoints A)"
  "((''POST'', ''/api/v1/auth/refresh''), [then_Next (of_world (Handler_Refresh (ap_H A) kept.uc))]) \<in> set (auth_endpoints A)"
  by (simp_all add: auth_endpoints_def Let_def)

text \<open>A success of either endpoint ends the session of the posted token.\<close>

lemma logout_ends:
  assumes "posts_token A ''/api/v1/auth/logout'' t c" and "app_serve G A c s = Some (c1, s1)"
    and "\<exists>x\<in>set (g_out c1). rStatus (snd x)"
  shows "\<exists>claims e e'. svc_ParseRefreshToken (ap_jwt A) t e = (Inr claims, e') \<and>
    rv (w_redis (as_world s1)) (RefreshKey (cID claims)) = None \<and>
    ValidatePayloads (h_env (ap_H A)) (h_unicode (ap_H A)) (h_Struct (ap_H A)) (RefreshRequest_fields \<lparr>rqRefreshToken = t\<rparr>) = None"
proof -
  have req: "g_method c = ''POST''" "g_path c = ''/api/v1/auth/logout''" "g_out c = []"
    and b: "bind_Refresh (ap_H A) (auth_limit (g_body c)) = Inr \<lparr>rqRefreshToken = t\<rparr>"
    using assms(1) by (simp_all add: posts_token_def)
  from assms(2) show ?thesis
  proof (cases rule: routes.serve_endpoint [OF stack entries(1) req, consumes 1, case_names stopped limited handled])
    case (handled c3 w3 c4 w4)
    from logout_ok [OF handled(5,2)] assms(3) handled b show ?thesis
      using flows.Logout_None [of t w3] by fastforce
  qed (use assms(3) in auto)
qed

lemma refresh_ends:
  assumes "posts_token A ''/api/v1/auth/refresh'' t c" and "app_serve G A c s = Some (c1, s1)"
    and "\<exists>x\<in>set (g_out c1). rStatus (snd x)" and del: "\<And>s. fst (cache_Del (ap_redis A) (RefreshKey j) s) = None"
    and j: "\<And>claims e e'. svc_ParseRefreshToken (ap_jwt A) t e = (Inr claims, e') \<Longrightarrow> cID claims = j"
  shows "\<exists>claims e e'. svc_ParseRefreshToken (ap_jwt A) t e = (Inr claims, e') \<and>
    rv (w_redis (as_world s1)) (RefreshKey (cID claims)) = None \<and>
    ValidatePayloads (h_env (ap_H A)) (h_unicode (ap_H A)) (h_Struct (ap_H A)) (RefreshRequest_fields \<lparr>rqRefreshToken = t\<rparr>) = None"
proof -
  have req: "g_method c = ''POST''" "g_path c = ''/api/v1/auth/refresh''" "g_out c = []"
    and b: "bind_Refresh (ap_H A) (auth_limit (g_body c)) = Inr \<lparr>rqRefreshToken = t\<rparr>"
    using assms(1) by (simp_all add: posts_token_def)
  from assms(2) show ?thesis
  proof (cases rule: routes.serve_endpoint [OF stack entries(2) req, consumes 1, case_names stopped limited handled])
    case (handled c3 w3 c4 w4)
    from refresh_ok [OF handled(5,2)] assms(3) handled b obtain resp w1 where
      r: "Refresh (h_env (ap_H A)) (app_auth A) t w3 = (Inr resp, w1)" "w_redis (as_world s1) = w_redis w1"
      "ValidatePayloads (h_env (ap_H A)) (h_unicode (ap_H A)) (h_Struct (ap_H A)) (RefreshRequest_fields \<lparr>rqRefreshToken = t\<rparr>) = None"
      by fastforce
    from r(1) show ?thesis
    proof (cases rule: flows.Refresh_Inr)
      case (1 claims e1 v r1 user u1 e2 pair w5)
      let ?k = "RefreshKey (cID claims)"
      have "cID claims = j" using j 1(1) by simp
      then obtain q where q: "cache_Del (ap_redis A) ?k (w_redis w5) = (None, q)" by (metis del prod.collapse)
      with 1(7) r(2) have "w_redis (as_world s1) = q" by (simp add: on_redis_def)
      with flows.red.Del_gone [of ?k "w_redis w5" q] q 1(1) r(3) show ?thesis by auto
    qed
  qed (use assms(3) in auto)
qed

lemma ended_refused:
  assumes minted: "svc_GenerateTokenPair (ap_jwt A) u a em e0 = (Inr p, e1)" "utf8_valid u" "utf8_valid em"
      "used e1 \<subseteq> used (w_env (as_world s))"
    and run: "app_serve G A c s = Some (c1, s1)" and hist: "server_history G A s1 s2"
    and ended: "\<exists>claims e e'. svc_ParseRefreshToken (ap_jwt A) (RefreshToken p) e = (Inr claims, e') \<and>
      rv (w_redis (as_world s1)) (RefreshKey (cID claims)) = None \<and>
      ValidatePayloads (h_env (ap_H A)) (h_unicode (ap_H A)) (h_Struct (ap_H A))
        (RefreshRequest_fields \<lparr>rqRefreshToken = RefreshToken p\<rparr>) = None"
    and post: "posts_token A ''/api/v1/auth/refresh'' (RefreshToken p) d" and again: "app_serve G A d s2 = Some (d', s3)"
  shows "g_out d' = [] \<or> (\<exists>code body. g_out d' = [(code, body)] \<and> code \<in> {401, 429} \<and> \<not> rStatus body)"
proof -
  from ended obtain claims e e' where
    parse: "svc_ParseRefreshToken (ap_jwt A) (RefreshToken p) e = (Inr claims, e')"
    and gone: "rv (w_redis (as_world s1)) (RefreshKey (cID claims)) = None"
    and valid: "ValidatePayloads (h_env (ap_H A)) (h_unicode (ap_H A)) (h_Struct (ap_H A))
        (RefreshRequest_fields \<lparr>rqRefreshToken = RefreshToken p\<rparr>) = None" by blast
  have id: "cID claims \<in> used (w_env (as_world s1))"
    using flows.minted_used [of u a em e0 p e1 "as_world s" e claims e'] minted parse kept.served_K [OF run]
    by (auto simp: keeps_def)
  have gone2: "rv (w_redis (as_world s2)) (RefreshKey (cID claims)) = None"
    using kept.history_K [OF hist] id gone by (auto simp: keeps_def)
  have req: "g_method d = ''POST''" "g_path d = ''/api/v1/auth/refresh''" "g_out d = []"
    and b: "bind_Refresh (ap_H A) (auth_limit (g_body d)) = Inr \<lparr>rqRefreshToken = RefreshToken p\<rparr>"
    using post by (simp_all add: posts_token_def)
  from again show ?thesis
  proof (cases rule: routes.serve_endpoint [OF stack entries(2) req, consumes 1, case_names stopped limited handled])
    case (handled c3 w3 c4 w4)
    obtain m where "fst (Refresh (h_env (ap_H A)) (app_auth A) (RefreshToken p) w3) = Inl (Unauthorized m)"
      using flows.Refresh_gone [of "RefreshToken p" e claims e' w3] parse gone2 handled(4) by auto
    with refresh_refused [OF handled(5), of "\<lparr>rqRefreshToken = RefreshToken p\<rparr>" m] b valid handled(1,2,6)
    obtain body where "g_out d' = [(401, body)]" "\<not> rStatus body" by auto
    then show ?thesis by simp
  qed auto
qed

end

context server_routes
begin

lemma rows_kept:
  assumes "server_history G A s s'"
  shows "dom (uv (w_users (as_world s))) \<subseteq> dom (uv (w_users (as_world s'))) \<and>
    (\<forall>i v. uv (w_users (as_world s')) i = Some v \<longrightarrow>
       (case uv (w_users (as_world s)) i of Some u \<Rightarrow> settled u v | None \<Rightarrow> live v \<and> \<not> IsAdmin v))"
proof -
  let ?m = "uv (w_users (as_world s))" and ?m' = "uv (w_users (as_world s'))"
  have g: "grown ?m ?m'" by (rule rows.history_K [OF assms])
  have "dom ?m \<subseteq> dom ?m'" using grown_old [OF g] by blast
  moreover have "case ?m i of Some u \<Rightarrow> settled u v | None \<Rightarrow> live v \<and> \<not> IsAdmin v" if "?m' i = Some v" for i v
    using grown_old [OF g, of i] grown_new [OF g _ that] that
    by (cases "?m i") (auto simp: IsAdmin_def RoleAdmin_def)
  ultimately show ?thesis by blast
qed

end

text \<open>The application that \<^verbatim>\<open>NewApp\<close> builds over packages that behave as documented is such a server.\<close>

lemma booted_routes:
  assumes "server_packages L tbl ts uid low rv cv used meth" and "gin_routing (sv_gin L)"
    and "NewApp L cfg s e b = (Booted A, b')" and "utf8_valid (ac_JWTIssuer cfg)"
  shows "server_routes (app_parts A) (sv_gin L) rv (wrap64 (ac_REDISExpired cfg * Minute)) used
    (\<lambda>s. domain_view tbl (us_db s)) (coherent (domain_view tbl) cv) ts uid"
proof (rule NewApp_Booted [OF assms(3)])
  fix ristr
  assume "sv_ristrNewCache L 64 (push_bit 30 1) 10000000 = Inr ristr"
    and parts: "app_parts A = server_parts L cfg (app_db A) ristr (app_asyncMailer A)"
  from server_packages.parts_flows [OF assms(1) this(1) assms(4)] assms(2) show ?thesis
    by (simp add: server_routes_def parts) (simp add: server_parts_def Let_def)
qed

lemma booted_flows:
  assumes "server_packages L tbl ts uid low rv cv used meth" and "gin_routing (sv_gin L)"
    and "NewApp L cfg s e b = (Booted A, b')" and "utf8_valid (ac_JWTIssuer cfg)"
    and "polite_stack (sv_gin L) (ap_cfg (app_parts A))" and "calm_server (grows used) (sv_gin L) (app_parts A)"
  shows "server_flows (app_parts A) (sv_gin L) rv (wrap64 (ac_REDISExpired cfg * Minute)) used
    (\<lambda>s. domain_view tbl (us_db s)) (coherent (domain_view tbl) cv) ts uid"
  using booted_routes [OF assms(1-4)] assms(5,6) by (simp add: server_flows_def server_flows_axioms_def)

section \<open>Properties\<close>

text \<open>C2: sessions end for good, over HTTP. A logout that the server answered with success ends the session of
  the posted token, and so does a refresh answered with success on a Redis that answers the deletion of the
  entry of that token (the flow ignores its error): after any sequence of requests, of any kind, from any
  client and with any other failures of Redis, the database or the mailer, and any sweeps of the limiter,
  a refresh with that token gets no success, but a 401, a 429 of the limiter, or the answer of a
  middleware of another package.\<close>

theorem ended_session_refused:
  assumes "auth_flows (app_auth A) rv dttl (h_env (ap_H A)) used uv coh ts uid" and "gin_routing G"
    and "polite_stack G (ap_cfg A)" and "calm_server (grows used) G A"
    and "svc_GenerateTokenPair (ap_jwt A) u a em e0 = (Inr p, e1)" and "utf8_valid u" and "utf8_valid em"
    and "used e1 \<subseteq> used (w_env (as_world s))"
    and "posts_token A path (RefreshToken p) c"
    and "path = ''/api/v1/auth/logout'' \<or>
      (path = ''/api/v1/auth/refresh'' \<and> (\<forall>s. fst (cache_Del (ap_redis A) (RefreshKey (RefreshJTI p)) s) = None))"
    and "app_serve G A c s = Some (c1, s1)" and "\<exists>x\<in>set (g_out c1). rStatus (snd x)"
    and "server_history G A s1 s2"
    and "posts_token A ''/api/v1/auth/refresh'' (RefreshToken p) d" and "app_serve G A d s2 = Some (d', s3)"
  shows "g_out d' = [] \<or> (\<exists>code body. g_out d' = [(code, body)] \<and> code \<in> {401, 429} \<and> \<not> rStatus body)"
proof -
  have srv: "server_flows A G rv dttl used uv coh ts uid"
    by (simp add: server_flows_def server_routes_def server_flows_axioms_def assms(1-4))
  note logout = server_flows.logout_ends [OF srv _ assms(11,12), of "RefreshToken p"]
    and refresh = server_flows.refresh_ends [OF srv _ assms(11,12), of "RefreshToken p" "RefreshJTI p"]
  have "cID claims = RefreshJTI p" if "svc_ParseRefreshToken (ap_jwt A) (RefreshToken p) e = (Inr claims, e')" for claims e e'
    using jwt_service.refresh_binds [OF auth_flows.axioms(3) [OF assms(1)], of u a em e0 p e1 e claims e'] assms(5-7) that
    by simp
  note refresh = refresh [OF _ _ this]
  have "\<exists>claims e e'. svc_ParseRefreshToken (ap_jwt A) (RefreshToken p) e = (Inr claims, e') \<and>
    rv (w_redis (as_world s1)) (RefreshKey (cID claims)) = None \<and>
    ValidatePayloads (h_env (ap_H A)) (h_unicode (ap_H A)) (h_Struct (ap_H A)) (RefreshRequest_fields \<lparr>rqRefreshToken = RefreshToken p\<rparr>) = None"
    using assms(10)
  proof (elim disjE conjE)
    assume "path = ''/api/v1/auth/logout''"
    with assms(9) show ?thesis by (intro logout) simp
  next
    assume "path = ''/api/v1/auth/refresh''" "\<forall>s. fst (cache_Del (ap_redis A) (RefreshKey (RefreshJTI p)) s) = None"
    with assms(9) show ?thesis by (intro refresh) simp_all
  qed
  then show ?thesis by (rule server_flows.ended_refused [OF srv assms(5-8,11,13) _ assms(14,15)])
qed

text \<open>C7: no request makes an administrator. Along any sequence of requests no row of the table of users is
  lost; every row keeps its identifier, user name, address, role, creation and deletion time, and stays
  active once it is; and every new row is a live user who is not an administrator.\<close>

theorem requests_keep_roles:
  assumes "auth_flows (app_auth A) rv dttl (h_env (ap_H A)) used uv coh ts uid" and "gin_routing G"
    and "server_history G A s s'"
  shows "dom (uv (w_users (as_world s))) \<subseteq> dom (uv (w_users (as_world s'))) \<and>
    (\<forall>i v. uv (w_users (as_world s')) i = Some v \<longrightarrow>
       (case uv (w_users (as_world s)) i of Some u \<Rightarrow> settled u v | None \<Rightarrow> live v \<and> \<not> IsAdmin v))"
  by (rule server_routes.rows_kept [OF server_routes.intro [OF assms(1,2)] assms(3)])

section \<open>Evaluated histories\<close>

interpretation ref_server: server_flows ref_app ref_gin rr_keys ref_dttl ref_used ref_uv ref_coh pg_ts "\<lambda>i. i"
proof -
  have "auth_flows (app_auth ref_app) rr_keys ref_dttl (h_env (ap_H ref_app)) ref_used ref_uv ref_coh pg_ts (\<lambda>i. i)"
    using ref_auth.auth_flows_axioms by simp
  moreover have "calm_server (grows ref_used) ref_gin ref_app"
    by (auto simp: calm_server_def mw_calm_def env_calm_def ref_gin_def ref_app_def split: if_splits)
  ultimately show "server_flows ref_app ref_gin rr_keys ref_dttl ref_used ref_uv ref_coh pg_ts (\<lambda>i. i)"
    using ref_routing.gin_routing_axioms ref_polite(1) [of "ap_cfg ref_app"]
    by (simp add: server_flows_def server_routes_def server_flows_axioms_def)
qed

lemma ref_serves:
  assumes "((''POST'', p), [then_Next (of_world h)]) \<in> set (auth_endpoints ref_app)"
  shows "\<exists>c' s'. app_serve ref_gin ref_app (ref_request ''POST'' p) s = Some (c', s')"
proof -
  let ?c = "ref_request ''POST'' p" and ?h = "[then_Next (of_world h)]"
  obtain router where set: "setupRouter ref_gin ref_app = Some router" and r: "rg_handlers router = ref_handlers" by (rule ref_router)
  have entry: "((g_method ?c, g_path ?c), rg_handlers router @ auth_guards ref_app @ ?h) \<in> set (app_routes ref_gin ref_app router)"
    using imageI [OF assms, of "\<lambda>(k, hs). (k, rg_handlers router @ auth_guards ref_app @ hs)"]
    unfolding ref_routing.app_routes_eq [OF set] by simp
  have "chain (auth_guards ref_app @ ?h) (ref_entered (?c\<lparr>g_fullPath := g_path ?c\<rparr>)) s \<noteq> None"
    by (simp add: auth_guards_def rate_limit_mw_def BodySizeLimitMiddleware_def then_Next_def gin_Next_def of_ctx_def of_world_def
        split: prod.splits)
  then show ?thesis using ref_serve [OF set r entry, of s] by fastforce
qed

theorem requests_keep_roles_witness:
  "\<exists>c' s' v. app_serve ref_gin ref_app (ref_request ''POST'' ''/api/v1/auth/register'') ref_state = Some (c', s') \<and>
     ref_uv (w_users (as_world s')) ''id-0'' = Some v \<and> uEmail v = ''ann@x.io'' \<and> \<not> IsAdmin v"
proof -
  have "((''POST'', ''/api/v1/auth/register''),
      [then_Next (of_world (Handler_Register ref_H (auth_NewUsecase ref_env ref_uc)))]) \<in> set (auth_endpoints ref_app)"
    by (simp add: auth_endpoints_def Let_def)
  then obtain c' s' where
    run: "app_serve ref_gin ref_app (ref_request ''POST'' ''/api/v1/auth/register'') ref_state = Some (c', s')"
    using ref_serves by blast
  then have "server_history ref_gin ref_app ref_state s'" by (intro r_into_rtranclp step_request)
  note kept = requests_keep_roles [OF ref_server.flows.auth_flows_axioms ref_routing.gin_routing_axioms this]
  have u: "ref_uv (w_users (as_world ref_state)) ''id-0'' = Some (ref_user True)"
    by (simp add: ref_state_def ref_world0_def ref_user_def ref_ann_def domain_view_def rd_tbl_def rd_wf_def rd_live_def
        ref_d0_def ref_rows_def inserted_row_def live_row_def ToV1Domain_def)
  with kept obtain v where v: "ref_uv (w_users (as_world s')) ''id-0'' = Some v" by blast
  with kept u have "settled (ref_user True) v" by fastforce
  moreover have "uEmail (ref_user True) = ''ann@x.io''" "\<not> IsAdmin (ref_user True)"
    by (simp_all add: ref_user_def IsAdmin_def RoleAdmin_def ref_ann_def ref_rows_def inserted_row_def ToV1Domain_def)
  ultimately show ?thesis using run v by (auto simp: settled_def IsAdmin_def)
qed

text \<open>The state in which the session of the reference pair is open.\<close>

definition ref_signed_in :: "ref_world \<Rightarrow> (ref_bucket, ref_uc_state, ref_redis, ref_mail, ref_world) app_state" where
  "ref_signed_in e = \<lparr>as_limiter = app_limiter, as_world = ref_session ref_pair0 e\<rparr>"

lemma ref_posts: "posts_token ref_app p (RefreshToken ref_pair0) (ref_request ''POST'' p)"
  by (simp add: posts_token_def ref_H_def ref_bind_def http_MaxBytesReader_def AuthBodyMaxBytes_def)

lemma ref_logout_served:
  assumes parse: "ParseRefreshToken ref_jwtlib ref_jwt (RefreshToken ref_pair0) e = (Inr claims, e)"
    and tok: "RefreshToken ref_pair0 \<noteq> ''''"
  shows "\<exists>c1 s1. app_serve ref_gin ref_app (ref_request ''POST'' ''/api/v1/auth/logout'') (ref_signed_in e) = Some (c1, s1) \<and>
    (\<exists>x\<in>set (g_out c1). rStatus (snd x))"
proof -
  let ?p = "''/api/v1/auth/logout''" and ?uc = "auth_NewUsecase ref_env ref_uc"
  let ?c = "ref_request ''POST'' ?p" and ?h = "[then_Next (of_world (Handler_Logout ref_H ?uc))]"
  let ?s = "ref_signed_in e" and ?t = "\<lparr>rqRefreshToken = RefreshToken ref_pair0\<rparr>"
  obtain router where set: "setupRouter ref_gin ref_app = Some router" and r: "rg_handlers router = ref_handlers" by (rule ref_router)
  have entry: "((g_method ?c, g_path ?c), rg_handlers router @ auth_guards ref_app @ ?h) \<in> set (app_routes ref_gin ref_app router)"
    unfolding ref_routing.app_routes_eq [OF set] by (simp add: auth_endpoints_def Let_def)
  obtain c3 rl where adm: "chain (auth_guards ref_app @ ?h) (ref_entered (?c\<lparr>g_fullPath := ?p\<rparr>)) ?s =
      chain ?h c3 (?s\<lparr>as_limiter := rl\<rparr>)" and c3: "req_upto auth_limit (?c\<lparr>g_fullPath := ?p\<rparr>) c3"
    by (rule ref_admitted [of "?c\<lparr>g_fullPath := ?p\<rparr>" ?s ?h]) (simp_all add: ref_signed_in_def)
  have b: "bind_Refresh ref_H (g_body c3) = Inr ?t"
    using c3 by (simp add: req_upto_def ref_H_def ref_bind_def http_MaxBytesReader_def AuthBodyMaxBytes_def)
  have v: "ValidatePayloads ref_env ref_unicode ref_Struct (RefreshRequest_fields ?t) = None"
    unfolding ref_validator.ValidatePayloads_None RefreshRequest_fields_def
    using tok by (simp add: ref_validator.rules_spec)
  obtain w1 where "Logout ref_uc (RefreshToken ref_pair0) (ref_session ref_pair0 e) = (None, w1)"
    using parse by (simp add: Logout_def on_env_def on_redis_def)
  then obtain c1 w2 where h: "Handler_Logout ref_H ?uc c3 (ref_session ref_pair0 e) = (c1, w2)"
    and ok: "rStatus (snd (last (g_out c1)))" and ne: "g_out c1 \<noteq> []"
    using b v by (cases "Handler_Logout ref_H ?uc c3 (ref_session ref_pair0 e)")
      (auto simp: Handler_Logout_def with_body_def succeed_with_def split: prod.splits)
  have "chain ?h c3 (?s\<lparr>as_limiter := rl\<rparr>) = Some (c1, ?s\<lparr>as_limiter := rl, as_world := w2\<rparr>)"
    unfolding then_last of_world_def using h by (simp add: ref_signed_in_def)
  with adm have "chain (auth_guards ref_app @ ?h) (ref_entered (?c\<lparr>g_fullPath := g_path ?c\<rparr>)) ?s =
      Some (c1, ?s\<lparr>as_limiter := rl, as_world := w2\<rparr>)" by simp
  from ref_serve [OF set r entry _ _ this] ok last_in_set [OF ne] show ?thesis by auto
qed

theorem ended_session_refused_witness:
  "\<exists>e c1 s1 d' s3.
     app_serve ref_gin ref_app (ref_request ''POST'' ''/api/v1/auth/logout'') (ref_signed_in e) = Some (c1, s1) \<and>
     (\<exists>x\<in>set (g_out c1). rStatus (snd x)) \<and>
     app_serve ref_gin ref_app (ref_request ''POST'' ''/api/v1/auth/refresh'') s1 = Some (d', s3) \<and>
     (\<forall>x\<in>set (g_out d'). \<not> rStatus (snd x))"
proof -
  obtain p e c where p: "GenerateTokenPair ref_env ref_jwtlib ref_jwt ''id-0'' False ''ann@x.io'' ref_e0 = (Inr p, e)"
    and parse: "ParseRefreshToken ref_jwtlib ref_jwt (RefreshToken p) e = (Inr c, e)" by (rule ref_minted)
  have p0: "ref_pair0 = p" using p by (simp add: ref_pair0_def)
  have "RefreshToken p \<noteq> ''''" using parse by (auto simp: ParseRefreshToken_Inr ref_parse_def ref_decode_def split: option.splits)
  with ref_logout_served parse p0 obtain c1 s1 where
    out: "app_serve ref_gin ref_app (ref_request ''POST'' ''/api/v1/auth/logout'') (ref_signed_in e) = Some (c1, s1)"
      "\<exists>x\<in>set (g_out c1). rStatus (snd x)" by blast
  obtain d' s3 where again: "app_serve ref_gin ref_app (ref_request ''POST'' ''/api/v1/auth/refresh'') s1 = Some (d', s3)"
    using ref_serves [OF ref_server.entries(2)] by blast
  have mint: "svc_GenerateTokenPair (ap_jwt ref_app) ''id-0'' False ''ann@x.io'' ref_e0 = (Inr ref_pair0, e)"
    using p p0 by simp
  have env: "ref_used e \<subseteq> ref_used (w_env (as_world (ref_signed_in e)))" by (simp add: ref_signed_in_def)
  from ended_session_refused [OF ref_server.flows.auth_flows_axioms ref_routing.gin_routing_axioms ref_server.stack
      ref_server.quiet mint ref_texts env ref_posts _ out(1,2) rtranclp.rtrancl_refl ref_posts again]
  have "\<forall>x\<in>set (g_out d'). \<not> rStatus (snd x)" by auto
  with out again show ?thesis by blast
qed

end
