(* ===== verification/Auth_Programs.thy ===== *)
theory Auth_Programs
  imports Auth_Sessions
begin

text \<open>
  The authentication flows as programs of single calls. In the server every request runs in a goroutine of
  its own; what is atomic here is one call on Redis, the users use case, the token service or the clock.
  A program is a tree of such calls, a pool is the list of the programs that are running, and a step of the pool is
  one call of one of them. Run alone, each program is the flow of \<open>Usecase_Auth\<close>.
\<close>

datatype ('w, 'a) prog = Ret 'a | Call "'w \<Rightarrow> ('w, 'a) prog \<times> 'w"

primrec run :: "('w, 'a) prog \<Rightarrow> 'w \<Rightarrow> 'a \<times> 'w" where
  "run (Ret a) = (\<lambda>w. (a, w))"
| "run (Call f) = (\<lambda>w. case (map_prod run id \<circ> f) w of (r, w) \<Rightarrow> r w)"

definition call :: "('w \<Rightarrow> 'x \<times> 'w) \<Rightarrow> ('x \<Rightarrow> ('w, 'a) prog) \<Rightarrow> ('w, 'a) prog" where
  "call f k = Call (\<lambda>w. case f w of (x, w) \<Rightarrow> (k x, w))"

lemma run_Call: "run (Call f) w = (case f w of (p, w) \<Rightarrow> run p w)"
  by (simp add: case_prod_beta)

lemma run_call [simp]: "run (call f k) w = (case f w of (x, w) \<Rightarrow> run (k x) w)"
  by (simp add: call_def case_prod_beta)

declare run.simps(2) [simp del]

section \<open>The flows\<close>

definition count_prog ::
  "'r RedisCache \<Rightarrow> string \<Rightarrow> duration \<Rightarrow> (int \<Rightarrow> (('u, 'r, 'm, 'e) world, 'a) prog) \<Rightarrow> (('u, 'r, 'm, 'e) world, 'a) prog" where
  "count_prog rc key ttl k =
     call (on_redis (cache_Incr rc key)) (\<lambda>r.
       case r of
         Inl incrErr \<Rightarrow> k 0
       | Inr attempts \<Rightarrow>
           if attempts = 1 then call (on_redis (cache_Expire rc key ttl)) (\<lambda>_. k attempts) else k attempts)"

definition remember_prog ::
  "'e goenv \<Rightarrow> ('u, 'r, 'm, 'e) auth_usecase \<Rightarrow> TokenPair \<Rightarrow> (goerr option \<Rightarrow> (('u, 'r, 'm, 'e) world, 'a) prog) \<Rightarrow>
   (('u, 'r, 'm, 'e) world, 'a) prog" where
  "remember_prog E uc pair k =
     call (on_env (time_Until E (RefreshExpiresAt pair))) (\<lambda>ttl.
       if ttl \<le> 0 then k (Some (ErrorString ''refresh token already expired''))
       else call (on_redis (cache_Set (au_redis uc) (RefreshKey (RefreshJTI pair)) (RefreshJTI pair))) (\<lambda>r.
         case r of
           Some err \<Rightarrow> k (Some err)
         | None \<Rightarrow> call (on_redis (cache_Expire (au_redis uc) (RefreshKey (RefreshJTI pair)) ttl)) k))"

definition mint_prog ::
  "'e goenv \<Rightarrow> ('u, 'r, 'm, 'e) auth_usecase \<Rightarrow> User \<Rightarrow> (goerr + TokenPair \<Rightarrow> (('u, 'r, 'm, 'e) world, 'a) prog) \<Rightarrow>
   (('u, 'r, 'm, 'e) world, 'a) prog" where
  "mint_prog E uc user k =
     call (on_env (svc_GenerateTokenPair (au_jwt uc) (uID user) (IsAdmin user) (uEmail user))) (\<lambda>r.
       case r of
         Inl mintErr \<Rightarrow> k (Inl (InternalCause (errorf_w ''generate token'' mintErr)))
       | Inr pair \<Rightarrow>
           remember_prog E uc pair (\<lambda>r.
             case r of
               Some persistErr \<Rightarrow> k (Inl (InternalCause (errorf_w ''persist refresh'' persistErr)))
             | None \<Rightarrow> k (Inr pair)))"

text \<open>\<^verbatim>\<open>Login\<close> after its guard.\<close>

definition login_checked ::
  "'e goenv \<Rightarrow> ('u, 'r, 'm, 'e) auth_usecase \<Rightarrow> string \<Rightarrow> string \<Rightarrow>
   (('u, 'r, 'm, 'e) world, goerr + LoginResponse) prog" where
  "login_checked E uc email password =
     call (on_users (uc_GetByEmail (au_users uc) email)) (\<lambda>r.
       case r of
         Inl lookupErr \<Rightarrow>
           (let _ = ValidateHash E password dummyBcryptHash
            in Ret (Inl (Unauthorized ''invalid email or password'')))
       | Inr user \<Rightarrow>
           if \<not> uActive user then Ret (Inl (Forbidden ''account is not activated''))
           else if \<not> VerifyPassword E user password then Ret (Inl (Unauthorized ''invalid email or password''))
           else mint_prog E uc user (\<lambda>r.
             case r of
               Inl err \<Rightarrow> Ret (Inl err)
             | Inr pair \<Rightarrow>
                 call (on_redis (cache_Del (au_redis uc) (LoginAttemptsKey email))) (\<lambda>_.
                   Ret (Inr \<lparr>lrUser = user, lrAccessToken = AccessToken pair, lrRefreshToken = RefreshToken pair\<rparr>))))"

definition login_locked :: "goerr + LoginResponse" where
  "login_locked = Inl (Forbidden ''too many failed login attempts, please try again later'')"

definition Login_prog ::
  "'e goenv \<Rightarrow> ('u, 'r, 'm, 'e) auth_usecase \<Rightarrow> string \<Rightarrow> string \<Rightarrow>
   (('u, 'r, 'm, 'e) world, goerr + LoginResponse) prog" where
  "Login_prog E uc reqEmail password =
     (let email = NormalizeEmail E reqEmail in
      if LoginMaxAttempts (au_cfg uc) > 0
      then count_prog (au_redis uc) (LoginAttemptsKey email) (LoginLockoutTTL (au_cfg uc)) (\<lambda>attempts.
        if attempts > LoginMaxAttempts (au_cfg uc) then Ret login_locked
        else login_checked E uc email password)
      else login_checked E uc email password)"

text \<open>\<^verbatim>\<open>Refresh\<close> after the check that the token is still known.\<close>

definition refresh_known ::
  "'e goenv \<Rightarrow> ('u, 'r, 'm, 'e) auth_usecase \<Rightarrow> JwtCustomClaim \<Rightarrow>
   (('u, 'r, 'm, 'e) world, goerr + LoginResponse) prog" where
  "refresh_known E uc claims =
     call (on_users (uc_GetByEmail (au_users uc) (cEmail claims))) (\<lambda>r.
       case r of
         Inl lookupErr \<Rightarrow> Ret (Inl (Unauthorized ''user no longer exists''))
       | Inr user \<Rightarrow>
           if \<not> uActive user then Ret (Inl (Forbidden ''account is not activated''))
           else if \<not> time_IsZero (TokensRevokedBefore user) \<and>
              (case cIssuedAt claims of None \<Rightarrow> False | Some iat \<Rightarrow> iat < TokensRevokedBefore user)
           then Ret (Inl (Unauthorized ''refresh token has been revoked''))
           else mint_prog E uc user (\<lambda>r.
             case r of
               Inl err \<Rightarrow> Ret (Inl err)
             | Inr pair \<Rightarrow>
                 call (on_redis (cache_Del (au_redis uc) (RefreshKey (cID claims)))) (\<lambda>_.
                   Ret (Inr \<lparr>lrUser = user, lrAccessToken = AccessToken pair, lrRefreshToken = RefreshToken pair\<rparr>))))"

definition Refresh_prog ::
  "'e goenv \<Rightarrow> ('u, 'r, 'm, 'e) auth_usecase \<Rightarrow> string \<Rightarrow>
   (('u, 'r, 'm, 'e) world, goerr + LoginResponse) prog" where
  "Refresh_prog E uc refreshToken =
     call (on_env (svc_ParseRefreshToken (au_jwt uc) refreshToken)) (\<lambda>r.
       case r of
         Inl parseErr \<Rightarrow> Ret (Inl (Unauthorized ''invalid refresh token''))
       | Inr claims \<Rightarrow>
           call (on_redis (cache_Get (au_redis uc) (RefreshKey (cID claims)))) (\<lambda>r.
             case r of
               Inl getErr \<Rightarrow> Ret (Inl (Unauthorized ''refresh token has been revoked''))
             | Inr _ \<Rightarrow> refresh_known E uc claims))"

section \<open>A program run alone is the flow\<close>

lemma run_count: "run (count_prog rc key ttl k) w = (case count_attempt rc key ttl w of (n, w) \<Rightarrow> run (k n) w)"
  by (simp add: count_prog_def count_attempt_def case_prod_beta split: sum.splits)

lemma run_remember: "run (remember_prog E uc pair k) w = (case rememberRefresh E uc pair w of (r, w) \<Rightarrow> run (k r) w)"
  by (simp add: remember_prog_def rememberRefresh_def case_prod_beta split: option.splits)

lemma run_mint: "run (mint_prog E uc user k) w = (case mint_session E uc user w of (r, w) \<Rightarrow> run (k r) w)"
  by (simp add: mint_prog_def mint_session_def run_remember case_prod_beta split: sum.splits option.splits)

lemma Login_prog_alone: "run (Login_prog E uc em pw) w = Login E uc em pw w"
  by (auto simp: Login_prog_def login_checked_def login_locked_def Login_def run_count run_mint Let_def case_prod_beta
      split: sum.splits)

lemma Refresh_prog_alone: "run (Refresh_prog E uc t) w = Refresh E uc t w"
  by (auto simp: Refresh_prog_def refresh_known_def Refresh_def run_mint Let_def case_prod_beta split: sum.splits option.splits)

section \<open>Pools\<close>

text \<open>One call of one running program.\<close>

inductive pool_step ::
  "('w, 'a) prog list \<times> 'w \<Rightarrow> ('w, 'a) prog list \<times> 'w \<Rightarrow> bool" where
  pool_call: "i < length ps \<Longrightarrow> ps ! i = Call f \<Longrightarrow> f w = (p, w') \<Longrightarrow> pool_step (ps, w) (ps[i := p], w')"

inductive_cases pool_stepE: "pool_step (ps, w) c"

text \<open>A sequence of such calls in which every change of the world satisfies \<open>P\<close>.\<close>

inductive pool_run ::
  "('w \<Rightarrow> 'w \<Rightarrow> bool) \<Rightarrow> ('w, 'a) prog list \<times> 'w \<Rightarrow> ('w, 'a) prog list \<times> 'w \<Rightarrow> bool" for P where
  run_nil: "pool_run P c c"
| run_snoc: "pool_run P c c1 \<Longrightarrow> pool_step c1 c2 \<Longrightarrow> P (snd c1) (snd c2) \<Longrightarrow> pool_run P c c2"

lemma pool_run_length: "pool_run P c c' \<Longrightarrow> length (fst c') = length (fst c)"
proof (induction rule: pool_run.induct)
  case (run_snoc c c1 c2)
  then show ?case by (auto elim!: pool_step.cases)
qed simp

lemma pool_run_trans: "pool_run P b c \<Longrightarrow> pool_run P a b \<Longrightarrow> pool_run P a c"
  by (induction rule: pool_run.induct) (auto intro: run_snoc)

lemma pool_call_snoc:
  assumes "pool_run P c (ps, w)" and "i < length ps" and "ps ! i = call f k" and "f w = (x, w')" and "P w w'"
  shows "pool_run P c (ps[i := k x], w')"
proof -
  have "pool_step (ps, w) (ps[i := k x], w')"
    by (rule pool_call [of _ _ "\<lambda>w. case f w of (x, w) \<Rightarrow> (k x, w)"]) (use assms in \<open>simp_all add: call_def\<close>)
  then show ?thesis using assms by (auto intro: run_snoc)
qed

text \<open>A program of the pool may run to its end before anything else happens.\<close>

lemma pool_alone:
  assumes "i < length ps" and "ps ! i = p"
  shows "pool_run (\<lambda>_ _. True) (ps, w) (ps[i := Ret (fst (run p w))], snd (run p w))"
  using assms
proof (induction p arbitrary: ps w)
  case (Ret a)
  then show ?case by (metis fst_conv list_update_id pool_run.run_nil run.simps(1) snd_conv)
next
  case (Call f)
  obtain q w1 where f: "f w = (q, w1)" by fastforce
  have "pool_step (ps, w) (ps[i := q], w1)" using Call.prems f by (intro pool_call)
  then have one: "pool_run (\<lambda>_ _. True) (ps, w) (ps[i := q], w1)" by (auto intro: run_snoc run_nil)
  have r: "f w \<in> range f" by (rule rangeI)
  have q: "q \<in> Basic_BNFs.fsts (f w)" by (simp add: f)
  have "pool_run (\<lambda>_ _. True) (ps[i := q], w1) ((ps[i := q])[i := Ret (fst (run q w1))], snd (run q w1))"
    by (rule Call.IH [OF r q]) (use Call.prems in auto)
  with one show ?case by (simp add: run_Call f pool_run_trans)
qed

text \<open>Programs all of whose calls satisfy \<open>Q\<close> and that can only return values with \<open>A\<close>.\<close>

inductive always :: "('w \<Rightarrow> 'w \<Rightarrow> bool) \<Rightarrow> ('a \<Rightarrow> bool) \<Rightarrow> ('w, 'a) prog \<Rightarrow> bool" for Q A where
  always_Ret: "A a \<Longrightarrow> always Q A (Ret a)"
| always_Call: "(\<And>w p w'. f w = (p, w') \<Longrightarrow> Q w w' \<and> always Q A p) \<Longrightarrow> always Q A (Call f)"

inductive_simps always_Ret_iff [simp]: "always Q A (Ret a)"

inductive_cases always_CallE: "always Q A (Call f)"

lemma always_call: "(\<And>w x w'. f w = (x, w') \<Longrightarrow> Q w w' \<and> always Q A (k x)) \<Longrightarrow> always Q A (call f k)"
  unfolding call_def by (rule always_Call) (auto split: prod.splits)

lemma always_step: "always Q A (Call f) \<Longrightarrow> f w = (p, w') \<Longrightarrow> Q w w' \<and> always Q A p"
  by (erule always_CallE) blast

end
