(* ===== verification/Auth_Concurrent.thy ===== *)
theory Auth_Concurrent
  imports Auth_Programs Login_Props
begin

text \<open>
  Requests that run at the same time. The counter of login attempts is raised by one atomic call before
  anything else, so between two resets of the counter its bound holds for every interleaving; the check and
  the removal of a refresh token are two calls, so two refreshes with the same token can both succeed.
\<close>

section \<open>The counter of login attempts\<close>

text \<open>The number a counter stands at: one below what the next \<^verbatim>\<open>INCR\<close> returns, and negative for an entry that
  is no number.\<close>

definition attempts :: "string \<Rightarrow> keyspace \<Rightarrow> int" where
  "attempts k m = (case incr_value k m of None \<Rightarrow> -1 | Some n \<Rightarrow> n - 1)"

text \<open>No call of a program raises the counter.\<close>

definition unraised :: "('r \<Rightarrow> keyspace) \<Rightarrow> string \<Rightarrow> ('u, 'r, 'm, 'e) world \<Rightarrow> ('u, 'r, 'm, 'e) world \<Rightarrow> bool" where
  "unraised rv k w w' \<longleftrightarrow>
     (0 \<le> attempts k (rv (w_redis w)) \<longrightarrow>
      0 \<le> attempts k (rv (w_redis w')) \<and> attempts k (rv (w_redis w')) \<le> attempts k (rv (w_redis w)))"

lemma always_other:
  "(\<And>x. always (unraised rv key) A (k x)) \<Longrightarrow> always (unraised rv key) A (call (on_env f) k)"
  "(\<And>x. always (unraised rv key) A (l x)) \<Longrightarrow> always (unraised rv key) A (call (on_users g) l)"
  by (auto intro!: always_call simp: unraised_def call_eqs)

lemma always_redis:
  assumes "\<And>s r s'. f s = (r, s') \<Longrightarrow> 0 \<le> attempts key (rv s) \<Longrightarrow>
      0 \<le> attempts key (rv s') \<and> attempts key (rv s') \<le> attempts key (rv s)"
    and "\<And>x. always (unraised rv key) A (k x)"
  shows "always (unraised rv key) A (call (on_redis f) k)"
  using assms by (intro always_call) (auto simp: unraised_def call_eqs)

text \<open>A Redis that answers on the counter \<open>key\<close> while the entry does not run out.\<close>

locale steady_counter =
  fixes C :: "'r RedisCache" and rv :: "'r \<Rightarrow> keyspace" and key :: string
  assumes incr_key: "cache_Incr C key s = (r, s') \<Longrightarrow> 0 \<le> attempts key (rv s) \<Longrightarrow> attempts key (rv s) + 2 < 2 ^ 63 \<Longrightarrow>
      r = Inr (attempts key (rv s) + 1) \<and> attempts key (rv s') = attempts key (rv s) + 1"
    and del_key: "cache_Del C key s = (x, s') \<Longrightarrow> 0 \<le> attempts key (rv s) \<Longrightarrow> attempts key (rv s') \<in> {0, attempts key (rv s)}"
    and expire_key: "cache_Expire C key t s = (x, s') \<Longrightarrow> 0 < t \<Longrightarrow> attempts key (rv s') = attempts key (rv s)"
    and get_any: "cache_Get C k s = (g, s') \<Longrightarrow> attempts key (rv s') = attempts key (rv s)"
    and set_other: "cache_Set C k v s = (x, s') \<Longrightarrow> k \<noteq> key \<Longrightarrow> attempts key (rv s') = attempts key (rv s)"
    and incr_other: "cache_Incr C k s = (r, s') \<Longrightarrow> k \<noteq> key \<Longrightarrow> attempts key (rv s') = attempts key (rv s)"
    and del_other: "cache_Del C k s = (x, s') \<Longrightarrow> k \<noteq> key \<Longrightarrow> attempts key (rv s') = attempts key (rv s)"
    and expire_other: "cache_Expire C k t s = (x, s') \<Longrightarrow> k \<noteq> key \<Longrightarrow> attempts key (rv s') = attempts key (rv s)"
begin

abbreviation quiet :: "('a \<Rightarrow> bool) \<Rightarrow> (('u, 'r, 'm, 'e) world, 'a) prog \<Rightarrow> bool" where
  "quiet \<equiv> always (unraised rv key)"

lemma quiet_get: "(\<And>x. quiet A (k x)) \<Longrightarrow> quiet A (call (on_redis (cache_Get C k')) k)"
  by (rule always_redis) (auto dest: get_any)

lemma quiet_set: "k' \<noteq> key \<Longrightarrow> (\<And>x. quiet A (k x)) \<Longrightarrow> quiet A (call (on_redis (cache_Set C k' v)) k)"
  by (rule always_redis) (auto dest: set_other)

lemma quiet_incr: "k' \<noteq> key \<Longrightarrow> (\<And>x. quiet A (k x)) \<Longrightarrow> quiet A (call (on_redis (cache_Incr C k')) k)"
  by (rule always_redis) (auto dest: incr_other)

lemma quiet_del: "(\<And>x. quiet A (k x)) \<Longrightarrow> quiet A (call (on_redis (cache_Del C k')) k)"
  by (rule always_redis; cases "k' = key") (auto dest: del_other del_key)

lemma quiet_expire: "k' \<noteq> key \<or> 0 < t \<Longrightarrow> (\<And>x. quiet A (k x)) \<Longrightarrow> quiet A (call (on_redis (cache_Expire C k' t)) k)"
  by (rule always_redis; cases "k' = key") (auto dest: expire_other expire_key)

lemmas quiet_calls = always_other quiet_get quiet_set quiet_incr quiet_del quiet_expire

end

lemma attempts_other [simp]:
  "k' \<noteq> k \<Longrightarrow> attempts k (eff_set k' p t m) = attempts k m" "k' \<noteq> k \<Longrightarrow> attempts k (eff_del k' m) = attempts k m"
  "k' \<noteq> k \<Longrightarrow> attempts k (eff_incr k' m) = attempts k m" "k' \<noteq> k \<Longrightarrow> attempts k (eff_expire k' t m) = attempts k m"
  by (auto simp: attempts_def incr_value_def [of k] eff_defs split: option.splits)

lemma attempts_key:
  "attempts k (eff_del k m) = 0" "0 < t \<Longrightarrow> attempts k (eff_expire k t m) = attempts k m"
  by (auto simp: attempts_def incr_value_def eff_defs split: option.splits)

lemma attempts_incr:
  assumes "0 \<le> attempts k m" and "attempts k m + 2 < 2 ^ 63"
  shows "incr_value k m = Some (attempts k m + 1)" "attempts k (eff_incr k m) = attempts k m + 1"
proof -
  show i: "incr_value k m = Some (attempts k m + 1)"
    using assms(1) by (auto simp: attempts_def split: option.splits)
  have "in_int64 (attempts k m + 1)" "in_int64 (attempts k m + 1 + 1)" using assms by (auto simp: in_int64_def)
  with i show "attempts k (eff_incr k m) = attempts k m + 1"
    by (simp add: eff_incr_def attempts_def [of k "m(k \<mapsto> y)" for y] incr_value_def [of k "m(k \<mapsto> y)" for y]
        ParseInt64_Itoa split: prod.splits option.splits)
qed

text \<open>A server that answers every \<^verbatim>\<open>INCR\<close> and whose entries do not run out; the adapter over it has a steady
  counter under every key.\<close>

locale lasting_server =
  fixes rc :: "'r redis_client" and rv :: "'r \<Rightarrow> keyspace"
  assumes set_step: "client_Set rc k p t s = (x, s') \<Longrightarrow>
      x = None \<and> rv s' = eff_set k p t (rv s) \<or> x \<noteq> None \<and> rv s' = rv s"
    and del_step: "client_Del rc k s = (x, s') \<Longrightarrow> x = None \<and> rv s' = eff_del k (rv s) \<or> x \<noteq> None \<and> rv s' = rv s"
    and expire_step: "client_Expire rc k t s = (x, s') \<Longrightarrow>
      x = None \<and> rv s' = eff_expire k t (rv s) \<or> x \<noteq> None \<and> rv s' = rv s"
    and get_step: "client_Get rc k s = (g, s') \<Longrightarrow> rv s' = rv s \<and> (\<forall>p. g = Inr p \<longrightarrow> (\<exists>t. rv s k = Some (p, t)))"
    and incr_step: "client_Incr rc k s = (r, s') \<Longrightarrow>
      (case incr_value k (rv s) of
         None \<Rightarrow> (\<exists>x. r = Inl x) \<and> rv s' = rv s
       | Some n \<Rightarrow> r = Inr n \<and> rv s' = eff_incr k (rv s))"
begin

lemma Get_keys: "cache_Get (NewRedisCache rc ex) k s = (g, s') \<Longrightarrow> rv s' = rv s"
  by (auto simp: redisCache_defs dest: get_step split: prod.splits sum.splits option.splits)

end

sublocale lasting_server \<subseteq> redis_server rc rv
proof
  fix k s n s'
  assume "client_Incr rc k s = (Inr n, s')"
  from incr_step [OF this] have "incr_value k (rv s) = Some n \<and> rv s' = eff_incr k (rv s)"
    by (simp split: option.splits)
  then show "\<exists>m. ages (rv s) m \<and> incr_value k m = Some n \<and> ages (eff_incr k m) (rv s')"
    by (intro exI [of _ "rv s"]) auto
qed (auto dest!: set_step get_step del_step incr_step expire_step simp: after_self split: option.splits)

sublocale lasting_server \<subseteq> counter: steady_counter "NewRedisCache rc ex" rv key for ex key
proof (unfold_locales, goal_cases)
  case (1 s r s')
  then show ?case by (auto simp: redisCache_defs attempts_incr dest: incr_step)
next
  case (2 s x s')
  then show ?case by (auto simp: redisCache_defs attempts_key dest: del_step)
next
  case (3 t s x s')
  then show ?case by (auto simp: redisCache_defs attempts_key dest: expire_step)
next
  case (4 k s g s')
  then show ?case by (simp add: Get_keys)
next
  case (5 k v s x s')
  then show ?case by (auto simp: redisCache_defs dest: set_step)
next
  case (6 k s r s')
  then show ?case by (auto simp: redisCache_defs dest!: incr_step split: option.splits)
next
  case (7 k s x s')
  then show ?case by (auto simp: redisCache_defs dest: del_step)
next
  case (8 k t s x s')
  then show ?case by (auto simp: redisCache_defs dest: expire_step)
qed

locale login_counter = steady_counter "au_redis UC" rv "LoginAttemptsKey addr"
  for UC :: "('u, 'r, 'm, 'e) auth_usecase" and rv :: "'r \<Rightarrow> keyspace" and addr :: string +
  assumes limited: "0 < LoginMaxAttempts (au_cfg UC)" and lockout: "0 < LoginLockoutTTL (au_cfg UC)"
begin

lemma mint_quiet: "(\<And>r. quiet A (k r)) \<Longrightarrow> quiet A (mint_prog E UC user k)"
  unfolding mint_prog_def remember_prog_def
  by (auto intro!: quiet_calls split: sum.splits option.splits)

lemma checked_quiet: "quiet (\<lambda>_. True) (login_checked E UC email pw)"
  unfolding login_checked_def Let_def
  by (auto intro!: quiet_calls mint_quiet split: sum.splits)

text \<open>The other flows do not raise the counter of this address.\<close>

lemma refresh_quiet: "quiet (\<lambda>_. True) (Refresh_prog E UC t)"
  unfolding Refresh_prog_def refresh_known_def
  by (auto intro!: quiet_calls mint_quiet split: sum.splits option.splits)

lemma other_login_quiet: "NormalizeEmail E em \<noteq> addr \<Longrightarrow> quiet (\<lambda>_. True) (Login_prog E UC em pw)"
  unfolding Login_prog_def count_prog_def Let_def
  by (auto intro!: quiet_calls checked_quiet split: sum.splits)

lemma login_starts:
  assumes "NormalizeEmail E em = addr" and "Login_prog E UC em pw = Call f" and "f w = (p, w')"
    and "0 \<le> attempts (LoginAttemptsKey addr) (rv (w_redis w))"
    and "attempts (LoginAttemptsKey addr) (rv (w_redis w)) + 2 < 2 ^ 63"
  shows "attempts (LoginAttemptsKey addr) (rv (w_redis w')) = attempts (LoginAttemptsKey addr) (rv (w_redis w)) + 1 \<and>
    quiet (\<lambda>r. attempts (LoginAttemptsKey addr) (rv (w_redis w')) > LoginMaxAttempts (au_cfg UC) \<longrightarrow> r = login_locked) p"
proof -
  let ?key = "LoginAttemptsKey addr"
  let ?n = "attempts ?key (rv (w_redis w)) + 1"
  obtain r s where i: "cache_Incr (au_redis UC) ?key (w_redis w) = (r, s)" by fastforce
  from incr_key [OF this assms(4,5)] have r: "r = Inr ?n" and s: "attempts ?key (rv s) = ?n" by simp_all
  let ?k = "if ?n > LoginMaxAttempts (au_cfg UC) then Ret login_locked else login_checked E UC addr pw"
  have k: "quiet (\<lambda>r. ?n > LoginMaxAttempts (au_cfg UC) \<longrightarrow> r = login_locked) ?k"
    using checked_quiet [of E addr pw] by simp
  let ?body = "\<lambda>n. if n > LoginMaxAttempts (au_cfg UC) then Ret login_locked else login_checked E UC addr pw"
  have fdef: "f = (\<lambda>w. case on_redis (cache_Incr (au_redis UC) ?key) w of (x, w) \<Rightarrow>
      (case x of Inl _ \<Rightarrow> ?body 0 | Inr n \<Rightarrow>
         if n = 1 then call (on_redis (cache_Expire (au_redis UC) ?key (LoginLockoutTTL (au_cfg UC)))) (\<lambda>_. ?body n) else ?body n, w))"
    using assms(2) limited
    unfolding Login_prog_def count_prog_def Let_def assms(1) call_def [of "on_redis (cache_Incr (au_redis UC) ?key)"] by simp
  have f: "f w = (if ?n = 1 then call (on_redis (cache_Expire (au_redis UC) ?key (LoginLockoutTTL (au_cfg UC)))) (\<lambda>_. ?k) else ?k,
      w\<lparr>w_redis := s\<rparr>)"
    unfolding fdef using i r by (simp add: on_redis_def [of "cache_Incr (au_redis UC) ?key"])
  have "quiet (\<lambda>r. ?n > LoginMaxAttempts (au_cfg UC) \<longrightarrow> r = login_locked) p"
    using f assms(3) k lockout by (auto intro!: quiet_expire split: if_splits)
  then show ?thesis using f assms(3) s by simp
qed

end

text \<open>A sequence of calls, with the number of calls after which a value of the world is smaller than before.\<close>

inductive pool_falls ::
  "('w \<Rightarrow> int) \<Rightarrow> ('w, 'a) prog list \<times> 'w \<Rightarrow> nat \<Rightarrow> ('w, 'a) prog list \<times> 'w \<Rightarrow> bool" for v where
  falls_nil: "pool_falls v c 0 c"
| falls_same: "pool_falls v c r c1 \<Longrightarrow> pool_step c1 c2 \<Longrightarrow> v (snd c1) \<le> v (snd c2) \<Longrightarrow> pool_falls v c r c2"
| falls_less: "pool_falls v c r c1 \<Longrightarrow> pool_step c1 c2 \<Longrightarrow> v (snd c2) < v (snd c1) \<Longrightarrow> pool_falls v c (Suc r) c2"

lemma pool_falls_length: "pool_falls v c r c' \<Longrightarrow> length (fst c') = length (fst c)"
  by (induction rule: pool_falls.induct) (auto elim!: pool_step.cases)

text \<open>The pool after \<open>r\<close> resets of the counter: \<open>S\<close> are the logins of the address that have been counted, each with
  the number of resets before it and the number it got.\<close>

definition counted ::
  "'e goenv \<Rightarrow> ('u, 'r, 'm, 'e) auth_usecase \<Rightarrow> ('r \<Rightarrow> keyspace) \<Rightarrow> string \<Rightarrow> nat set \<Rightarrow> int \<Rightarrow> nat \<Rightarrow>
   (('u, 'r, 'm, 'e) world, goerr + LoginResponse) prog list \<times> ('u, 'r, 'm, 'e) world \<Rightarrow> bool" where
  "counted E UC rv addr T c0 r c \<longleftrightarrow>
     (\<exists>S got. S \<subseteq> T \<and> inj_on got S \<and>
        0 \<le> attempts (LoginAttemptsKey addr) (rv (w_redis (snd c))) \<and>
        attempts (LoginAttemptsKey addr) (rv (w_redis (snd c))) \<le> c0 + int (card S) \<and>
        (r = 0 \<longrightarrow> c0 \<le> attempts (LoginAttemptsKey addr) (rv (w_redis (snd c)))) \<and>
        (\<forall>i\<in>T - S. \<exists>em pw. NormalizeEmail E em = addr \<and> fst c ! i = Login_prog E UC em pw) \<and>
        (\<forall>i\<in>S. fst (got i) \<le> r \<and> 0 < snd (got i) \<and> (fst (got i) = 0 \<longrightarrow> c0 < snd (got i)) \<and>
           (fst (got i) = r \<longrightarrow> snd (got i) \<le> attempts (LoginAttemptsKey addr) (rv (w_redis (snd c)))) \<and>
           always (unraised rv (LoginAttemptsKey addr))
             (\<lambda>x. snd (got i) > LoginMaxAttempts (au_cfg UC) \<longrightarrow> x = login_locked) (fst c ! i))) \<and>
     (\<forall>i. i < length (fst c) \<longrightarrow> i \<notin> T \<longrightarrow> always (unraised rv (LoginAttemptsKey addr)) (\<lambda>_. True) (fst c ! i))"

context login_counter
begin

abbreviation cnt :: "('u, 'r, 'm, 'e) world \<Rightarrow> int" where
  "cnt w \<equiv> attempts (LoginAttemptsKey addr) (rv (w_redis w))"

abbreviation past :: "int \<Rightarrow> goerr + LoginResponse \<Rightarrow> bool" where
  "past n x \<equiv> n > LoginMaxAttempts (au_cfg UC) \<longrightarrow> x = login_locked"

text \<open>A call by a login that was not counted counts it.\<close>

lemma counted_new:
  assumes S: "S \<subseteq> T" "inj_on got S" "0 \<le> cnt w" "cnt w \<le> c0 + int (card S)" "r = 0 \<longrightarrow> c0 \<le> cnt w"
    and new: "\<forall>i\<in>T - S. \<exists>em pw. NormalizeEmail E em = addr \<and> ps ! i = Login_prog E UC em pw"
    and old: "\<forall>i\<in>S. fst (got i) \<le> r \<and> 0 < snd (got i) \<and> (fst (got i) = 0 \<longrightarrow> c0 < snd (got i)) \<and>
      (fst (got i) = r \<longrightarrow> snd (got i) \<le> cnt w) \<and> quiet (past (snd (got i))) (ps ! i)"
    and others: "\<forall>i. i < length ps' \<longrightarrow> i \<notin> T \<longrightarrow> quiet (\<lambda>_. True) (ps' ! i)"
    and j: "j \<in> T - S" "j < length ps" "ps ! j = Call f" "f w = (p, w')" "ps' = ps[j := p]"
    and c0: "0 \<le> c0" "c0 + int (card T) + 1 < 2 ^ 63" and T: "finite T"
  shows "cnt w' = cnt w + 1 \<and> counted E UC rv addr T c0 r (ps', w')"
proof -
  from j new obtain em pw where l: "NormalizeEmail E em = addr" "Login_prog E UC em pw = Call f" by metis
  have fin: "finite S" using S(1) T finite_subset by blast
  have "card S < card T" using j(1) S(1) T by (metis DiffD1 DiffD2 psubset_card_mono psubsetI)
  then have "cnt w + 2 < 2 ^ 63" using S(4) c0(2) by linarith
  from login_starts [OF l j(4) S(3) this] have w': "cnt w' = cnt w + 1" and q: "quiet (past (cnt w')) p" by blast+
  let ?got = "got(j := (r, cnt w'))"
  have "(r, cnt w') \<notin> got ` S"
  proof
    assume "(r, cnt w') \<in> got ` S"
    then obtain i where "i \<in> S" "got i = (r, cnt w')" by (metis imageE)
    with old w' show False by fastforce
  qed
  then have "inj_on ?got (insert j S)" using S(2) j(1) by (auto simp: inj_on_fun_updI)
  moreover have "insert j S \<subseteq> T" "cnt w' \<le> c0 + int (card (insert j S))" using S j(1) w' fin by simp_all
  moreover have "\<forall>i\<in>T - insert j S. \<exists>em pw. NormalizeEmail E em = addr \<and> ps' ! i = Login_prog E UC em pw"
    using new j by (auto simp: nth_list_update)
  moreover have "\<forall>i\<in>insert j S. fst (?got i) \<le> r \<and> 0 < snd (?got i) \<and> (fst (?got i) = 0 \<longrightarrow> c0 < snd (?got i)) \<and>
      (fst (?got i) = r \<longrightarrow> snd (?got i) \<le> cnt w') \<and> quiet (past (snd (?got i))) (ps' ! i)"
    using old q S(3,5) w' j by (auto simp: nth_list_update)
  ultimately show ?thesis
    unfolding counted_def fst_conv snd_conv using others w' S(3,5)
    by (intro conjI exI [of _ "insert j S"] exI [of _ ?got]) auto
qed

text \<open>Every other call leaves the counter or resets it.\<close>

lemma counted_step:
  assumes inv: "counted E UC rv addr T c0 r (ps, w)" and step: "pool_step (ps, w) (ps', w')"
    and c0: "0 \<le> c0" "c0 + int (card T) + 1 < 2 ^ 63" and T: "finite T" "\<forall>i\<in>T. i < length ps"
  shows "counted E UC rv addr T c0 (if cnt w' < cnt w then Suc r else r) (ps', w')"
proof -
  from step obtain j f p where j: "j < length ps" "ps ! j = Call f" "f w = (p, w')" "ps' = ps[j := p]"
    by (auto elim: pool_stepE)
  from inv obtain S got where S: "S \<subseteq> T" "inj_on got S" "0 \<le> cnt w" "cnt w \<le> c0 + int (card S)" "r = 0 \<longrightarrow> c0 \<le> cnt w"
    and new: "\<forall>i\<in>T - S. \<exists>em pw. NormalizeEmail E em = addr \<and> ps ! i = Login_prog E UC em pw"
    and old: "\<forall>i\<in>S. fst (got i) \<le> r \<and> 0 < snd (got i) \<and> (fst (got i) = 0 \<longrightarrow> c0 < snd (got i)) \<and>
      (fst (got i) = r \<longrightarrow> snd (got i) \<le> cnt w) \<and> quiet (past (snd (got i))) (ps ! i)"
    and other: "\<forall>i. i < length ps \<longrightarrow> i \<notin> T \<longrightarrow> quiet (\<lambda>_. True) (ps ! i)"
    unfolding counted_def fst_conv snd_conv by blast
  have "quiet (\<lambda>_. True) p" if "j \<notin> T" using other that j(1-3) always_step by metis
  then have others: "\<forall>i. i < length ps' \<longrightarrow> i \<notin> T \<longrightarrow> quiet (\<lambda>_. True) (ps' ! i)"
    using other j(1,4) by (auto simp: nth_list_update)
  show ?thesis
  proof (cases "j \<in> T - S")
    case True
    from counted_new [OF S new old others True j c0 T(1)] show ?thesis by simp
  next
    case False
    have moved: "quiet A (ps ! j) \<Longrightarrow> unraised rv (LoginAttemptsKey addr) w w' \<and> quiet A p" for A
      using always_step j(2,3) by fastforce
    then have "unraised rv (LoginAttemptsKey addr) w w'"
      using False old other j(1) by (cases "j \<in> S") blast+
    then have w': "0 \<le> cnt w'" "cnt w' \<le> cnt w" using S(3) by (simp_all add: unraised_def)
    let ?r = "if cnt w' < cnt w then Suc r else r"
    have "\<forall>i\<in>T - S. \<exists>em pw. NormalizeEmail E em = addr \<and> ps' ! i = Login_prog E UC em pw"
      using new False j by (auto simp: nth_list_update)
    moreover have "fst (got i) \<le> ?r \<and> 0 < snd (got i) \<and> (fst (got i) = 0 \<longrightarrow> c0 < snd (got i)) \<and>
      (fst (got i) = ?r \<longrightarrow> snd (got i) \<le> cnt w') \<and> quiet (past (snd (got i))) (ps' ! i)" if "i \<in> S" for i
    proof -
      have o: "fst (got i) \<le> r" "0 < snd (got i)" "fst (got i) = 0 \<longrightarrow> c0 < snd (got i)"
        "fst (got i) = r \<longrightarrow> snd (got i) \<le> cnt w" "quiet (past (snd (got i))) (ps ! i)" using old that by blast+
      have "quiet (past (snd (got i))) (ps' ! i)"
        using o(5) moved [of "past (snd (got i))"] j(1,4) by (cases "i = j") (auto simp: nth_list_update)
      with o(1-4) w'(2) show ?thesis by simp
    qed
    ultimately show ?thesis
      unfolding counted_def fst_conv snd_conv using S w' others by (intro conjI exI [of _ S] exI [of _ got]) auto
  qed
qed

lemma counted_run:
  assumes "pool_falls cnt c r c'" and "counted E UC rv addr T c0 0 c"
    and "0 \<le> c0" "c0 + int (card T) + 1 < 2 ^ 63" "finite T" "\<forall>i\<in>T. i < length (fst c)"
  shows "counted E UC rv addr T c0 r c'"
  using assms
proof (induction rule: pool_falls.induct)
  case (falls_same c r c1 c2)
  then have "\<forall>i\<in>T. i < length (fst c1)" using pool_falls_length by fastforce
  with falls_same counted_step [of E T c0 r "fst c1" "snd c1" "fst c2" "snd c2"] show ?case by simp
next
  case (falls_less c r c1 c2)
  then have "\<forall>i\<in>T. i < length (fst c1)" using pool_falls_length by fastforce
  with falls_less counted_step [of E T c0 r "fst c1" "snd c1" "fst c2" "snd c2"] show ?case by simp
qed simp

lemma counted_bound:
  assumes "counted E UC rv addr T c0 r (ps, w)" and "finite T"
  shows "card {i\<in>T. \<exists>x. ps ! i = Ret x \<and> x \<noteq> login_locked} \<le>
    nat (LoginMaxAttempts (au_cfg UC) - c0) + r * nat (LoginMaxAttempts (au_cfg UC))"
proof -
  let ?M = "LoginMaxAttempts (au_cfg UC)" and ?D = "{i\<in>T. \<exists>x. ps ! i = Ret x \<and> x \<noteq> login_locked}"
  from assms(1) obtain S got where S: "inj_on got S"
    and new: "\<forall>i\<in>T - S. \<exists>em pw. NormalizeEmail E em = addr \<and> ps ! i = Login_prog E UC em pw"
    and old: "\<forall>i\<in>S. fst (got i) \<le> r \<and> 0 < snd (got i) \<and> (fst (got i) = 0 \<longrightarrow> c0 < snd (got i)) \<and>
      quiet (past (snd (got i))) (ps ! i)"
    unfolding counted_def fst_conv snd_conv by blast
  have not_ret: "Login_prog E UC em pw \<noteq> Ret x" for em pw x
    using limited by (simp add: Login_prog_def count_prog_def call_def Let_def)
  have "?D \<subseteq> S"
  proof (rule subsetI, rule ccontr)
    fix i assume i: "i \<in> ?D" and "i \<notin> S"
    then obtain em pw where "ps ! i = Login_prog E UC em pw" using new by blast
    with i not_ret show False by auto
  qed
  let ?B = "{0} \<times> {c0<..?M} \<union> {1..r} \<times> {0<..?M}"
  have "got ` ?D \<subseteq> ?B"
  proof
    fix y assume "y \<in> got ` ?D"
    then obtain i x where i: "i \<in> S" "y = got i" "ps ! i = Ret x" "x \<noteq> login_locked" using \<open>?D \<subseteq> S\<close> by blast
    with old have "fst y \<le> r" "0 < snd y" "fst y = 0 \<longrightarrow> c0 < snd y" "snd y \<le> ?M" by fastforce+
    then show "y \<in> ?B" by (cases y) auto
  qed
  moreover have "inj_on got ?D" using inj_on_subset [OF S \<open>?D \<subseteq> S\<close>] .
  ultimately have "card ?D \<le> card ?B" by (intro card_inj_on_le) auto
  also have "\<dots> \<le> card ({0::nat} \<times> {c0<..?M}) + card ({1..r} \<times> {0<..?M})" by (rule card_Un_le)
  finally show ?thesis by (simp add: card_cartesian_product)
qed

end

section \<open>Properties\<close>

text \<open>C4: the limit on login attempts holds for requests that run at the same time. Take any number of logins
  for one address among other running programs that do not raise its counter (as refreshes and logins for
  other addresses do not), on a Redis that answers \<^verbatim>\<open>INCR\<close> and keeps entries until they are deleted, and
  any interleaving of their calls. Of the logins that ended, at most as many as the limit left at the start
  got past the lockout, and as many as the limit again for every call that reset the counter (a login with
  the right password resets it); all the others were told that the address is locked.\<close>

theorem login_attempts_bounded:
  assumes "login_counter UC rv addr" and "finite T"
    and "\<forall>i\<in>T. i < length ps \<and> (\<exists>em pw. NormalizeEmail E em = addr \<and> ps ! i = Login_prog E UC em pw)"
    and "\<forall>i. i < length ps \<longrightarrow> i \<notin> T \<longrightarrow> always (unraised rv (LoginAttemptsKey addr)) (\<lambda>_. True) (ps ! i)"
    and "attempts (LoginAttemptsKey addr) (rv (w_redis w)) = n" and "0 \<le> n" and "n + int (card T) + 1 < 2 ^ 63"
    and "pool_falls (\<lambda>w. attempts (LoginAttemptsKey addr) (rv (w_redis w))) (ps, w) r (ps', w')"
  shows "card {i\<in>T. \<exists>x. ps' ! i = Ret x \<and> x \<noteq> login_locked} \<le>
    nat (LoginMaxAttempts (au_cfg UC) - n) + r * nat (LoginMaxAttempts (au_cfg UC))"
proof -
  have "counted E UC rv addr T n 0 (ps, w)"
    unfolding counted_def using assms(3-6) by (intro conjI exI [of _ "{}"] exI [of _ "\<lambda>_. (0, 0)"]) auto
  from login_counter.counted_run [OF assms(1,8) this assms(6,7,2)] assms(3)
  have "counted E UC rv addr T n r (ps', w')" by simp
  then show ?thesis by (rule login_counter.counted_bound [OF assms(1) _ assms(2)])
qed


lemma Refresh_checked:
  assumes "on_env (svc_ParseRefreshToken (au_jwt UC) t) w = (Inr c, w1)"
    and "on_redis (cache_Get (au_redis UC) (RefreshKey (cID c))) w1 = (Inr v, w2)"
  shows "Refresh E UC t w = run (refresh_known E UC c) w2"
  unfolding Refresh_prog_alone [symmetric] using assms by (simp add: Refresh_prog_def)


section \<open>Evaluated pools\<close>

text \<open>One allowed attempt.\<close>

definition ref_uc_once :: "(ref_uc_state, ref_redis, ref_mail, ref_world) auth_usecase" where
  "ref_uc_once = ref_uc_counting\<lparr>au_cfg := (au_cfg ref_uc)\<lparr>LoginMaxAttempts := 1\<rparr>\<rparr>"

interpretation ref_counting: lasting_server ref_counting rr_keys
  by unfold_locales
    (auto simp: ref_counting_def ref_client_def dest: rr_exec_cases split: if_splits option.splits)

interpretation ref_once: login_counter ref_uc_once rr_keys "''ann@x.io''"
  using ref_counting.counter.steady_counter_axioms [of 5]
  by (simp add: login_counter_def login_counter_axioms_def ref_uc_once_def ref_uc_counting_def ref_cfg_def duration_defs)

lemma ref_once_max: "LoginMaxAttempts (au_cfg ref_uc_once) = 1"
  by (simp add: ref_uc_once_def)

theorem login_attempts_bounded_witness:
  "\<exists>ps' w'. pool_falls (\<lambda>w. attempts (LoginAttemptsKey ''ann@x.io'') (rr_keys (w_redis w)))
       (replicate 2 (Login_prog ref_env ref_uc_once ''ann@x.io'' ''guess''), ref_world0 True []) 0 (ps', w') \<and>
     ps' ! 1 = Ret login_locked \<and> card {i\<in>{0, 1}. \<exists>x. ps' ! i = Ret x \<and> x \<noteq> login_locked} \<le> 1"
proof -
  let ?p = "Login_prog ref_env ref_uc_once ''ann@x.io'' ''guess''" and ?w = "ref_world0 True []"
  let ?key = "LoginAttemptsKey ''ann@x.io''" and ?T = "{0, 1::nat}"
  let ?v = "\<lambda>w. attempts ?key (rr_keys (w_redis w))"
  let ?incr = "\<lambda>w. w\<lparr>w_redis := (w_redis w)\<lparr>rr_keys := eff_incr ?key (rr_keys (w_redis w))\<rparr>\<rparr>"
  let ?k = "\<lambda>n. if n > (1::int) then Ret login_locked else login_checked ref_env ref_uc_once ''ann@x.io'' ''guess''"
  let ?f = "on_redis (cache_Incr (au_redis ref_uc_once) ?key)"
  define rest where "rest = (\<lambda>r. case r of Inl (_::goerr) \<Rightarrow> ?k 0 | Inr n \<Rightarrow>
    if n = 1 then call (on_redis (cache_Expire (au_redis ref_uc_once) ?key (LoginLockoutTTL (au_cfg ref_uc_once)))) (\<lambda>_. ?k n) else ?k n)"
  have p: "?p = call ?f rest"
    by (simp add: Login_prog_def count_prog_def Let_def rest_def ref_once_max cong: sum.case_cong)
  have rest: "rest (Inr 2) = Ret login_locked" by (simp add: rest_def)
  have w0: "?v ?w = 0" by (simp add: ref_world0_def attempts_def incr_value_def)
  have incr: "?f w = (Inr (?v w + 1), ?incr w)" "?v (?incr w) = ?v w + 1" if "0 \<le> ?v w" "?v w < 2" for w
    using that attempts_incr [of ?key "rr_keys (w_redis w)"]
    by (simp_all add: on_redis_def ref_uc_once_def ref_uc_counting_def redisCache_defs ref_counting_def)
  have step: "pool_falls ?v c 0 (ps[i := rest (Inr (?v w + 1))], ?incr w)"
    if "pool_falls ?v c 0 (ps, w)" "i < length ps" "ps ! i = ?p" "0 \<le> ?v w" "?v w < 2" for c ps w i
  proof (rule falls_same [OF that(1)])
    show "pool_step (ps, w) (ps[i := rest (Inr (?v w + 1))], ?incr w)"
      by (rule pool_call [of _ _ "\<lambda>w. case ?f w of (x, w) \<Rightarrow> (rest x, w)"])
        (use that(2,3) p incr(1) [OF that(4,5)] in \<open>simp_all add: call_def\<close>)
    show "?v (snd (ps, w)) \<le> ?v (snd (ps[i := rest (Inr (?v w + 1))], ?incr w))" using incr(2) [OF that(4,5)] by simp
  qed
  let ?w1 = "?incr ?w" and ?ps1 = "(replicate 2 ?p)[0 := rest (Inr 1)]"
  have w1: "?v ?w1 = 1" using incr(2) [of ?w] w0 by simp
  have "pool_falls ?v (replicate 2 ?p, ?w) 0 (?ps1, ?w1)"
    using step [OF falls_nil, of 0 "replicate 2 ?p" ?w] w0 by simp
  from step [OF this, of 1] w1 have run: "pool_falls ?v (replicate 2 ?p, ?w) 0 (?ps1[1 := rest (Inr 2)], ?incr ?w1)" by simp
  have "card {i\<in>?T. \<exists>x. ?ps1[1 := rest (Inr 2)] ! i = Ret x \<and> x \<noteq> login_locked}
      \<le> nat (LoginMaxAttempts (au_cfg ref_uc_once) - 0) + 0 * nat (LoginMaxAttempts (au_cfg ref_uc_once))"
    by (rule login_attempts_bounded [OF ref_once.login_counter_axioms, of ?T "replicate 2 ?p" ref_env ?w 0, OF _ _ _ w0 _ _ run])
      (auto simp: less_Suc_eq intro: ref_norm)
  then have "card {i\<in>?T. \<exists>x. ?ps1[1 := rest (Inr 2)] ! i = Ret x \<and> x \<noteq> login_locked} \<le> 1"
    by (simp add: ref_once_max)
  then show ?thesis using run rest by (intro exI conjI) auto
qed


lemma ref_mint_more:
  assumes "rw_now (w_env w) = 1700000000 * Second" and "rr_faults (w_redis w) = []"
  shows "\<exists>p w'. mint_session ref_env ref_uc u w = (Inr p, w') \<and> rr_faults (w_redis w') = [] \<and>
    rw_now (w_env w') = 1700000000 * Second \<and> w_users w' = w_users w \<and>
    (\<forall>k. rr_keys (w_redis w) k \<noteq> None \<longrightarrow> rr_keys (w_redis w') k \<noteq> None)"
proof -
  obtain p e' where "GenerateTokenPair ref_env ref_jwtlib ref_jwt (uID u) (IsAdmin u) (uEmail u) (w_env w) = (Inr p, e')"
    and "rw_now e' = 1700000000 * Second" and "RefreshExpiresAt p = 1700000000 * Second + 168 * Hour"
    using ref_pair [OF assms(1)] assms(1) by metis
  with assms show ?thesis
    by (simp add: mint_session_def rememberRefresh_def on_env_def on_redis_def time_Until_def duration_defs eff_defs)
qed

text \<open>After the check, a refresh does not look at the remembered token again. The deletions are those of a Redis that
  answers them, or that refuses them.\<close>

lemma ref_known:
  assumes UC: "au_users UC = au_users ref_uc" "mint_session ref_env UC = mint_session ref_env ref_uc"
      "\<forall>k s. rr_faults s = [] \<longrightarrow> rr_faults (snd (cache_Del (au_redis UC) k s)) = []"
    and "cEmail c = ''ann@x.io''" and "rw_now (w_env w) = 1700000000 * Second" and "rr_faults (w_redis w) = []"
    and "users_GetByEmail ref_env ref_users_uc ''ann@x.io'' (w_users w) (w_env w) = (Inr (ref_user True), u', e')"
    and "rw_now e' = 1700000000 * Second"
  shows "\<exists>a w'. run (refresh_known ref_env UC c) w = (Inr a, w') \<and> rr_faults (w_redis w') = [] \<and>
    rw_now (w_env w') = 1700000000 * Second \<and> w_users w' = u' \<and>
    (\<exists>s. w_redis w' = snd (cache_Del (au_redis UC) (RefreshKey (cID c)) s) \<and>
       (\<forall>k. rr_keys (w_redis w) k \<noteq> None \<longrightarrow> rr_keys s k \<noteq> None))"
proof -
  let ?w = "w\<lparr>w_users := u', w_env := e'\<rparr>"
  obtain p w2 where m: "mint_session ref_env ref_uc (ref_user True) ?w = (Inr p, w2)" and w2: "rr_faults (w_redis w2) = []"
    "rw_now (w_env w2) = 1700000000 * Second" "w_users w2 = u'"
    and keep: "\<forall>k. rr_keys (w_redis w) k \<noteq> None \<longrightarrow> rr_keys (w_redis w2) k \<noteq> None"
    using ref_mint_more [of ?w "ref_user True"] assms(6,8) by auto
  have l: "on_users (uc_GetByEmail (au_users UC) ''ann@x.io'') w = (Inr (ref_user True), ?w)"
    using assms(7) by (simp add: on_users_def UC(1))
  obtain y s where d: "cache_Del (au_redis UC) (RefreshKey (cID c)) (w_redis w2) = (y, s)" by fastforce
  have "\<exists>a. run (refresh_known ref_env UC c) w = (Inr a, w2\<lparr>w_redis := s\<rparr>)"
    using l m d assms(4) by (simp add: refresh_known_def run_mint ref_revoked UC(2) on_redis_def)
  then obtain a where "run (refresh_known ref_env UC c) w = (Inr a, w2\<lparr>w_redis := s\<rparr>)" ..
  moreover have "rr_faults s = []" using UC(3) w2(1) d by (metis snd_conv)
  ultimately show ?thesis
    using w2 keep d by (intro exI [of _ a] exI [of _ "w2\<lparr>w_redis := s\<rparr>"] conjI exI [of _ "w_redis w2"]) simp_all
qed

text \<open>The calls of the check in the state after a login.\<close>

lemma ref_checks:
  assumes "ParseRefreshToken ref_jwtlib ref_jwt (RefreshToken p) e = (Inr c, e)" and "cID c = RefreshJTI p" and "ascii (RefreshJTI p)"
    and "au_jwt UC = au_jwt ref_uc" and "cache_Get (au_redis UC) = cache_Get (au_redis ref_uc)"
  shows "on_env (svc_ParseRefreshToken (au_jwt UC) (RefreshToken p)) (ref_session p e) = (Inr c, ref_session p e)"
    "on_redis (cache_Get (au_redis UC) (RefreshKey (cID c))) (ref_session p e) = (Inr (RefreshJTI p), ref_session p e)"
  using assms json_roundtrip [OF assms(3)] by (simp_all add: on_env_def on_redis_def)


section \<open>A deletion that Redis refuses\<close>

text \<open>The flow ignores the error of the deletion as well: on a Redis that refuses deletions a refresh that succeeded
  leaves the entry of its token, so that the token passes the check again.\<close>

definition ref_uc_stuck :: "(ref_uc_state, ref_redis, ref_mail, ref_world) auth_usecase" where
  "ref_uc_stuck = ref_uc\<lparr>au_redis :=
     NewRedisCache (ref_client\<lparr>client_Del := (\<lambda>k s. (Some (ErrorString ''dial tcp: connection refused''), s))\<rparr>) 5\<rparr>"

lemma refresh_may_leave_token:
  "\<exists>p e x w'. GenerateTokenPair ref_env ref_jwtlib ref_jwt ''id-0'' False ''ann@x.io'' ref_e0 = (Inr p, e) \<and>
     Refresh ref_env ref_uc_stuck (RefreshToken p) (ref_session p e) = (Inr x, w') \<and>
     rr_keys (w_redis w') (RefreshKey (RefreshJTI p)) \<noteq> None"
proof -
  obtain p e c where gen: "GenerateTokenPair ref_env ref_jwtlib ref_jwt ''id-0'' False ''ann@x.io'' ref_e0 = (Inr p, e)"
    and e: "rw_now e = 1700000000 * Second" and parse: "ParseRefreshToken ref_jwtlib ref_jwt (RefreshToken p) e = (Inr c, e)"
    and c: "cID c = RefreshJTI p" "cEmail c = ''ann@x.io''" "ascii (RefreshJTI p)" by (rule ref_minted)
  have uc: "au_users ref_uc_stuck = au_users ref_uc" "au_jwt ref_uc_stuck = au_jwt ref_uc"
    "cache_Get (au_redis ref_uc_stuck) = cache_Get (au_redis ref_uc)"
    "\<And>k s. snd (cache_Del (au_redis ref_uc_stuck) k s) = s"
    by (simp_all add: fun_eq_iff ref_uc_stuck_def redisCache_defs)
  have mint: "mint_session ref_env ref_uc_stuck = mint_session ref_env ref_uc"
    by (rule mint_same) (simp_all add: fun_eq_iff ref_uc_stuck_def redisCache_defs)
  obtain u1 e1 where "users_GetByEmail ref_env ref_users_uc ''ann@x.io'' (w_users (ref_world0 True [])) e = (Inr (ref_user True), u1, e1)"
    "rw_now e1 = rw_now e" using ref_lookup by blast
  then obtain x w1 s where x: "run (refresh_known ref_env ref_uc_stuck c) (ref_session p e) = (Inr x, w1)"
    and s: "w_redis w1 = s" "\<forall>k. rr_keys (w_redis (ref_session p e)) k \<noteq> None \<longrightarrow> rr_keys s k \<noteq> None"
    using ref_known [OF uc(1) mint _ c(2), of "ref_session p e" u1 e1] e by (auto simp: uc(4))
  have "Refresh ref_env ref_uc_stuck (RefreshToken p) (ref_session p e) = (Inr x, w1)"
    using Refresh_checked [OF ref_checks [OF parse c(1,3) uc(2,3)]] x by simp
  with gen s show ?thesis by force
qed

end
